(* ===== verification/Prelude.thy ===== *)
theory Prelude
  imports Main "HOL-Library.Word"
begin

text \<open>
  What every component of the model shares.

  \<^item> Errors: a C++ exception, a failed assertion or undefined behaviour is a value of
    \<open>cpp_error\<close>; a fallible function returns a value of \<open>'a res\<close>, which is
    \<open>cpp_error + 'a\<close>. \<open>bind\<close> is sequencing that stops at the first error.
  \<^item> Strings: a \<open>std::string\<close> is a \<open>string\<close>; the member functions of it the
    code uses (\<open>find\<close>, \<open>find_first_of\<close>, \<open>substr\<close>, \<open>size\<close>) are modelled here
    with \<open>npos\<close> and the wrap-around of \<open>size_t\<close> written out.
  \<^item> Numbers: \<open>std::to_string\<close> and \<open>std::stoi\<close>, with both of the exceptions the
    latter throws.
  \<^item> The shared hints: the collections \<open>kiq_simps\<close> (rewriting) and
    \<open>res_elims\<close> (inversion of a successful \<open>bind\<close>).
  \<^item> \<open>invariant_system\<close>: the contract of a state machine with an invariant, which each
    component that keeps state interprets on its own operations.
  \<^item> \<open>wire_codec\<close>: the contract of an encoder and its decoder; \<open>fifo_queue\<close>: that of a queue.
\<close>

named_theorems kiq_simps
named_theorems res_elims

section \<open>Errors as values\<close>

datatype cpp_error =
    OutOfRange            \<comment> \<open>\<open>std::out_of_range\<close>: \<open>at\<close>, \<open>substr\<close>, \<open>stoi\<close>\<close>
  | InvalidArgument       \<comment> \<open>\<open>std::invalid_argument\<close>\<close>
  | RuntimeError string   \<comment> \<open>\<open>std::runtime_error\<close>, \<open>kiq_error\<close>\<close>
  | AssertFailed          \<comment> \<open>a failed assertion (\<open>RAPIDJSON_ASSERT\<close>, \<open>assert\<close>)\<close>
  | Undefined             \<comment> \<open>undefined behaviour: \<open>[]\<close> past the end, a dangling pointer\<close>
  | SqlError              \<comment> \<open>\<open>pqxx::sql_error\<close>\<close>
  | Diverges              \<comment> \<open>a loop that never ends\<close>

type_synonym 'a res = "cpp_error + 'a"

definition bind :: "'a res \<Rightarrow> ('a \<Rightarrow> 'b res) \<Rightarrow> 'b res" where
  "bind r f = (case r of Inl e \<Rightarrow> Inl e | Inr a \<Rightarrow> f a)"

lemma bind_Inr [simp]: "bind (Inr a) f = f a"
  by (simp add: bind_def)

lemma bind_Inl [simp]: "bind (Inl e) f = Inl e"
  by (simp add: bind_def)

lemma bind_eq_Inr [kiq_simps]: "bind r f = Inr b \<longleftrightarrow> (\<exists>a. r = Inr a \<and> f a = Inr b)"
  by (cases r) (auto simp: bind_def)

lemma bind_InrE [res_elims]:
  assumes "bind r f = Inr b"
  obtains a where "r = Inr a" and "f a = Inr b"
  using assms by (auto simp: bind_eq_Inr)

lemma bind_assoc: "bind (bind r f) g = bind r (\<lambda>a. bind (f a) g)"
  by (cases r) simp_all

fun mapM :: "('a \<Rightarrow> 'b res) \<Rightarrow> 'a list \<Rightarrow> 'b list res" where
  "mapM f [] = Inr []"
| "mapM f (x # xs) = bind (f x) (\<lambda>y. bind (mapM f xs) (\<lambda>ys. Inr (y # ys)))"

lemma mapM_Inr: "(\<And>x. x \<in> set xs \<Longrightarrow> f x = Inr (g x)) \<Longrightarrow> mapM f xs = Inr (map g xs)"
  by (induction xs) simp_all

lemma mapM_length: "mapM f xs = Inr ys \<Longrightarrow> length ys = length xs"
  by (induction xs arbitrary: ys) (auto elim!: res_elims)

text \<open>\<open>v.at(i)\<close> throws past the end; \<open>v[i]\<close>, \<open>front\<close> and \<open>back\<close> are undefined there.\<close>

definition vec_at :: "'a list \<Rightarrow> nat \<Rightarrow> 'a res" where
  "vec_at xs i = (if i < length xs then Inr (xs ! i) else Inl OutOfRange)"

definition vec_nth :: "'a list \<Rightarrow> nat \<Rightarrow> 'a res" where
  "vec_nth xs i = (if i < length xs then Inr (xs ! i) else Inl Undefined)"

definition vec_front :: "'a list \<Rightarrow> 'a res" where
  "vec_front xs = (case xs of [] \<Rightarrow> Inl Undefined | x # _ \<Rightarrow> Inr x)"

definition map_at :: "('k \<rightharpoonup> 'v) \<Rightarrow> 'k \<Rightarrow> 'v res" where
  "map_at m k = (case m k of None \<Rightarrow> Inl OutOfRange | Some v \<Rightarrow> Inr v)"

lemma vec_at_Inr [simp]: "vec_at xs i = Inr x \<longleftrightarrow> i < length xs \<and> xs ! i = x"
  by (simp add: vec_at_def)

lemma vec_nth_Inr [simp]: "vec_nth xs i = Inr x \<longleftrightarrow> i < length xs \<and> xs ! i = x"
  by (simp add: vec_nth_def)

lemma vec_at_less [simp]: "i < length xs \<Longrightarrow> vec_at xs i = Inr (xs ! i)"
  by simp

lemma vec_nth_less [simp]: "i < length xs \<Longrightarrow> vec_nth xs i = Inr (xs ! i)"
  by simp

lemma vec_at_ge [simp]: "length xs \<le> i \<Longrightarrow> vec_at xs i = Inl OutOfRange"
  by (simp add: vec_at_def)

lemma vec_nth_ge [simp]: "length xs \<le> i \<Longrightarrow> vec_nth xs i = Inl Undefined"
  by (simp add: vec_nth_def)

lemma vec_front_Cons [simp]: "vec_front (x # xs) = Inr x"
  by (simp add: vec_front_def)

lemma vec_front_Nil [simp]: "vec_front [] = Inl Undefined"
  by (simp add: vec_front_def)

lemma map_at_Inr [simp]: "map_at m k = Inr v \<longleftrightarrow> m k = Some v"
  by (simp add: map_at_def split: option.splits)

lemma map_at_Some [simp]: "m k = Some v \<Longrightarrow> map_at m k = Inr v"
  by simp

section \<open>Operations that change a state and may throw\<close>

text \<open>
  An operation of a component takes the state and gives a result or an error, and the state at
  that point: what was done before an exception stays done.
\<close>

type_synonym ('s, 'a) act = "'s \<Rightarrow> 'a res \<times> 's"

definition ret :: "'a \<Rightarrow> ('s, 'a) act" where
  "ret x s = (Inr x, s)"

definition raise :: "cpp_error \<Rightarrow> ('s, 'a) act" where
  "raise e s = (Inl e, s)"

definition of_res :: "'a res \<Rightarrow> ('s, 'a) act" where
  "of_res r s = (r, s)"

definition seq :: "('s, 'a) act \<Rightarrow> ('a \<Rightarrow> ('s, 'b) act) \<Rightarrow> ('s, 'b) act" where
  "seq m f s = (case m s of (Inl e, s') \<Rightarrow> (Inl e, s') | (Inr a, s') \<Rightarrow> f a s')"

definition modify :: "('s \<Rightarrow> 's) \<Rightarrow> ('s, unit) act" where
  "modify f s = (Inr (), f s)"

definition handle :: "('s, 'a) act \<Rightarrow> (cpp_error \<Rightarrow> ('s, 'a) act) \<Rightarrow> ('s, 'a) act" where
  "handle m h s = (case m s of (Inl e, s') \<Rightarrow> h e s' | (Inr a, s') \<Rightarrow> (Inr a, s'))"

fun each :: "('a \<Rightarrow> ('s, unit) act) \<Rightarrow> 'a list \<Rightarrow> ('s, unit) act" where
  "each f [] = ret ()"
| "each f (x # xs) = seq (f x) (\<lambda>_. each f xs)"

fun collect :: "('a \<Rightarrow> ('s, 'b) act) \<Rightarrow> 'a list \<Rightarrow> ('s, 'b list) act" where
  "collect f [] = ret []"
| "collect f (x # xs) = seq (f x) (\<lambda>y. seq (collect f xs) (\<lambda>ys. ret (y # ys)))"

lemma act_simps [simp]:
  "ret x s = (Inr x, s)"
  "raise e s = (Inl e, s)"
  "of_res r s = (r, s)"
  "modify f s = (Inr (), f s)"
  by (simp_all add: ret_def raise_def of_res_def modify_def)

lemma seq_Inr [simp]: "m s = (Inr a, s') \<Longrightarrow> seq m f s = f a s'"
  by (simp add: seq_def)

lemma seq_Inl [simp]: "m s = (Inl e, s') \<Longrightarrow> seq m f s = (Inl e, s')"
  by (simp add: seq_def)

lemma handle_Inr [simp]: "m s = (Inr a, s') \<Longrightarrow> handle m h s = (Inr a, s')"
  by (simp add: handle_def)

lemma handle_Inl [simp]: "m s = (Inl e, s') \<Longrightarrow> handle m h s = h e s'"
  by (simp add: handle_def)

text \<open>\<open>catch (const std::exception&)\<close>: what is no exception goes on.\<close>

definition is_exception :: "cpp_error \<Rightarrow> bool" where
  "is_exception e \<longleftrightarrow> e \<notin> {AssertFailed, Undefined, Diverges}"

definition catch_all :: "('s, 'a) act \<Rightarrow> ('s, 'a) act \<Rightarrow> ('s, 'a) act" where
  "catch_all m h = handle m (\<lambda>e. if is_exception e then h else raise e)"

lemma catch_all_simps [simp]:
  "m s = (Inr a, s') \<Longrightarrow> catch_all m h s = (Inr a, s')"
  "m s = (Inl e, s') \<Longrightarrow> is_exception e \<Longrightarrow> catch_all m h s = h s'"
  "m s = (Inl e, s') \<Longrightarrow> \<not> is_exception e \<Longrightarrow> catch_all m h s = (Inl e, s')"
  by (simp_all add: catch_all_def)

text \<open>What an operation keeps of the state, whether it returns or throws.\<close>

definition keeps :: "('s \<Rightarrow> 's \<Rightarrow> bool) \<Rightarrow> ('s, 'a) act \<Rightarrow> bool" where
  "keeps R m \<longleftrightarrow> (\<forall>s. R s (snd (m s)))"

lemma keepsD: "keeps R m \<Longrightarrow> m s = (r, s') \<Longrightarrow> R s s'"
  unfolding keeps_def by (metis snd_conv)

lemma keeps_pure [intro, simp]:
  "reflp R \<Longrightarrow> keeps R (ret x)" "reflp R \<Longrightarrow> keeps R (raise e)" "reflp R \<Longrightarrow> keeps R (of_res r)"
  by (simp_all add: keeps_def reflpD)

lemma keeps_mono: "keeps R m \<Longrightarrow> (\<And>s s'. R s s' \<Longrightarrow> R' s s') \<Longrightarrow> keeps R' m"
  by (simp add: keeps_def)

lemma keeps_modify: "(\<And>s. R s (f s)) \<Longrightarrow> keeps R (modify f)"
  by (simp add: keeps_def)

lemma keeps_seq [intro]:
  assumes "transp R" and "keeps R m" and "\<And>a. keeps R (f a)"
  shows "keeps R (seq m f)"
  unfolding keeps_def
proof
  fix s
  obtain r s' where m: "m s = (r, s')" by force
  then have "R s s'" using assms(2) by (rule keepsD [rotated])
  then show "R s (snd (seq m f s))"
    using m assms(1,3) by (cases r) (auto simp: keeps_def elim: transpD)
qed

lemma keeps_handle [intro]:
  assumes "transp R" and "keeps R m" and "\<And>a. keeps R (h a)"
  shows "keeps R (handle m h)"
  unfolding keeps_def
proof
  fix s
  obtain r s' where m: "m s = (r, s')" by force
  then have "R s s'" using assms(2) by (rule keepsD [rotated])
  then show "R s (snd (handle m h s))"
    using m assms(1,3) by (cases r) (auto simp: keeps_def elim: transpD)
qed

lemma keeps_catch_all [intro]: "transp R \<Longrightarrow> reflp R \<Longrightarrow> keeps R m \<Longrightarrow> keeps R h \<Longrightarrow> keeps R (catch_all m h)"
  by (auto simp: catch_all_def intro!: keeps_handle)

lemma keeps_each [intro]:
  "reflp R \<Longrightarrow> transp R \<Longrightarrow> (\<And>x. x \<in> set xs \<Longrightarrow> keeps R (f x)) \<Longrightarrow> keeps R (each f xs)"
  by (induction xs) (auto simp: keeps_seq)

lemma keeps_collect [intro]:
  "reflp R \<Longrightarrow> transp R \<Longrightarrow> (\<And>x. x \<in> set xs \<Longrightarrow> keeps R (f x)) \<Longrightarrow> keeps R (collect f xs)"
  by (induction xs) (auto intro!: keeps_seq)

lemma keeps_if [intro]: "(b \<Longrightarrow> keeps R m) \<Longrightarrow> (\<not> b \<Longrightarrow> keeps R m') \<Longrightarrow> keeps R (if b then m else m')"
  by simp

text \<open>What holds of every value an operation returns.\<close>

definition yields :: "('a \<Rightarrow> bool) \<Rightarrow> ('s, 'a) act \<Rightarrow> bool" where
  "yields P m \<longleftrightarrow> (\<forall>s a s'. m s = (Inr a, s') \<longrightarrow> P a)"

lemma yields_ret [simp]: "yields P (ret a) \<longleftrightarrow> P a"
  by (simp add: yields_def)

lemma yields_seq: "(\<And>a. yields P (f a)) \<Longrightarrow> yields P (seq m f)"
  by (auto simp: yields_def seq_def split: prod.splits sum.splits)

lemma yields_collect: "(\<And>x. yields P (f x)) \<Longrightarrow> yields (\<lambda>ys. \<forall>y \<in> set ys. P y) (collect f xs)"
proof (induction xs)
  case (Cons x xs)
  then show ?case
    by (fastforce simp: yields_def seq_def split: prod.splits sum.splits)
qed simp

lemma seq_cong_yields:
  assumes "yields P m" and "\<And>a. P a \<Longrightarrow> f a = g a"
  shows "seq m f = seq m g"
proof
  fix s
  obtain r s' where m: "m s = (r, s')" by force
  show "seq m f s = seq m g s"
  proof (cases r)
    case (Inr a)
    with m assms(1) have "P a" unfolding yields_def by blast
    then have "f a = g a" by (rule assms(2))
    with m Inr show ?thesis by simp
  qed (use m in simp)
qed

lemma seq_cong: "(\<And>a. f a = g a) \<Longrightarrow> seq m f = seq m g"
  by (rule seq_cong_yields [of "\<lambda>_. True"]) (simp_all add: yields_def)

lemma each_cong: "(\<And>x. x \<in> set xs \<Longrightarrow> f x = g x) \<Longrightarrow> each f xs = each g xs"
  by (induction xs) simp_all

lemma each_append: "each f (xs @ ys) = seq (each f xs) (\<lambda>_. each f ys)"
  by (induction xs) (auto simp: seq_def fun_eq_iff split: prod.splits sum.splits)

section \<open>\<open>size_t\<close> positions and \<open>std::string\<close>\<close>

definition npos :: nat where
  "npos = 2 ^ 64 - 1"

definition sz_sub :: "nat \<Rightarrow> nat \<Rightarrow> nat" where
  "sz_sub a b = (if b \<le> a then a - b else 2 ^ 64 + a - b)"

definition pos_of :: "nat option \<Rightarrow> nat" where
  "pos_of p = (case p of None \<Rightarrow> npos | Some i \<Rightarrow> i)"

lemma sz_sub_le [simp]: "b \<le> a \<Longrightarrow> sz_sub a b = a - b"
  by (simp add: sz_sub_def)

lemma pos_of_simps [simp]: "pos_of (Some i) = i" "pos_of None = npos"
  by (simp_all add: pos_of_def)

text \<open>\<open>s.find_first_of(c)\<close> and \<open>s.find_last_of(c)\<close> for one character.\<close>

fun find_char :: "char \<Rightarrow> string \<Rightarrow> nat option" where
  "find_char c [] = None"
| "find_char c (x # xs) = (if x = c then Some 0 else map_option Suc (find_char c xs))"

fun find_last_char :: "char \<Rightarrow> string \<Rightarrow> nat option" where
  "find_last_char c [] = None"
| "find_last_char c (x # xs) =
     (case find_last_char c xs of Some i \<Rightarrow> Some (Suc i)
      | None \<Rightarrow> if x = c then Some 0 else None)"

fun starts_with :: "string \<Rightarrow> string \<Rightarrow> bool" where
  "starts_with [] s = True"
| "starts_with (p # ps) [] = False"
| "starts_with (p # ps) (x # xs) = (p = x \<and> starts_with ps xs)"

text \<open>\<open>s.find(p)\<close>: the first position where \<open>p\<close> occurs.\<close>

fun find_str :: "string \<Rightarrow> string \<Rightarrow> nat option" where
  "find_str p [] = (if p = [] then Some 0 else None)"
| "find_str p (x # xs) =
     (if starts_with p (x # xs) then Some 0 else map_option Suc (find_str p xs))"

definition str_contains :: "string \<Rightarrow> string \<Rightarrow> bool" where
  "str_contains s p \<longleftrightarrow> find_str p s \<noteq> None"

text \<open>\<open>s.substr(pos, n)\<close> throws where \<open>pos > size\<close>; \<open>s.substr(pos)\<close> takes the rest.\<close>

definition substr :: "string \<Rightarrow> nat \<Rightarrow> nat \<Rightarrow> string res" where
  "substr s p n = (if p \<le> length s then Inr (take n (drop p s)) else Inl OutOfRange)"

definition substr_from :: "string \<Rightarrow> nat \<Rightarrow> string res" where
  "substr_from s p = (if p \<le> length s then Inr (drop p s) else Inl OutOfRange)"

lemma substr_le [simp]: "p \<le> length s \<Longrightarrow> substr s p n = Inr (take n (drop p s))"
  by (simp add: substr_def)

lemma substr_from_le [simp]: "p \<le> length s \<Longrightarrow> substr_from s p = Inr (drop p s)"
  by (simp add: substr_from_def)

lemma find_char_None: "find_char c s = None \<longleftrightarrow> c \<notin> set s"
  by (induction s) auto

lemma find_char_notin [simp]: "c \<notin> set s \<Longrightarrow> find_char c s = None"
  by (simp add: find_char_None)

lemma find_char_append [simp]:
  "c \<notin> set s \<Longrightarrow> find_char c (s @ t) = map_option (\<lambda>i. length s + i) (find_char c t)"
  by (induction s) (auto simp: map_option_case split: option.splits)

lemma find_char_append_in:
  "c \<in> set s \<Longrightarrow> find_char c (s @ t) = find_char c s"
  by (induction s) auto

lemma find_char_less: "find_char c s = Some i \<Longrightarrow> i < length s \<and> s ! i = c"
  by (induction s arbitrary: i) (auto split: if_splits)

lemma find_char_take: "find_char c s = Some i \<Longrightarrow> c \<notin> set (take i s)"
  by (induction s arbitrary: i) (auto split: if_splits)

lemma starts_with_append [simp]: "starts_with p (p @ s)"
  by (induction p) auto

lemma starts_with_iff: "starts_with p s \<longleftrightarrow> (\<exists>r. s = p @ r)"
  by (induction p s rule: starts_with.induct) auto

lemma find_str_start [simp]: "starts_with p s \<Longrightarrow> find_str p s = Some 0"
  by (cases s) (auto elim: starts_with.elims)

lemma find_str_SomeD: "find_str p s = Some i \<Longrightarrow> i \<le> length s \<and> starts_with p (drop i s)"
  by (induction s arbitrary: i) (auto split: if_splits)

text \<open>
  Where the first character of the pattern does not occur in a prefix, the search skips it.
\<close>

lemma find_str_skip:
  "p \<notin> set s \<Longrightarrow> find_str (p # ps) (s @ t) = map_option (\<lambda>i. length s + i) (find_str (p # ps) t)"
  by (induction s) (auto simp: map_option_case split: option.splits)

section \<open>Numbers and their decimal text\<close>

definition digit_char :: "nat \<Rightarrow> char" where
  "digit_char d = char_of (48 + d)"

fun nat_digits :: "nat \<Rightarrow> string" where
  "nat_digits n = (if n < 10 then [digit_char n] else nat_digits (n div 10) @ [digit_char (n mod 10)])"

declare nat_digits.simps [simp del]

definition nat_to_string :: "nat \<Rightarrow> string" where
  "nat_to_string n = nat_digits n"

definition int_to_string :: "int \<Rightarrow> string" where
  "int_to_string i = (if i < 0 then CHR ''-'' # nat_digits (nat (- i)) else nat_digits (nat i))"

definition bool_to_string :: "bool \<Rightarrow> string" where
  "bool_to_string b = (if b then ''1'' else ''0'')"

definition is_digit :: "char \<Rightarrow> bool" where
  "is_digit c \<longleftrightarrow> 48 \<le> (of_char c :: nat) \<and> (of_char c :: nat) \<le> 57"

definition digit_val :: "char \<Rightarrow> nat" where
  "digit_val c = of_char c - 48"

definition is_space :: "char \<Rightarrow> bool" where
  "is_space c \<longleftrightarrow> (let n = (of_char c :: nat) in n = 32 \<or> (9 \<le> n \<and> n \<le> 13))"

fun digits_val :: "nat \<Rightarrow> string \<Rightarrow> nat" where
  "digits_val a [] = a"
| "digits_val a (c # cs) = digits_val (10 * a + digit_val c) cs"

definition int32_min :: int where "int32_min = - (2 ^ 31)"
definition int32_max :: int where "int32_max = 2 ^ 31 - 1"

text \<open>
  \<open>std::stoi\<close>: leading white space, an optional sign, then the longest run of digits;
  what follows is ignored. No digit is \<open>std::invalid_argument\<close>; a value that is no
  \<open>int\<close> is \<open>std::out_of_range\<close>.
\<close>

definition stoi_unsigned :: "bool \<Rightarrow> string \<Rightarrow> int res" where
  "stoi_unsigned neg s =
     (let ds = takeWhile is_digit s; v = int (digits_val 0 ds); i = (if neg then - v else v)
      in if ds = [] then Inl InvalidArgument
         else if int32_min \<le> i \<and> i \<le> int32_max then Inr i else Inl OutOfRange)"

definition stoi :: "string \<Rightarrow> int res" where
  "stoi s =
     (case dropWhile is_space s of
        [] \<Rightarrow> Inl InvalidArgument
      | c # cs \<Rightarrow>
          if c = CHR ''-'' then stoi_unsigned True cs
          else if c = CHR ''+'' then stoi_unsigned False cs
          else stoi_unsigned False (c # cs))"

lemma of_char_digit_char [simp]: "d < 10 \<Longrightarrow> (of_char (digit_char d) :: nat) = 48 + d"
  by (simp add: digit_char_def)

lemma is_digit_digit_char [simp]: "d < 10 \<Longrightarrow> is_digit (digit_char d)"
  by (simp add: is_digit_def)

lemma digit_val_digit_char [simp]: "d < 10 \<Longrightarrow> digit_val (digit_char d) = d"
  by (simp add: digit_val_def)

lemma nat_digits_nonempty [simp]: "nat_digits n \<noteq> []"
  by (subst nat_digits.simps) simp

lemma nat_digits_are_digits: "c \<in> set (nat_digits n) \<Longrightarrow> is_digit c"
proof (induction n rule: nat_digits.induct)
  case (1 n)
  then show ?case
    by (subst (asm) nat_digits.simps) (auto split: if_splits)
qed

lemma digits_val_append: "digits_val a (s @ t) = digits_val (digits_val a s) t"
  by (induction s arbitrary: a) simp_all

lemma digits_val_nat_digits [simp]: "digits_val 0 (nat_digits n) = n"
proof (induction n rule: nat_digits.induct)
  case (1 n)
  show ?case
  proof (cases "n < 10")
    case True
    then show ?thesis by (subst nat_digits.simps) simp
  next
    case False
    with 1 have "digits_val 0 (nat_digits (n div 10)) = n div 10" by simp
    with False show ?thesis
      by (subst nat_digits.simps) (simp add: digits_val_append)
  qed
qed

lemma nat_digits_inj: "nat_digits m = nat_digits n \<longleftrightarrow> m = n"
  by (metis digits_val_nat_digits)

lemma takeWhile_nat_digits [simp]: "takeWhile is_digit (nat_digits n) = nat_digits n"
  by (simp add: takeWhile_eq_all_conv nat_digits_are_digits)

lemma is_digit_not_space: "is_digit c \<Longrightarrow> \<not> is_space c"
  by (auto simp: is_digit_def is_space_def Let_def)

lemma is_digit_not_sign: "is_digit c \<Longrightarrow> c \<noteq> CHR ''-'' \<and> c \<noteq> CHR ''+''"
  by (auto simp: is_digit_def)

lemma stoi_unsigned_nat_digits:
  "stoi_unsigned neg (nat_digits n) =
     (let i = (if neg then - int n else int n) in
      if int32_min \<le> i \<and> i \<le> int32_max then Inr i else Inl OutOfRange)"
  by (simp add: stoi_unsigned_def Let_def)

lemma stoi_nat_digits: "stoi (nat_digits n) = stoi_unsigned False (nat_digits n)"
proof -
  obtain c cs where c: "nat_digits n = c # cs" by (cases "nat_digits n") auto
  then have "is_digit c" using nat_digits_are_digits [of c n] by simp
  then show ?thesis
    using c is_digit_not_space is_digit_not_sign by (auto simp: stoi_def)
qed

lemma stoi_int_to_string [simp]:
  assumes "int32_min \<le> i" and "i \<le> int32_max"
  shows "stoi (int_to_string i) = Inr i"
proof (cases "i < 0")
  case True
  have "\<not> is_space (CHR ''-'')" by (simp add: is_space_def)
  with True assms show ?thesis
    by (simp add: int_to_string_def stoi_def stoi_unsigned_nat_digits Let_def)
next
  case False
  with assms show ?thesis
    by (simp add: int_to_string_def stoi_nat_digits stoi_unsigned_nat_digits Let_def)
qed

lemma stoi_nat_to_string [simp]: "int n \<le> int32_max \<Longrightarrow> stoi (nat_to_string n) = Inr (int n)"
  by (simp add: nat_to_string_def stoi_nat_digits stoi_unsigned_nat_digits Let_def int32_min_def)

lemma stoi_range: "stoi s = Inr i \<Longrightarrow> int32_min \<le> i \<and> i \<le> int32_max"
  by (auto simp: stoi_def stoi_unsigned_def Let_def split: list.splits if_splits)

lemma int_to_string_nonempty [simp]: "int_to_string i \<noteq> []"
  by (simp add: int_to_string_def)

lemma nat_to_string_nonempty [simp]: "nat_to_string i \<noteq> []"
  by (simp add: nat_to_string_def)

lemma nat_to_string_chars: "c \<in> set (nat_to_string n) \<Longrightarrow> is_digit c"
  by (simp add: nat_to_string_def nat_digits_are_digits)

lemma int_to_string_chars: "c \<in> set (int_to_string i) \<Longrightarrow> is_digit c \<or> c = CHR ''-''"
  by (auto simp: int_to_string_def nat_digits_are_digits split: if_splits)

section \<open>Contracts shared by the components\<close>

text \<open>
  A state machine with an invariant: what holds at the start and is kept by every step holds
  in every state a run of steps can reach.
\<close>

locale invariant_system =
  fixes step :: "'op \<Rightarrow> 's \<Rightarrow> 's"
    and good :: "'s \<Rightarrow> bool"
  assumes good_step: "good s \<Longrightarrow> good (step a s)"
begin

definition run :: "'op list \<Rightarrow> 's \<Rightarrow> 's" where
  "run as s = fold step as s"

lemma run_Nil [simp]: "run [] s = s"
  by (simp add: run_def)

lemma run_Cons [simp]: "run (a # as) s = run as (step a s)"
  by (simp add: run_def)

lemma good_run: "good s \<Longrightarrow> good (run as s)"
  by (induction as arbitrary: s) (simp_all add: good_step)

lemma good_fold: "good s \<Longrightarrow> good (fold step as s)"
  using good_run [of s as] by (simp add: run_def)

end

text \<open>An encoder and the decoder of its output, on the values \<open>ok\<close> describes.\<close>

locale wire_codec =
  fixes enc :: "'a \<Rightarrow> 'b"
    and dec :: "'b \<Rightarrow> 'a res"
    and ok :: "'a \<Rightarrow> bool"
  assumes dec_enc: "ok x \<Longrightarrow> dec (enc x) = Inr x"
begin

lemma enc_inj: "ok x \<Longrightarrow> ok y \<Longrightarrow> enc x = enc y \<Longrightarrow> x = y"
  by (metis dec_enc sum.inject(2))

lemma inj_on_enc: "inj_on enc (Collect ok)"
  by (rule inj_onI) (auto intro: enc_inj)

lemma mapM_dec_enc: "(\<And>x. x \<in> set xs \<Longrightarrow> ok x) \<Longrightarrow> mapM dec (map enc xs) = Inr xs"
  by (induction xs) (simp_all add: dec_enc)

end

text \<open>A queue of a state: what is put in at the end is taken out at the front.\<close>

locale fifo_queue =
  fixes push :: "'a \<Rightarrow> ('s, unit) act"
    and pop :: "('s, 'a) act"
    and items :: "'s \<Rightarrow> 'a list"
  assumes push_end: "fst (push a s) = Inr ()" "items (snd (push a s)) = items s @ [a]"
    and pop_front: "items s = a # as \<Longrightarrow> fst (pop s) = Inr a" "items s = a # as \<Longrightarrow> items (snd (pop s)) = as"
begin

lemma push_all: "\<exists>s'. each push as s = (Inr (), s') \<and> items s' = items s @ as"
proof (induction as arbitrary: s)
  case (Cons a as)
  obtain s1 where s1: "push a s = (Inr (), s1)" using push_end(1) [of a s] by (metis prod.collapse)
  then show ?case using Cons.IH [of s1] push_end(2) [of a s] by simp
qed simp

lemma pop_all: "items s = as @ bs \<Longrightarrow> \<exists>s'. collect (\<lambda>_. pop) as s = (Inr as, s') \<and> items s' = bs"
proof (induction as arbitrary: s)
  case (Cons a as)
  obtain s1 where s1: "pop s = (Inr a, s1)" using pop_front(1) [of s a "as @ bs"] Cons.prems
    by (metis append_Cons prod.collapse)
  then have "items s1 = as @ bs" using pop_front(2) [of s a "as @ bs"] Cons.prems by simp
  from Cons.IH [OF this] obtain s' where s': "collect (\<lambda>_. pop) as s1 = (Inr as, s')" "items s' = bs" by blast
  then show ?case using s1 by simp
qed simp

lemma drain:
  assumes "items s = []"
  shows "\<exists>s'. seq (each push as) (\<lambda>_. collect (\<lambda>_. pop) as) s = (Inr as, s') \<and> items s' = []"
proof -
  obtain s1 where s1: "each push as s = (Inr (), s1)" "items s1 = as @ []"
    using push_all [of as s] assms by auto
  with pop_all [OF s1(2)] show ?thesis by auto
qed

end

end
