(* ===== verification/StringTools.thy ===== *)
theory StringTools
  imports Prelude
begin

text \<open>
  The string helpers of \<open>include/common/util.cpp\<close> (namespace \<open>StringUtils\<close>, the bit helpers,
  the operation predicates and \<open>DataUtils\<close>), one definition per function, with the facts the
  other components rest on: splitting undoes joining, quoting is injective and leaves no lone
  quote, and each sanitiser removes exactly the characters it names.
\<close>

section \<open>Splitting and joining\<close>

text \<open>
  \<open>std::getline\<close> in a loop: a field ends at each delimiter, and what follows the last
  delimiter is a field only if it is not empty (the stream is at its end otherwise).
\<close>

fun getlines :: "char \<Rightarrow> string \<Rightarrow> string \<Rightarrow> string list" where
  "getlines d acc [] = (if acc = [] then [] else [rev acc])"
| "getlines d acc (c # cs) =
     (if c = d then rev acc # getlines d [] cs else getlines d (c # acc) cs)"

definition Split :: "string \<Rightarrow> char \<Rightarrow> string list" where
  "Split s d = (if s = [] then [] else getlines d [] s)"

definition Tokenize :: "string list \<Rightarrow> char \<Rightarrow> string" where
  "Tokenize v d = (if v = [] then [] else butlast (concat (map (\<lambda>a. a @ [d]) v)))"

lemma Split_Nil [simp]: "Split [] d = []"
  by (simp add: Split_def)

lemma getlines_word:
  "d \<notin> set w \<Longrightarrow> getlines d acc (w @ d # s) = (rev acc @ w) # getlines d [] s"
  by (induction w arbitrary: acc) auto

lemma getlines_last:
  "d \<notin> set w \<Longrightarrow> w \<noteq> [] \<Longrightarrow> getlines d acc w = [rev acc @ w]"
proof (induction w arbitrary: acc)
  case Nil
  then show ?case by simp
next
  case (Cons c cs)
  then show ?case by (cases cs) auto
qed

lemma concat_snoc_nonempty [simp]: "concat (map (\<lambda>a. a @ [d]) v) = [] \<longleftrightarrow> v = []"
  by (cases v) simp_all

lemma Tokenize_simps [simp]:
  "Tokenize [] d = []"
  "Tokenize [w] d = w"
  "v \<noteq> [] \<Longrightarrow> Tokenize (w # v) d = w @ d # Tokenize v d"
  by (simp_all add: Tokenize_def butlast_append)

lemma getlines_Tokenize:
  assumes "\<forall>w \<in> set v. d \<notin> set w" and "v \<noteq> []" and "last v \<noteq> []"
  shows "getlines d [] (Tokenize v d) = v"
  using assms
proof (induction v)
  case Nil
  then show ?case by simp
next
  case (Cons w v)
  show ?case
  proof (cases "v = []")
    case True
    with Cons.prems show ?thesis by (simp add: getlines_last)
  next
    case False
    with Cons show ?thesis by (simp add: getlines_word)
  qed
qed

lemma Split_Tokenize:
  assumes "\<forall>w \<in> set v. d \<notin> set w" and "v \<noteq> []" and "last v \<noteq> []"
  shows "Split (Tokenize v d) d = v"
proof -
  have "Tokenize v d \<noteq> []"
    using assms(2,3) by (cases v; cases "tl v = []") auto
  then show ?thesis
    using getlines_Tokenize [OF assms] by (simp add: Split_def)
qed

lemma getlines_no_delim: "d \<notin> set acc \<Longrightarrow> w \<in> set (getlines d acc s) \<Longrightarrow> d \<notin> set w"
  by (induction d acc s rule: getlines.induct) (auto split: if_splits)

lemma Split_no_delim: "w \<in> set (Split s d) \<Longrightarrow> d \<notin> set w"
  by (auto simp: Split_def dest: getlines_no_delim [rotated] split: if_splits)

section \<open>Quoting and sanitising\<close>

abbreviation squote :: char where "squote \<equiv> CHR 0x27"
abbreviation dquote :: char where "dquote \<equiv> CHR 0x22"

definition SanitizeSingleQuotes :: "string \<Rightarrow> string" where
  "SanitizeSingleQuotes s =
     concat (map (\<lambda>c. if c = squote then ''&#39;'' else if c = dquote then ''&#34;'' else [c]) s)"

definition DoubleSingleQuotes :: "string \<Rightarrow> string" where
  "DoubleSingleQuotes s = concat (map (\<lambda>c. if c = squote then [squote, squote] else [c]) s)"

definition SanitizeJSON :: "string \<Rightarrow> string" where
  "SanitizeJSON s = concat (map (\<lambda>c. if c = dquote then [dquote] else [c]) s)"

definition SanitizeArg :: "string \<Rightarrow> string" where
  "SanitizeArg s = filter (\<lambda>c. c \<noteq> dquote) s"

definition is_alnum :: "char \<Rightarrow> bool" where
  "is_alnum c \<longleftrightarrow> (let n = (of_char c :: nat) in
     (48 \<le> n \<and> n \<le> 57) \<or> (65 \<le> n \<and> n \<le> 90) \<or> (97 \<le> n \<and> n \<le> 122))"

definition AlphaNumericOnly :: "string \<Rightarrow> string" where
  "AlphaNumericOnly s = filter is_alnum s"

definition RemoveTags :: "string \<Rightarrow> string" where
  "RemoveTags s = filter (\<lambda>c. \<not> (c = CHR ''#'' \<or> c = CHR ''@'')) s"

definition to_lower :: "char \<Rightarrow> char" where
  "to_lower c = (let n = (of_char c :: nat) in if 65 \<le> n \<and> n \<le> 90 then char_of (n + 32) else c)"

definition ToLower :: "string \<Rightarrow> string" where
  "ToLower s = map to_lower s"

definition StripSQuotes :: "string \<Rightarrow> string" where
  "StripSQuotes s = filter (\<lambda>c. c \<noteq> squote) s"

definition IsDigits :: "string \<Rightarrow> bool" where
  "IsDigits s = list_all is_digit s"

text \<open>\<open>1 << (n - 1)\<close> on a 32-bit \<open>int\<close>; a shift outside \<open>0..31\<close> is undefined.\<close>

definition HasNthBitSet :: "32 word \<Rightarrow> int \<Rightarrow> bool res" where
  "HasNthBitSet v n = (if 1 \<le> n \<and> n \<le> 32 then Inr (bit v (nat (n - 1))) else Inl Undefined)"

lemma DoubleSingleQuotes_simps [simp]:
  "DoubleSingleQuotes [] = []"
  "DoubleSingleQuotes (c # s) = (if c = squote then [squote, squote] else [c]) @ DoubleSingleQuotes s"
  by (simp_all add: DoubleSingleQuotes_def)

lemma DoubleSingleQuotes_append:
  "DoubleSingleQuotes (s @ t) = DoubleSingleQuotes s @ DoubleSingleQuotes t"
  by (simp add: DoubleSingleQuotes_def)

lemma DoubleSingleQuotes_id [simp]: "squote \<notin> set s \<Longrightarrow> DoubleSingleQuotes s = s"
  by (induction s) auto

lemma DoubleSingleQuotes_empty [simp]: "DoubleSingleQuotes s = [] \<longleftrightarrow> s = []"
  by (cases s) auto

lemma DoubleSingleQuotes_inj: "DoubleSingleQuotes s = DoubleSingleQuotes t \<longleftrightarrow> s = t"
proof (induction s arbitrary: t)
  case Nil
  then show ?case by (cases t) auto
next
  case (Cons c s)
  then show ?case by (cases t) auto
qed

lemma SanitizeJSON_id: "SanitizeJSON s = s"
  by (induction s) (auto simp: SanitizeJSON_def)

lemma filter_removes:
  "dquote \<notin> set (SanitizeArg s)" "squote \<notin> set (StripSQuotes s)"
  "CHR ''#'' \<notin> set (RemoveTags s)" "CHR ''@'' \<notin> set (RemoveTags s)"
  by (simp_all add: SanitizeArg_def StripSQuotes_def RemoveTags_def)

lemma SanitizeArg_id [simp]: "dquote \<notin> set s \<Longrightarrow> SanitizeArg s = s"
  by (auto simp: SanitizeArg_def filter_id_conv)

lemma SanitizeSingleQuotes_no_quotes:
  "squote \<notin> set (SanitizeSingleQuotes s) \<and> dquote \<notin> set (SanitizeSingleQuotes s)"
  by (induction s) (auto simp: SanitizeSingleQuotes_def)

section \<open>Operation names\<close>

definition IsExecuteOperation :: "string \<Rightarrow> bool" where "IsExecuteOperation s \<longleftrightarrow> s = ''Execute''"
definition IsScheduleOperation :: "string \<Rightarrow> bool" where "IsScheduleOperation s \<longleftrightarrow> s = ''Schedule''"
definition IsFileUploadOperation :: "string \<Rightarrow> bool" where "IsFileUploadOperation s \<longleftrightarrow> s = ''FileUpload''"
definition IsIPCOperation :: "string \<Rightarrow> bool" where "IsIPCOperation s \<longleftrightarrow> s = ''ipc''"
definition IsStartOperation :: "string \<Rightarrow> bool" where "IsStartOperation s \<longleftrightarrow> s = ''start''"
definition IsStopOperation :: "string \<Rightarrow> bool" where "IsStopOperation s \<longleftrightarrow> s = ''stop''"
definition IsAppOperation :: "string \<Rightarrow> bool" where "IsAppOperation s \<longleftrightarrow> s = ''AppRequest''"
definition IsPing :: "string \<Rightarrow> bool" where "IsPing s \<longleftrightarrow> s = ''253''"

lemmas op_names [kiq_simps] =
  IsExecuteOperation_def IsScheduleOperation_def IsFileUploadOperation_def IsIPCOperation_def
  IsStartOperation_def IsStopOperation_def IsAppOperation_def IsPing_def

section \<open>Vectors\<close>

text \<open>
  \<open>to_front\<close> names where the \<open>v\<close> goes: with it set, \<open>u\<close> is appended after \<open>v\<close>.
\<close>

definition VAbsorb :: "'a list \<Rightarrow> 'a \<Rightarrow> bool \<Rightarrow> 'a list" where
  "VAbsorb v u to_front = (if to_front then v @ [u] else u # v)"

definition vector_merge :: "'a list \<Rightarrow> 'a list \<Rightarrow> 'a list" where
  "vector_merge v1 v2 = v1 @ v2"

text \<open>The two members of \<open>DataUtils\<close> over a pack of strings, and one over a list.\<close>

definition NoEmptyArgs :: "string list \<Rightarrow> bool" where
  "NoEmptyArgs xs = list_all (\<lambda>a. a \<noteq> []) xs"

section \<open>Properties\<close>

text \<open>
  \<open>Split\<close> undoes \<open>Tokenize\<close>: arguments joined with a delimiter that none of them holds are
  read back as they were, provided that the last one is not empty.
\<close>

theorem split_undoes_tokenize:
  assumes "\<forall>w \<in> set v. d \<notin> set w" and "v \<noteq> []" and "last v \<noteq> []"
  shows "Split (Tokenize v d) d = v"
  using Split_Tokenize [OF assms] .

theorem split_undoes_tokenize_witness:
  "Split (Tokenize [''a'', '''', ''bc''] (CHR '':'')) (CHR '':'') = [''a'', '''', ''bc'']"
  by (rule split_undoes_tokenize) simp_all

end
