(* ===== verification/EnvFiles.thy ===== *)
theory EnvFiles
  imports StringTools
begin

text \<open>
  The file helpers of \<open>include/common/util.cpp\<close> (namespace \<open>FileUtils\<close>) and the argument
  parsing of \<open>executor/environment.hpp\<close>. The file system is a value: the working directory,
  the executable's directory, the directories that exist and the contents of each file, keyed
  by absolute path. An environment file is a list of lines \<open>KEY="value"\<close>, each closed by the
  unit separator \<open>0x1F\<close>.

  Shown: what is written by \<open>CreateEnvFile\<close> is read back by \<open>ReadEnvToken\<close>; what
  \<open>WriteEnvToken\<close> leaves behind; when the token loop of \<open>ExtractFlagTokens\<close> ends.
\<close>

abbreviation newline :: char where "newline \<equiv> CHR 0x0A"
abbreviation unit_sep :: char where "unit_sep \<equiv> CHR 0x1F"

section \<open>The file system\<close>

record fsys =
  fs_cwd :: string
  fs_exe :: string
  fs_dirs :: "string list"
  fs_files :: "string \<rightharpoonup> string"

definition resolve :: "fsys \<Rightarrow> string \<Rightarrow> string" where
  "resolve fs p = (if p \<noteq> [] \<and> hd p = CHR ''/'' then p else fs_cwd fs @ ''/'' @ p)"

definition parent_dir :: "string \<Rightarrow> string" where
  "parent_dir p = (case find_last_char (CHR ''/'') p of None \<Rightarrow> [] | Some i \<Rightarrow> take i p)"

definition is_dir :: "fsys \<Rightarrow> string \<Rightarrow> bool" where
  "is_dir fs p \<longleftrightarrow> p = [] \<or> p \<in> set (fs_dirs fs)"

text \<open>An \<open>ofstream\<close> that cannot be opened drops what is written to it.\<close>

definition write_file :: "fsys \<Rightarrow> string \<Rightarrow> string \<Rightarrow> fsys" where
  "write_file fs p c =
     (let a = resolve fs p in
      if is_dir fs (parent_dir a) \<and> \<not> is_dir fs a then fs\<lparr>fs_files := (fs_files fs)(a \<mapsto> c)\<rparr> else fs)"

definition read_file :: "fsys \<Rightarrow> string \<Rightarrow> string" where
  "read_file fs p = (case fs_files fs (resolve fs p) of None \<Rightarrow> [] | Some c \<Rightarrow> c)"

definition CreateDirectory :: "fsys \<Rightarrow> string \<Rightarrow> bool \<times> fsys" where
  "CreateDirectory fs d =
     (let a = resolve fs d in
      if is_dir fs a then (True, fs)
      else if is_dir fs (parent_dir a) \<and> fs_files fs a = None
      then (True, fs\<lparr>fs_dirs := a # fs_dirs fs\<rparr>)
      else (False, fs))"

definition CreateTaskDirectory :: "fsys \<Rightarrow> string \<Rightarrow> bool \<times> fsys" where
  "CreateTaskDirectory fs uid = CreateDirectory fs (''data/'' @ uid)"

text \<open>The overload for bytes appends one byte at a time; the ones for a string truncate.\<close>

definition SaveFile_bytes :: "fsys \<Rightarrow> string \<Rightarrow> string \<Rightarrow> fsys" where
  "SaveFile_bytes fs bytes p = write_file fs p (read_file fs p @ bytes)"

definition SaveFile :: "fsys \<Rightarrow> string \<Rightarrow> string \<Rightarrow> fsys" where
  "SaveFile fs s p = write_file fs p s"

definition ClearFile :: "fsys \<Rightarrow> string \<Rightarrow> fsys" where
  "ClearFile fs p = write_file fs p []"

definition SaveEnvFile :: "fsys \<Rightarrow> string \<Rightarrow> string \<Rightarrow> string \<times> fsys" where
  "SaveEnvFile fs s uid =
     (let rel_dir = ''data/'' @ uid;
          task_dir = fs_exe fs @ ''/'' @ rel_dir;
          fs1 = (if is_dir fs (resolve fs task_dir) then fs else snd (CreateDirectory fs task_dir))
      in (rel_dir @ ''/v.env'', write_file fs1 (task_dir @ ''/v.env'') s))"

definition ReadEnvFile :: "fsys \<Rightarrow> string \<Rightarrow> bool \<Rightarrow> string" where
  "ReadEnvFile fs p rel = read_file fs (if rel then fs_cwd fs @ ''/'' @ p else p)"

text \<open>\<open>return_s.back()\<close> of an empty file is undefined.\<close>

definition ReadFile :: "fsys \<Rightarrow> string \<Rightarrow> string res" where
  "ReadFile fs p =
     (let s = read_file fs p in
      if s = [] then Inl Undefined
      else if last s = newline then Inr (butlast s) else Inr s)"

section \<open>Tokens of an environment file\<close>

definition remove_double_quotes :: "string \<Rightarrow> string" where
  "remove_double_quotes s = filter (\<lambda>c. c \<noteq> dquote) s"

definition trim_outer :: "char \<Rightarrow> string \<Rightarrow> string" where
  "trim_outer q s =
     (let s1 = (if s \<noteq> [] \<and> hd s = q then tl s else s)
      in if s1 \<noteq> [] \<and> last s1 = q then butlast s1 else s1)"

definition trim_outer_whitespace :: "string \<Rightarrow> string" where
  "trim_outer_whitespace s = trim_outer (CHR '' '') s"

definition trim_outer_quotes :: "string \<Rightarrow> string" where
  "trim_outer_quotes s = trim_outer dquote s"

definition SanitizeToken :: "string \<Rightarrow> string" where
  "SanitizeToken s = (if s \<noteq> [] then trim_outer_whitespace (remove_double_quotes s) else s)"

definition env_line :: "string \<times> string \<Rightarrow> string" where
  "env_line kv = fst kv @ ''='' @ [dquote] @ snd kv @ [dquote] @ [unit_sep]"

text \<open>The pairs come in the order in which the hash map is iterated.\<close>

definition CreateEnvFile :: "(string \<times> string) list \<Rightarrow> string" where
  "CreateEnvFile kvs = ''#!/usr/bin/env bash'' @ [newline] @
     concat (map (\<lambda>kv. env_line kv @ [newline]) kvs)"

definition env_token :: "string \<Rightarrow> string \<Rightarrow> bool \<Rightarrow> string res" where
  "env_token env key is_json =
     bind (if env = [] then Inr []
           else (case find_str (newline # key) env of
                   None \<Rightarrow> Inr []
                 | Some start \<Rightarrow>
                     bind (substr_from env (start + length key + 2)) (\<lambda>sub_s.
                     substr sub_s 0 (sz_sub (pos_of (find_char unit_sep sub_s)) 1))))
       (\<lambda>value. Inr (if value \<noteq> []
                     then (if is_json then trim_outer_quotes value else SanitizeToken value)
                     else []))"

definition ReadEnvToken :: "fsys \<Rightarrow> string \<Rightarrow> string \<Rightarrow> bool \<Rightarrow> string res" where
  "ReadEnvToken fs p key is_json = env_token (ReadEnvFile fs p False) key is_json"

definition run_args :: "string \<Rightarrow> string res" where
  "run_args env =
     bind (if env = [] then Inr []
           else (case find_str ''R_ARGS='' env of
                   None \<Rightarrow> Inr []
                 | Some start \<Rightarrow>
                     bind (substr_from env start) (\<lambda>sub_s.
                     substr sub_s 7 (sz_sub (pos_of (find_char unit_sep sub_s)) 7))))
       (\<lambda>s. Inr (SanitizeToken s))"

definition ReadRunArgs :: "fsys \<Rightarrow> string \<Rightarrow> string res" where
  "ReadRunArgs fs p = run_args (ReadEnvFile fs p False)"

definition env_write :: "string \<Rightarrow> string \<Rightarrow> string \<Rightarrow> string option res" where
  "env_write env key val =
     (if env = [] then Inr None
      else (case find_str key env of
              None \<Rightarrow> Inr None
            | Some key_index \<Rightarrow>
                let start = key_index + length key + 1 in
                bind (substr_from env start) (\<lambda>rem_s.
                case find_char unit_sep rem_s of
                  None \<Rightarrow> Inr None
                | Some e \<Rightarrow> Inr (Some (take start env @ val @ drop (start + e) env)))))"

definition WriteEnvToken :: "fsys \<Rightarrow> string \<Rightarrow> string \<Rightarrow> string \<Rightarrow> (bool \<times> fsys) res" where
  "WriteEnvToken fs p key val =
     bind (env_write (ReadEnvFile fs p False) key val) (\<lambda>r.
       Inr (case r of None \<Rightarrow> (False, fs) | Some env \<Rightarrow> (True, SaveFile fs env p)))"

text \<open>
  The token loop. Each turn appends the text between \<open>$\<close> and the next blank, then goes on
  from the last character of that text; where the text is empty it goes on from the same
  \<open>$\<close>, so the loop does not end: \<open>None\<close>.
\<close>

partial_function (option) extract_tokens :: "string \<Rightarrow> string list \<Rightarrow> string list option" where
  "extract_tokens flags tokens =
     (case find_char (CHR ''$'') flags of
        None \<Rightarrow> Some tokens
      | Some delim_index \<Rightarrow>
          let token_start = drop delim_index flags;
              end_index = sz_sub (pos_of (find_char (CHR '' '') token_start)) 1;
              token = take end_index (drop 1 token_start)
          in extract_tokens (drop (length token) token_start) (tokens @ [token]))"

definition ExtractFlagTokens :: "string \<Rightarrow> string list res" where
  "ExtractFlagTokens flags =
     (case extract_tokens flags [] of None \<Rightarrow> Inl Diverges | Some ts \<Rightarrow> Inr ts)"

definition ReadEnvValues :: "fsys \<Rightarrow> string \<Rightarrow> string list \<Rightarrow> string list res" where
  "ReadEnvValues fs p flags = mapM (\<lambda>flag. ReadEnvToken fs p flag False) flags"

definition ReadFlagTokens :: "fsys \<Rightarrow> string \<Rightarrow> string \<Rightarrow> string list res" where
  "ReadFlagTokens fs p flags = bind (ExtractFlagTokens flags) (ReadEnvValues fs p)"

section \<open>Reading back what was written\<close>

lemma starts_with_key:
  "CHR ''='' \<notin> set k \<Longrightarrow> starts_with k (k' @ CHR ''='' # x) \<longleftrightarrow> starts_with k k'"
proof (induction k k' rule: starts_with.induct)
  case (2 p ps)
  then show ?case by auto
qed auto

abbreviation env_lines :: "(string \<times> string) list \<Rightarrow> string" where
  "env_lines kvs \<equiv> concat (map (\<lambda>kv. env_line kv @ [newline]) kvs)"

text \<open>The lines before a key do not hide it: no line break inside them, no longer key.\<close>

definition clear_of :: "string \<Rightarrow> (string \<times> string) list \<Rightarrow> bool" where
  "clear_of k pre \<longleftrightarrow>
     (\<forall>(k', v') \<in> set pre. newline \<notin> set k' \<and> newline \<notin> set v' \<and> \<not> starts_with k k')"

lemma clear_of_Nil [simp]: "clear_of k []"
  by (simp add: clear_of_def)

lemma clear_of_Cons [simp]:
  "clear_of k ((k', v') # pre) \<longleftrightarrow>
     newline \<notin> set k' \<and> newline \<notin> set v' \<and> \<not> starts_with k k' \<and> clear_of k pre"
  by (simp add: clear_of_def)

lemma env_line_no_newline: "newline \<notin> set a \<Longrightarrow> newline \<notin> set b \<Longrightarrow> newline \<notin> set (env_line (a, b))"
  by (simp add: env_line_def)

lemma find_key_in_lines:
  assumes "CHR ''='' \<notin> set k" and "clear_of k pre"
  shows "find_str (newline # k) (newline # env_lines pre @ env_line (k, v) @ t) = Some (length (env_lines pre))"
  using assms(2)
proof (induction pre)
  case Nil
  have "starts_with (newline # k) (newline # env_line (k, v) @ t)"
    by (simp add: env_line_def)
  then show ?case by (simp del: starts_with.simps)
next
  case (Cons kv pre)
  obtain k' v' where kv: "kv = (k', v')" by (cases kv)
  let ?rest = "newline # env_lines pre @ env_line (k, v) @ t"
  have no: "\<not> starts_with k (env_line (k', v') @ ?rest)"
    using Cons.prems assms(1) by (simp add: kv env_line_def starts_with_key)
  have nl: "newline \<notin> set (env_line (k', v'))"
    using Cons.prems by (simp add: kv env_line_no_newline)
  have IH: "find_str (newline # k) ?rest = Some (length (env_lines pre))"
    using Cons by (simp add: kv)
  show ?case
    using no find_str_skip [OF nl, of k ?rest] IH by (simp add: kv del: find_str.simps(2) add: find_str.simps(2) [of "newline # k" newline])
qed

lemma find_key_CreateEnvFile:
  assumes "CHR ''='' \<notin> set k" and "clear_of k pre"
  shows "find_str (newline # k) (CreateEnvFile (pre @ (k, v) # post)) = Some (19 + length (env_lines pre))"
proof -
  let ?h = "''#!/usr/bin/env bash''"
  have nl: "newline \<notin> set ?h" by simp
  have "CreateEnvFile (pre @ (k, v) # post) =
      ?h @ (newline # env_lines pre @ env_line (k, v) @ newline # env_lines post)"
    by (simp add: CreateEnvFile_def)
  then show ?thesis
    using find_str_skip [OF nl] find_key_in_lines [OF assms] by simp
qed

lemma env_token_at:
  assumes "find_str (newline # k) env = Some i"
    and "env = b @ k @ CHR ''='' # dquote # v @ [dquote, unit_sep] @ t" and "length b = Suc i"
    and "unit_sep \<notin> set v"
  shows "env_token env k j = Inr (if j then trim_outer_quotes (dquote # v) else SanitizeToken (dquote # v))"
proof -
  let ?r = "dquote # v @ [dquote, unit_sep] @ t"
  have "find_char unit_sep ?r = Some (length v + 2)"
    using assms(4) by simp
  moreover have "drop (i + length k + 2) env = ?r"
    using assms(2,3) by simp
  moreover have "i + length k + 2 \<le> length env" "env \<noteq> []"
    using assms(2,3) by simp_all
  ultimately show ?thesis
    using assms(1) by (simp add: env_token_def)
qed

lemma env_token_CreateEnvFile:
  assumes "CHR ''='' \<notin> set k" and "clear_of k pre" and "unit_sep \<notin> set v"
  shows "env_token (CreateEnvFile (pre @ (k, v) # post)) k j =
    Inr (if j then trim_outer_quotes (dquote # v) else SanitizeToken (dquote # v))"
proof (rule env_token_at [OF find_key_CreateEnvFile [OF assms(1,2)]])
  show "CreateEnvFile (pre @ (k, v) # post) =
      (''#!/usr/bin/env bash'' @ [newline] @ env_lines pre) @ k @ CHR ''='' # dquote # v @
        [dquote, unit_sep] @ (newline # env_lines post)"
    by (simp add: CreateEnvFile_def env_line_def)
qed (simp_all add: assms(3))

lemma trim_outer_id [simp]:
  "s = [] \<or> (hd s \<noteq> q \<and> last s \<noteq> q) \<Longrightarrow> trim_outer q s = s"
  by (auto simp: trim_outer_def)

lemma remove_double_quotes_id [simp]: "dquote \<notin> set s \<Longrightarrow> remove_double_quotes s = s"
  by (auto simp: remove_double_quotes_def filter_id_conv)

lemma remove_double_quotes_Cons [simp]: "remove_double_quotes (dquote # s) = remove_double_quotes s"
  by (simp add: remove_double_quotes_def)

text \<open>The values a token round trip keeps: no quote, no blank at either end.\<close>

definition plain_value :: "string \<Rightarrow> bool" where
  "plain_value v \<longleftrightarrow> unit_sep \<notin> set v \<and> dquote \<notin> set v \<and>
     (v = [] \<or> (hd v \<noteq> CHR '' '' \<and> last v \<noteq> CHR '' ''))"

lemma SanitizeToken_plain: "plain_value v \<Longrightarrow> SanitizeToken (dquote # v) = v"
  by (simp add: SanitizeToken_def plain_value_def trim_outer_whitespace_def)

lemma trim_outer_quotes_open:
  "v = [] \<or> last v \<noteq> dquote \<Longrightarrow> trim_outer_quotes (dquote # v) = v"
  by (auto simp: trim_outer_quotes_def trim_outer_def)

text \<open>The token file as a contract: what its client needs is that a key written is read.\<close>

locale token_file =
  fixes render :: "(string \<times> string) list \<Rightarrow> string"
    and token :: "string \<Rightarrow> string \<Rightarrow> bool \<Rightarrow> string res"
    and key_ok :: "string \<Rightarrow> (string \<times> string) list \<Rightarrow> bool"
    and val_ok :: "string \<Rightarrow> bool"
  assumes token_render:
    "key_ok k pre \<Longrightarrow> val_ok v \<Longrightarrow> token (render (pre @ (k, v) # post)) k False = Inr v"
begin

lemma token_render_last: "key_ok k pre \<Longrightarrow> val_ok v \<Longrightarrow> token (render (pre @ [(k, v)])) k False = Inr v"
  using token_render [of k pre v "[]"] by simp

lemma render_determines:
  assumes "key_ok k pre" "val_ok v" "key_ok k pre'" "val_ok v'"
    and "render (pre @ (k, v) # post) = render (pre' @ (k, v') # post')"
  shows "v = v'"
proof -
  have "Inr v = token (render (pre @ (k, v) # post)) k False"
    using token_render [OF assms(1,2), of post] by simp
  also have "\<dots> = Inr v'"
    using token_render [OF assms(3,4), of post'] assms(5) by simp
  finally show ?thesis by simp
qed

end

definition env_key_ok :: "string \<Rightarrow> (string \<times> string) list \<Rightarrow> bool" where
  "env_key_ok k pre \<longleftrightarrow> CHR ''='' \<notin> set k \<and> clear_of k pre"

interpretation envf: token_file CreateEnvFile env_token env_key_ok plain_value
  by unfold_locales
    (auto simp: env_key_ok_def env_token_CreateEnvFile SanitizeToken_plain plain_value_def)

section \<open>File-level facts\<close>

lemma read_write_same:
  assumes "is_dir fs (parent_dir (resolve fs p))" and "\<not> is_dir fs (resolve fs p)"
  shows "read_file (write_file fs p c) p = c"
  using assms by (simp add: read_file_def write_file_def resolve_def Let_def)

lemma write_file_frame:
  "resolve fs p \<noteq> resolve fs q \<Longrightarrow> read_file (write_file fs p c) q = read_file fs q"
  by (auto simp: read_file_def write_file_def resolve_def Let_def)

lemma write_file_dirs [simp]: "fs_dirs (write_file fs p c) = fs_dirs fs"
  by (simp add: write_file_def Let_def)

lemma write_file_cwd [simp]: "fs_cwd (write_file fs p c) = fs_cwd fs" "fs_exe (write_file fs p c) = fs_exe fs"
  by (simp_all add: write_file_def Let_def)

section \<open>Tokens of a flag string\<close>

text \<open>One expression of a flag string: what stands before \<open>$\<close> and the token after it.\<close>

definition flag_text :: "string \<times> string \<Rightarrow> string" where
  "flag_text f = fst f @ CHR ''$'' # snd f"

definition flag_ok :: "string \<times> string \<Rightarrow> bool" where
  "flag_ok f \<longleftrightarrow> CHR ''$'' \<notin> set (fst f) \<and> snd f \<noteq> [] \<and>
     CHR ''$'' \<notin> set (snd f) \<and> CHR '' '' \<notin> set (snd f)"

lemma extract_no_token: "CHR ''$'' \<notin> set s \<Longrightarrow> extract_tokens s acc = Some acc"
  by (subst extract_tokens.simps) simp

lemma extract_step:
  assumes "CHR ''$'' \<notin> set a" and "CHR '' '' \<notin> set t"
  shows "extract_tokens (a @ CHR ''$'' # t @ CHR '' '' # r) acc =
    extract_tokens (drop (length t) (CHR ''$'' # t @ CHR '' '' # r)) (acc @ [t])"
  using assms by (subst extract_tokens.simps) (simp add: Let_def)

lemma extract_last:
  assumes "CHR ''$'' \<notin> set a" and "CHR '' '' \<notin> set t" and "length t < npos"
  shows "extract_tokens (a @ CHR ''$'' # t) acc =
    extract_tokens (drop (length t) (CHR ''$'' # t)) (acc @ [t])"
proof -
  have n: "find_char (CHR '' '') t = None"
    using assms(2) by simp
  have "take (npos - Suc 0) t = t"
    using assms(3) by simp
  moreover have "Suc 0 \<le> npos" by (simp add: npos_def)
  ultimately show ?thesis
    using assms(1) n by (subst extract_tokens.simps) (simp add: Let_def n)
qed

lemma drop_token: "t \<noteq> [] \<Longrightarrow> drop (length t) (c # t @ r) = last t # r"
  by (cases t rule: rev_cases) simp_all

lemma extract_flags:
  assumes "\<forall>f \<in> set fs. flag_ok f \<and> length (snd f) < npos" and "CHR ''$'' \<notin> set b"
  shows "extract_tokens (b @ Tokenize (map flag_text fs) (CHR '' '')) acc = Some (acc @ map snd fs)"
  using assms
proof (induction fs arbitrary: b acc)
  case Nil
  then show ?case by (simp add: extract_no_token)
next
  case (Cons f fs)
  obtain a t where f: "f = (a, t)" by (cases f)
  have ok: "CHR ''$'' \<notin> set (b @ a)" "t \<noteq> []" "CHR ''$'' \<notin> set t" "CHR '' '' \<notin> set t" "length t < npos"
    using Cons.prems by (auto simp: f flag_ok_def)
  have lt: "last t \<noteq> CHR ''$''"
    using ok(2,3) last_in_set by metis
  show ?case
  proof (cases "fs = []")
    case True
    have "extract_tokens ((b @ a) @ CHR ''$'' # t) acc = extract_tokens [last t] (acc @ [t])"
      using extract_last [OF ok(1,4,5), of acc] drop_token [OF ok(2), of "CHR ''$''" "[]"] by simp
    also have "\<dots> = Some (acc @ [t])"
      using lt by (simp add: extract_no_token)
    finally show ?thesis by (simp add: True f flag_text_def)
  next
    case False
    let ?r = "Tokenize (map flag_text fs) (CHR '' '')"
    have "extract_tokens ((b @ a) @ CHR ''$'' # t @ CHR '' '' # ?r) acc =
        extract_tokens ([last t, CHR '' ''] @ ?r) (acc @ [t])"
      using extract_step [OF ok(1,4), of ?r acc] drop_token [OF ok(2), of "CHR ''$''" "CHR '' '' # ?r"]
      by simp
    also have "\<dots> = Some ((acc @ [t]) @ map snd fs)"
    proof (rule Cons.IH)
      show "\<forall>f \<in> set fs. flag_ok f \<and> length (snd f) < npos"
        using Cons.prems by simp
      show "CHR ''$'' \<notin> set [last t, CHR '' '']"
        using lt by simp
    qed
    finally show ?thesis using False by (simp add: f flag_text_def [of "(a, t)"])
  qed
qed

text \<open>A \<open>$\<close> with no token after it is found again on every turn.\<close>

lemma extract_stuck_step:
  assumes "CHR ''$'' \<notin> set a"
  shows "extract_tokens (a @ CHR ''$'' # CHR '' '' # r) acc =
    extract_tokens (CHR ''$'' # CHR '' '' # r) (acc @ [[]])"
  using extract_step [OF assms, of "[]" r acc] by simp

lemma extract_stuck_aux:
  assumes ret: "extract_tokens s acc = Some ts"
  shows "\<nexists>r. s = CHR ''$'' # CHR '' '' # r"
proof (rule extract_tokens.raw_induct [where P = "\<lambda>s acc ts. \<nexists>r. s = CHR ''$'' # CHR '' '' # r", OF _ ret])
  fix f :: "string \<Rightarrow> string list \<Rightarrow> string list option" and s acc ts
  assume IH: "\<And>s acc ts. f s acc = Some ts \<Longrightarrow> \<nexists>r. s = CHR ''$'' # CHR '' '' # r"
    and eq: "(case find_char (CHR ''$'') s of None \<Rightarrow> Some acc
      | Some d \<Rightarrow> let token_start = drop d s;
              end_index = sz_sub (pos_of (find_char (CHR '' '') token_start)) 1;
              token = take end_index (drop 1 token_start)
          in f (drop (length token) token_start) (acc @ [token])) = Some ts"
  show "\<nexists>r. s = CHR ''$'' # CHR '' '' # r"
  proof
    assume "\<exists>r. s = CHR ''$'' # CHR '' '' # r"
    then obtain r where s: "s = CHR ''$'' # CHR '' '' # r" ..
    with eq have "f (CHR ''$'' # CHR '' '' # r) (acc @ [[]]) = Some ts"
      by (simp add: Let_def)
    from IH [OF this] show False by simp
  qed
qed

lemma extract_stuck:
  assumes "CHR ''$'' \<notin> set a"
  shows "extract_tokens (a @ CHR ''$'' # CHR '' '' # r) acc = None"
proof -
  have "extract_tokens (CHR ''$'' # CHR '' '' # r) (acc @ [[]]) = None"
    using extract_stuck_aux [of "CHR ''$'' # CHR '' '' # r" "acc @ [[]]"] by fastforce
  then show ?thesis by (simp add: extract_stuck_step [OF assms])
qed

section \<open>Overwriting a token\<close>

text \<open>
  \<open>WriteEnvToken\<close> puts the value between the equals sign and the separator as it is, with no
  quotes, while \<open>ReadEnvToken\<close> drops the last character before the separator, where the
  closing quote is expected.
\<close>

lemma env_write_at:
  assumes "find_str k env = Some i" and "env = b @ k @ CHR ''='' # w @ unit_sep # t"
    and "length b = i" and "unit_sep \<notin> set w"
  shows "env_write env k v = Inr (Some (b @ k @ CHR ''='' # v @ unit_sep # t))"
proof -
  have "find_char unit_sep (w @ unit_sep # t) = Some (length w)"
    using assms(4) by simp
  moreover have "drop (i + length k + 1) env = w @ unit_sep # t"
    and "take (i + length k + 1) env = b @ k @ [CHR ''='']"
    and "i + length k + 1 \<le> length env" and "env \<noteq> []"
    using assms(2,3) by simp_all
  moreover have "drop (i + length k + 1 + length w) env = unit_sep # t"
    using assms(2,3) by simp
  ultimately show ?thesis
    using assms(1) by (simp add: env_write_def Let_def)
qed

section \<open>Arguments of an executed process\<close>

text \<open>\<open>executor/environment.hpp\<close>: the option name of a token and its quoted value.\<close>

definition PARAM_KEY_MAP :: "string \<rightharpoonup> string" where
  "PARAM_KEY_MAP = map_of
    [(''DESCRIPTION'', ''--description''), (''FILE_TYPE'', ''--media''), (''HEADER'', ''--header''),
     (''USER'', ''--user''), (''HASHTAGS'', ''--hashtags''), (''LINK_BIO'', ''--link_bio''),
     (''REQUESTED_BY'', ''--requested_by''), (''REQUESTED_BY_PHRASE'', ''--requested_by_phrase''),
     (''PROMOTE_SHARE'', ''--promote_share''), (''DIRECT_MESSAGE'', ''--direct_message'')]"

definition parse_filename :: "string \<Rightarrow> string" where
  "parse_filename f = ''--filename='' @ f"

definition parseNamedArgument :: "string \<Rightarrow> string \<Rightarrow> string res" where
  "parseNamedArgument flag env =
     (case find_str flag env of
        None \<Rightarrow> Inr []
      | Some index \<Rightarrow>
          bind (substr_from env index) (\<lambda>parsed.
          bind (substr parsed (pos_of (find_char dquote parsed))
                  (sz_sub (sz_sub (pos_of (find_char unit_sep parsed)) (length flag)) 1)) (\<lambda>arg.
          Inr ((case PARAM_KEY_MAP flag of None \<Rightarrow> flag | Some k \<Rightarrow> k) @ ''='' @ arg))))"

definition parseExecArguments :: "string \<Rightarrow> string res" where
  "parseExecArguments env =
     (case find_str ''R_ARGS'' env of
        None \<Rightarrow> Inr []
      | Some index \<Rightarrow>
          bind (substr_from env index) (\<lambda>parsed.
          case find_char unit_sep parsed of
            Some e \<Rightarrow> substr parsed (pos_of (find_char dquote parsed)) (sz_sub (sz_sub e 6) 1)
          | None \<Rightarrow> substr_from parsed (pos_of (find_char dquote parsed))))"

lemma parseNamedArgument_at:
  assumes "find_str k env = Some (length b)"
    and "env = b @ k @ CHR ''='' # dquote # v @ [dquote, unit_sep] @ t"
    and "unit_sep \<notin> set k" "dquote \<notin> set k" "unit_sep \<notin> set v"
  shows "parseNamedArgument k env =
    Inr ((case PARAM_KEY_MAP k of None \<Rightarrow> k | Some p \<Rightarrow> p) @ ''='' @ dquote # v @ [dquote])"
proof -
  let ?p = "k @ CHR ''='' # dquote # v @ [dquote, unit_sep] @ t"
  have "find_char dquote ?p = Some (length k + 1)" "find_char unit_sep ?p = Some (length k + length v + 3)"
    using assms(3-5) by simp_all
  moreover have "drop (length b) env = ?p" "length b \<le> length env"
    using assms(2) by simp_all
  moreover have "drop (length k + 1) ?p = dquote # v @ [dquote, unit_sep] @ t"
    by simp
  ultimately show ?thesis
    using assms(1) by (simp add: parseNamedArgument_def)
qed

lemma drop_length_append: "drop (length a) (a @ b) = b"
  by simp

lemma CreateEnvFile_split:
  "CreateEnvFile (pre @ (k, w) # post) =
   (''#!/usr/bin/env bash'' @ [newline] @ env_lines pre) @ k @ CHR ''='' # (dquote # w @ [dquote]) @
     unit_sep # newline # env_lines post"
  by (simp add: CreateEnvFile_def env_line_def)

lemma env_write_CreateEnvFile:
  assumes "find_str k (CreateEnvFile (pre @ (k, w) # post)) = Some (20 + length (env_lines pre))"
    and "unit_sep \<notin> set w"
  shows "env_write (CreateEnvFile (pre @ (k, w) # post)) k x =
    Inr (Some ((''#!/usr/bin/env bash'' @ [newline] @ env_lines pre) @ k @ CHR ''='' # x @
     unit_sep # newline # env_lines post))"
proof (rule env_write_at [OF assms(1)])
  show "CreateEnvFile (pre @ (k, w) # post) =
      (''#!/usr/bin/env bash'' @ [newline] @ env_lines pre) @ k @ CHR ''='' #
        (dquote # w @ [dquote]) @ unit_sep # newline # env_lines post"
    by (rule CreateEnvFile_split)
  show "unit_sep \<notin> set (dquote # w @ [dquote])" using assms(2) by simp
qed simp

lemma starts_with_key_text: "starts_with k (k @ t)"
  by simp

section \<open>Properties\<close>

definition writable :: "fsys \<Rightarrow> string \<Rightarrow> bool" where
  "writable fs p \<longleftrightarrow> is_dir fs (parent_dir (resolve fs p)) \<and> \<not> is_dir fs (resolve fs p)"

lemma read_write_writable [simp]: "writable fs p \<Longrightarrow> read_file (write_file fs p c) p = c"
  by (simp add: writable_def read_write_same)

text \<open>
  An environment file that was saved is read back token by token: the value of each key
  is what was written under it, whatever the other lines hold, as long as no earlier line
  holds a line break or a key that begins with this one.
\<close>

theorem saved_token_is_read:
  assumes "writable fs p" and "env_key_ok k pre" and "plain_value v"
  shows "ReadEnvToken (SaveFile fs (CreateEnvFile (pre @ (k, v) # post)) p) p k False = Inr v"
  using envf.token_render [OF assms(2,3)] assms(1)
  by (simp add: ReadEnvToken_def ReadEnvFile_def SaveFile_def)

definition sample_fs :: fsys where
  "sample_fs = \<lparr>fs_cwd = ''/srv'', fs_exe = ''/srv'', fs_dirs = [''/srv'', ''/srv/data''],
     fs_files = Map.empty\<rparr>"

lemma writable_sample: "writable sample_fs ''/srv/v.env''" "writable sample_fs ''v.env''"
  by (simp_all add: writable_def sample_fs_def resolve_def parent_dir_def is_dir_def)

theorem saved_token_is_read_witness:
  "ReadEnvToken (SaveFile sample_fs (CreateEnvFile ([(''HEADER'', ''a'')] @ (''USER'', ''bob'') # [])) ''v.env'')
     ''v.env'' ''USER'' False = Inr ''bob''"
  by (rule saved_token_is_read)
    (simp_all add: writable_sample env_key_ok_def plain_value_def)

text \<open>
  \<open>WriteEnvToken\<close> of a value in quotes replaces the value under its key and nothing else:
  the file is then the one that \<open>CreateEnvFile\<close> makes of the changed pairs, on condition that
  the first place where the key's text occurs is its own line.
\<close>

theorem write_token_updates_one_line:
  assumes "writable fs p" and "read_file fs p = CreateEnvFile (pre @ (k, w) # post)"
    and "find_str k (CreateEnvFile (pre @ (k, w) # post)) = Some (20 + length (env_lines pre))"
    and "unit_sep \<notin> set w"
  shows "\<exists>fs'. WriteEnvToken fs p k (dquote # v @ [dquote]) = Inr (True, fs') \<and>
    ReadEnvFile fs' p False = CreateEnvFile (pre @ (k, v) # post) \<and>
    (\<forall>q. resolve fs q \<noteq> resolve fs p \<longrightarrow> read_file fs' q = read_file fs q)"
proof -
  have "WriteEnvToken fs p k (dquote # v @ [dquote]) =
      Inr (True, write_file fs p (CreateEnvFile (pre @ (k, v) # post)))"
    using env_write_CreateEnvFile [OF assms(3,4), of "dquote # v @ [dquote]"]
    by (simp add: WriteEnvToken_def ReadEnvFile_def assms(2) SaveFile_def CreateEnvFile_split)
  then show ?thesis
    using assms(1) write_file_frame [of fs p] by (auto simp: ReadEnvFile_def)
qed

theorem write_token_updates_one_line_witness:
  "let fs = SaveFile sample_fs (CreateEnvFile ([] @ (''USER'', ''bob'') # [])) ''v.env'' in
   \<exists>fs'. WriteEnvToken fs ''v.env'' ''USER'' (dquote # ''eve'' @ [dquote]) = Inr (True, fs') \<and>
    ReadEnvFile fs' ''v.env'' False = CreateEnvFile ([] @ (''USER'', ''eve'') # []) \<and>
    read_file fs' ''w.env'' = read_file fs ''w.env''"
  unfolding Let_def
proof -
  let ?fs = "SaveFile sample_fs (CreateEnvFile ([] @ (''USER'', ''bob'') # [])) ''v.env''"
  have w: "writable ?fs ''v.env''"
    using writable_sample by (simp add: writable_def SaveFile_def is_dir_def resolve_def)
  have r: "read_file ?fs ''v.env'' = CreateEnvFile ([] @ (''USER'', ''bob'') # [])"
    using writable_sample by (simp add: SaveFile_def)
  have o: "resolve ?fs ''w.env'' \<noteq> resolve ?fs ''v.env''"
    by (simp add: resolve_def)
  show "\<exists>fs'. WriteEnvToken ?fs ''v.env'' ''USER'' (dquote # ''eve'' @ [dquote]) = Inr (True, fs') \<and>
    ReadEnvFile fs' ''v.env'' False = CreateEnvFile ([] @ (''USER'', ''eve'') # []) \<and>
    read_file fs' ''w.env'' = read_file ?fs ''w.env''"
    using write_token_updates_one_line [OF w r, of "''eve''"] o by (auto simp: CreateEnvFile_def env_line_def)
qed

text \<open>
  A value that \<open>WriteEnvToken\<close> writes without quotes of its own comes back from
  \<open>ReadEnvToken\<close> without its last character: the reader drops the character before the
  separator, where it expects the closing quote.
\<close>

theorem unquoted_token_loses_last_char:
  assumes "writable fs p" and "read_file fs p = CreateEnvFile ((k, w) # post)"
    and "find_str k (CreateEnvFile ((k, w) # post)) = Some 20"
    and "CHR ''='' \<notin> set k" and "unit_sep \<notin> set w" and "plain_value v" and "v \<noteq> []"
    and "plain_value (butlast v)"
  shows "\<exists>fs'. WriteEnvToken fs p k v = Inr (True, fs') \<and> ReadEnvToken fs' p k False = Inr (butlast v)"
proof -
  let ?h = "''#!/usr/bin/env bash''"
  let ?e = "?h @ newline # k @ CHR ''='' # v @ unit_sep # newline # env_lines post"
  have w: "WriteEnvToken fs p k v = Inr (True, write_file fs p ?e)"
    using env_write_CreateEnvFile [of k "[]" w post v] assms(3,5)
    by (simp add: WriteEnvToken_def ReadEnvFile_def assms(2) SaveFile_def)
  have "find_str (newline # k) ?e =
      map_option (\<lambda>i. length ?h + i) (find_str (newline # k) (newline # k @ CHR ''='' # v @ unit_sep # newline # env_lines post))"
    by (rule find_str_skip) simp
  then have f: "find_str (newline # k) ?e = Some 19"
    by simp
  have u: "find_char unit_sep (v @ unit_sep # newline # env_lines post) = Some (length v)"
    using assms(6) by (simp add: plain_value_def)
  have v: "take (length v - 1) v = butlast v" "butlast v \<noteq> [] \<or> length v = 1"
    using assms(7) by (simp_all add: butlast_conv_take) (cases v, auto)
  have d: "dquote \<notin> set (butlast v)"
    using assms(8) by (simp add: plain_value_def)
  have s: "SanitizeToken (butlast v) = butlast v"
    using assms(8) d by (auto simp: SanitizeToken_def plain_value_def trim_outer_whitespace_def)
  let ?b = "?h @ newline # k @ ''=''"
  have e: "?e = ?b @ v @ unit_sep # newline # env_lines post" by simp
  have l: "19 + length k + 2 = length ?b" by simp
  have "drop (19 + length k + 2) ?e = v @ unit_sep # newline # env_lines post"
    unfolding e l by (rule drop_length_append)
  moreover have "19 + length k + 2 \<le> length ?e" "?e \<noteq> []" by simp_all
  ultimately have "env_token ?e k False = Inr (butlast v)"
    unfolding env_token_def f
    using u s v by (simp add: Suc_le_eq assms(7))
  then show ?thesis
    using w assms(1) by (simp add: ReadEnvToken_def ReadEnvFile_def)
qed

theorem unquoted_token_loses_last_char_witness:
  "let fs = SaveFile sample_fs (CreateEnvFile [(''USER'', ''bob'')]) ''v.env'' in
   \<exists>fs'. WriteEnvToken fs ''v.env'' ''USER'' ''eve'' = Inr (True, fs') \<and>
     ReadEnvToken fs' ''v.env'' ''USER'' False = Inr (butlast ''eve'')"
  unfolding Let_def
proof (rule unquoted_token_loses_last_char)
  let ?fs = "SaveFile sample_fs (CreateEnvFile [(''USER'', ''bob'')]) ''v.env''"
  show "writable ?fs ''v.env''"
    using writable_sample by (simp add: writable_def SaveFile_def is_dir_def resolve_def)
  show "read_file ?fs ''v.env'' = CreateEnvFile [(''USER'', ''bob'')]"
    using writable_sample by (simp add: SaveFile_def)
qed (simp_all add: CreateEnvFile_def env_line_def plain_value_def)

text \<open>
  The tokens of a flag string are the names behind its dollar signs, in order, for a string
  of expressions each of which has one.
\<close>

theorem flag_tokens_in_order:
  assumes "\<forall>f \<in> set fs. flag_ok f \<and> length (snd f) < npos"
  shows "ExtractFlagTokens (Tokenize (map flag_text fs) (CHR '' '')) = Inr (map snd fs)"
  using extract_flags [OF assms, of "[]" "[]"] by (simp add: ExtractFlagTokens_def)

theorem flag_tokens_in_order_witness:
  "ExtractFlagTokens (Tokenize (map flag_text [(''--header='', ''HEADER''), (''--user='', ''USER'')]) (CHR '' ''))
     = Inr (map snd [(''--header='', ''HEADER''), (''--user='', ''USER'')])"
  by (rule flag_tokens_in_order) (simp add: flag_ok_def npos_def)

text \<open>A dollar sign followed by a blank keeps the token loop of \<open>ExtractFlagTokens\<close> from ending.\<close>

theorem lone_dollar_never_ends:
  assumes "CHR ''$'' \<notin> set a"
  shows "ExtractFlagTokens (a @ CHR ''$'' # CHR '' '' # r) = Inl Diverges"
  by (simp add: ExtractFlagTokens_def extract_stuck [OF assms])

theorem lone_dollar_never_ends_witness: "ExtractFlagTokens (''--price='' @ CHR ''$'' # CHR '' '' # ''5'') = Inl Diverges"
  by (rule lone_dollar_never_ends) simp

end
