(* ===== verification/TaskModel.thy ===== *)
theory TaskModel
  imports EnvFiles
begin

text \<open>
  The data the components pass to each other, from \<open>executor/task_handlers/task.hpp\<close> and
  \<open>task.cpp\<close>: scheduled tasks, file metadata and platform posts with their payloads, the
  parser of a client's file list, and the recurrence intervals of \<open>process/helper.cpp\<close>.

  Shown: each payload is decoded to what was encoded; the file-list parser inverts the
  client's format while the list is shorter than 256 bytes, and does not return on a longer
  list without a delimiter, because its index is one byte wide.
\<close>

section \<open>Tasks\<close>

type_synonym file_info = "string \<times> string"

record task =
  tk_mask :: int
  tk_datetime :: string
  tk_file :: bool
  tk_files :: "file_info list"
  tk_env :: string
  tk_flags :: string
  tk_id :: int
  tk_completed :: int
  tk_recurring :: int
  tk_notify :: bool
  tk_runtime :: string
  tk_filenames :: "string list"
  tk_name :: string

definition empty_task :: task where
  "empty_task = \<lparr>tk_mask = 0, tk_datetime = [], tk_file = False, tk_files = [], tk_env = [],
     tk_flags = [], tk_id = 0, tk_completed = 0, tk_recurring = 0, tk_notify = False,
     tk_runtime = [], tk_filenames = [], tk_name = []\<rparr>"

definition task_id_string :: "task \<Rightarrow> string" where
  "task_id_string t = int_to_string (tk_id t)"

definition clone_basic :: "task \<Rightarrow> int \<Rightarrow> task" where
  "clone_basic t new_mask = empty_task\<lparr>tk_datetime := tk_datetime t,
     tk_mask := (if 0 \<le> new_mask then new_mask else tk_mask t),
     tk_file := tk_file t, tk_files := tk_files t, tk_flags := tk_flags t,
     tk_runtime := tk_runtime t, tk_filenames := tk_filenames t\<rparr>"

definition task_validate :: "task \<Rightarrow> bool" where
  "task_validate t \<longleftrightarrow> tk_datetime t \<noteq> [] \<and> tk_env t \<noteq> [] \<and> tk_flags t \<noteq> []"

definition filesToString :: "task \<Rightarrow> string" where
  "filesToString t =
     (let s = concat (map (\<lambda>f. f @ '':'') (tk_filenames t)) in if s \<noteq> [] then butlast s else s)"

definition task_payload :: "task \<Rightarrow> string list" where
  "task_payload t =
     [task_id_string t, tk_datetime t, tk_flags t, int_to_string (tk_completed t),
      int_to_string (tk_recurring t), bool_to_string (tk_notify t), tk_runtime t, filesToString t]"

definition Recurring_names :: "string list" where
  "Recurring_names = [''No'', ''Hourly'', ''Daily'', ''Weekly'', ''Monthly'', ''Yearly'']"

definition task_toString :: "task \<Rightarrow> string res" where
  "task_toString t =
     bind (if 0 \<le> tk_recurring t then vec_nth Recurring_names (nat (tk_recurring t)) else Inl Undefined)
       (\<lambda>rec. Inr (''ID: '' @ task_id_string t
          @ [newline] @ ''Mask: '' @ int_to_string (tk_mask t)
          @ [newline] @ ''Flags: '' @ tk_flags t
          @ [newline] @ ''Time: '' @ tk_datetime t
          @ [newline] @ ''Files: '' @ nat_to_string (if tk_files t = [] then length (tk_filenames t) else length (tk_files t))
          @ [newline] @ ''Completed: '' @ int_to_string (tk_completed t)
          @ [newline] @ ''Runtime: '' @ tk_runtime t
          @ [newline] @ ''Recurring: '' @ rec
          @ [newline] @ ''Email notification: '' @ (if tk_notify t then ''Yes'' else ''No'')))"

definition GetToken_task :: "fsys \<Rightarrow> task \<Rightarrow> string \<Rightarrow> string res" where
  "GetToken_task fs t flag = ReadEnvToken fs (tk_env t) flag False"

text \<open>
  \<open>operator==\<close>: the last conjunct is set off by a comma, so the value of the whole
  expression is that of \<open>t1.runtime == t1.runtime\<close>.
\<close>

definition task_eq :: "task \<Rightarrow> task \<Rightarrow> bool" where
  "task_eq t1 t2 =
     (let _ = (tk_completed t1 = tk_completed t2 \<and> tk_datetime t1 = tk_datetime t2 \<and>
               tk_env t1 = tk_env t2 \<and> tk_flags t1 = tk_flags t2 \<and> tk_mask t1 = tk_mask t2 \<and>
               tk_file t1 = tk_file t2 \<and> length (tk_files t1) = length (tk_files t2) \<and>
               tk_id t1 = tk_id t2 \<and> tk_recurring t1 = tk_recurring t2 \<and> tk_notify t1 = tk_notify t2)
      in tk_runtime t1 = tk_runtime t1)"

definition task_neq :: "task \<Rightarrow> task \<Rightarrow> bool" where
  "task_neq t1 t2 \<longleftrightarrow> \<not> task_eq t1 t2"

definition exec_flags_to_vector :: "string \<Rightarrow> string list" where
  "exec_flags_to_vector flag_s =
     map (\<lambda>e. case find_char (CHR ''$'') e of None \<Rightarrow> e | Some i \<Rightarrow> drop (i + 1) e)
       (Split flag_s (CHR '' ''))"

text \<open>Recurrence: \<open>GetIntervalSeconds\<close> and \<open>IsRecurringTask\<close> of \<open>helper.cpp\<close>.\<close>

definition GetIntervalSeconds :: "32 word \<Rightarrow> 32 word" where
  "GetIntervalSeconds i =
     (if i = 1 then 3600 else if i = 2 then 86400 else if i = 3 then 86400 * 7
      else if i = 4 then 86400 * 30 else if i = 5 then 86400 * 365 else 0)"

definition IsRecurringTask :: "task \<Rightarrow> bool" where
  "IsRecurringTask t \<longleftrightarrow> (word_of_int (tk_recurring t) :: 8 word) > 0"

definition AppendExecutionFlag :: "string \<Rightarrow> string \<Rightarrow> string res" where
  "AppendExecutionFlag flag_s flag =
     bind (map_at PARAM_KEY_MAP flag) (\<lambda>k.
       Inr (if k \<noteq> [] then flag_s @ '' '' @ k @ ''=$'' @ flag else flag_s))"

definition AsExecutionFlag :: "string \<Rightarrow> string \<Rightarrow> string res" where
  "AsExecutionFlag flag prefix =
     bind (map_at PARAM_KEY_MAP flag) (\<lambda>k.
       Inr (if k \<noteq> [] then prefix @ k @ ''=$'' @ flag else []))"

section \<open>File metadata\<close>

record file_meta =
  fm_task_id :: string
  fm_id :: string
  fm_name :: string
  fm_type :: string

definition fm_complete :: "file_meta \<Rightarrow> bool" where
  "fm_complete f \<longleftrightarrow> fm_id f \<noteq> [] \<and> fm_name f \<noteq> [] \<and> fm_type f \<noteq> []"

definition fm_clear :: "file_meta \<Rightarrow> file_meta" where
  "fm_clear f = f\<lparr>fm_id := [], fm_name := [], fm_type := []\<rparr>"

definition fm_to_string_v :: "file_meta \<Rightarrow> string list" where
  "fm_to_string_v f = [fm_task_id f, fm_id f, fm_name f, fm_type f]"

definition MetaDataToPayload :: "file_meta list \<Rightarrow> string list" where
  "MetaDataToPayload fs = nat_to_string (length fs) # concat (map fm_to_string_v fs)"

definition meta_at :: "string list \<Rightarrow> nat \<Rightarrow> file_meta res" where
  "meta_at data i =
     bind (vec_nth data (1 + 4 * i)) (\<lambda>a. bind (vec_nth data (2 + 4 * i)) (\<lambda>b.
     bind (vec_nth data (3 + 4 * i)) (\<lambda>c. bind (vec_nth data (4 + 4 * i)) (\<lambda>d.
       Inr \<lparr>fm_task_id = a, fm_id = b, fm_name = c, fm_type = d\<rparr>))))"

text \<open>\<open>reserve\<close> of a negative count throws \<open>std::length_error\<close>.\<close>

definition PayloadToMetaData :: "string list \<Rightarrow> file_meta list res" where
  "PayloadToMetaData data =
     bind (vec_front data) (\<lambda>h. bind (stoi h) (\<lambda>n.
       if n < 0 then Inl InvalidArgument else mapM (meta_at data) [0..<nat n]))"

section \<open>Platform posts\<close>

record platform_post =
  pp_pid :: string
  pp_o_pid :: string
  pp_id :: string
  pp_user :: string
  pp_time :: string
  pp_content :: string
  pp_urls :: string
  pp_repost :: string
  pp_name :: string
  pp_args :: string
  pp_method :: string
  pp_cmd :: string
  pp_status :: string
  pp_retry :: bool

definition NO_ORIGIN_PLATFORM_EXISTS :: string where "NO_ORIGIN_PLATFORM_EXISTS = ''2''"

definition empty_post :: platform_post where
  "empty_post = \<lparr>pp_pid = [], pp_o_pid = NO_ORIGIN_PLATFORM_EXISTS, pp_id = [], pp_user = [],
     pp_time = [], pp_content = [], pp_urls = [], pp_repost = [], pp_name = [], pp_args = [],
     pp_method = [], pp_cmd = ''0'', pp_status = [], pp_retry = False\<rparr>"

definition post_is_valid :: "platform_post \<Rightarrow> bool" where
  "post_is_valid p \<longleftrightarrow> pp_pid p \<noteq> [] \<and> pp_content p \<noteq> []"

definition post_ToString :: "platform_post \<Rightarrow> string" where
  "post_ToString p =
     ''PID: '' @ pp_pid p @ [newline] @ ''Origin: '' @ pp_o_pid p @ [newline] @
     ''ID: '' @ pp_id p @ [newline] @ ''Status: '' @ pp_status p @ [newline] @
     ''User: '' @ pp_user p @ [newline] @ ''Time: '' @ pp_time p @ [newline] @
     ''Content: '' @ pp_content p @ [newline] @ ''URLS: '' @ pp_urls p @ [newline] @
     ''Repost: '' @ pp_repost p @ [newline] @ ''Name: '' @ pp_name p @ [newline] @
     ''Args: '' @ pp_args p @ [newline] @ ''Method: '' @ pp_method p"

definition GetPayload_post :: "platform_post \<Rightarrow> string list" where
  "GetPayload_post p =
     [pp_name p, pp_id p, pp_user p, pp_time p, pp_content p, pp_urls p, pp_repost p,
      pp_method p, pp_args p, pp_cmd p, pp_status p]"

text \<open>\<open>uuid\<close> and \<open>now\<close> are what \<open>GenerateUUIDString\<close> and the clock return.\<close>

definition FromPayload :: "string \<Rightarrow> int \<Rightarrow> string list \<Rightarrow> platform_post res" where
  "FromPayload uuid now v =
     bind (vec_at v 0) (\<lambda>name. bind (vec_at v 1) (\<lambda>id. bind (vec_at v 2) (\<lambda>user.
     bind (vec_at v 3) (\<lambda>time. bind (vec_at v 4) (\<lambda>content. bind (vec_at v 5) (\<lambda>urls.
     bind (vec_at v 6) (\<lambda>repost. bind (vec_at v 7) (\<lambda>method.
       Inr \<lparr>pp_pid = [], pp_o_pid = NO_ORIGIN_PLATFORM_EXISTS,
            pp_id = (if id = [] then uuid else id), pp_user = user,
            pp_time = (if time = [] then int_to_string now else time),
            pp_content = content, pp_urls = urls, pp_repost = repost, pp_name = name,
            pp_args = (if length v > 8 then v ! 8 else []), pp_method = method,
            pp_cmd = (if length v > 9 then v ! 9 else ''0''),
            pp_status = (if length v > 10 then v ! 10 else []), pp_retry = False\<rparr>))))))))"

definition Dummy_post :: "(string list \<Rightarrow> string) \<Rightarrow> string \<Rightarrow> string \<Rightarrow> string \<Rightarrow> platform_post" where
  "Dummy_post to_json pid time option =
     empty_post\<lparr>pp_id := pid, pp_pid := ''0'', pp_time := time, pp_args := to_json [option]\<rparr>"

datatype post_state = PROCESSING | SUCCESS | FAILURE

definition GetPostStatus :: "post_state \<Rightarrow> string" where
  "GetPostStatus s =
     (case s of PROCESSING \<Rightarrow> ''PROCESSING'' | SUCCESS \<Rightarrow> ''SUCCESS   '' | FAILURE \<Rightarrow> ''FAILURE   '')"

section \<open>The list of files a client sends\<close>

text \<open>
  \<open>findIndexAfter\<close>: the loop variable is a \<open>uint8_t\<close>, so it wraps from 255 to 0 and, on a
  string of 256 bytes or more, the exit test never fails.
\<close>

partial_function (option) findIndexAfter :: "string \<Rightarrow> 8 word \<Rightarrow> char \<Rightarrow> int option" where
  "findIndexAfter s i c =
     (if unat i < length s
      then (if s ! unat i = c then Some (int (unat i)) else findIndexAfter s (i + 1) c)
      else Some (- 1))"

definition u32 :: "int \<Rightarrow> nat" where
  "u32 i = nat (i mod 2 ^ 32)"

text \<open>
  \<open>index\<close>, \<open>pipe_pos\<close> and \<open>delim_pos\<close> are \<open>uint32_t\<close>: a result of \<open>-1\<close> becomes
  \<open>2^32 - 1\<close>, and the lengths passed to \<open>substr\<close> wrap at 32 bits, or at 64 once a
  \<open>size_t\<close> takes part.
\<close>

partial_function (option) parse_files :: "string \<Rightarrow> nat \<Rightarrow> file_info list \<Rightarrow> file_info list res option" where
  "parse_files s index acc =
     Option.bind (findIndexAfter s (word_of_nat index) (CHR ''|'')) (\<lambda>pipe.
     Option.bind (findIndexAfter s (word_of_nat index) (CHR '':'')) (\<lambda>delim.
       (case bind (substr s index 10) (\<lambda>timestamp.
             bind (substr s (u32 (int index + 10)) (u32 (int (u32 pipe) - int index - 10))) (\<lambda>file_name.
             bind (substr s (u32 (int index + 10) + length file_name + 1)
                     (sz_sub (sz_sub (u32 (int (u32 delim) - int index - 10)) (length file_name)) 1)) (\<lambda>type.
               Inr (timestamp, file_name, type))))
        of Inl e \<Rightarrow> Some (Inl e)
         | Inr (timestamp, file_name, type) \<Rightarrow>
             let index' = u32 (int index + int (length timestamp + length file_name + length type + 2));
                 acc' = acc @ [(file_name, timestamp)]
             in if index' < length s then parse_files s index' acc' else Some (Inr acc'))))"

definition parseFileInfo :: "string \<Rightarrow> file_info list res" where
  "parseFileInfo s = (case parse_files s 0 [] of None \<Rightarrow> Inl Diverges | Some r \<Rightarrow> r)"

lemma unat_byte: "i < 256 \<Longrightarrow> unat (word_of_nat i :: 8 word) = i"
  by (simp add: unat_of_nat)

lemma word_of_nat_Suc_byte: "(word_of_nat i :: 8 word) + 1 = word_of_nat (Suc i)"
  by simp

lemma findIndexAfter_short:
  assumes "length s < 256" and "i \<le> length s"
  shows "findIndexAfter s (word_of_nat i) c =
    Some (case find_char c (drop i s) of None \<Rightarrow> - 1 | Some k \<Rightarrow> int (i + k))"
  using assms(2)
proof (induction "length s - i" arbitrary: i)
  case 0
  with assms(1) show ?case
    by (subst findIndexAfter.simps) (simp add: unat_byte)
next
  case (Suc n)
  then have i: "i < length s" by simp
  then have d: "drop i s = s ! i # drop (Suc i) s" by (simp add: Cons_nth_drop_Suc)
  have IH: "findIndexAfter s (word_of_nat (Suc i)) c =
      Some (case find_char c (drop (Suc i) s) of None \<Rightarrow> - 1 | Some k \<Rightarrow> int (Suc i + k))"
    using Suc.hyps(2) i by (intro Suc.hyps(1)) simp_all
  have u: "unat (word_of_nat i :: 8 word) = i"
    using assms(1) i by (simp add: unat_byte)
  show ?case
    by (subst findIndexAfter.simps)
      (simp add: u i d IH word_of_nat_Suc_byte del: of_nat_Suc split: option.splits)
qed

lemma findIndexAfter_loops_aux:
  assumes ret: "findIndexAfter s i c = Some r"
  shows "length s < 256 \<or> c \<in> set s"
proof (rule findIndexAfter.raw_induct [where P = "\<lambda>s i c r. length s < 256 \<or> c \<in> set s", OF _ ret])
  fix f :: "string \<Rightarrow> 8 word \<Rightarrow> char \<Rightarrow> int option" and s i c r
  assume IH: "\<And>s i c r. f s i c = Some r \<Longrightarrow> length s < 256 \<or> c \<in> set s"
    and eq: "(if unat i < length s
      then (if s ! unat i = c then Some (int (unat i)) else f s (i + 1) c) else Some (- 1)) = Some r"
  have "unat i < 2 ^ LENGTH(8)"
    by (rule unsigned_less)
  then have "unat i < 256" by simp
  with eq IH show "length s < 256 \<or> c \<in> set s"
    by (fastforce split: if_splits)
qed

lemma findIndexAfter_loops: "256 \<le> length s \<Longrightarrow> c \<notin> set s \<Longrightarrow> findIndexAfter s i c = None"
  using findIndexAfter_loops_aux by (cases "findIndexAfter s i c") force+

lemma u32_nat [simp]: "0 \<le> i \<Longrightarrow> i < 2 ^ 32 \<Longrightarrow> u32 i = nat i"
  by (simp add: u32_def)

text \<open>The client's format: ten characters of timestamp, the name, \<open>|\<close>, the type, \<open>:\<close>.\<close>

type_synonym file_entry = "string \<times> string \<times> string"

definition entry_text :: "file_entry \<Rightarrow> string" where
  "entry_text e = (case e of (ts, name, ty) \<Rightarrow> ts @ name @ CHR ''|'' # ty @ '':'')"

definition entry_ok :: "file_entry \<Rightarrow> bool" where
  "entry_ok e \<longleftrightarrow> (case e of (ts, name, ty) \<Rightarrow> length ts = 10 \<and>
     CHR ''|'' \<notin> set (ts @ name) \<and> CHR '':'' \<notin> set (ts @ name @ ty))"

definition entry_info :: "file_entry \<Rightarrow> file_info" where
  "entry_info e = (case e of (ts, name, ty) \<Rightarrow> (name, ts))"

lemma parse_files_step:
  assumes s: "s = pre @ entry_text (ts, name, ty) @ rest" and len: "length s < 256"
    and ok: "entry_ok (ts, name, ty)"
  shows "parse_files s (length pre) acc =
    (if rest \<noteq> [] then parse_files s (length pre + length (entry_text (ts, name, ty))) (acc @ [(name, ts)])
     else Some (Inr (acc @ [(name, ts)])))"
proof -
  let ?i = "length pre"
  have d: "drop ?i s = ts @ name @ CHR ''|'' # ty @ CHR '':'' # rest"
    by (simp add: s entry_text_def)
  have ok': "length ts = 10" "CHR ''|'' \<notin> set ts" "CHR ''|'' \<notin> set name"
    "CHR '':'' \<notin> set ts" "CHR '':'' \<notin> set name" "CHR '':'' \<notin> set ty"
    using ok by (auto simp: entry_ok_def)
  have l: "length s = ?i + 12 + length name + length ty + length rest"
    using ok'(1) by (simp add: s entry_text_def)
  have pipe: "findIndexAfter s (word_of_nat ?i) (CHR ''|'') = Some (int (?i + 10 + length name))"
    using len l ok' by (simp add: findIndexAfter_short d)
  have delim: "findIndexAfter s (word_of_nat ?i) (CHR '':'') = Some (int (?i + 11 + length name + length ty))"
    using len l ok' by (simp add: findIndexAfter_short d)
  have ts: "substr s ?i 10 = Inr ts"
    using l d ok'(1) by simp
  have "drop (?i + 10) s = name @ CHR ''|'' # ty @ CHR '':'' # rest"
    using ok'(1) by (simp add: s entry_text_def)
  then have nm: "substr s (?i + 10) (length name) = Inr name"
    using l by simp
  have "drop (?i + 10 + length name + 1) s = ty @ CHR '':'' # rest"
    using ok'(1) by (simp add: s entry_text_def)
  then have ty: "substr s (?i + 10 + length name + 1) (length ty) = Inr ty"
    using l by simp
  have u1: "u32 (int ?i + 10) = ?i + 10" "u32 (int (u32 (int (?i + 10 + length name))) - int ?i - 10) = length name"
    using len l by simp_all
  have u2: "sz_sub (sz_sub (u32 (int (u32 (int (?i + 11 + length name + length ty))) - int ?i - 10)) (length name)) 1 = length ty"
    using len l by simp
  have u3: "u32 (int ?i + int (length ts + length name + length ty + 2)) = ?i + length (entry_text (ts, name, ty))"
    using len l ok'(1) by (simp add: entry_text_def)
  have r: "?i + length (entry_text (ts, name, ty)) < length s \<longleftrightarrow> rest \<noteq> []"
    using l ok'(1) by (simp add: entry_text_def)
  show ?thesis
    apply (subst parse_files.simps)
    apply (simp only: pipe delim Option.bind.simps bind_Inr ts u1 nm u2 ty sum.case prod.case u3 Let_def)
    using r by simp
qed

lemma parse_files_entries:
  assumes "es \<noteq> []" and "\<forall>e \<in> set es. entry_ok e" and "s = pre @ concat (map entry_text es)"
    and "length s < 256"
  shows "parse_files s (length pre) acc = Some (Inr (acc @ map entry_info es))"
  using assms
proof (induction es arbitrary: pre acc)
  case Nil
  then show ?case by simp
next
  case (Cons e es)
  obtain ts name ty where e: "e = (ts, name, ty)" by (cases e)
  have s: "s = pre @ entry_text (ts, name, ty) @ concat (map entry_text es)"
    using Cons.prems(3) e by simp
  note step = parse_files_step [OF s Cons.prems(4), of acc]
  have ne: "concat (map entry_text es) \<noteq> [] \<longleftrightarrow> es \<noteq> []"
    by (cases es) (simp_all add: entry_text_def split: prod.splits)
  show ?case
  proof (cases "es = []")
    case True
    with step Cons.prems(2) show ?thesis by (simp add: e entry_info_def)
  next
    case False
    have "parse_files s (length (pre @ entry_text e)) (acc @ [(name, ts)]) =
        Some (Inr ((acc @ [(name, ts)]) @ map entry_info es))"
    proof (rule Cons.IH [OF False])
      show "\<forall>e \<in> set es. entry_ok e" using Cons.prems(2) by simp
      show "s = (pre @ entry_text e) @ concat (map entry_text es)" using s e by simp
      show "length s < 256" by (rule Cons.prems(4))
    qed
    with step Cons.prems(2) False ne show ?thesis by (simp add: e entry_info_def)
  qed
qed

lemma parseFileInfo_entries:
  assumes "es \<noteq> []" and "\<forall>e \<in> set es. entry_ok e" and "length (concat (map entry_text es)) < 256"
  shows "parseFileInfo (concat (map entry_text es)) = Inr (map entry_info es)"
  using parse_files_entries [OF assms(1,2) _ assms(3), of "[]" "[]"] by (simp add: parseFileInfo_def)

section \<open>Round trips of the payloads\<close>

lemma meta_at_payload:
  assumes "i < length fs"
  shows "meta_at (h # concat (map fm_to_string_v fs)) i = Inr (fs ! i)"
  using assms
proof (induction fs arbitrary: i h)
  case Nil
  then show ?case by simp
next
  case (Cons f fs)
  show ?case
  proof (cases i)
    case 0
    then show ?thesis
      by (simp add: meta_at_def fm_to_string_v_def vec_nth_def)
  next
    case (Suc j)
    have "meta_at (h # concat (map fm_to_string_v (f # fs))) (Suc j) =
        meta_at (fm_type f # concat (map fm_to_string_v fs)) j"
      by (simp add: meta_at_def fm_to_string_v_def vec_nth_def numeral_eq_Suc)
    with Cons Suc show ?thesis by simp
  qed
qed

lemma PayloadToMetaData_MetaDataToPayload:
  assumes "int (length fs) \<le> int32_max"
  shows "PayloadToMetaData (MetaDataToPayload fs) = Inr fs"
proof -
  have "mapM (meta_at (MetaDataToPayload fs)) [0..<length fs] = Inr (map ((!) fs) [0..<length fs])"
    by (rule mapM_Inr) (simp add: MetaDataToPayload_def meta_at_payload)
  then show ?thesis
    using assms by (simp add: PayloadToMetaData_def MetaDataToPayload_def map_nth)
qed

definition files_ok :: "file_meta list \<Rightarrow> bool" where
  "files_ok fs \<longleftrightarrow> int (length fs) \<le> int32_max"

interpretation files_wire: wire_codec MetaDataToPayload PayloadToMetaData files_ok
  by unfold_locales (simp add: files_ok_def PayloadToMetaData_MetaDataToPayload)

text \<open>What a post keeps on the wire: not its platform id, its origin or its retry mark.\<close>

definition post_on_wire :: "platform_post \<Rightarrow> bool" where
  "post_on_wire p \<longleftrightarrow> pp_pid p = [] \<and> pp_o_pid p = NO_ORIGIN_PLATFORM_EXISTS \<and> \<not> pp_retry p \<and>
     pp_id p \<noteq> [] \<and> pp_time p \<noteq> []"

lemma FromPayload_GetPayload:
  assumes "pp_id p \<noteq> []" and "pp_time p \<noteq> []"
  shows "FromPayload uuid now (GetPayload_post p) =
    Inr (p\<lparr>pp_pid := [], pp_o_pid := NO_ORIGIN_PLATFORM_EXISTS, pp_retry := False\<rparr>)"
  using assms by (simp add: FromPayload_def GetPayload_post_def vec_at_def)

interpretation post_wire: wire_codec GetPayload_post "FromPayload uuid now" post_on_wire
  for uuid now
  by unfold_locales (simp add: FromPayload_GetPayload post_on_wire_def)

section \<open>Properties\<close>

text \<open>
  \<open>parseFileInfo\<close> reads the client's list of files: every entry, in order, with its name and
  its timestamp, for a list of fewer than 256 bytes.
\<close>

theorem file_info_is_read:
  assumes "es \<noteq> []" and "\<forall>e \<in> set es. entry_ok e" and "length (concat (map entry_text es)) < 256"
  shows "parseFileInfo (concat (map entry_text es)) = Inr (map entry_info es)"
  by (rule parseFileInfo_entries [OF assms])

theorem file_info_is_read_witness:
  "parseFileInfo (concat (map entry_text [(''1580057341'', ''cat.jpg'', ''image''), (''1580057342'', ''b.mp4'', ''video'')]))
     = Inr (map entry_info [(''1580057341'', ''cat.jpg'', ''image''), (''1580057342'', ''b.mp4'', ''video'')])"
  by (rule file_info_is_read) (simp_all add: entry_ok_def entry_text_def)

text \<open>
  The counter of \<open>findIndexAfter\<close> is one byte wide: on a list of 256 bytes or more, the
  search for a delimiter that is not there never ends, and neither does \<open>parseFileInfo\<close>.
\<close>

theorem long_file_info_never_ends:
  assumes "256 \<le> length s" and "CHR ''|'' \<notin> set s"
  shows "findIndexAfter s i (CHR ''|'') = None \<and> parseFileInfo s = Inl Diverges"
proof -
  have "findIndexAfter s i (CHR ''|'') = None" for i
    by (rule findIndexAfter_loops [OF assms])
  then show ?thesis
    by (simp add: parseFileInfo_def parse_files.simps [of s 0])
qed

theorem long_file_info_never_ends_witness: 
  "findIndexAfter (replicate 300 (CHR ''a'')) 0 (CHR ''|'') = None \<and>
   parseFileInfo (replicate 300 (CHR ''a'')) = Inl Diverges"
  by (rule long_file_info_never_ends) simp_all

text \<open>
  The payload of a list of files is read back as that list, and the payload of a post as the
  post, up to what a payload does not carry: the post's platform id, origin and retry mark.
\<close>

theorem payloads_are_read:
  assumes "int (length fs) \<le> int32_max" and "pp_id p \<noteq> []" and "pp_time p \<noteq> []"
  shows "PayloadToMetaData (MetaDataToPayload fs) = Inr fs \<and>
    FromPayload uuid now (GetPayload_post p) =
      Inr (p\<lparr>pp_pid := [], pp_o_pid := NO_ORIGIN_PLATFORM_EXISTS, pp_retry := False\<rparr>)"
  using files_wire.dec_enc [of fs] assms by (simp add: files_ok_def FromPayload_GetPayload)

theorem payloads_are_read_witness:
  "PayloadToMetaData (MetaDataToPayload [fm_clear \<lparr>fm_task_id = ''7'', fm_id = ''1'', fm_name = ''a'', fm_type = ''t''\<rparr>])
     = Inr [fm_clear \<lparr>fm_task_id = ''7'', fm_id = ''1'', fm_name = ''a'', fm_type = ''t''\<rparr>] \<and>
   FromPayload ''u'' 5 (GetPayload_post (empty_post\<lparr>pp_id := ''9'', pp_time := ''100'', pp_retry := True\<rparr>)) =
     Inr ((empty_post\<lparr>pp_id := ''9'', pp_time := ''100'', pp_retry := True\<rparr>)
       \<lparr>pp_pid := [], pp_o_pid := NO_ORIGIN_PLATFORM_EXISTS, pp_retry := False\<rparr>)"
  by (rule payloads_are_read) (simp_all add: int32_max_def)

text \<open>
  The comparison of tasks is no comparison: because of a comma in \<open>operator==\<close>, any two
  tasks are equal and no two are different.
\<close>

theorem all_tasks_are_equal: "task_eq t1 t2 \<and> \<not> task_neq t1 t2"
  by (simp add: task_eq_def task_neq_def)

end
