(* ===== verification/TaskHandlers.thy ===== *)
theory TaskHandlers
  imports TaskModel
begin

text \<open>
  The two task handlers, \<open>task_handlers/generic.cpp\<close> and \<open>instagram.cpp\<close>: from a request's
  argument vector they make the task's directory, write its environment file and fill in a
  task. \<open>prepareTask\<close> returns the task it returns, the task it leaves behind \<open>task_ptr\<close>
  (\<open>None\<close> for a null pointer) and the file system.

  Shown: the task of a prepared request validates, its environment file holds the request's
  text fields as \<open>Task::GetToken\<close> reads them, and a directory that cannot be made leaves
  the caller's task as it was.
\<close>

type_synonym prepared = "task \<times> task option \<times> fsys"

definition env_assign :: "string \<Rightarrow> string \<Rightarrow> string" where
  "env_assign k v = k @ CHR ''='' # dquote # v @ [dquote, unit_sep, newline]"

text \<open>
  The loop that prefixes each file name has a \<open>uint8_t\<close> counter: with 256 files it never
  reaches the end of the vector.
\<close>

definition prefix_files :: "fsys \<Rightarrow> string \<Rightarrow> file_info list \<Rightarrow> file_info list res" where
  "prefix_files fs uuid files =
     (if length files < 256
      then Inr (map (\<lambda>f. (fs_exe fs @ ''/data/'' @ uuid @ ''/'' @ fst f, snd f)) files)
      else Inl Diverges)"

definition GENERIC_TASK_EXECUTION_FLAGS :: string where
  "GENERIC_TASK_EXECUTION_FLAGS =
     ''--description=$DESCRIPTION --media=$FILE_TYPE --header=$HEADER --user=$USER''"

definition IG_TASK_EXECUTION_FLAGS :: string where
  "IG_TASK_EXECUTION_FLAGS =
     ''--description=$DESCRIPTION --hashtags=$HASHTAGS --requested_by=$REQUESTED_BY '' @
     ''--media=$FILE_TYPE --requested_by_phrase=$REQUESTED_BY_PHRASE '' @
     ''--promote_share=$PROMOTE_SHARE --link_bio=$LINK_BIO --header=$HEADER --user=$USER''"

definition generic_env :: "string \<Rightarrow> string \<Rightarrow> string \<Rightarrow> string \<Rightarrow> bool \<Rightarrow> bool \<Rightarrow> string" where
  "generic_env header description user runtime_args has_files is_video =
     ''#!/usr/bin/env bash'' @ [newline]
     @ (if header \<noteq> [] then env_assign ''HEADER'' header else [])
     @ (if description \<noteq> [] then env_assign ''DESCRIPTION'' description else [])
     @ (if user \<noteq> [] then env_assign ''USER'' user else [])
     @ (if runtime_args \<noteq> [] then env_assign ''R_ARGS'' runtime_args else [])
     @ (if has_files then env_assign ''FILE_TYPE'' (if is_video then ''video'' else ''image'') else [])"

definition generic_prepareTask :: "fsys \<Rightarrow> string list \<Rightarrow> string \<Rightarrow> task option \<Rightarrow> prepared res" where
  "generic_prepareTask fs argv uuid task_ptr =
     (let (ok, fs1) = CreateTaskDirectory fs uuid in
      if \<not> ok then Inr (empty_task, task_ptr, fs1)
      else
        bind (vec_at argv 0) (\<lambda>mask. bind (vec_at argv 1) (\<lambda>file_info.
        bind (vec_at argv 2) (\<lambda>datetime. bind (vec_at argv 3) (\<lambda>description.
        bind (vec_at argv 4) (\<lambda>video. bind (vec_at argv 5) (\<lambda>header.
        bind (vec_at argv 6) (\<lambda>user. bind (vec_at argv 7) (\<lambda>recurring.
        bind (vec_at argv 8) (\<lambda>notify. bind (vec_at argv 9) (\<lambda>runtime_args.
        let has_files = (file_info \<noteq> []) in
        bind (if has_files then bind (parseFileInfo file_info) (prefix_files fs1 uuid) else Inr []) (\<lambda>files.
        let env = generic_env header description user runtime_args has_files (video = ''1'');
            (env_filename, fs2) = SaveEnvFile fs1 env uuid
        in bind (stoi mask) (\<lambda>m. bind (stoi recurring) (\<lambda>r.
             let base = (case task_ptr of None \<Rightarrow> empty_task | Some t \<Rightarrow> t);
                 t = base\<lparr>tk_mask := m, tk_datetime := datetime, tk_file := (files \<noteq> []),
                          tk_files := files, tk_env := env_filename,
                          tk_flags := GENERIC_TASK_EXECUTION_FLAGS,
                          tk_recurring := r, tk_notify := (notify = ''1'')\<rparr>
             in Inr (t, map_option (\<lambda>_. t) task_ptr, fs2)))))))))))))))"

text \<open>\<open>Create\<close>: a task with no files, prepared now, by the administrator if no user is given.\<close>

definition generic_Create ::
  "fsys \<Rightarrow> string \<Rightarrow> int \<Rightarrow> string \<Rightarrow> string \<Rightarrow> string \<Rightarrow> string \<Rightarrow> string \<Rightarrow> string list \<Rightarrow> (task \<times> fsys) res" where
  "generic_Create fs admin now uuid app_mask description header user args =
     (let username = (if user = [] then admin else user);
          argv = [app_mask, [], int_to_string now, description, ''false'', header, username,
                  ''0'', ''0'', Tokenize args (CHR '' '')]
      in bind (generic_prepareTask fs argv uuid (Some empty_task)) (\<lambda>(_, ptr, fs').
           Inr (case ptr of None \<Rightarrow> empty_task | Some t \<Rightarrow> t, fs')))"

definition ig_env :: "string \<Rightarrow> string \<Rightarrow> string \<Rightarrow> string \<Rightarrow> string \<Rightarrow> string \<Rightarrow> string \<Rightarrow> bool \<Rightarrow> string \<Rightarrow> string" where
  "ig_env header description hashtags requested_by phrase share bio is_video user =
     ''#!/usr/bin/env bash'' @ [newline]
     @ env_assign ''HEADER'' header @ env_assign ''DESCRIPTION'' description
     @ env_assign ''HASHTAGS'' hashtags @ env_assign ''REQUESTED_BY'' requested_by
     @ env_assign ''REQUESTED_BY_PHRASE'' phrase @ env_assign ''PROMOTE_SHARE'' share
     @ env_assign ''LINK_BIO'' bio
     @ env_assign ''FILE_TYPE'' (if is_video then ''video'' else ''image'')
     @ env_assign ''USER'' user"

definition ig_prepareTask :: "fsys \<Rightarrow> string list \<Rightarrow> string \<Rightarrow> task option \<Rightarrow> prepared res" where
  "ig_prepareTask fs argv uuid task_ptr =
     (let (ok, fs1) = CreateTaskDirectory fs uuid in
      if \<not> ok then Inr (empty_task, task_ptr, fs1)
      else
        bind (vec_at argv 0) (\<lambda>mask. bind (vec_at argv 1) (\<lambda>file_info.
        bind (vec_at argv 2) (\<lambda>datetime. bind (vec_at argv 3) (\<lambda>description.
        bind (vec_at argv 4) (\<lambda>hashtags. bind (vec_at argv 5) (\<lambda>requested_by.
        bind (vec_at argv 6) (\<lambda>requested_by_phrase. bind (vec_at argv 7) (\<lambda>promote_share.
        bind (vec_at argv 8) (\<lambda>link_bio. bind (vec_at argv 9) (\<lambda>video.
        bind (vec_at argv 10) (\<lambda>header. bind (vec_at argv 11) (\<lambda>user.
        bind (parseFileInfo file_info) (\<lambda>infos.
        bind (prefix_files fs1 uuid infos) (\<lambda>files.
        let env = ig_env header description hashtags requested_by requested_by_phrase
                          promote_share link_bio (video = ''1'') user;
            (env_filename, fs2) = SaveEnvFile fs1 env uuid
        in bind (stoi mask) (\<lambda>m.
             let base = (case task_ptr of None \<Rightarrow> empty_task | Some t \<Rightarrow> t);
                 t = base\<lparr>tk_mask := m, tk_datetime := datetime, tk_file := (files \<noteq> []),
                          tk_files := files, tk_env := env_filename,
                          tk_flags := IG_TASK_EXECUTION_FLAGS\<rparr>
             in Inr (t, map_option (\<lambda>_. t) task_ptr, fs2)))))))))))))))))"

section \<open>The environment file of a prepared task\<close>

lemma env_assign_line: "env_assign k v = env_line (k, v) @ [newline]"
  by (simp add: env_assign_def env_line_def)

definition generic_pairs :: "string \<Rightarrow> string \<Rightarrow> string \<Rightarrow> string \<Rightarrow> bool \<Rightarrow> bool \<Rightarrow> (string \<times> string) list" where
  "generic_pairs header description user runtime_args has_files is_video =
     (if header \<noteq> [] then [(''HEADER'', header)] else [])
     @ (if description \<noteq> [] then [(''DESCRIPTION'', description)] else [])
     @ (if user \<noteq> [] then [(''USER'', user)] else [])
     @ (if runtime_args \<noteq> [] then [(''R_ARGS'', runtime_args)] else [])
     @ (if has_files then [(''FILE_TYPE'', if is_video then ''video'' else ''image'')] else [])"

lemma generic_env_pairs: "generic_env h d u r f v = CreateEnvFile (generic_pairs h d u r f v)"
  by (simp add: generic_env_def generic_pairs_def CreateEnvFile_def env_assign_line)

lemma ig_env_pairs:
  "ig_env a b c d e f g v u = CreateEnvFile
     [(''HEADER'', a), (''DESCRIPTION'', b), (''HASHTAGS'', c), (''REQUESTED_BY'', d),
      (''REQUESTED_BY_PHRASE'', e), (''PROMOTE_SHARE'', f), (''LINK_BIO'', g),
      (''FILE_TYPE'', if v then ''video'' else ''image''), (''USER'', u)]"
  by (simp add: ig_env_def CreateEnvFile_def env_assign_line)

text \<open>
  The server runs where its executable is: the relative path that the handler stores is the
  file it wrote.
\<close>

definition task_fs :: "fsys \<Rightarrow> bool" where
  "task_fs fs \<longleftrightarrow> fs_exe fs = fs_cwd fs \<and> fs_cwd fs \<noteq> [] \<and> hd (fs_cwd fs) = CHR ''/''
     \<and> fs_cwd fs @ ''/data'' \<in> set (fs_dirs fs)"

definition fresh_uuid :: "fsys \<Rightarrow> string \<Rightarrow> bool" where
  "fresh_uuid fs uuid \<longleftrightarrow> uuid \<noteq> [] \<and> CHR ''/'' \<notin> set uuid \<and>
     fs_cwd fs @ ''/data/'' @ uuid \<notin> set (fs_dirs fs) \<and>
     fs_files fs (fs_cwd fs @ ''/data/'' @ uuid) = None \<and>
     fs_cwd fs @ ''/data/'' @ uuid @ ''/v.env'' \<notin> set (fs_dirs fs)"

lemma find_last_char_append [simp]:
  "c \<notin> set t \<Longrightarrow> find_last_char c (s @ c # t) = Some (length s)"
proof (induction s)
  case Nil
  have "find_last_char c t = None" if "c \<notin> set t" for t
    using that by (induction t) auto
  with Nil show ?case by simp
qed simp

lemma parent_dir_append: "CHR ''/'' \<notin> set t \<Longrightarrow> parent_dir (s @ CHR ''/'' # t) = s"
  by (simp add: parent_dir_def)

lemma resolve_abs: "p \<noteq> [] \<Longrightarrow> hd p = CHR ''/'' \<Longrightarrow> resolve fs p = p"
  by (simp add: resolve_def)

lemma resolve_data [simp]:
  "resolve fs (''data/'' @ p) = fs_cwd fs @ ''/data/'' @ p"
  by (simp add: resolve_def)

lemma CreateTaskDirectory_fresh:
  assumes "task_fs fs" and "fresh_uuid fs uuid"
  shows "CreateTaskDirectory fs uuid =
    (True, fs\<lparr>fs_dirs := (fs_cwd fs @ ''/data/'' @ uuid) # fs_dirs fs\<rparr>)"
proof -
  have "parent_dir (fs_cwd fs @ ''/data/'' @ uuid) = fs_cwd fs @ ''/data''"
    using parent_dir_append [of uuid "fs_cwd fs @ ''/data''"] assms(2) by (simp add: fresh_uuid_def)
  moreover have "resolve fs (''data/'' @ uuid) = fs_cwd fs @ ''/data/'' @ uuid"
    by (rule resolve_data)
  ultimately show ?thesis
    using assms by (simp add: CreateTaskDirectory_def CreateDirectory_def Let_def is_dir_def
        task_fs_def fresh_uuid_def)
qed

lemma SaveEnvFile_fresh:
  assumes "task_fs fs" and "fresh_uuid fs uuid" and "CreateTaskDirectory fs uuid = (True, fs1)"
  shows "SaveEnvFile fs1 env uuid =
    (''data/'' @ uuid @ ''/v.env'',
     fs1\<lparr>fs_files := (fs_files fs1)(fs_cwd fs @ ''/data/'' @ uuid @ ''/v.env'' \<mapsto> env)\<rparr>)"
proof -
  let ?d = "fs_cwd fs @ ''/data/'' @ uuid"
  have fs1: "fs1 = fs\<lparr>fs_dirs := ?d # fs_dirs fs\<rparr>"
    using CreateTaskDirectory_fresh [OF assms(1,2)] assms(3) by simp
  have r: "resolve fs' (?d @ x) = ?d @ x" for fs' x
    using assms(1) by (simp add: task_fs_def resolve_abs)
  have p: "parent_dir (?d @ ''/v.env'') = ?d"
    using parent_dir_append [of "''v.env''" ?d] by simp
  show ?thesis
    using assms(1,2) r [of _ "[]"] r [of _ "''/v.env''"] p
    by (simp add: SaveEnvFile_def Let_def fs1 write_file_def is_dir_def task_fs_def fresh_uuid_def)
qed

lemma read_saved_env:
  assumes "task_fs fs" and "fresh_uuid fs uuid" and "CreateTaskDirectory fs uuid = (True, fs1)"
  shows "read_file (snd (SaveEnvFile fs1 env uuid)) (''data/'' @ uuid @ ''/v.env'') = env"
proof -
  have "fs_cwd fs1 = fs_cwd fs"
    using CreateTaskDirectory_fresh [OF assms(1,2)] assms(3) by auto
  then show ?thesis
    using SaveEnvFile_fresh [OF assms] resolve_data [of _ "uuid @ ''/v.env''"]
    by (simp add: read_file_def resolve_def)
qed

lemma generic_prepareTask_fails:
  "\<not> fst (CreateTaskDirectory fs uuid) \<Longrightarrow>
   generic_prepareTask fs argv uuid ptr = Inr (empty_task, ptr, snd (CreateTaskDirectory fs uuid))"
  by (cases "CreateTaskDirectory fs uuid") (simp add: generic_prepareTask_def)

text \<open>A request with no files, in one equation.\<close>

lemma generic_prepareTask_no_files:
  assumes "task_fs fs" and "fresh_uuid fs uuid"
    and "argv = [msk, [], datetime, description, video, header, user, recurring, notify, runtime]"
    and "stoi msk = Inr m" and "stoi recurring = Inr r"
  shows "\<exists>t fs'. generic_prepareTask fs argv uuid (Some t0) = Inr (t, Some t, fs') \<and>
    t = t0\<lparr>tk_mask := m, tk_datetime := datetime, tk_file := False, tk_files := [],
           tk_env := ''data/'' @ uuid @ ''/v.env'', tk_flags := GENERIC_TASK_EXECUTION_FLAGS,
           tk_recurring := r, tk_notify := (notify = ''1'')\<rparr> \<and>
    read_file fs' (tk_env t) = generic_env header description user runtime False (video = ''1'')"
proof -
  obtain fs1 where fs1: "CreateTaskDirectory fs uuid = (True, fs1)"
    using CreateTaskDirectory_fresh [OF assms(1,2)] by blast
  define env where "env = generic_env header description user runtime False (video = ''1'')"
  obtain fs2 where sv: "SaveEnvFile fs1 env uuid = (''data/'' @ uuid @ ''/v.env'', fs2)"
    using SaveEnvFile_fresh [OF assms(1,2) fs1] by blast
  have rd: "read_file fs2 (''data/'' @ uuid @ ''/v.env'') = env"
    using read_saved_env [OF assms(1,2) fs1, of env] by (simp add: sv)
  have "generic_prepareTask fs argv uuid (Some t0) =
    (let t = t0\<lparr>tk_mask := m, tk_datetime := datetime, tk_file := False, tk_files := [],
           tk_env := ''data/'' @ uuid @ ''/v.env'', tk_flags := GENERIC_TASK_EXECUTION_FLAGS,
           tk_recurring := r, tk_notify := (notify = ''1'')\<rparr> in Inr (t, Some t, fs2))"
    unfolding generic_prepareTask_def fs1 assms(3)
    using sv by (simp add: vec_at_def assms(4,5) Let_def env_def)
  then show ?thesis using rd by (simp add: Let_def env_def)
qed

section \<open>Properties\<close>

text \<open>
  C28: a request to the generic handler with ten arguments and no files, whose mask and recurrence are numbers and whose
  time is not empty, where the program runs in its own directory, which has a directory \<open>data\<close>, and under a directory name not used yet there, with a header, a description and a
  user that are not empty and plain, that is without a double quote, without the separator of the
  environment file and without a blank at either end, the header and the description on one line, gives a
  task that validates, with the mask and the recurrence of the request, and the task's environment file holds the header, the description and the
  user of the request as \<open>Task::GetToken\<close> reads them.
\<close>

theorem prepared_task_reads_back:
  assumes "task_fs fs" and "fresh_uuid fs uuid"
    and "argv = [msk, [], datetime, description, video, header, user, recurring, notify, runtime]"
    and "stoi msk = Inr m" and "stoi recurring = Inr r" and "datetime \<noteq> []"
    and "plain_value header" "plain_value description" "plain_value user"
    and "newline \<notin> set header" "newline \<notin> set description"
    and "header \<noteq> []" "description \<noteq> []" "user \<noteq> []"
  shows "\<exists>t fs'. generic_prepareTask fs argv uuid (Some empty_task) = Inr (t, Some t, fs') \<and>
    task_validate t \<and> tk_mask t = m \<and> tk_recurring t = r \<and>
    GetToken_task fs' t ''HEADER'' = Inr header \<and>
    GetToken_task fs' t ''DESCRIPTION'' = Inr description \<and>
    GetToken_task fs' t ''USER'' = Inr user"
proof -
  obtain t fs' where t: "generic_prepareTask fs argv uuid (Some empty_task) = Inr (t, Some t, fs')"
    and eq: "t = empty_task\<lparr>tk_mask := m, tk_datetime := datetime, tk_file := False, tk_files := [],
           tk_env := ''data/'' @ uuid @ ''/v.env'', tk_flags := GENERIC_TASK_EXECUTION_FLAGS,
           tk_recurring := r, tk_notify := (notify = ''1'')\<rparr>"
    and rd: "read_file fs' (tk_env t) = generic_env header description user runtime False (video = ''1'')"
    using generic_prepareTask_no_files [OF assms(1-5), of empty_task] by blast
  let ?post = "(if runtime \<noteq> [] then [(''R_ARGS'', runtime)] else []) @ []"
  have pairs: "generic_pairs header description user runtime False v =
      (''HEADER'', header) # (''DESCRIPTION'', description) # (''USER'', user) # ?post" for v
    using assms(12-14) by (simp add: generic_pairs_def)
  have k1: "env_key_ok ''HEADER'' []" and k2: "env_key_ok ''DESCRIPTION'' [(''HEADER'', header)]"
    and k3: "env_key_ok ''USER'' [(''HEADER'', header), (''DESCRIPTION'', description)]"
    using assms(10,11) by (simp_all add: env_key_ok_def)
  note e1 = envf.token_render [OF k1 assms(7), of "(''DESCRIPTION'', description) # (''USER'', user) # ?post"]
  note e2 = envf.token_render [OF k2 assms(8), of "(''USER'', user) # ?post"]
  note e3 = envf.token_render [OF k3 assms(9), of ?post]
  have "env_token (read_file fs' (tk_env t)) ''HEADER'' False = Inr header"
    "env_token (read_file fs' (tk_env t)) ''DESCRIPTION'' False = Inr description"
    "env_token (read_file fs' (tk_env t)) ''USER'' False = Inr user"
    unfolding rd generic_env_pairs pairs using e1 e2 e3 by simp_all
  moreover have "task_validate t"
    using assms(6) by (simp add: eq task_validate_def GENERIC_TASK_EXECUTION_FLAGS_def)
  moreover have "tk_mask t = m" "tk_recurring t = r"
    by (simp_all add: eq)
  ultimately show ?thesis
    using t by (auto simp: GetToken_task_def ReadEnvToken_def ReadEnvFile_def)
qed

theorem prepared_task_reads_back_witness:
  "\<exists>t fs'. generic_prepareTask sample_fs
       [''16'', [], ''1600000000'', ''a cat'', ''0'', ''Post'', ''bob'', ''2'', ''1'', []] ''u1'' (Some empty_task)
         = Inr (t, Some t, fs') \<and>
    task_validate t \<and> tk_mask t = 16 \<and> tk_recurring t = 2 \<and>
    GetToken_task fs' t ''HEADER'' = Inr ''Post'' \<and>
    GetToken_task fs' t ''DESCRIPTION'' = Inr ''a cat'' \<and>
    GetToken_task fs' t ''USER'' = Inr ''bob''"
proof (rule prepared_task_reads_back [OF _ _ refl])
  show "task_fs sample_fs" by (simp add: task_fs_def sample_fs_def)
  show "fresh_uuid sample_fs ''u1''" by (simp add: fresh_uuid_def sample_fs_def)
  show "stoi ''16'' = Inr 16" "stoi ''2'' = Inr 2"
    by (code_simp)+
qed (simp_all add: plain_value_def)

text \<open>
  The Instagram handler has no check for a request without files: once the directory is made,
  an empty file list throws \<open>std::out_of_range\<close>, before anything is written.
\<close>

theorem instagram_needs_files:
  assumes "fst (CreateTaskDirectory fs uuid)" and "12 \<le> length argv" and "argv ! 1 = []"
  shows "ig_prepareTask fs argv uuid ptr = Inl OutOfRange"
proof -
  have "parseFileInfo [] = Inl OutOfRange"
    by (simp add: parseFileInfo_def parse_files.simps findIndexAfter.simps substr_def u32_def)
  then show ?thesis
    using assms by (cases "CreateTaskDirectory fs uuid") (simp add: ig_prepareTask_def vec_at_def)
qed

theorem instagram_needs_files_witness:
  "ig_prepareTask sample_fs (replicate 12 []) ''u1'' None = Inl OutOfRange"
proof (rule instagram_needs_files)
  have "task_fs sample_fs" "fresh_uuid sample_fs ''u1''"
    by (simp_all add: task_fs_def fresh_uuid_def sample_fs_def)
  then show "fst (CreateTaskDirectory sample_fs ''u1'')"
    by (simp add: CreateTaskDirectory_fresh)
qed simp_all

end
