(* ===== verification/Sql.thy ===== *)
theory Sql
  imports StringTools
begin

text \<open>
  The SQL the server sends: the query structures of \<open>database/db_structs.hpp\<close> and the
  statement builders of \<open>src/helpers.hpp\<close> (\<open>FilterVisitor\<close>, \<open>SelectVisitor\<close>, the insert,
  update and delete statements), character by character.

  The second half is the reader's side: \<open>sql_literal\<close> reads a quoted literal as SQL does (a
  doubled quote is a quote), \<open>read_conjuncts\<close> and \<open>read_rows\<close> read a filter and a list of
  value rows with it. Shown: a filter that \<open>QueryFilter::Add\<close> built and a row of values read
  back as what was given, whatever characters the values hold; a statement that changes rows
  always has a filter; the values of an update are not quoted this way.
\<close>

section \<open>Query structures\<close>

datatype query_type = Q_INSERT | Q_DELETE | Q_UPDATE | Q_SELECT

type_synonym query_filter = "(string \<times> string) list"

text \<open>
  \<open>QueryFilter::Add\<close>: keys and values in turn. An odd number throws; no argument at all makes
  \<open>v.size() - 1\<close> wrap, and the loop reads past the end.
\<close>

fun Add_pairs :: "string list \<Rightarrow> query_filter" where
  "Add_pairs (key # val # v) = (if val = [] then [] else [(key, DoubleSingleQuotes val)]) @ Add_pairs v"
| "Add_pairs v = []"

definition QueryFilter_Add :: "query_filter \<Rightarrow> string list \<Rightarrow> query_filter res" where
  "QueryFilter_Add f v =
     (if odd (length v) then Inl InvalidArgument
      else if v = [] then Inl Undefined
      else Inr (f @ Add_pairs v))"

definition CreateFilter :: "string list \<Rightarrow> query_filter res" where
  "CreateFilter v = QueryFilter_Add [] v"

datatype filter_term =
    GenericFilter string string string             \<comment> \<open>a, b, comparison\<close>
  | CompFilter string string string                \<comment> \<open>a, b, sign\<close>
  | CompBetweenFilter string string string         \<comment> \<open>field, a, b\<close>
  | MultiOptionFilter string string "string list"  \<comment> \<open>a, comparison, options\<close>
  | QueryFilterTerm query_filter
  | QueryComparisonFilter "(string \<times> string \<times> string) list"

record order_filter =
  of_field :: string
  of_order :: string

type_synonym limit_filter = string

datatype join_type = INNER | OUTER

record join =
  j_table :: string
  j_field :: string
  j_join_table :: string
  j_join_field :: string
  j_type :: join_type

record db_query =
  dq_table :: string
  dq_fields :: "string list"
  dq_type :: query_type
  dq_values :: "string list"
  dq_filter :: query_filter

record insert_return_query =
  ir_table :: string
  ir_fields :: "string list"
  ir_values :: "string list"
  ir_returning :: string

record update_return_query =
  ur_table :: string
  ur_fields :: "string list"
  ur_values :: "string list"
  ur_filter :: query_filter
  ur_returning :: string

section \<open>Statement builders\<close>

text \<open>The loops that put a delimiter before every item but the first.\<close>

fun delimited :: "string \<Rightarrow> string \<Rightarrow> string list \<Rightarrow> string" where
  "delimited delim nxt [] = []"
| "delimited delim nxt (x # xs) = delim @ x @ delimited nxt nxt xs"

definition fields_string :: "string list \<Rightarrow> string" where
  "fields_string flds = delimited [] '','' flds"

text \<open>
  \<open>values_string\<close>: the value with number \<open>index\<close> closes a row where \<open>index\<close> is a multiple of
  the number of fields. The last two characters are erased whatever they are. With no field
  the remainder is by zero.
\<close>

definition sql_value :: "string \<Rightarrow> string" where
  "sql_value v = squote # (if v = [] then ''NULL'' else DoubleSingleQuotes v) @ [squote]"

fun values_loop :: "nat \<Rightarrow> nat \<Rightarrow> string list \<Rightarrow> string" where
  "values_loop n index [] = []"
| "values_loop n index (v # vs) =
     sql_value v @ (if index mod n = 0 then ''),('' else '','') @ values_loop n (index + 1) vs"

definition erase_last :: "nat \<Rightarrow> string \<Rightarrow> string" where
  "erase_last k s = take (length s - k) s"

definition values_string :: "string list \<Rightarrow> nat \<Rightarrow> string res" where
  "values_string values number_of_fields =
     (if values \<noteq> [] \<and> number_of_fields = 0 then Inl Undefined
      else Inr (erase_last 2 (''VALUES ('' @ values_loop number_of_fields 1 values)))"

definition order_string :: "order_filter \<Rightarrow> string" where
  "order_string f = '' ORDER BY '' @ of_field f @ '' '' @ of_order f"

definition limit_string :: "string \<Rightarrow> string" where
  "limit_string number = '' LIMIT '' @ number"

definition get_join_string :: "join list \<Rightarrow> string" where
  "get_join_string joins =
     (let join_s = concat (map (\<lambda>j.
            (if j_type j = INNER then ''INNER JOIN '' else ''LEFT OUTER JOIN '')
            @ j_table j @ '' ON '' @ j_table j @ ''.'' @ j_field j @ ''='' @ j_join_table j
            @ ''.'' @ j_join_field j @ '' '') joins)
      in if join_s = [] then [] else butlast join_s)"

definition insert_statement :: "db_query \<Rightarrow> string res" where
  "insert_statement q =
     bind (values_string (dq_values q) (length (dq_fields q))) (\<lambda>vs.
       Inr (''INSERT INTO '' @ dq_table q @ ''('' @ fields_string (dq_fields q) @ '') '' @ vs))"

definition insert_statement_returning :: "insert_return_query \<Rightarrow> string \<Rightarrow> string res" where
  "insert_statement_returning q returning =
     bind (values_string (ir_values q) (length (ir_fields q))) (\<lambda>vs.
       Inr (''INSERT INTO '' @ ir_table q @ ''('' @ fields_string (ir_fields q) @ '') '' @ vs @
            (if returning = [] then [] else '' RETURNING '' @ returning)))"

definition filter_pairs :: "query_filter \<Rightarrow> string" where
  "filter_pairs fs = delimited [] '' AND '' (map (\<lambda>f. fst f @ ''='' @ squote # snd f @ [squote]) fs)"

text \<open>\<open>FilterVisitor\<close>, one equation for each overload of its call operator.\<close>

fun filter_statement :: "filter_term \<Rightarrow> string res" where
  "filter_statement (GenericFilter a b comparison) = Inr (a @ comparison @ b)"
| "filter_statement (CompFilter a b sign) = Inr (a @ sign @ b)"
| "filter_statement (CompBetweenFilter field a b) = Inr (field @ '' BETWEEN '' @ a @ '' AND '' @ b)"
| "filter_statement (MultiOptionFilter a comparison options) =
     Inr (a @ '' '' @ comparison @ '' ('' @ delimited [] '','' options @ '')'')"
| "filter_statement (QueryFilterTerm fs) = Inr (filter_pairs fs)"
| "filter_statement (QueryComparisonFilter fs) =
     bind (vec_nth fs 0) (\<lambda>(a, b, c). Inr (a @ b @ c))"

text \<open>
  The \<open>SET\<close> clause of an update: the values are pasted as they are. The counter is a
  \<open>uint8_t\<close>; with 256 values the loop has no end.
\<close>

definition set_clause :: "string list \<Rightarrow> string list \<Rightarrow> string res" where
  "set_clause flds values =
     (if length values \<noteq> length flds then Inr ''SET ''
      else if 256 \<le> length values then Inl Diverges
      else Inr (''SET '' @ delimited [] '',''
             (map (\<lambda>(field, val). field @ ''='' @ squote # val @ [squote]) (zip flds values))))"

definition update_statement :: "update_return_query \<Rightarrow> string \<Rightarrow> bool \<Rightarrow> string res" where
  "update_statement q returning multiple =
     (if ur_filter q \<noteq> [] \<and> \<not> multiple
      then bind (set_clause (ur_fields q) (ur_values q)) (\<lambda>update_string.
             Inr (''UPDATE '' @ ur_table q @ '' '' @ update_string @ '' '' @ ''WHERE '' @
                  filter_pairs (ur_filter q) @ '' RETURNING '' @ returning))
      else Inr [])"

definition delete_statement :: "db_query \<Rightarrow> string" where
  "delete_statement q =
     (case dq_filter q of
        [] \<Rightarrow> []
      | (k, v) # _ \<Rightarrow> ''DELETE FROM '' @ dq_table q @ '' '' @ ''WHERE '' @ k @ ''='' @
           squote # v @ squote # '' RETURNING '' @ k)"

text \<open>
  \<open>variant_filter_statement\<close>: both counters are \<open>uint8_t\<close>, compared as \<open>int\<close>s.
\<close>

fun variant_filter_loop :: "8 word \<Rightarrow> 8 word \<Rightarrow> filter_term list \<Rightarrow> string res" where
  "variant_filter_loop idx filter_count [] = Inr []"
| "variant_filter_loop idx filter_count (f # fs) =
     bind (filter_statement f) (\<lambda>s.
     bind (variant_filter_loop (idx + 1) filter_count fs) (\<lambda>rest.
       Inr (s @ (if uint idx < uint filter_count - 1 then '' AND '' else []) @ rest)))"

definition variant_filter_statement :: "filter_term list \<Rightarrow> string res" where
  "variant_filter_statement filters = variant_filter_loop 0 (of_nat (length filters)) filters"

section \<open>Select statements\<close>

definition select_head :: "string list \<Rightarrow> string \<Rightarrow> string" where
  "select_head flds table = ''SELECT '' @ fields_string flds @ '' FROM '' @ table"

definition UNSUPPORTED :: string where
  "UNSUPPORTED = ''SELECT 1''"

definition select_DatabaseQuery :: "db_query \<Rightarrow> string" where
  "select_DatabaseQuery q =
     (case dq_filter q of
        [] \<Rightarrow> select_head (dq_fields q) (dq_table q)
      | f # fs \<Rightarrow>
          if fs \<noteq> [] \<and> fst f = fst (hd fs)
          then select_head (dq_fields q) (dq_table q) @ '' WHERE '' @ fst f @ '' in ('' @
                 delimited [] '','' (map snd (f # fs)) @ '')''
          else select_head (dq_fields q) (dq_table q) @ '' WHERE '' @ filter_pairs (f # fs))"

definition select_Comparison :: "string \<Rightarrow> string list \<Rightarrow> (string \<times> string \<times> string) list \<Rightarrow> string" where
  "select_Comparison table flds flt =
     (case flt of
        [] \<Rightarrow> select_head flds table
      | [(a, b, c)] \<Rightarrow> select_head flds table @ '' WHERE '' @ a @ b @ c
      | _ \<Rightarrow> UNSUPPORTED)"

definition select_MultiVariant ::
  "string \<Rightarrow> string list \<Rightarrow> filter_term list \<Rightarrow> order_filter \<Rightarrow> limit_filter \<Rightarrow> string res" where
  "select_MultiVariant table flds flt order limit =
     (if flt = [] then Inr (select_head flds table)
      else bind (variant_filter_statement flt) (\<lambda>w.
        Inr (select_head flds table @ '' WHERE '' @ w
             @ (if of_field order \<noteq> [] then order_string order else [])
             @ (if limit \<noteq> [] then limit_string limit else []))))"

definition select_JoinVariant ::
  "string \<Rightarrow> string list \<Rightarrow> filter_term list \<Rightarrow> join list \<Rightarrow> string res" where
  "select_JoinVariant table flds flt joins =
     (if flt = [] then Inr (select_head flds table)
      else bind (variant_filter_statement flt) (\<lambda>w.
        Inr (select_head flds table @ '' '' @ get_join_string joins @ '' WHERE '' @ w)))"

definition select_ComparisonBetween :: "string \<Rightarrow> string list \<Rightarrow> filter_term list \<Rightarrow> string res" where
  "select_ComparisonBetween table flds flt =
     (case flt of
        [] \<Rightarrow> Inr (select_head flds table)
      | [f] \<Rightarrow> bind (filter_statement f) (\<lambda>s. Inr (select_head flds table @ '' WHERE '' @ s))
      | _ \<Rightarrow> Inr UNSUPPORTED)"

definition select_MultiFilter :: "string \<Rightarrow> string list \<Rightarrow> filter_term list \<Rightarrow> string res" where
  "select_MultiFilter table flds flt =
     (if flt = [] then Inr (select_head flds table)
      else bind (mapM filter_statement flt) (\<lambda>ss.
        Inr (select_head flds table @ '' WHERE '' @ delimited [] '' AND '' ss)))"

definition select_SimpleJoin :: "string \<Rightarrow> string list \<Rightarrow> query_filter \<Rightarrow> join \<Rightarrow> string" where
  "select_SimpleJoin table flds flt j =
     (if flt = [] then select_head flds table @ '' '' @ get_join_string [j]
      else select_head flds table @ '' '' @ get_join_string [j] @ '' WHERE '' @ filter_pairs flt)"

definition select_JoinFilters :: "string \<Rightarrow> string list \<Rightarrow> query_filter list \<Rightarrow> join list \<Rightarrow> string" where
  "select_JoinFilters table flds flt joins =
     (if flt = [] then select_head flds table
      else select_head flds table @ '' '' @ get_join_string joins @ '' WHERE '' @
             delimited [] '' AND '' (map filter_pairs flt))"

definition select_JoinFilter :: "string \<Rightarrow> string list \<Rightarrow> query_filter \<Rightarrow> join list \<Rightarrow> string" where
  "select_JoinFilter table flds flt joins =
     (if flt = [] then select_head flds table @ '' '' @ get_join_string joins
      else select_head flds table @ '' '' @ get_join_string joins @ '' WHERE '' @ filter_pairs flt)"

section \<open>The reader's side\<close>

text \<open>A literal, from behind its opening quote: its value and what follows.\<close>

fun sql_literal :: "string \<Rightarrow> (string \<times> string) option" where
  "sql_literal [] = None"
| "sql_literal [c] = (if c = squote then Some ([], []) else None)"
| "sql_literal (c # d # s) =
     (if c \<noteq> squote then map_option (\<lambda>(v, r). (c # v, r)) (sql_literal (d # s))
      else if d = squote then map_option (\<lambda>(v, r). (squote # v, r)) (sql_literal s)
      else Some ([], d # s))"

lemma sql_literal_plain [simp]:
  "c \<noteq> squote \<Longrightarrow> sql_literal (c # s) = map_option (\<lambda>(v, r). (c # v, r)) (sql_literal s)"
  by (cases s) auto

lemma sql_literal_quote [simp]:
  "sql_literal (squote # squote # s) = map_option (\<lambda>(v, r). (squote # v, r)) (sql_literal s)"
  by simp

lemma sql_literal_end [simp]:
  "rest = [] \<or> hd rest \<noteq> squote \<Longrightarrow> sql_literal (squote # rest) = Some ([], rest)"
  by (cases rest) auto

declare sql_literal.simps [simp del]

lemma sql_literal_quoted [simp]:
  "rest = [] \<or> hd rest \<noteq> squote \<Longrightarrow>
   sql_literal (DoubleSingleQuotes v @ squote # rest) = Some (v, rest)"
  by (induction v) auto

text \<open>A conjunction of \<open>key='value'\<close> terms.\<close>

fun read_conjuncts :: "nat \<Rightarrow> string \<Rightarrow> query_filter option" where
  "read_conjuncts 0 s = None"
| "read_conjuncts (Suc n) s =
     (case find_char CHR ''='' s of None \<Rightarrow> None
      | Some i \<Rightarrow>
          if length s \<le> i + 1 \<or> s ! (i + 1) \<noteq> squote then None
          else (case sql_literal (drop (i + 2) s) of None \<Rightarrow> None
            | Some (v, rest) \<Rightarrow>
                if rest = [] then Some [(take i s, v)]
                else if starts_with '' AND '' rest
                then map_option ((#) (take i s, v)) (read_conjuncts n (drop 5 rest))
                else None))"

lemma delimited_Cons: "delimited a b (x # xs) = a @ x @ (if xs = [] then [] else delimited b b xs)"
  by (cases xs) simp_all

lemma delimited_prefix: "xs \<noteq> [] \<Longrightarrow> delimited b c xs = b @ delimited [] c xs"
  by (cases xs) simp_all

lemma read_filter_pairs:
  assumes "fs \<noteq> []" and "\<forall>(k, v) \<in> set fs. CHR ''='' \<notin> set k" and "length fs \<le> n"
  shows "read_conjuncts n (filter_pairs (map (\<lambda>(k, v). (k, DoubleSingleQuotes v)) fs)) = Some fs"
  using assms
proof (induction fs arbitrary: n)
  case (Cons f fs)
  obtain k v where f: "f = (k, v)" by force
  from Cons.prems obtain m where n: "n = Suc m" by (cases n) auto
  from Cons.prems f have k: "CHR ''='' \<notin> set k" by auto
  show ?case
  proof (cases "fs = []")
    case True
    with f n k show ?thesis by (simp add: filter_pairs_def nth_append)
  next
    case False
    let ?t = "filter_pairs (map (\<lambda>(k, v). (k, DoubleSingleQuotes v)) fs)"
    have ne: "map (\<lambda>f. fst f @ ''='' @ squote # snd f @ [squote])
                (map (\<lambda>(k, v). (k, DoubleSingleQuotes v)) fs) \<noteq> []"
      using False by simp
    have "filter_pairs (map (\<lambda>(k, v). (k, DoubleSingleQuotes v)) (f # fs)) =
      k @ ''='' @ squote # DoubleSingleQuotes v @ squote # '' AND '' @ ?t"
      using delimited_prefix [OF ne, of "'' AND ''"] by (simp add: filter_pairs_def f)
    moreover have "read_conjuncts m ?t = Some fs"
      using Cons False n by auto
    ultimately show ?thesis
      using k by (simp add: n f nth_append)
  qed
qed simp

fun flat_pairs :: "(string \<times> string) list \<Rightarrow> string list" where
  "flat_pairs [] = []"
| "flat_pairs ((k, v) # xs) = k # v # flat_pairs xs"

lemma flat_pairs_even [simp]: "even (length (flat_pairs xs))"
  by (induction xs rule: flat_pairs.induct) auto

lemma flat_pairs_Nil [simp]: "flat_pairs xs = [] \<longleftrightarrow> xs = []"
  by (cases xs) auto

lemma Add_pairs_flat:
  "Add_pairs (flat_pairs xs) =
   map (\<lambda>(k, v). (k, DoubleSingleQuotes v)) (List.filter (\<lambda>(k, v). v \<noteq> []) xs)"
  by (induction xs rule: flat_pairs.induct) auto

lemma CreateFilter_flat:
  "xs \<noteq> [] \<Longrightarrow> CreateFilter (flat_pairs xs) =
   Inr (map (\<lambda>(k, v). (k, DoubleSingleQuotes v)) (List.filter (\<lambda>(k, v). v \<noteq> []) xs))"
  by (simp add: CreateFilter_def QueryFilter_Add_def Add_pairs_flat)

text \<open>Rows of values.\<close>

fun cons_row :: "string \<Rightarrow> string list list \<Rightarrow> string list list" where
  "cons_row v [] = [[v]]"
| "cons_row v (r # rs) = (v # r) # rs"

fun read_rows :: "nat \<Rightarrow> string \<Rightarrow> string list list option" where
  "read_rows 0 s = None"
| "read_rows (Suc n) s =
     (if s = [] \<or> hd s \<noteq> squote then None
      else (case sql_literal (tl s) of None \<Rightarrow> None
        | Some (v, rest) \<Rightarrow>
            if rest = '')'' then Some [[v]]
            else if starts_with ''),('' rest then map_option ((#) [v]) (read_rows n (drop 3 rest))
            else if starts_with '','' rest then map_option (cons_row v) (read_rows n (drop 1 rest))
            else None))"

definition read_values :: "string \<Rightarrow> string list list option" where
  "read_values s = (if starts_with ''VALUES ('' s then read_rows (length s) (drop 8 s) else None)"

definition row_text :: "string list \<Rightarrow> string" where
  "row_text vs = delimited [] '','' (map sql_value vs)"

lemma row_text_Cons:
  "row_text (v # vs) = sql_value v @ (if vs = [] then [] else '','' @ row_text vs)"
  using delimited_prefix [of "map sql_value vs" "'',''" "'',''"]
  by (simp add: row_text_def delimited_Cons)

lemma values_loop_row:
  assumes "vs \<noteq> []" and "(i + length vs - 1) mod n = 0"
    and "\<And>j. j < length vs - 1 \<Longrightarrow> (i + j) mod n \<noteq> 0"
  shows "values_loop n i (vs @ ws) = row_text vs @ ''),('' @ values_loop n (i + length vs) ws"
  using assms
proof (induction vs arbitrary: i)
  case (Cons v vs)
  show ?case
  proof (cases "vs = []")
    case True
    with Cons.prems show ?thesis by (simp add: row_text_Cons)
  next
    case False
    then have "i mod n \<noteq> 0" using Cons.prems(3) [of 0] by simp
    moreover have "values_loop n (i + 1) (vs @ ws)
      = row_text vs @ ''),('' @ values_loop n (i + 1 + length vs) ws"
      using Cons.prems(2) Cons.prems(3) [of "Suc _"] False by (intro Cons.IH) auto
    ultimately show ?thesis using False by (simp add: row_text_Cons)
  qed
qed simp

lemma values_loop_rows:
  assumes "\<forall>r \<in> set rows. length r = n" and "0 < n"
  shows "values_loop n (n * k + 1) (concat rows) = concat (map (\<lambda>r. row_text r @ ''),('') rows)"
  using assms(1)
proof (induction rows arbitrary: k)
  case (Cons r rows)
  have r: "length r = n" "r \<noteq> []" using Cons.prems assms(2) by auto
  have ne: "(n * k + 1 + j) mod n \<noteq> 0" if "j < length r - 1" for j
  proof -
    have "(n * k + (1 + j)) mod n = (1 + j) mod n" by (rule mod_mult_self4)
    moreover have "(1 + j) mod n = 1 + j" using that r by simp
    ultimately show ?thesis by (simp add: add.assoc)
  qed
  have "(n * k + 1 + length r - 1) mod n = 0" using r by simp
  from values_loop_row [OF r(2) this ne]
  have "values_loop n (n * k + 1) (r @ concat rows) =
    row_text r @ ''),('' @ values_loop n (n * (k + 1) + 1) (concat rows)"
    by (simp add: r algebra_simps)
  then show ?case using Cons.IH [of "k + 1"] Cons.prems by simp
qed simp

lemma erase_last_append: "k \<le> length t \<Longrightarrow> erase_last k (s @ t) = s @ erase_last k t"
  by (simp add: erase_last_def)

definition rows_text :: "string list list \<Rightarrow> string" where
  "rows_text rows = erase_last 2 (concat (map (\<lambda>r. row_text r @ ''),('') rows))"

lemma rows_text_Cons:
  "rows_text (r # rows) = row_text r @ (if rows = [] then '')'' else ''),('' @ rows_text rows)"
proof (cases rows)
  case (Cons r' rows')
  have "2 \<le> length (concat (map (\<lambda>r. row_text r @ ''),('') rows))"
    using Cons by simp
  from erase_last_append [OF this, of "row_text r @ ''),(''"] Cons show ?thesis
    by (simp add: rows_text_def)
qed (simp add: rows_text_def erase_last_def)

lemma values_string_rows:
  assumes "\<forall>r \<in> set rows. length r = n" and "0 < n" and "rows \<noteq> []"
  shows "values_string (concat rows) n = Inr (''VALUES ('' @ rows_text rows)"
proof -
  have "2 \<le> length (concat (map (\<lambda>r. row_text r @ ''),('') rows))"
    using assms(3) by (cases rows) auto
  then have "erase_last 2 (''VALUES ('' @ concat (map (\<lambda>r. row_text r @ ''),('') rows)) =
    ''VALUES ('' @ rows_text rows"
    by (simp only: rows_text_def erase_last_append)
  then show ?thesis
    using values_loop_rows [OF assms(1,2), of 0] assms(2) by (simp add: values_string_def)
qed

text \<open>What a value becomes in the database: an empty one is the text \<open>NULL\<close>.\<close>

definition stored_value :: "string \<Rightarrow> string" where
  "stored_value v = (if v = [] then ''NULL'' else v)"

lemma sql_literal_value:
  "rest = [] \<or> hd rest \<noteq> squote \<Longrightarrow> sql_literal (tl (sql_value v @ rest)) = Some (stored_value v, rest)"
  using sql_literal_quoted [of rest "''NULL''"] by (simp add: sql_value_def stored_value_def)

lemma hd_sql_value: "sql_value v @ rest \<noteq> []" "hd (sql_value v @ rest) = squote"
  by (simp_all add: sql_value_def)

lemma read_rows_value:
  assumes "rest = [] \<or> hd rest \<noteq> squote"
  shows "read_rows (Suc n) (sql_value v @ rest) =
    (if rest = '')'' then Some [[stored_value v]]
     else if starts_with ''),('' rest then map_option ((#) [stored_value v]) (read_rows n (drop 3 rest))
     else if starts_with '','' rest then map_option (cons_row (stored_value v)) (read_rows n (drop 1 rest))
     else None)"
proof -
  have "\<not> (sql_value v @ rest = [] \<or> hd (sql_value v @ rest) \<noteq> squote)"
    by (simp add: hd_sql_value del: append_is_Nil_conv)
  then show ?thesis
    by (simp only: read_rows.simps sql_literal_value [OF assms] if_False option.case prod.case)
qed

lemma read_rows_last: "read_rows (Suc n) (sql_value v @ '')'') = Some [[stored_value v]]"
  by (subst read_rows_value) (simp_all del: read_rows.simps)

lemma read_rows_next_row:
  "read_rows (Suc n) (sql_value v @ ''),('' @ t) = map_option ((#) [stored_value v]) (read_rows n t)"
  by (subst read_rows_value) (simp_all del: read_rows.simps)

lemma read_rows_next:
  "read_rows (Suc n) (sql_value v @ '','' @ t) = map_option (cons_row (stored_value v)) (read_rows n t)"
  by (subst read_rows_value) (simp_all del: read_rows.simps)

lemmas read_rows_steps = read_rows_last read_rows_next_row read_rows_next

lemma read_rows_row:
  assumes "vs \<noteq> []" and "length vs \<le> n"
  shows "read_rows n (row_text vs @ '')'') = Some [map stored_value vs]"
  using assms
proof (induction vs arbitrary: n)
  case (Cons v vs)
  then obtain m where n: "n = Suc m" by (cases n) auto
  show ?case
    using Cons n read_rows_last [of m v] read_rows_next [of m v "row_text vs @ '')''"]
    by (cases "vs = []") (simp_all add: row_text_Cons del: read_rows.simps)
qed simp

lemma read_rows_row_more:
  assumes "vs \<noteq> []" and "read_rows m t = Some rs"
  shows "read_rows (m + length vs) (row_text vs @ ''),('' @ t) = Some (map stored_value vs # rs)"
  using assms
proof (induction vs)
  case (Cons v vs)
  then show ?case
    using read_rows_next_row [of m v t] read_rows_next [of "m + length vs" v "row_text vs @ ''),('' @ t"]
    by (cases "vs = []") (simp_all add: row_text_Cons del: read_rows.simps)
qed simp

lemma read_rows_mono: "read_rows m t = Some rs \<Longrightarrow> m \<le> n \<Longrightarrow> read_rows n t = Some rs"
proof (induction m arbitrary: n t rs)
  case (Suc m)
  from Suc.prems(2) obtain k where k: "n = Suc k" "m \<le> k" by (cases n) auto
  from Suc.prems(1) have ne: "t \<noteq> []" "hd t = squote" by (auto split: if_splits)
  from Suc.prems(1) ne obtain v rest where "sql_literal (tl t) = Some (v, rest)"
    by (auto split: option.splits)
  with Suc.prems(1) ne show ?case
    by (auto simp: k(1) Suc.IH [OF _ k(2)] split: if_splits)
qed simp

lemma read_rows_text:
  assumes "rows \<noteq> []" and "\<forall>r \<in> set rows. r \<noteq> []"
  shows "read_rows (length (concat rows)) (rows_text rows) = Some (map (map stored_value) rows)"
  using assms
proof (induction rows)
  case (Cons r rows)
  show ?case
  proof (cases "rows = []")
    case True
    with Cons.prems show ?thesis by (simp add: rows_text_Cons read_rows_row)
  next
    case False
    with Cons have "read_rows (length (concat rows)) (rows_text rows) = Some (map (map stored_value) rows)"
      by simp
    from read_rows_row_more [OF _ this, of r] Cons.prems False show ?thesis
      by (simp add: rows_text_Cons add.commute)
  qed
qed simp

lemma length_rows_text: "\<forall>r \<in> set rows. r \<noteq> [] \<Longrightarrow> length (concat rows) \<le> length (rows_text rows)"
proof (induction rows)
  case (Cons r rows)
  have "length vs \<le> length (row_text vs)" for vs
  proof (induction vs)
    case (Cons v vs)
    then show ?case by (cases "vs = []") (simp_all add: row_text_Cons sql_value_def)
  qed simp
  from this [of r] Cons show ?case by (auto simp: rows_text_Cons)
qed simp

lemma read_values_string:
  assumes "\<forall>r \<in> set rows. length r = n" and "0 < n" and "rows \<noteq> []"
  shows "bind (values_string (concat rows) n) (\<lambda>s. Inr (read_values s)) =
    Inr (Some (map (map stored_value) rows))"
proof -
  have ne: "\<forall>r \<in> set rows. r \<noteq> []" using assms(1,2) by auto
  have "read_rows (8 + length (rows_text rows)) (rows_text rows) = Some (map (map stored_value) rows)"
    using read_rows_mono [OF read_rows_text [OF assms(3) ne]] length_rows_text [OF ne] by simp
  moreover have "drop 8 (''VALUES ('' @ rows_text rows) = rows_text rows" by simp
  moreover have "length (''VALUES ('' @ rows_text rows) = 8 + length (rows_text rows)" by simp
  ultimately have "read_values (''VALUES ('' @ rows_text rows) = Some (map (map stored_value) rows)"
    by (simp only: read_values_def starts_with_append if_True)
  with values_string_rows [OF assms] show ?thesis by simp
qed

section \<open>Properties\<close>

text \<open>
  C9: no value can break out of a filter: the \<open>WHERE\<close> text that \<open>QueryFilter::Add\<close> and
  \<open>FilterVisitor\<close> build from keys and values reads back, with SQL's rule for quotes, as those
  keys and values. Pairs with an empty value are the ones that are dropped.
\<close>

theorem filter_reads_back:
  assumes "\<exists>(k, v) \<in> set kvs. v \<noteq> []" and "\<forall>(k, v) \<in> set kvs. CHR ''='' \<notin> set k"
  shows "\<exists>f. CreateFilter (flat_pairs kvs) = Inr f \<and>
    read_conjuncts (length kvs) (filter_pairs f) = Some (List.filter (\<lambda>(k, v). v \<noteq> []) kvs)"
proof -
  let ?fs = "List.filter (\<lambda>(k, v). v \<noteq> []) kvs"
  have "?fs \<noteq> []" "kvs \<noteq> []" using assms(1) by (auto simp: filter_empty_conv)
  moreover have "\<forall>(k, v) \<in> set ?fs. CHR ''='' \<notin> set k" using assms(2) by auto
  moreover have "length ?fs \<le> length kvs" by (rule length_filter_le)
  ultimately show ?thesis
    using read_filter_pairs [of ?fs "length kvs"] CreateFilter_flat [of kvs] by auto
qed

theorem filter_reads_back_witness:
  "\<exists>f. CreateFilter (flat_pairs [(''id'', squote # '' OR 1=1''), (''name'', [])]) = Inr f \<and>
    read_conjuncts (length [(''id'', squote # '' OR 1=1''), (''name'', [])]) (filter_pairs f) =
      Some (List.filter (\<lambda>(k, v). v \<noteq> []) [(''id'', squote # '' OR 1=1''), (''name'', [])])"
  by (rule filter_reads_back) auto

text \<open>
  C10: the \<open>VALUES\<close> text of an insert reads back as the rows that were given, whatever
  characters they hold, when their number is a multiple of the number of fields; an empty value
  is stored as the word \<open>NULL\<close>, in quotes.
\<close>

theorem inserted_rows_read_back:
  assumes "\<forall>r \<in> set rows. length r = length fs" and "fs \<noteq> []" and "rows \<noteq> []"
    and "dq_fields q = fs" and "dq_values q = concat rows"
  shows "\<exists>vs. insert_statement q = Inr (''INSERT INTO '' @ dq_table q @ ''('' @ fields_string fs @ '') '' @ vs) \<and>
    read_values vs = Some (map (map stored_value) rows)"
proof -
  obtain vs where "values_string (concat rows) (length fs) = Inr vs"
    "read_values vs = Some (map (map stored_value) rows)"
    using read_values_string [OF assms(1) _ assms(3)] assms(2) by (auto elim!: res_elims)
  then show ?thesis by (simp add: insert_statement_def assms(4,5))
qed

theorem inserted_rows_read_back_witness:
  "\<exists>vs. insert_statement \<lparr>dq_table = ''users'', dq_fields = [''a'', ''b''], dq_type = Q_INSERT,
        dq_values = concat [[''o'' @ squote # ''neil'', ''x''], [[], ''y'']], dq_filter = []\<rparr>
      = Inr (''INSERT INTO '' @ dq_table \<lparr>dq_table = ''users'', dq_fields = [''a'', ''b''], dq_type = Q_INSERT,
        dq_values = concat [[''o'' @ squote # ''neil'', ''x''], [[], ''y'']], dq_filter = []\<rparr>
          @ ''('' @ fields_string [''a'', ''b''] @ '') '' @ vs) \<and>
    read_values vs = Some (map (map stored_value) [[''o'' @ squote # ''neil'', ''x''], [[], ''y'']])"
  by (rule inserted_rows_read_back) simp_all

text \<open>
  A statement that changes or deletes rows is either empty or has a filter: no update and no
  delete of the whole table is ever sent.
\<close>

theorem change_has_filter:
  "(update_statement u returning multiple = Inr s \<longrightarrow> s \<noteq> [] \<longrightarrow>
      (\<exists>a b. ur_filter u \<noteq> [] \<and> s = a @ '' WHERE '' @ filter_pairs (ur_filter u) @ b)) \<and>
   (delete_statement q \<noteq> [] \<longrightarrow>
      (\<exists>a b k v. (k, v) \<in> set (dq_filter q) \<and>
         delete_statement q = a @ '' WHERE '' @ filter_pairs [(k, v)] @ b))"
proof (intro conjI impI)
  assume u: "update_statement u returning multiple = Inr s" and ne: "s \<noteq> []"
  then obtain set_s where f: "ur_filter u \<noteq> []" and
    s: "s = ''UPDATE '' @ ur_table u @ '' '' @ set_s @ '' '' @ ''WHERE '' @
             filter_pairs (ur_filter u) @ '' RETURNING '' @ returning"
    by (auto simp: update_statement_def elim!: res_elims split: if_splits)
  have "s = (''UPDATE '' @ ur_table u @ '' '' @ set_s) @ '' WHERE '' @
      filter_pairs (ur_filter u) @ '' RETURNING '' @ returning"
    by (simp add: s)
  with f show "\<exists>a b. ur_filter u \<noteq> [] \<and> s = a @ '' WHERE '' @ filter_pairs (ur_filter u) @ b"
    by blast
next
  assume "delete_statement q \<noteq> []"
  then obtain k v r where f: "dq_filter q = (k, v) # r"
    by (auto simp: delete_statement_def split: list.splits)
  then have "delete_statement q = (''DELETE FROM '' @ dq_table q) @ '' WHERE '' @ filter_pairs [(k, v)] @
      '' RETURNING '' @ k"
    by (simp add: delete_statement_def filter_pairs_def)
  with f show "\<exists>a b k v. (k, v) \<in> set (dq_filter q) \<and>
      delete_statement q = a @ '' WHERE '' @ filter_pairs [(k, v)] @ b"
    by (metis list.set_intros(1))
qed

theorem change_has_filter_witness:
  "\<exists>a b k v. (k, v) \<in> set (dq_filter \<lparr>dq_table = ''t'', dq_fields = [], dq_type = Q_DELETE, dq_values = [],
       dq_filter = [(''id'', ''4'')]\<rparr>) \<and>
     delete_statement \<lparr>dq_table = ''t'', dq_fields = [], dq_type = Q_DELETE, dq_values = [],
       dq_filter = [(''id'', ''4'')]\<rparr> = a @ '' WHERE '' @ filter_pairs [(k, v)] @ b"
  by (rule change_has_filter [THEN conjunct2, THEN mp]) (simp add: delete_statement_def)

text \<open>
  A select is not protected in this way: when every value of its filter is empty, the filter
  is empty, and the statement reads the whole table.
\<close>

theorem empty_filter_selects_all:
  assumes "kvs \<noteq> []" and "\<forall>(k, v) \<in> set kvs. v = []"
  shows "\<exists>f. CreateFilter (flat_pairs kvs) = Inr f \<and>
    select_DatabaseQuery (q\<lparr>dq_filter := f\<rparr>) =
      ''SELECT '' @ fields_string (dq_fields q) @ '' FROM '' @ dq_table q"
proof -
  have "List.filter (\<lambda>(k, v). v \<noteq> []) kvs = []"
    using assms(2) by (auto simp: filter_empty_conv)
  then show ?thesis
    by (simp add: CreateFilter_flat [OF assms(1)] select_DatabaseQuery_def select_head_def)
qed

theorem empty_filter_selects_all_witness:
  "\<exists>f. CreateFilter (flat_pairs [(''uid'', [])]) = Inr f \<and>
    select_DatabaseQuery (\<lparr>dq_table = ''t'', dq_fields = [''id''], dq_type = Q_SELECT, dq_values = [], dq_filter = []\<rparr>
        \<lparr>dq_filter := f\<rparr>) =
      ''SELECT '' @ fields_string (dq_fields \<lparr>dq_table = ''t'', dq_fields = [''id''], dq_type = Q_SELECT, dq_values = [], dq_filter = []\<rparr>)
        @ '' FROM '' @ dq_table \<lparr>dq_table = ''t'', dq_fields = [''id''], dq_type = Q_SELECT, dq_values = [], dq_filter = []\<rparr>"
  by (rule empty_filter_selects_all) simp_all

text \<open>
  The values of an update are pasted without doubling their quotes: a value with a quote in it
  ends its literal early, and the text behind the quote becomes part of the statement.
\<close>

theorem update_value_breaks_out:
  assumes "ur_filter u \<noteq> []" and "ur_fields u = [field]" and "ur_values u = [a @ squote # b]"
    and "squote \<notin> set a" and "b \<noteq> []" and "hd b \<noteq> squote"
  shows "\<exists>tail. update_statement u returning False =
      Inr (''UPDATE '' @ ur_table u @ '' SET '' @ field @ ''='' @ squote # tail) \<and>
    sql_literal tail = Some (a, b @ squote # '' WHERE '' @ filter_pairs (ur_filter u) @ '' RETURNING '' @ returning)"
proof -
  let ?rest = "b @ squote # '' WHERE '' @ filter_pairs (ur_filter u) @ '' RETURNING '' @ returning"
  have "sql_literal (DoubleSingleQuotes a @ squote # ?rest) = Some (a, ?rest)"
    by (rule sql_literal_quoted) (use assms(5,6) in simp)
  then have l: "sql_literal (a @ squote # ?rest) = Some (a, ?rest)"
    using assms(4) by simp
  have "update_statement u returning False =
      Inr (''UPDATE '' @ ur_table u @ '' SET '' @ field @ ''='' @ squote # a @ squote # ?rest)"
    using assms(1-3) by (simp add: update_statement_def set_clause_def)
  with l show ?thesis by blast
qed

theorem update_value_breaks_out_witness:
  "\<exists>tail. update_statement \<lparr>ur_table = ''t'', ur_fields = [''name''], ur_values = [''x'' @ squote # '', admin=1 --''],
        ur_filter = [(''id'', ''4'')], ur_returning = ''id''\<rparr> ''id'' False =
      Inr (''UPDATE '' @ ur_table \<lparr>ur_table = ''t'', ur_fields = [''name''], ur_values = [''x'' @ squote # '', admin=1 --''],
        ur_filter = [(''id'', ''4'')], ur_returning = ''id''\<rparr> @ '' SET '' @ ''name'' @ ''='' @ squote # tail) \<and>
    sql_literal tail = Some (''x'', '', admin=1 --'' @ squote # '' WHERE '' @ filter_pairs (ur_filter
        \<lparr>ur_table = ''t'', ur_fields = [''name''], ur_values = [''x'' @ squote # '', admin=1 --''],
        ur_filter = [(''id'', ''4'')], ur_returning = ''id''\<rparr>) @ '' RETURNING '' @ ''id'')"
  by (rule update_value_breaks_out) simp_all

end
