(* ===== verification/JsonTools.thy ===== *)
theory JsonTools
  imports StringTools
begin

text \<open>
  The JSON helpers of \<open>include/common/util.cpp\<close>: the messages, events and operations the server
  writes, and the readers of what a client or a process sends.

  The reader and the writer of JSON text are rapidjson's: \<open>jparse\<close> gives the document of a text
  or \<open>None\<close> for a parse error, \<open>jwrite\<close> the text of a document. Both are arguments of the
  definitions here; \<open>JsonLibrary\<close> instantiates them with the models of rapidjson's. What the code does with a document is modelled: a member that is asked of
  something that is no object, or the text of something that is no string, fails an assertion.
  Every text goes through \<open>c_str()\<close>, which ends at the first NUL.
\<close>

datatype json =
    JNull
  | JBool bool
  | JInt int
  | JReal string         \<comment> \<open>the digits of a number that is no integer\<close>
  | JString string
  | JArray "json list"
  | JObject "(string \<times> json) list"

type_synonym jwriter = "json \<Rightarrow> string"
type_synonym jparser = "string \<Rightarrow> json option"

definition c_str :: "string \<Rightarrow> string" where
  "c_str s = takeWhile (\<lambda>c. c \<noteq> CHR 0x00) s"

lemma c_str_id [simp]: "CHR 0x00 \<notin> set s \<Longrightarrow> c_str s = s"
  by (simp add: c_str_def takeWhile_eq_all_conv) (metis)

lemma c_str_no_nul [simp]: "CHR 0x00 \<notin> set (c_str s)"
  by (auto simp: c_str_def dest: set_takeWhileD)

lemma c_str_c_str [simp]: "c_str (c_str s) = c_str s"
  by simp

section \<open>Documents\<close>

definition jstr :: "string \<Rightarrow> json" where
  "jstr s = JString (c_str s)"

fun json_member :: "string \<Rightarrow> json \<Rightarrow> json option res" where
  "json_member k (JObject kvs) = Inr (map_of kvs k)"
| "json_member k _ = Inl AssertFailed"

fun get_string :: "json \<Rightarrow> string res" where
  "get_string (JString s) = Inr (c_str s)"
| "get_string _ = Inl AssertFailed"

fun get_array :: "json \<Rightarrow> json list res" where
  "get_array (JArray xs) = Inr xs"
| "get_array _ = Inl AssertFailed"

fun get_object :: "json \<Rightarrow> (string \<times> json) list res" where
  "get_object (JObject kvs) = Inr kvs"
| "get_object _ = Inl AssertFailed"

lemma get_string_jstr [simp]: "get_string (jstr s) = Inr (c_str s)"
  by (simp add: jstr_def)

lemma get_strings [simp]: "mapM get_string (map jstr xs) = Inr (map c_str xs)"
  by (induction xs) simp_all

section \<open>Writers\<close>

definition ToJSONArray :: "jwriter \<Rightarrow> string list \<Rightarrow> string" where
  "ToJSONArray jw args = jw (JArray (map jstr args))"

definition CreateOperation :: "jwriter \<Rightarrow> string \<Rightarrow> string list \<Rightarrow> string" where
  "CreateOperation jw op args =
     jw (JObject [(''type'', jstr ''operation''), (''command'', jstr op), (''args'', JArray (map jstr args))])"

definition CreateEvent_text :: "jwriter \<Rightarrow> int \<Rightarrow> string \<Rightarrow> string" where
  "CreateEvent_text jw m out =
     jw (JObject [(''type'', jstr ''event''), (''mask'', JInt m), (''args'', jstr out)])"

definition CreateEvent :: "jwriter \<Rightarrow> string \<Rightarrow> string list \<Rightarrow> string" where
  "CreateEvent jw event args =
     jw (JObject [(''type'', jstr ''event''), (''event'', jstr event), (''args'', JArray (map jstr args))])"

definition CreateSessionEvent :: "jwriter \<Rightarrow> int \<Rightarrow> string \<Rightarrow> (string \<times> string) list \<Rightarrow> string" where
  "CreateSessionEvent jw status message args =
     jw (JObject [(''type'', jstr ''event''), (''event'', jstr ''Session Message''),
       (''status'', JInt status), (''message'', jstr message),
       (''info'', JObject (map (\<lambda>v. (c_str (fst v), jstr (snd v))) args))])"

definition custom_message :: "jwriter \<Rightarrow> string \<Rightarrow> json \<Rightarrow> string" where
  "custom_message jw data args =
     jw (JObject [(''type'', jstr ''custom''), (''message'', jstr data), (''args'', args)])"

definition CreateMessage :: "jwriter \<Rightarrow> string \<Rightarrow> string \<Rightarrow> string" where
  "CreateMessage jw data args = custom_message jw data (jstr args)"

definition CreateMessage_pairs :: "jwriter \<Rightarrow> string \<Rightarrow> (string \<times> string) list \<Rightarrow> string" where
  "CreateMessage_pairs jw data args =
     custom_message jw data (JObject (map (\<lambda>v. (c_str (fst v), jstr (snd v))) args))"

text \<open>A \<open>std::map<int, ...>\<close> is the list of its pairs, in the order of the keys.\<close>

definition CreateMessage_map :: "jwriter \<Rightarrow> string \<Rightarrow> (int \<times> string) list \<Rightarrow> string" where
  "CreateMessage_map jw data m =
     custom_message jw data (JObject (map (\<lambda>(k, v). (int_to_string k, jstr v)) m))"

text \<open>An application, \<open>kapplication.hpp\<close>.\<close>

record kapplication =
  app_id :: string
  app_name :: string
  app_path :: string
  app_data :: string
  app_mask :: string
  app_is_kiq :: bool

definition empty_app :: kapplication where
  "empty_app = \<lparr>app_id = [], app_name = [], app_path = [], app_data = [], app_mask = [], app_is_kiq = False\<rparr>"

definition app_is_valid :: "kapplication \<Rightarrow> bool" where
  "app_is_valid a \<longleftrightarrow> app_name a \<noteq> []"

definition app_vector :: "kapplication \<Rightarrow> string list" where
  "app_vector a = [app_name a, app_path a, app_data a, app_mask a]"

definition CreateMessage_apps :: "jwriter \<Rightarrow> string \<Rightarrow> kapplication list \<Rightarrow> string" where
  "CreateMessage_apps jw data commands =
     custom_message jw data (JArray (concat (map (\<lambda>c.
       [jstr (app_mask c), jstr (app_name c), jstr (app_path c), jstr (app_data c)]) commands)))"

text \<open>
  The overload for lists writes a key with no value for an empty list, which the writer's check
  of an object's end refuses.
\<close>

definition CreateMessage_lists :: "jwriter \<Rightarrow> string \<Rightarrow> (int \<times> string list) list \<Rightarrow> string res" where
  "CreateMessage_lists jw data m =
     (if \<exists>p \<in> set m. snd p = [] then Inl AssertFailed
      else Inr (custom_message jw data
             (JObject (map (\<lambda>(k, v). (int_to_string k, JArray (map jstr v))) m))))"

section \<open>Readers\<close>

definition GetJSONArray :: "jparser \<Rightarrow> string \<Rightarrow> string list res" where
  "GetJSONArray jp s =
     (case jp (c_str s) of Some (JArray vs) \<Rightarrow> mapM get_string vs | _ \<Rightarrow> Inr [])"

text \<open>A member of the document that is wanted as text: empty where the text or the member is not there.\<close>

definition text_member :: "jparser \<Rightarrow> string \<Rightarrow> string \<Rightarrow> string res" where
  "text_member jp k data =
     (case jp (c_str data) of None \<Rightarrow> Inr []
      | Some d \<Rightarrow> bind (json_member k d) (\<lambda>m. case m of None \<Rightarrow> Inr [] | Some v \<Rightarrow> get_string v))"

definition GetOperation :: "jparser \<Rightarrow> string \<Rightarrow> string res" where
  "GetOperation jp data = text_member jp ''command'' data"

definition GetToken :: "jparser \<Rightarrow> string \<Rightarrow> string res" where
  "GetToken jp data = text_member jp ''token'' data"

definition GetMessage :: "jparser \<Rightarrow> string \<Rightarrow> string res" where
  "GetMessage jp data = text_member jp ''message'' data"

definition GetEvent :: "jparser \<Rightarrow> string \<Rightarrow> string res" where
  "GetEvent jp data = (if data = [] then Inr [] else text_member jp ''event'' data)"

record user =
  u_name :: string
  u_token :: string

definition GetAuth :: "jparser \<Rightarrow> string \<Rightarrow> user res" where
  "GetAuth jp data =
     bind (text_member jp ''token'' data) (\<lambda>t. bind (text_member jp ''user'' data) (\<lambda>n.
       Inr \<lparr>u_name = n, u_token = t\<rparr>))"

definition IsSessionMessageEvent :: "string \<Rightarrow> bool" where
  "IsSessionMessageEvent e \<longleftrightarrow> e = ''Session Message''"

definition IsCloseEvent :: "string \<Rightarrow> bool" where
  "IsCloseEvent e \<longleftrightarrow> e = ''Close Session''"

definition GetArgs :: "jparser \<Rightarrow> string \<Rightarrow> string list res" where
  "GetArgs jp data =
     (if data = [] then Inr []
      else (case jp (c_str data) of None \<Rightarrow> Inr []
        | Some d \<Rightarrow> bind (json_member ''args'' d) (\<lambda>m.
            case m of None \<Rightarrow> Inr [] | Some v \<Rightarrow> bind (get_array v) (mapM get_string))))"

text \<open>\<open>emplace\<close> keeps the first value of a key.\<close>

definition arg_pair :: "string \<times> json \<Rightarrow> (int \<times> string) res" where
  "arg_pair m = bind (stoi (c_str (fst m))) (\<lambda>k. bind (get_string (snd m)) (\<lambda>v. Inr (k, v)))"

definition GetArgMap :: "jparser \<Rightarrow> string \<Rightarrow> (int \<rightharpoonup> string) res" where
  "GetArgMap jp data =
     (case jp (c_str data) of None \<Rightarrow> Inr Map.empty
      | Some d \<Rightarrow> bind (json_member ''args'' d) (\<lambda>m.
          case m of None \<Rightarrow> Inr Map.empty
          | Some v \<Rightarrow> bind (get_object v) (\<lambda>kvs. bind (mapM arg_pair kvs) (\<lambda>ps. Inr (map_of ps)))))"

definition IsMessage :: "jparser \<Rightarrow> string \<Rightarrow> bool res" where
  "IsMessage jp data =
     (if data = [] then Inr False
      else (case jp (c_str data) of None \<Rightarrow> Inr False
        | Some d \<Rightarrow> bind (json_member ''message'' d) (\<lambda>m. Inr (m \<noteq> None))))"

definition IsOperation :: "jparser \<Rightarrow> string \<Rightarrow> bool res" where
  "IsOperation jp data =
     (if data = [] then Inr False
      else (case jp (c_str data) of None \<Rightarrow> Inr False
        | Some d \<Rightarrow> bind (json_member ''type'' d) (\<lambda>m.
            case m of None \<Rightarrow> Inr False | Some v \<Rightarrow> bind (get_string v) (\<lambda>s. Inr (s = ''operation'')))))"

section \<open>What a reader makes of a written text\<close>

text \<open>The contract of the library: a text that was written is read as the document it is of.\<close>

definition reads_back :: "jwriter \<Rightarrow> jparser \<Rightarrow> json \<Rightarrow> bool" where
  "reads_back jw jp j \<longleftrightarrow> jw j \<noteq> [] \<and> CHR 0x00 \<notin> set (jw j) \<and> jp (jw j) = Some j"

lemma GetJSONArray_ToJSONArray:
  "reads_back jw jp (JArray (map jstr args)) \<Longrightarrow> GetJSONArray jp (ToJSONArray jw args) = Inr (map c_str args)"
  by (simp add: reads_back_def GetJSONArray_def ToJSONArray_def)

definition operation_doc :: "string \<Rightarrow> string list \<Rightarrow> json" where
  "operation_doc op args =
     JObject [(''type'', jstr ''operation''), (''command'', jstr op), (''args'', JArray (map jstr args))]"

lemma operation_readers:
  assumes "reads_back jw jp (operation_doc op args)"
  shows "IsOperation jp (CreateOperation jw op args) = Inr True"
    and "GetOperation jp (CreateOperation jw op args) = Inr (c_str op)"
    and "GetArgs jp (CreateOperation jw op args) = Inr (map c_str args)"
    and "GetToken jp (CreateOperation jw op args) = Inr []"
    and "IsMessage jp (CreateOperation jw op args) = Inr False"
  using assms
  by (simp_all add: reads_back_def operation_doc_def CreateOperation_def IsOperation_def GetOperation_def
      GetArgs_def GetToken_def IsMessage_def text_member_def)

section \<open>Properties\<close>

text \<open>
  An operation that \<open>CreateOperation\<close> writes is recognised as one by every reader: its command
  and its arguments come back as they were given, and it has no token and no message.
\<close>

theorem operation_is_read:
  assumes "reads_back jw jp (operation_doc op args)"
    and "CHR 0x00 \<notin> set op" and "\<forall>a \<in> set args. CHR 0x00 \<notin> set a"
  shows "let s = CreateOperation jw op args in
    IsOperation jp s = Inr True \<and> GetOperation jp s = Inr op \<and> GetArgs jp s = Inr args \<and>
    GetToken jp s = Inr [] \<and> IsMessage jp s = Inr False"
proof -
  have "map c_str args = args"
    using assms(3) by (simp add: map_idI)
  then show ?thesis
    using operation_readers [OF assms(1)] assms(2) by simp
qed

theorem operation_is_read_witness:
  "let s = CreateOperation (\<lambda>_. ''x'') ''Start'' [''1'', ''2''] in
    IsOperation (\<lambda>_. Some (operation_doc ''Start'' [''1'', ''2''])) s = Inr True \<and>
    GetOperation (\<lambda>_. Some (operation_doc ''Start'' [''1'', ''2''])) s = Inr ''Start'' \<and>
    GetArgs (\<lambda>_. Some (operation_doc ''Start'' [''1'', ''2''])) s = Inr [''1'', ''2''] \<and>
    GetToken (\<lambda>_. Some (operation_doc ''Start'' [''1'', ''2''])) s = Inr [] \<and>
    IsMessage (\<lambda>_. Some (operation_doc ''Start'' [''1'', ''2''])) s = Inr False"
  by (rule operation_is_read) (simp_all add: reads_back_def)

end
