(* ===== verification/Timers.thy ===== *)
theory Timers
  imports Prelude
begin

text \<open>
  \<open>common/time.cpp\<close>: a timer of a duration in seconds, on the system clock, and the command that
  \<open>system/cron.hpp\<close> gives to the shell.

  \<open>expired\<close> compares a signed 64-bit elapsed time with an unsigned duration, so the comparison is
  unsigned: a clock that was set back makes the elapsed time negative and the timer expired. The
  instants here are whole seconds.
\<close>

record timer =
  t_point :: int
  t_active :: bool
  t_duration :: "64 word"

definition TWENTY_SECONDS :: "64 word" where "TWENTY_SECONDS = 20"
definition ONE_MINUTE :: "64 word" where "ONE_MINUTE = 60"
definition TWO_MINUTES :: "64 word" where "TWO_MINUTES = 120"
definition TEN_MINUTES :: "64 word" where "TEN_MINUTES = 600"
definition TWENTY_MINUTES :: "64 word" where "TWENTY_MINUTES = 1200"

text \<open>Without \<open>autostart\<close> the constructor leaves \<open>timer_active\<close> as the memory was: \<open>junk\<close>.\<close>

definition new_timer :: "bool \<Rightarrow> int \<Rightarrow> 64 word \<Rightarrow> bool \<Rightarrow> timer" where
  "new_timer junk now duration autostart =
     \<lparr>t_point = (if autostart then now else 0), t_active = (autostart \<or> junk), t_duration = duration\<rparr>"

definition timer_active :: "timer \<Rightarrow> bool" where
  "timer_active t = t_active t"

definition timer_expired :: "int \<Rightarrow> timer \<Rightarrow> bool" where
  "timer_expired now t \<longleftrightarrow> t_active t \<and> (word_of_int (now - t_point t) :: 64 word) > t_duration t"

definition timer_reset :: "int \<Rightarrow> timer \<Rightarrow> timer" where
  "timer_reset now t = t\<lparr>t_point := now, t_active := True\<rparr>"

definition timer_stop :: "timer \<Rightarrow> timer" where
  "timer_stop t = t\<lparr>t_active := False\<rparr>"

lemma uint_elapsed: "0 \<le> i \<Longrightarrow> i < 2 ^ 63 \<Longrightarrow> uint (word_of_int i :: 64 word) = i"
  by (simp add: uint_word_of_int)

lemma timer_expired_forward:
  assumes "t_point t \<le> now" and "now - t_point t < 2 ^ 63"
  shows "timer_expired now t \<longleftrightarrow> t_active t \<and> uint (t_duration t) < now - t_point t"
proof -
  define d where "d = now - t_point t"
  have "uint (word_of_int d :: 64 word) = d"
    using assms by (intro uint_elapsed) (simp_all add: d_def)
  then show ?thesis
    unfolding timer_expired_def d_def [symmetric] by (simp add: word_less_alt)
qed

lemma timer_expired_backward:
  assumes "now < t_point t" and "t_point t - now \<le> 2 ^ 62" and "uint (t_duration t) < 2 ^ 62" and "t_active t"
  shows "timer_expired now t"
proof -
  define d where "d = now - t_point t"
  have d: "d < 0" "- (2 ^ 62) \<le> d" using assms(1,2) by (simp_all add: d_def)
  have "uint (word_of_int d :: 64 word) = (2 ^ 64 + d) mod 2 ^ 64"
    by (simp add: uint_word_of_int)
  also have "\<dots> = 2 ^ 64 + d"
    using d by (intro mod_pos_pos_trivial) simp_all
  finally show ?thesis
    using assms(3,4) d unfolding timer_expired_def d_def [symmetric] by (simp add: word_less_alt)
qed

section \<open>Cron\<close>

datatype job_type = Single | Daily | Weekly | Monthly | Yearly

record single_job =
  job_path :: string
  job_month :: int
  job_day_of_month :: int
  job_hour :: int
  job_minute :: int
  job_type :: job_type

definition createJobCommand :: "single_job \<Rightarrow> string" where
  "createJobCommand job =
     (if job_type job = Single
      then ''(crontab -l ; echo '' @ [CHR 0x22] @ int_to_string (job_minute job) @ '' '' @
           int_to_string (job_hour job) @ '' '' @ int_to_string (job_day_of_month job) @ '' '' @
           int_to_string (job_month job) @ '' * '' @ job_path job @ [CHR 0x22] @
           '') | sort - | uniq - | crontab -''
      else [])"

text \<open>The constants of the namespace \<open>Month\<close> count from 0, the fields of a crontab from 1.\<close>

definition JANUARY :: int where "JANUARY = 0"
definition DECEMBER :: int where "DECEMBER = 11"

section \<open>Properties\<close>

text \<open>
  A timer that was reset expires when more than its duration has passed, and not before; it
  also counts as expired as soon as the clock is set back, because the comparison is unsigned.
\<close>

theorem reset_timer_expiry:
  assumes "t' = timer_reset start t" and "uint (t_duration t) < 2 ^ 62"
    and "start - 2 ^ 62 \<le> now" and "now < start + 2 ^ 62"
  shows "timer_expired now t' \<longleftrightarrow> now < start \<or> start + uint (t_duration t) < now"
proof (cases "now < start")
  case True
  with assms have "timer_expired now t'"
    by (intro timer_expired_backward) (simp_all add: timer_reset_def)
  with True show ?thesis by simp
next
  case False
  with assms timer_expired_forward [of t' now] show ?thesis
    by (auto simp: timer_reset_def)
qed

theorem reset_timer_expiry_witness:
  "timer_expired 1700 (timer_reset 1000 (new_timer False 0 TEN_MINUTES False)) \<longleftrightarrow>
     (1700::int) < 1000 \<or> 1000 + uint (t_duration (new_timer False 0 TEN_MINUTES False)) < 1700"
  by (rule reset_timer_expiry) (simp_all add: new_timer_def TEN_MINUTES_def)

end
