(* ===== verification/Kdb.thy ===== *)
theory Kdb
  imports Sql JsonTools TaskModel
begin

text \<open>
  Database access, \<open>src/database_connection.cpp\<close> and \<open>include/database/kdb.hpp\<close>, and the world
  the components act on.

  What is not this program's code is an argument, gathered in the record \<open>libs\<close>: the database
  server (\<open>x_exec\<close> takes a statement and a state of the database and gives the rows, or the
  error pqxx throws, and the state after), rapidjson, the generator of UUIDs, the configuration
  and the running of a child process. The record \<open>world\<close> is what operations read and change:
  the database, the file system, the clock, and the log of what was sent (the calls of the
  system's event callback, the mails). Components extend it with their own fields.
\<close>

section \<open>The world\<close>

type_synonym db_row = "string option list"

record 'db libs =
  x_exec :: "string \<Rightarrow> 'db \<Rightarrow> db_row list res \<times> 'db"
  x_uuid :: "nat \<Rightarrow> string"
  x_conf :: "string \<Rightarrow> string \<Rightarrow> string"
  x_jwrite :: jwriter
  x_jparse :: jparser
  x_today :: "int \<Rightarrow> int \<Rightarrow> int"   \<comment> \<open>\<open>mktime\<close> of the time of day of the first on the local day of the second\<close>
  x_run :: "string \<Rightarrow> string list \<Rightarrow> string \<times> bool"   \<comment> \<open>output and error of a process\<close>

type_synonym event = "int \<times> int \<times> string list"   \<comment> \<open>client, event, arguments\<close>

record 'db world =
  w_db :: 'db
  w_fs :: fsys
  w_now :: int
  w_uuids :: nat
  w_events :: "event list"
  w_mails :: "(string \<times> string \<times> string) list"

definition ALL_CLIENTS :: int where
  "ALL_CLIENTS = - 1"

definition emit :: "int \<Rightarrow> int \<Rightarrow> string list \<Rightarrow> (('db, 'm) world_scheme, unit) act" where
  "emit client ev args = modify (\<lambda>w. w\<lparr>w_events := w_events w @ [(client, ev, args)]\<rparr>)"

definition SendMail_subject :: "string \<Rightarrow> string \<Rightarrow> string \<Rightarrow> (('db, 'm) world_scheme, unit) act" where
  "SendMail_subject to msg subject = modify (\<lambda>w. w\<lparr>w_mails := w_mails w @ [(to, msg, subject)]\<rparr>)"

definition DEFAULT_SUBJECT :: string where
  "DEFAULT_SUBJECT = ''KIQ Notification''"

definition SendMail :: "string \<Rightarrow> string \<Rightarrow> (('db, 'm) world_scheme, unit) act" where
  "SendMail to msg = SendMail_subject to msg DEFAULT_SUBJECT"

definition GenerateUUIDString :: "'db libs \<Rightarrow> (('db, 'm) world_scheme, string) act" where
  "GenerateUUIDString x w = (Inr (x_uuid x (w_uuids w)), w\<lparr>w_uuids := Suc (w_uuids w)\<rparr>)"

definition get_fs :: "(('db, 'm) world_scheme, fsys) act" where
  "get_fs w = (Inr (w_fs w), w)"

definition put_fs :: "fsys \<Rightarrow> (('db, 'm) world_scheme, unit) act" where
  "put_fs fs = modify (\<lambda>w. w\<lparr>w_fs := fs\<rparr>)"

definition UnixTime :: "(('db, 'm) world_scheme, int) act" where
  "UnixTime w = (Inr (w_now w), w)"

section \<open>Queries\<close>

type_synonym result_map = "string \<rightharpoonup> string"

text \<open>
  A statement is executed and committed. The \<open>throw e\<close> of the handlers of \<open>KDB\<close> keeps an SQL
  error and slices every other exception to its base class; what is no exception stays.
\<close>

definition rethrow :: "cpp_error \<Rightarrow> cpp_error" where
  "rethrow e = (if e \<in> {SqlError, Undefined, AssertFailed, Diverges} then e
                else RuntimeError ''std::exception'')"

definition pq_exec :: "'db libs \<Rightarrow> string \<Rightarrow> (('db, 'm) world_scheme, db_row list) act" where
  "pq_exec x stmt w = (let (r, db) = x_exec x stmt (w_db w) in (r, w\<lparr>w_db := db\<rparr>))"

definition kdb_try :: "('s, 'a) act \<Rightarrow> ('s, 'a) act" where
  "kdb_try m = handle m (\<lambda>e. raise (rethrow e))"

text \<open>\<open>value.c_str()\<close> of a null is the empty string; \<open>as<std::string>()\<close> of one throws.\<close>

definition cell :: "string option \<Rightarrow> string" where
  "cell v = (case v of None \<Rightarrow> [] | Some s \<Rightarrow> c_str s)"

definition cell_as_string :: "string option \<Rightarrow> string res" where
  "cell_as_string v = (case v of None \<Rightarrow> Inl (RuntimeError ''conversion_error'') | Some s \<Rightarrow> Inr s)"

text \<open>The values of a row under the names of the query's fields; a later field overwrites.\<close>

definition row_map :: "string list \<Rightarrow> db_row \<Rightarrow> result_map res" where
  "row_map flds row =
     (if length row \<le> length flds then Inr (map_of (rev (zip flds (map cell row)))) else Inl Undefined)"

definition query_rows :: "'db libs \<Rightarrow> string list \<Rightarrow> string res \<Rightarrow> (('db, 'm) world_scheme, result_map list) act" where
  "query_rows x flds stmt =
     seq (of_res stmt) (\<lambda>s. seq (pq_exec x s) (\<lambda>rows. of_res (mapM (row_map flds) rows)))"

text \<open>\<open>query\<close> of the statements that return one value: the first column of the first row.\<close>

definition query_value :: "'db libs \<Rightarrow> string res \<Rightarrow> (('db, 'm) world_scheme, string) act" where
  "query_value x stmt =
     seq (of_res stmt) (\<lambda>s. seq (pq_exec x s) (\<lambda>rows.
       of_res (case rows of (v # _) # _ \<Rightarrow> cell_as_string v | _ \<Rightarrow> Inr [])))"

section \<open>KDB\<close>

definition kdb_select :: "'db libs \<Rightarrow> string \<Rightarrow> string list \<Rightarrow> query_filter \<Rightarrow> (('db, 'm) world_scheme, result_map list) act" where
  "kdb_select x table flds flt = kdb_try (query_rows x flds (Inr (select_DatabaseQuery
     \<lparr>dq_table = table, dq_fields = flds, dq_type = Q_SELECT, dq_values = [], dq_filter = flt\<rparr>)))"

definition kdb_select_comparison ::
  "'db libs \<Rightarrow> string \<Rightarrow> string list \<Rightarrow> (string \<times> string \<times> string) list \<Rightarrow> (('db, 'm) world_scheme, result_map list) act" where
  "kdb_select_comparison x table flds flt =
     kdb_try (query_rows x flds (Inr (select_Comparison table flds flt)))"

definition kdb_selectMultiFilter ::
  "'db libs \<Rightarrow> string \<Rightarrow> string list \<Rightarrow> filter_term list \<Rightarrow> order_filter \<Rightarrow> limit_filter \<Rightarrow> (('db, 'm) world_scheme, result_map list) act" where
  "kdb_selectMultiFilter x table flds flt order limit =
     kdb_try (query_rows x flds (select_MultiVariant table flds flt order limit))"

definition no_order :: order_filter where
  "no_order = \<lparr>of_field = [], of_order = []\<rparr>"

text \<open>The overload for two alternatives, without order and limit, rethrows with \<open>throw;\<close>.\<close>

definition kdb_selectMultiFilter2 ::
  "'db libs \<Rightarrow> string \<Rightarrow> string list \<Rightarrow> filter_term list \<Rightarrow> (('db, 'm) world_scheme, result_map list) act" where
  "kdb_selectMultiFilter2 x table flds flt =
     query_rows x flds (select_MultiVariant table flds flt no_order [])"

definition kdb_selectJoin ::
  "'db libs \<Rightarrow> string \<Rightarrow> string list \<Rightarrow> query_filter \<Rightarrow> join list \<Rightarrow> (('db, 'm) world_scheme, result_map list) act" where
  "kdb_selectJoin x table flds flt joins =
     kdb_try (query_rows x flds (Inr (select_JoinFilter table flds flt joins)))"

definition kdb_selectJoin_filters ::
  "'db libs \<Rightarrow> string \<Rightarrow> string list \<Rightarrow> query_filter list \<Rightarrow> join list \<Rightarrow> (('db, 'm) world_scheme, result_map list) act" where
  "kdb_selectJoin_filters x table flds flts joins =
     kdb_try (query_rows x flds (Inr (select_JoinFilters table flds flts joins)))"

definition kdb_selectJoin_variant ::
  "'db libs \<Rightarrow> string \<Rightarrow> string list \<Rightarrow> filter_term list \<Rightarrow> join list \<Rightarrow> (('db, 'm) world_scheme, result_map list) act" where
  "kdb_selectJoin_variant x table flds flt joins =
     kdb_try (query_rows x flds (select_JoinVariant table flds flt joins))"

definition kdb_selectSimpleJoin ::
  "'db libs \<Rightarrow> string \<Rightarrow> string list \<Rightarrow> query_filter \<Rightarrow> join \<Rightarrow> (('db, 'm) world_scheme, result_map list) act" where
  "kdb_selectSimpleJoin x table flds flt j =
     kdb_try (query_rows x flds (Inr (select_SimpleJoin table flds flt j)))"

definition kdb_update ::
  "'db libs \<Rightarrow> string \<Rightarrow> string list \<Rightarrow> string list \<Rightarrow> query_filter \<Rightarrow> string \<Rightarrow> (('db, 'm) world_scheme, string) act" where
  "kdb_update x table flds vals flt returning = kdb_try (query_value x (update_statement
     \<lparr>ur_table = table, ur_fields = flds, ur_values = vals, ur_filter = flt, ur_returning = returning\<rparr>
     returning False))"

definition kdb_insert ::
  "'db libs \<Rightarrow> string \<Rightarrow> string list \<Rightarrow> string list \<Rightarrow> (('db, 'm) world_scheme, bool) act" where
  "kdb_insert x table flds vals = kdb_try (seq (of_res (insert_statement
     \<lparr>dq_table = table, dq_fields = flds, dq_type = Q_INSERT, dq_values = vals, dq_filter = []\<rparr>))
     (\<lambda>s. seq (pq_exec x s) (\<lambda>_. ret True)))"

definition kdb_insert_returning ::
  "'db libs \<Rightarrow> string \<Rightarrow> string list \<Rightarrow> string list \<Rightarrow> string \<Rightarrow> (('db, 'm) world_scheme, string) act" where
  "kdb_insert_returning x table flds vals returning = kdb_try (query_value x (insert_statement_returning
     \<lparr>ir_table = table, ir_fields = flds, ir_values = vals, ir_returning = returning\<rparr> returning))"

text \<open>
  \<open>remove\<close> returns the last value of the answer. Without a filter the statement is empty, and
  \<open>filter.front()\<close> is undefined.
\<close>

definition kdb_remove :: "'db libs \<Rightarrow> string \<Rightarrow> query_filter \<Rightarrow> (('db, 'm) world_scheme, string) act" where
  "kdb_remove x table flt =
     kdb_try (seq (pq_exec x (delete_statement
         \<lparr>dq_table = table, dq_fields = [], dq_type = Q_DELETE, dq_values = [], dq_filter = flt\<rparr>)) (\<lambda>rows.
       seq (of_res (vec_front flt)) (\<lambda>_.
         ret (case concat rows of [] \<Rightarrow> [] | vs \<Rightarrow> cell (last vs)))))"

definition first_at :: "string \<Rightarrow> result_map list \<Rightarrow> string res" where
  "first_at f rows = (case rows of [] \<Rightarrow> Inr [] | r # _ \<Rightarrow> map_at r f)"

text \<open>A filter built from pairs, none of which is missing its value (\<open>CreateFilter(k, v, ...)\<close>).\<close>

definition with_filter :: "string list \<Rightarrow> (query_filter \<Rightarrow> ('s, 'a) act) \<Rightarrow> ('s, 'a) act" where
  "with_filter args f = seq (of_res (CreateFilter args)) f"

lemma with_filter_flat:
  "xs \<noteq> [] \<Longrightarrow> with_filter (flat_pairs xs) f =
     f (map (\<lambda>(k, v). (k, DoubleSingleQuotes v)) (List.filter (\<lambda>(k, v). v \<noteq> []) xs))"
  by (simp add: with_filter_def CreateFilter_flat fun_eq_iff)

lemma with_filter_one [simp]:
  "with_filter [k, v] f = f (if v = [] then [] else [(k, DoubleSingleQuotes v)])"
  using with_filter_flat [of "[(k, v)]" f] by simp

lemma with_filter_two [simp]:
  "with_filter [k, v, k', v'] f = f ((if v = [] then [] else [(k, DoubleSingleQuotes v)])
      @ (if v' = [] then [] else [(k', DoubleSingleQuotes v')]))"
  using with_filter_flat [of "[(k, v), (k', v')]" f] by simp

lemma with_filter_three [simp]:
  "with_filter [k, v, k', v', k2, v2] f = f ((if v = [] then [] else [(k, DoubleSingleQuotes v)])
      @ (if v' = [] then [] else [(k', DoubleSingleQuotes v')])
      @ (if v2 = [] then [] else [(k2, DoubleSingleQuotes v2)]))"
  using with_filter_flat [of "[(k, v), (k', v'), (k2, v2)]" f] by simp

section \<open>Applications\<close>

definition GetAppInfo :: "'db libs \<Rightarrow> int \<Rightarrow> string \<Rightarrow> (('db, 'm) world_scheme, kapplication) act" where
  "GetAppInfo x msk name =
     (if msk = - 1 \<and> name = [] then raise InvalidArgument
      else seq (of_res (if msk > - 1 then QueryFilter_Add [] [''mask'', int_to_string msk] else Inr [])) (\<lambda>f1.
           seq (of_res (if name \<noteq> [] then QueryFilter_Add f1 [''name'', name] else Inr f1)) (\<lambda>flt.
           seq (kdb_select x ''apps'' [''id'', ''path'', ''data'', ''name'', ''internal'', ''mask''] flt) (\<lambda>rows.
           seq (collect (\<lambda>row.
                seq (of_res (map_at row ''path'')) (\<lambda>p. seq (of_res (map_at row ''data'')) (\<lambda>d.
                seq (of_res (map_at row ''name'')) (\<lambda>n. seq (of_res (map_at row ''id'')) (\<lambda>i.
                seq (of_res (map_at row ''mask'')) (\<lambda>m. seq (of_res (map_at row ''internal'')) (\<lambda>k.
                  ret \<lparr>app_id = i, app_name = n, app_path = p, app_data = d, app_mask = m,
                       app_is_kiq = (k = ''t'')\<rparr>))))))) rows) (\<lambda>apps.
           ret (if apps = [] then empty_app else last apps))))))"

text \<open>\<open>get_app_info\<close> of the execution environment, and \<open>getAppMask\<close> of \<open>helper.cpp\<close>.\<close>

definition get_app_info :: "'db libs \<Rightarrow> int \<Rightarrow> (('db, 'm) world_scheme, kapplication) act" where
  "get_app_info x msk =
     with_filter [''mask'', int_to_string msk] (\<lambda>flt.
     seq (kdb_select x ''apps'' [''path'', ''data'', ''name''] flt) (\<lambda>rows.
       case rows of [] \<Rightarrow> ret empty_app
       | row # _ \<Rightarrow>
           seq (of_res (map_at row ''path'')) (\<lambda>p. seq (of_res (map_at row ''data'')) (\<lambda>d.
           seq (of_res (map_at row ''name'')) (\<lambda>n.
             ret (empty_app\<lparr>app_path := p, app_data := d, app_name := n, app_mask := int_to_string msk\<rparr>))))))"

definition NO_APP_MASK :: int where
  "NO_APP_MASK = 2 ^ 32 - 1"

definition getAppMask :: "'db libs \<Rightarrow> string \<Rightarrow> (('db, 'm) world_scheme, int) act" where
  "getAppMask x name =
     with_filter [''name'', name] (\<lambda>flt.
     seq (kdb_select x ''apps'' [''mask''] flt) (\<lambda>rows.
       if rows = [] then ret NO_APP_MASK
       else seq (of_res (first_at ''mask'' rows)) (\<lambda>m. seq (of_res (stoi m)) (\<lambda>i. ret (i mod 2 ^ 32)))))"

section \<open>What a query changes\<close>

text \<open>Only the database: the frame of every operation above.\<close>

definition only_db :: "('db, 'm) world_scheme \<Rightarrow> ('db, 'm) world_scheme \<Rightarrow> bool" where
  "only_db w w' \<longleftrightarrow> (\<exists>db. w' = w\<lparr>w_db := db\<rparr>)"

lemma reflp_only_db [simp]: "reflp only_db"
  by (rule reflpI) (metis only_db_def world.surjective world.update_convs(1))

lemma transp_only_db [simp]: "transp only_db"
  by (rule transpI) (auto simp: only_db_def)

named_theorems db_frame

lemma keeps_pq_exec [db_frame]: "keeps only_db (pq_exec x s)"
  by (auto simp: keeps_def pq_exec_def only_db_def split: prod.splits)

lemma keeps_query_rows [db_frame]: "keeps only_db (query_rows x flds s)"
  by (auto simp: query_rows_def intro!: keeps_seq db_frame)

lemma keeps_query_value [db_frame]: "keeps only_db (query_value x s)"
  by (auto simp: query_value_def intro!: keeps_seq db_frame)

lemma keeps_kdb_try [db_frame]: "keeps only_db m \<Longrightarrow> keeps only_db (kdb_try m)"
  by (auto simp: kdb_try_def intro!: keeps_handle)

lemma keeps_kdb_ops [db_frame]:
  "keeps only_db (kdb_select x t f flt)"
  "keeps only_db (kdb_select_comparison x t f cmp)"
  "keeps only_db (kdb_selectMultiFilter x t f terms order limit)"
  "keeps only_db (kdb_selectMultiFilter2 x t f terms)"
  "keeps only_db (kdb_selectJoin x t f flt js)"
  "keeps only_db (kdb_selectJoin_filters x t f flts js)"
  "keeps only_db (kdb_selectJoin_variant x t f terms js)"
  "keeps only_db (kdb_selectSimpleJoin x t f flt j)"
  "keeps only_db (kdb_update x t f v flt r)"
  "keeps only_db (kdb_insert x t f v)"
  "keeps only_db (kdb_insert_returning x t f v r)"
  "keeps only_db (kdb_remove x t flt)"
  by (auto simp: kdb_select_def kdb_select_comparison_def kdb_selectMultiFilter_def
      kdb_selectMultiFilter2_def kdb_selectJoin_def kdb_selectJoin_variant_def kdb_selectJoin_filters_def
      kdb_selectSimpleJoin_def kdb_update_def kdb_insert_def kdb_insert_returning_def kdb_remove_def
      intro!: db_frame keeps_seq)

lemma keeps_with_filter [db_frame]: "(\<And>f. keeps only_db (g f)) \<Longrightarrow> keeps only_db (with_filter args g)"
  by (auto simp: with_filter_def intro!: keeps_seq)

lemma keeps_GetAppInfo [db_frame]: "keeps only_db (GetAppInfo x m n)"
  unfolding GetAppInfo_def by (intro keeps_if keeps_seq keeps_collect db_frame keeps_pure) simp_all

text \<open>An operation on the world leaves the fields of the component that extends it.\<close>

definition only_world :: "('db, 'm) world_scheme \<Rightarrow> ('db, 'm) world_scheme \<Rightarrow> bool" where
  "only_world w w' \<longleftrightarrow> world.more w' = world.more w"

lemma reflp_only_world [simp]: "reflp only_world"
  by (simp add: reflp_def only_world_def)

lemma transp_only_world [simp]: "transp only_world"
  by (simp add: transp_def only_world_def)

lemma only_db_world: "only_db w w' \<Longrightarrow> only_world w w'"
  by (auto simp: only_db_def only_world_def)

lemma keeps_db_world: "keeps only_db m \<Longrightarrow> keeps only_world m"
  by (rule keeps_mono [OF _ only_db_world])

named_theorems world_frame

lemmas keeps_kdb_world [world_frame] = keeps_kdb_ops [THEN keeps_db_world]
  keeps_GetAppInfo [THEN keeps_db_world]

lemma keeps_world_ops [world_frame]:
  "keeps only_world (emit c e a)"
  "keeps only_world (SendMail to msg)"
  "keeps only_world (SendMail_subject to msg subject)"
  "keeps only_world (GenerateUUIDString x)"
  "keeps only_world get_fs"
  "keeps only_world (put_fs fs)"
  "keeps only_world UnixTime"
  by (simp_all add: keeps_def only_world_def emit_def SendMail_def SendMail_subject_def GenerateUUIDString_def get_fs_def
      put_fs_def UnixTime_def)

lemma keeps_world_filter [world_frame]:
  "(\<And>f. keeps only_world (g f)) \<Longrightarrow> keeps only_world (with_filter args g)"
  unfolding with_filter_def by (intro keeps_seq keeps_pure) simp_all

lemmas world_rules = keeps_if keeps_seq keeps_each keeps_collect keeps_pure world_frame

text \<open>\<open>connection_string\<close> of the configured database.\<close>

definition connection_string :: "'db libs \<Rightarrow> string" where
  "connection_string x =
     ''dbname = '' @ x_conf x ''database'' ''name'' @ '' user = '' @ x_conf x ''database'' ''user'' @
     '' password = '' @ x_conf x ''database'' ''password'' @ '' hostaddr = '' @
     x_conf x ''database'' ''host'' @ '' port = '' @ x_conf x ''database'' ''port''"

section \<open>A world for the witnesses\<close>

definition idle_libs :: "unit libs" where
  "idle_libs = \<lparr>x_exec = (\<lambda>_ db. (Inr [], db)), x_uuid = (\<lambda>n. ''u'' @ nat_to_string n), x_conf = (\<lambda>_ _. []),
     x_jwrite = (\<lambda>_. []), x_jparse = (\<lambda>_. None), x_today = (\<lambda>t _. t), x_run = (\<lambda>_ _. ([], False))\<rparr>"

lemma idle_libs_sel [simp]: "x_exec idle_libs s db = (Inr [], db)"
  by (simp add: idle_libs_def)

lemma idle_select [simp]: "kdb_select idle_libs t f flt w = (Inr [], w)"
  by (simp add: kdb_select_def kdb_try_def handle_def query_rows_def seq_def pq_exec_def)

lemma idle_selectJoin [simp]: "kdb_selectJoin idle_libs t f flt js w = (Inr [], w)"
  by (simp add: kdb_selectJoin_def kdb_try_def handle_def query_rows_def seq_def pq_exec_def)

end
