(* ===== verification/Platform.thy ===== *)
theory Platform
  imports Kdb Timers TaskHandlers "HOL-Library.AList"
begin

text \<open>
  The platform component, \<open>system/process/platform.cpp\<close> and \<open>platform_utils.cpp\<close>: it keeps the
  posts of the social platforms. A post is saved with its environment file and, where the
  platform's rows ask for it, saved again for other platforms and affiliate users; a pending post
  is requested from the process that posts it, and completed or failed by that process's answer.

  The state extends the world with the map of requests, the three unsigned counters and the
  static timer of \<open>ProcessPlatform\<close>. The map is the association list of its entries in the order
  in which the hash map is iterated; a new entry is put at the end.
\<close>

type_synonym platform_key = "string \<times> string"
type_synonym request_map = "(platform_key \<times> (platform_post \<times> post_state)) list"

record 'db platform = "'db world" +
  pf_map :: request_map
  pf_pending :: "32 word"
  pf_errors :: "32 word"
  pf_posted :: "32 word"
  pf_timer :: timer

definition EV_PLATFORM_UPDATE :: int where "EV_PLATFORM_UPDATE = 23"
definition EV_PLATFORM_POST_REQUESTED :: int where "EV_PLATFORM_POST_REQUESTED = 16"
definition EV_PLATFORM_FETCH_POSTS :: int where "EV_PLATFORM_FETCH_POSTS = 22"

definition PLATFORM_STATUS_FAILURE :: string where "PLATFORM_STATUS_FAILURE = ''2''"
definition PLATFORM_POST_INCOMPLETE :: string where "PLATFORM_POST_INCOMPLETE = ''0''"
definition PLATFORM_POST_COMPLETE :: string where "PLATFORM_POST_COMPLETE = ''1''"

section \<open>Files of a post\<close>

definition MustRepost :: "string \<Rightarrow> bool" where
  "MustRepost s \<longleftrightarrow> s = ''1'' \<or> s = ''true'' \<or> s = ''t''"

text \<open>The hash map of \<open>SavePlatformEnvFile\<close>, in one order.\<close>

definition SavePlatformEnvFile :: "fsys \<Rightarrow> platform_post \<Rightarrow> string \<times> fsys" where
  "SavePlatformEnvFile fs post =
     (let directory_name = pp_time post @ pp_id post @ pp_pid post;
          fs1 = snd (CreateTaskDirectory fs directory_name)
      in SaveEnvFile fs1 (CreateEnvFile [(''content'', pp_content post), (''urls'', pp_urls post),
           (''args'', pp_args post)]) directory_name)"

definition GetEnvPath :: "string \<Rightarrow> string \<Rightarrow> string \<Rightarrow> string" where
  "GetEnvPath pid1 time pid = ''data/'' @ time @ pid1 @ pid @ ''/v.env''"

definition GetArgsOperation :: "'db libs \<Rightarrow> fsys \<Rightarrow> string \<Rightarrow> string res" where
  "GetArgsOperation x fs path =
     bind (ReadEnvToken fs path ''args'' True) (\<lambda>s. bind (GetJSONArray (x_jparse x) s) (\<lambda>args.
       Inr (CreateOperation (x_jwrite x) ''Bot'' args)))"

definition PopulatePlatformPost :: "'db libs \<Rightarrow> fsys \<Rightarrow> platform_post \<Rightarrow> (platform_post \<times> bool) res" where
  "PopulatePlatformPost x fs post =
     (let env_path = GetEnvPath (pp_id post) (pp_time post) (pp_pid post) in
      bind (ReadEnvValues fs env_path [''content'', ''urls'', ''args'']) (\<lambda>post_values.
        if 1 < length post_values
        then bind (vec_at post_values 0) (\<lambda>c. bind (vec_at post_values 1) (\<lambda>u.
             bind (if length post_values = 3 then GetArgsOperation x fs env_path else Inr []) (\<lambda>a.
               Inr (post\<lparr>pp_content := c, pp_urls := u, pp_args := a\<rparr>, True))))
        else Inr (post, False)))"

section \<open>Rows of platforms and users\<close>

definition GetPlatformID :: "'db libs \<Rightarrow> string \<Rightarrow> (('db, 'm) world_scheme, string) act" where
  "GetPlatformID x name = with_filter [''name'', name] (\<lambda>flt.
     seq (kdb_select x ''platform'' [''id''] flt) (\<lambda>rows. of_res (first_at ''id'' rows)))"

definition GetPlatformID_mask :: "'db libs \<Rightarrow> int \<Rightarrow> (('db, 'm) world_scheme, string) act" where
  "GetPlatformID_mask x msk = seq (GetAppInfo x msk []) (\<lambda>app.
     if app_name app \<noteq> [] then GetPlatformID x (app_name app) else ret [])"

definition GetPlatform :: "'db libs \<Rightarrow> string \<Rightarrow> (('db, 'm) world_scheme, string) act" where
  "GetPlatform x pid = with_filter [''id'', pid] (\<lambda>flt.
     seq (kdb_select x ''platform'' [''name''] flt) (\<lambda>rows. of_res (first_at ''name'' rows)))"

definition UserExists :: "'db libs \<Rightarrow> string \<Rightarrow> string \<Rightarrow> (('db, 'm) world_scheme, bool) act" where
  "UserExists x pid name = with_filter [''pid'', pid, ''name'', name] (\<lambda>flt.
     seq (kdb_select x ''platform_user'' [''id''] flt) (\<lambda>rows. ret (rows \<noteq> [])))"

definition AddUser :: "'db libs \<Rightarrow> string \<Rightarrow> string \<Rightarrow> string \<Rightarrow> (('db, 'm) world_scheme, string) act" where
  "AddUser x pid name type =
     kdb_insert_returning x ''platform_user'' [''pid'', ''name'', ''type''] [pid, name, type] ''id''"

definition GetUID :: "'db libs \<Rightarrow> string \<Rightarrow> string \<Rightarrow> (('db, 'm) world_scheme, string) act" where
  "GetUID x pid name = with_filter [''pid'', pid, ''name'', name] (\<lambda>flt.
     seq (kdb_select x ''platform_user'' [''id''] flt) (\<lambda>rows. of_res (first_at ''id'' rows)))"

definition GetUser :: "'db libs \<Rightarrow> string \<Rightarrow> string \<Rightarrow> bool \<Rightarrow> (('db, 'm) world_scheme, string) act" where
  "GetUser x uid pid use_default =
     (let look = (\<lambda>flt. seq (kdb_select x ''platform_user'' [''name''] flt) (\<lambda>rows. of_res (first_at ''name'' rows)))
      in if uid \<noteq> [] then with_filter [''id'', uid] look
         else if use_default \<and> pid \<noteq> [] then with_filter [''pid'', pid, ''type'', ''official''] look
         else ret [])"

definition FetchRepostIDs :: "'db libs \<Rightarrow> string \<Rightarrow> (('db, 'm) world_scheme, string list) act" where
  "FetchRepostIDs x pid = with_filter [''pid'', pid] (\<lambda>flt.
     seq (kdb_select x ''platform_repost'' [''r_pid''] flt) (\<lambda>rows.
       of_res (mapM (\<lambda>row. map_at row ''r_pid'') rows)))"

definition PostAlreadyExists :: "'db libs \<Rightarrow> platform_post \<Rightarrow> (('db, 'm) world_scheme, bool) act" where
  "PostAlreadyExists x post =
     with_filter [''platform_post.pid'', pp_pid post, ''platform_user.name'', pp_user post,
                  ''platform_post.unique_id'', pp_id post] (\<lambda>flt.
     seq (kdb_selectSimpleJoin x ''platform_post'' [''platform_post.id''] flt
            \<lparr>j_table = ''platform_user'', j_field = ''id'', j_join_table = ''platform_post'',
             j_join_field = ''uid'', j_type = INNER\<rparr>) (\<lambda>rows. ret (rows \<noteq> [])))"

definition Update :: "'db libs \<Rightarrow> platform_post \<Rightarrow> string \<Rightarrow> (('db, 'm) world_scheme, bool) act" where
  "Update x post status =
     (if pp_id post = [] \<or> pp_user post = [] then ret False
      else seq (GetUID x (pp_pid post) (pp_user post)) (\<lambda>uid.
           with_filter [''pid'', pp_pid post, ''unique_id'', pp_id post, ''uid'', uid] (\<lambda>flt.
           seq (kdb_update x ''platform_post'' [''status''] [status] flt ''id'') (\<lambda>pid1.
           seq (emit ALL_CLIENTS EV_PLATFORM_UPDATE (GetPayload_post post)) (\<lambda>_.
           ret (pid1 \<noteq> []))))))"

section \<open>Saving a post\<close>

definition MakeAffiliatePost :: "'db libs \<Rightarrow> string \<Rightarrow> string \<Rightarrow> platform_post \<Rightarrow> (('db, 'm) world_scheme, platform_post) act" where
  "MakeAffiliatePost x user type post =
     seq (GenerateUUIDString x) (\<lambda>uuid. seq get_fs (\<lambda>fs.
     seq (of_res (ReadFile fs (x_conf x ''platform'' (''affiliate_'' @ type)))) (\<lambda>affiliate_content.
       ret (empty_post\<lparr>pp_id := uuid, pp_pid := pp_pid post, pp_o_pid := pp_pid post, pp_user := user,
              pp_time := pp_time post, pp_urls := pp_urls post, pp_method := pp_method post,
              pp_name := pp_name post, pp_args := pp_args post, pp_repost := ''false'',
              pp_content := affiliate_content @ newline # pp_content post\<rparr>))))"

definition MakeAffiliatePosts :: "'db libs \<Rightarrow> platform_post \<Rightarrow> (('db, 'm) world_scheme, platform_post list) act" where
  "MakeAffiliatePosts x post =
     with_filter [''platform_user.name'', pp_user post, ''platform_user.pid'', pp_pid post] (\<lambda>flt.
     seq (kdb_selectSimpleJoin x ''platform_user'' [''platform_affiliate_user.a_uid'', ''platform_user.type''] flt
            \<lparr>j_table = ''platform_affiliate_user'', j_field = ''uid'', j_join_table = ''platform_user'',
             j_join_field = ''id'', j_type = INNER\<rparr>) (\<lambda>result.
     seq (collect (\<lambda>row.
            seq (of_res (map_at row ''platform_affiliate_user.a_uid'')) (\<lambda>a_uid.
            with_filter [''id'', a_uid] (\<lambda>flt.
            seq (kdb_select x ''platform_user'' [''name''] flt) (\<lambda>af_rows.
            seq (of_res (vec_front af_rows)) (\<lambda>af.
            seq (of_res (map_at af ''name'')) (\<lambda>name.
            seq (of_res (map_at row ''platform_user.type'')) (\<lambda>type.
              MakeAffiliatePost x name type post))))))) result) (\<lambda>posts.
     ret (filter post_is_valid posts))))"

definition GetFilters :: "'db libs \<Rightarrow> string \<Rightarrow> string \<Rightarrow> (('db, 'm) world_scheme, (string \<times> string) list) act" where
  "GetFilters x pid rpid = with_filter [''pid'', pid, ''rpid'', rpid] (\<lambda>flt.
     seq (kdb_select x ''platform_filter'' [''value'', ''type''] flt) (\<lambda>rows.
       of_res (mapM (\<lambda>r. bind (map_at r ''type'') (\<lambda>t. bind (map_at r ''value'') (\<lambda>v. Inr (t, v)))) rows)))"

fun validate_loop :: "string \<Rightarrow> bool \<Rightarrow> (string \<times> string) list \<Rightarrow> bool" where
  "validate_loop user result [] = result"
| "validate_loop user result ((type, val) # filters) =
     (let r1 = (if type = ''user'' then user = val else result);
          r2 = (if type = ''default'' then val = ''true'' \<or> val = ''t'' \<or> val = ''1'' else r1)
      in if r2 then True else validate_loop user r2 filters)"

definition ValidateRepost :: "(string \<times> string) list \<Rightarrow> platform_post \<Rightarrow> bool" where
  "ValidateRepost filters post = validate_loop (pp_user post) (filters = []) filters"

definition GetValidUser :: "'db libs \<Rightarrow> string \<Rightarrow> string \<Rightarrow> (('db, 'm) world_scheme, string) act" where
  "GetValidUser x o_pid name = seq (GetPlatform x o_pid) (\<lambda>p.
     ret (if p = ''TW Search'' then x_conf x ''platform'' ''default_user'' else name))"

definition insert_post :: "'db libs \<Rightarrow> platform_post \<Rightarrow> string \<Rightarrow> string \<Rightarrow> (('db, 'm) world_scheme, string) act" where
  "insert_post x post uid status =
     kdb_insert_returning x ''platform_post''
       [''pid'', ''unique_id'', ''time'', ''o_pid'', ''uid'', ''status'', ''repost'']
       [pp_pid post, pp_id post, pp_time post, pp_o_pid post, uid, status, pp_repost post] ''id''"

definition save_env :: "platform_post \<Rightarrow> (('db, 'm) world_scheme, bool) act" where
  "save_env post = seq get_fs (\<lambda>fs. let (path, fs') = SavePlatformEnvFile fs post in
     seq (put_fs fs') (\<lambda>_. ret (path \<noteq> [])))"

text \<open>
  The function calls itself for the reposts; the first argument bounds the depth. Only a post
  with no origin is reposted and a repost's origin is its platform's id, so the recursion is two
  calls deep, except where that id is the mark for no origin (\<open>SavePlatformPost_depth\<close> below).
\<close>

fun SavePlatformPost :: "nat \<Rightarrow> 'db libs \<Rightarrow> platform_post \<Rightarrow> string \<Rightarrow> (('db, 'm) world_scheme, bool) act" where
  "SavePlatformPost 0 x post status = raise Diverges"
| "SavePlatformPost (Suc n) x post status =
     seq (PostAlreadyExists x post) (\<lambda>exists.
     if exists
     then let post' = post\<lparr>pp_status := (if pp_status post = [] then status else pp_status post)\<rparr>
          in Update x post' (pp_status post')
     else
       seq (GetUID x (pp_pid post) (pp_user post)) (\<lambda>uid0.
       seq (if uid0 = [] then AddUser x (pp_pid post) (pp_user post) ''default'' else ret uid0) (\<lambda>uid.
       seq (insert_post x post uid status) (\<lambda>pid1.
       seq (if pid1 \<noteq> [] \<and> MustRepost (pp_repost post) \<and> pp_o_pid post = NO_ORIGIN_PLATFORM_EXISTS
            then
              seq (FetchRepostIDs x (pp_pid post)) (\<lambda>ids.
              seq (each (\<lambda>platform_id.
                seq (GetFilters x (pp_pid post) platform_id) (\<lambda>filters.
                if \<not> ValidateRepost filters post then ret ()
                else
                  seq (GetValidUser x (pp_pid post) (pp_user post)) (\<lambda>user.
                  let repost = empty_post\<lparr>pp_pid := platform_id, pp_o_pid := pp_pid post, pp_id := pp_id post,
                        pp_user := user, pp_time := pp_time post, pp_content := pp_content post,
                        pp_urls := pp_urls post, pp_repost := pp_repost post, pp_name := pp_name post,
                        pp_args := ToJSONArray (x_jwrite x) [pp_args post], pp_method := pp_method post\<rparr>
                  in seq (SavePlatformPost n x repost PLATFORM_POST_INCOMPLETE) (\<lambda>_.
                     seq (MakeAffiliatePosts x repost) (\<lambda>afs.
                     each (\<lambda>af. seq (SavePlatformPost n x af PLATFORM_POST_INCOMPLETE) (\<lambda>_. ret ())) afs))))) ids)
              (\<lambda>_. seq (MakeAffiliatePosts x post) (\<lambda>afs.
                each (\<lambda>af. seq (SavePlatformPost n x af PLATFORM_POST_INCOMPLETE) (\<lambda>_. ret ())) afs)))
            else ret ()) (\<lambda>_.
       if pid1 \<noteq> [] then save_env post else ret False)))))"

section \<open>Requests in progress\<close>

definition IsProcessingPlatform :: "request_map \<Rightarrow> bool" where
  "IsProcessingPlatform m \<longleftrightarrow> (\<exists>e \<in> set m. snd (snd e) = PROCESSING)"

definition post_key :: "platform_post \<Rightarrow> platform_key" where
  "post_key p = (pp_pid p, pp_id p)"

text \<open>
  \<open>insert_or_update\<close>. In the last branch the code writes
  \<open>it->second.second == PlatformPostState::PROCESSING\<close>: a comparison, so the state of the failed
  post stays as it is, and only its retry mark is set.
\<close>

definition insert_or_update :: "platform_post \<Rightarrow> (('db, 'm) platform_scheme, bool) act" where
  "insert_or_update p s =
     (case map_of (pf_map s) (post_key p) of
        None \<Rightarrow> (Inr True, s\<lparr>pf_map := AList.update (post_key p) (p, PROCESSING) (pf_map s)\<rparr>)
      | Some (q, st) \<Rightarrow>
          if st = PROCESSING then (Inr False, s)
          else if st = FAILURE
          then (if pp_retry q then (Inr False, s)
                else (Inr True, s\<lparr>pf_map := AList.update (post_key p) (q\<lparr>pp_retry := True\<rparr>, st) (pf_map s)\<rparr>))
          else (Inr True, s))"

definition complete_post :: "platform_post \<Rightarrow> (('db, 'm) platform_scheme, bool) act" where
  "complete_post p s =
     (case map_of (pf_map s) (post_key p) of
        None \<Rightarrow> (Inr False, s)
      | Some (q, st) \<Rightarrow>
          let s1 = (if st \<noteq> SUCCESS then s\<lparr>pf_posted := pf_posted s + 1, pf_pending := pf_pending s - 1\<rparr> else s)
          in (Inr True, s1\<lparr>pf_map := AList.delete (post_key p) (pf_map s)\<rparr>))"

definition fail_request :: "platform_key \<Rightarrow> ('db, 'm) platform_scheme \<Rightarrow> ('db, 'm) platform_scheme" where
  "fail_request k s =
     (case map_of (pf_map s) k of None \<Rightarrow> s
      | Some (q, _) \<Rightarrow> s\<lparr>pf_map := AList.update k (q, FAILURE) (pf_map s)\<rparr>)"

definition count_failure :: "('db, 'm) platform_scheme \<Rightarrow> ('db, 'm) platform_scheme" where
  "count_failure s = s\<lparr>pf_errors := pf_errors s + 1, pf_pending := pf_pending s - 1\<rparr>"

definition get_requests :: "(('db, 'm) platform_scheme, request_map) act" where
  "get_requests s = (Inr (pf_map s), s)"

definition fail_pending_posts :: "'db libs \<Rightarrow> (('db, 'm) platform_scheme, unit) act" where
  "fail_pending_posts x = seq get_requests (each (\<lambda>(k, p, st).
     if st = PROCESSING
     then seq (modify (fail_request k)) (\<lambda>_. seq (Update x p PLATFORM_STATUS_FAILURE) (\<lambda>_. modify count_failure))
     else ret ()))"

definition OnPlatformError :: "'db libs \<Rightarrow> string list \<Rightarrow> (('db, 'm) platform_scheme, unit) act" where
  "OnPlatformError x payload =
     seq (of_res (vec_at payload 0)) (\<lambda>name. seq (of_res (vec_at payload 1)) (\<lambda>pid1.
     seq (of_res (vec_at payload 2)) (\<lambda>user. seq (GetPlatformID x name) (\<lambda>platform_id.
     seq (of_res (vec_at payload 3)) (\<lambda>error.
     seq (SendMail (x_conf x ''email'' ''admin'') error) (\<lambda>_.
       if pid1 = [] then ret ()
       else seq get_requests (\<lambda>m.
            seq (if IsProcessingPlatform m \<and> map_of m (platform_id, pid1) \<noteq> None
                 then modify (\<lambda>s. count_failure (fail_request (platform_id, pid1) s)) else ret ()) (\<lambda>_.
            seq (Update x (empty_post\<lparr>pp_name := name, pp_id := pid1, pp_pid := platform_id, pp_user := user\<rparr>)
                  PLATFORM_STATUS_FAILURE) (\<lambda>_. ret ())))))))))"

definition print_pending :: "'db libs \<Rightarrow> (('db, 'm) platform_scheme, unit) act" where
  "print_pending x = seq get_requests (each (\<lambda>(k, _). seq (GetPlatform x (fst k)) (\<lambda>_. ret ())))"

section \<open>Fetching\<close>

definition ParsePlatformPosts :: "'db libs \<Rightarrow> fsys \<Rightarrow> result_map list \<Rightarrow> platform_post list res" where
  "ParsePlatformPosts x fs result =
     bind (mapM (\<lambda>row.
       bind (map_at row ''platform_post.pid'') (\<lambda>pid. bind (map_at row ''platform_post.o_pid'') (\<lambda>o_pid.
       bind (map_at row ''platform_post.unique_id'') (\<lambda>pid1. bind (map_at row ''platform_user.name'') (\<lambda>user.
       bind (map_at row ''platform_post.time'') (\<lambda>time. bind (map_at row ''platform_post.repost'') (\<lambda>repost.
       bind (map_at row ''platform.name'') (\<lambda>name. bind (map_at row ''platform.method'') (\<lambda>method.
       bind (map_at row ''platform_post.status'') (\<lambda>status.
         PopulatePlatformPost x fs (empty_post\<lparr>pp_pid := pid, pp_o_pid := o_pid, pp_id := pid1, pp_user := user,
           pp_time := time, pp_repost := repost, pp_name := name, pp_method := method, pp_status := status\<rparr>))))))))))) result)
     (\<lambda>ps. Inr (map fst (filter snd ps)))"

definition Fetch :: "'db libs \<Rightarrow> bool \<Rightarrow> (('db, 'm) world_scheme, platform_post list) act" where
  "Fetch x pending =
     seq (of_res (if pending then CreateFilter [''platform_post.status'', PLATFORM_POST_INCOMPLETE] else Inr [])) (\<lambda>flt.
     seq (kdb_selectJoin x ''platform_post''
       [''platform_post.pid'', ''platform_post.o_pid'', ''platform_post.unique_id'', ''platform_post.time'',
        ''platform.name'', ''platform_post.repost'', ''platform.method'', ''platform_post.uid'',
        ''platform_post.status'', ''platform_user.name''] flt
       [\<lparr>j_table = ''platform'', j_field = ''id'', j_join_table = ''platform_post'', j_join_field = ''pid'', j_type = INNER\<rparr>,
        \<lparr>j_table = ''platform_user'', j_field = ''id'', j_join_table = ''platform_post'', j_join_field = ''uid'', j_type = OUTER\<rparr>])
     (\<lambda>rows. seq get_fs (\<lambda>fs. of_res (ParsePlatformPosts x fs rows))))"

definition FetchPosts :: "'db libs \<Rightarrow> (('db, 'm) world_scheme, unit) act" where
  "FetchPosts x = seq (Fetch x False) (\<lambda>posts. seq get_fs (\<lambda>fs.
     seq (of_res (mapM (PopulatePlatformPost x fs) posts)) (\<lambda>ps.
       emit ALL_CLIENTS EV_PLATFORM_FETCH_POSTS (concat (map (\<lambda>p. GetPayload_post (fst p)) ps)))))"

definition process_post :: "platform_post \<Rightarrow> (('db, 'm) platform_scheme, unit) act" where
  "process_post post = seq (insert_or_update post) (\<lambda>ok.
     if ok then seq (emit ALL_CLIENTS EV_PLATFORM_POST_REQUESTED (GetPayload_post post)) (\<lambda>_.
                modify (\<lambda>s. s\<lparr>pf_pending := pf_pending s + 1\<rparr>))
     else ret ())"

definition get_state :: "('s, 's) act" where
  "get_state s = (Inr s, s)"

definition check_timer :: "'db libs \<Rightarrow> (('db, 'm) platform_scheme, unit) act" where
  "check_timer x = seq get_state (\<lambda>s.
     if \<not> timer_active (pf_timer s) then modify (\<lambda>s. s\<lparr>pf_timer := timer_reset (w_now s) (pf_timer s)\<rparr>)
     else if timer_active (pf_timer s) \<and> timer_expired (w_now s) (pf_timer s)
     then seq (fail_pending_posts x) (\<lambda>_. modify (\<lambda>s. s\<lparr>pf_timer := timer_stop (pf_timer s)\<rparr>))
     else ret ())"

definition ProcessPlatform :: "'db libs \<Rightarrow> (('db, 'm) platform_scheme, unit) act" where
  "ProcessPlatform x = seq (check_timer x) (\<lambda>_. seq get_requests (\<lambda>m.
     if IsProcessingPlatform m then print_pending x
     else seq (Fetch x True) (each process_post)))"

text \<open>A process's report of a post, \<open>SavePlatformPost(std::vector<std::string>)\<close>.\<close>

definition FromPayload_act :: "'db libs \<Rightarrow> string list \<Rightarrow> (('db, 'm) world_scheme, platform_post) act" where
  "FromPayload_act x payload w =
     (case FromPayload (x_uuid x (w_uuids w)) (w_now w) payload of
        Inl e \<Rightarrow> (Inl e, w)
      | Inr p \<Rightarrow> (Inr p, if payload ! 1 = [] then w\<lparr>w_uuids := Suc (w_uuids w)\<rparr> else w))"

definition SavePlatformPost_payload :: "nat \<Rightarrow> 'db libs \<Rightarrow> string list \<Rightarrow> (('db, 'm) platform_scheme, bool) act" where
  "SavePlatformPost_payload n x payload =
     seq (FromPayload_act x payload) (\<lambda>p. seq (GetPlatformID x (pp_name p)) (\<lambda>pid.
     let post = p\<lparr>pp_pid := pid\<rparr> in
     seq (complete_post post) (\<lambda>_. SavePlatformPost n x post PLATFORM_POST_COMPLETE)))"

section \<open>From a task to a post\<close>

record tp_content =
  tc_description :: string
  tc_header :: string
  tc_hashtags :: string
  tc_link_bio :: string
  tc_requested_by :: string
  tc_requested_by_phrase :: string
  tc_promote_share :: string

definition empty_content :: tp_content where
  "empty_content = \<lparr>tc_description = [], tc_header = [], tc_hashtags = [], tc_link_bio = [],
     tc_requested_by = [], tc_requested_by_phrase = [], tc_promote_share = []\<rparr>"

definition content_value :: "tp_content \<Rightarrow> string" where
  "content_value c = tc_header c @ [newline] @ tc_description c @ [newline, newline, newline] @
     tc_requested_by_phrase c @ '' '' @ tc_requested_by c @ [newline, newline, newline] @
     tc_promote_share c @ [newline, newline] @ tc_link_bio c @ [newline, newline] @ tc_hashtags c"

type_synonym task_parser = "platform_post \<times> tp_content"

definition TaskParser_new :: "task \<Rightarrow> string \<Rightarrow> task_parser" where
  "TaskParser_new t pid =
     (empty_post\<lparr>pp_id := task_id_string t, pp_time := tk_datetime t, pp_name := tk_name t,
        pp_repost := ''true'', pp_pid := pid\<rparr>, empty_content)"

text \<open>A flag that the map has no entry for calls an empty \<open>std::function\<close>.\<close>

definition TaskParser_parse :: "string \<Rightarrow> string \<Rightarrow> task_parser \<Rightarrow> task_parser res" where
  "TaskParser_parse flag arg tp = (case tp of (p, c) \<Rightarrow>
     if flag = ''DESCRIPTION'' then Inr (p, c\<lparr>tc_description := arg\<rparr>)
     else if flag = ''HEADER'' then Inr (p, c\<lparr>tc_header := arg\<rparr>)
     else if flag = ''HASHTAGS'' then Inr (p, c\<lparr>tc_hashtags := arg\<rparr>)
     else if flag = ''LINK_BIO'' then Inr (p, c\<lparr>tc_link_bio := arg\<rparr>)
     else if flag = ''REQUESTED_BY'' then Inr (p, c\<lparr>tc_requested_by := arg\<rparr>)
     else if flag = ''REQUESTED_BY_PHRASE'' then Inr (p, c\<lparr>tc_requested_by_phrase := arg\<rparr>)
     else if flag = ''PROMOTE_SHARE'' then Inr (p, c\<lparr>tc_promote_share := arg\<rparr>)
     else if flag = ''USER'' then Inr (p\<lparr>pp_user := arg\<rparr>, c)
     else if flag = ''FILE_TYPE'' \<or> flag = ''DIRECT_MESSAGE'' then Inr (p, c)
     else Inl (RuntimeError ''bad_function_call''))"

definition TaskParser_add_file :: "string \<Rightarrow> task_parser \<Rightarrow> task_parser" where
  "TaskParser_add_file file tp = (case tp of (p, c) \<Rightarrow>
     (p\<lparr>pp_urls := pp_urls p @ ''file://'' @ file @ ''>''\<rparr>, c))"

definition TaskParser_get :: "task_parser \<Rightarrow> platform_post" where
  "TaskParser_get tp = (case tp of (p, c) \<Rightarrow> p\<lparr>pp_content := content_value c\<rparr>)"

fun parse_flags :: "fsys \<Rightarrow> task \<Rightarrow> string list \<Rightarrow> task_parser \<Rightarrow> task_parser res" where
  "parse_flags fs t [] tp = Inr tp"
| "parse_flags fs t (flag # flags) tp =
     bind (GetToken_task fs t flag) (\<lambda>arg. bind (TaskParser_parse flag arg tp) (parse_flags fs t flags))"

definition to_post :: "'db libs \<Rightarrow> task \<Rightarrow> (('db, 'm) world_scheme, platform_post) act" where
  "to_post x t = seq (GetPlatformID_mask x (tk_mask t)) (\<lambda>pid. seq get_fs (\<lambda>fs.
     seq (of_res (parse_flags fs t (exec_flags_to_vector (tk_flags t)) (TaskParser_new t pid))) (\<lambda>tp.
       ret (TaskParser_get (fold TaskParser_add_file (tk_filenames t) tp)))))"

section \<open>What the database side leaves alone\<close>

lemma keeps_world_rows [world_frame]:
  "keeps only_world (GetPlatformID x name)"
  "keeps only_world (GetPlatform x pid)"
  "keeps only_world (UserExists x pid name)"
  "keeps only_world (AddUser x pid name type)"
  "keeps only_world (GetUID x pid name)"
  "keeps only_world (FetchRepostIDs x pid)"
  "keeps only_world (PostAlreadyExists x post)"
  "keeps only_world (GetFilters x pid rpid)"
  "keeps only_world (insert_post x post uid status)"
  unfolding GetPlatformID_def GetPlatform_def UserExists_def AddUser_def GetUID_def FetchRepostIDs_def
    PostAlreadyExists_def GetFilters_def insert_post_def
  by (intro world_rules world_frame; simp only: reflp_only_world transp_only_world)+

lemma keeps_world_payload [world_frame]: "keeps only_world (FromPayload_act x payload)"
  by (simp add: keeps_def only_world_def FromPayload_act_def split: sum.splits)

lemma keeps_world_posts [world_frame]:
  "keeps only_world (GetPlatformID_mask x msk)"
  "keeps only_world (GetValidUser x o_pid name)"
  "keeps only_world (Update x post status)"
  "keeps only_world (MakeAffiliatePost x user type post)"
  "keeps only_world (save_env post)"
  "keeps only_world (Fetch x pending)"
  "keeps only_world (FetchPosts x)"
  "keeps only_world (to_post x t)"
  unfolding GetPlatformID_mask_def GetValidUser_def Update_def MakeAffiliatePost_def save_env_def
    FetchPosts_def to_post_def Fetch_def Let_def case_prod_beta
  by (intro world_rules world_frame; simp only: reflp_only_world transp_only_world)+

lemma keeps_world_affiliates [world_frame]: "keeps only_world (MakeAffiliatePosts x post)"
  unfolding MakeAffiliatePosts_def by (intro world_rules world_frame; simp only: reflp_only_world transp_only_world)

declare SavePlatformPost.simps [simp del]

lemma keeps_world_save [world_frame]: "keeps only_world (SavePlatformPost n x post status)"
proof (induction n arbitrary: post status)
  case (Suc n)
  show ?case
    unfolding SavePlatformPost.simps Let_def
    by (intro world_rules world_frame Suc; simp only: reflp_only_world transp_only_world)
qed (simp add: SavePlatformPost.simps)

section \<open>The map of requests\<close>

definition requests_ok :: "request_map \<Rightarrow> bool" where
  "requests_ok m \<longleftrightarrow> distinct (map fst m) \<and>
     (\<forall>(k, p, st) \<in> set m. k = post_key p \<and> st \<noteq> SUCCESS)"

definition pf_good :: "('db, 'm) platform_scheme \<Rightarrow> bool" where
  "pf_good s \<longleftrightarrow> requests_ok (pf_map s)"

lemma requests_ok_Nil [simp]: "requests_ok []"
  by (simp add: requests_ok_def)

lemma requests_ok_lookup:
  "requests_ok m \<Longrightarrow> map_of m k = Some (p, st) \<Longrightarrow> k = post_key p \<and> st \<noteq> SUCCESS"
  by (auto simp: requests_ok_def dest!: map_of_SomeD)

lemma set_AList_update: "set (AList.update k v m) \<subseteq> insert (k, v) (set m)"
  by (induction m) auto

lemma requests_ok_update:
  assumes "requests_ok m" and "k = post_key p" and "st \<noteq> SUCCESS"
  shows "requests_ok (AList.update k (p, st) m)"
  unfolding requests_ok_def
proof
  show "distinct (map fst (AList.update k (p, st) m))"
    using assms(1) by (simp add: requests_ok_def AList.distinct_update)
  show "\<forall>(k, p, st) \<in> set (AList.update k (p, st) m). k = post_key p \<and> st \<noteq> SUCCESS"
    using assms set_AList_update [of k "(p, st)" m] by (fastforce simp: requests_ok_def)
qed

lemma requests_ok_delete: "requests_ok m \<Longrightarrow> requests_ok (AList.delete k m)"
  using AList.distinct_delete [of m k] by (auto simp: requests_ok_def AList.delete_eq)

lemma requests_ok_change:
  "requests_ok m \<Longrightarrow> map_of m k = Some (q, st0) \<Longrightarrow> st \<noteq> SUCCESS \<Longrightarrow> post_key q' = post_key q \<Longrightarrow>
   requests_ok (AList.update k (q', st) m)"
  using requests_ok_lookup [of m k q st0] by (simp add: requests_ok_update)

lemma post_key_retry [simp]: "post_key (p\<lparr>pp_retry := b\<rparr>) = post_key p"
  by (simp add: post_key_def)

definition good_step :: "('db, 'm) platform_scheme \<Rightarrow> ('db, 'm) platform_scheme \<Rightarrow> bool" where
  "good_step s s' \<longleftrightarrow> (pf_good s \<longrightarrow> pf_good s')"

lemma reflp_good_step [simp]: "reflp good_step"
  by (simp add: reflp_def good_step_def)

lemma transp_good_step [simp]: "transp good_step"
  by (auto simp: transp_def good_step_def)

lemma keeps_good_world: "keeps only_world m \<Longrightarrow> keeps good_step m"
proof (rule keeps_mono)
  fix s s' :: "('a, 'b) platform_scheme"
  assume "only_world s s'"
  then have "pf_map s' = pf_map s"
    by (cases s; cases s') (simp add: only_world_def)
  then show "good_step s s'" by (simp add: good_step_def pf_good_def)
qed

lemma keeps_good_get: "keeps good_step get_requests" "keeps good_step get_state"
  by (simp_all add: keeps_def get_requests_def get_state_def good_step_def)

lemma keeps_good_insert: "keeps good_step (insert_or_update p)"
  unfolding keeps_def good_step_def pf_good_def insert_or_update_def
  by (auto simp: requests_ok_update intro: requests_ok_change split: option.splits)

lemma keeps_good_complete: "keeps good_step (complete_post p)"
  unfolding keeps_def good_step_def pf_good_def complete_post_def
  by (auto simp: requests_ok_delete Let_def split: option.splits)

lemma good_fail_request: "pf_good s \<Longrightarrow> pf_good (fail_request k s)"
  by (auto simp: pf_good_def fail_request_def intro: requests_ok_change split: option.splits)

lemma good_count_failure [simp]: "pf_good (count_failure s) \<longleftrightarrow> pf_good s"
  by (simp add: pf_good_def count_failure_def)

lemma keeps_good_print: "keeps good_step (print_pending x)"
  unfolding print_pending_def case_prod_beta
  by (intro keeps_seq keeps_each keeps_good_get keeps_pure keeps_good_world [OF keeps_world_rows(2)]; simp)

lemmas good_rules = keeps_if keeps_seq keeps_each keeps_collect keeps_pure
  keeps_good_insert keeps_good_complete keeps_good_get keeps_good_print
  keeps_good_world [OF keeps_world_rows(1)] keeps_good_world [OF keeps_world_posts(3)]
  keeps_good_world [OF keeps_world_posts(6)] keeps_good_world [OF keeps_world_ops(1)]
  keeps_good_world [OF keeps_world_ops(2)] keeps_good_world [OF keeps_world_payload]
  keeps_good_world [OF keeps_world_save] keeps_modify

lemma keeps_good_fail_pending: "keeps good_step (fail_pending_posts x)"
  unfolding fail_pending_posts_def case_prod_beta
  by (intro good_rules; simp add: good_step_def good_fail_request)

lemma keeps_good_error: "keeps good_step (OnPlatformError x payload)"
  unfolding OnPlatformError_def
  by (intro good_rules; simp add: good_step_def good_fail_request)

lemma keeps_good_process: "keeps good_step (ProcessPlatform x)"
  unfolding ProcessPlatform_def check_timer_def process_post_def
  by (intro good_rules keeps_good_fail_pending; simp add: good_step_def pf_good_def)

lemma keeps_good_report: "keeps good_step (SavePlatformPost_payload n x payload)"
  unfolding SavePlatformPost_payload_def Let_def by (intro good_rules; simp)

datatype platform_op = DoProcess | DoReport "string list" | DoError "string list" | DoFetch

definition platform_step :: "nat \<Rightarrow> 'db libs \<Rightarrow> platform_op \<Rightarrow> ('db, 'm) platform_scheme \<Rightarrow> ('db, 'm) platform_scheme" where
  "platform_step n x a s =
     (case a of DoProcess \<Rightarrow> snd (ProcessPlatform x s)
      | DoReport payload \<Rightarrow> snd (SavePlatformPost_payload n x payload s)
      | DoError payload \<Rightarrow> snd (OnPlatformError x payload s)
      | DoFetch \<Rightarrow> snd (FetchPosts x s))"

interpretation pfs: invariant_system "platform_step n x" pf_good for n x
proof unfold_locales
  have step: "keeps good_step m \<Longrightarrow> pf_good s \<Longrightarrow> pf_good (snd (m s))" for m :: "(('a, 'b) platform_scheme, 'c) act" and s
    by (simp add: keeps_def good_step_def)
  fix s :: "('a, 'b) platform_scheme" and a
  assume "pf_good s"
  then show "pf_good (platform_step n x a s)"
    by (cases a) (simp_all add: platform_step_def step keeps_good_process keeps_good_report
        keeps_good_error keeps_good_world [OF keeps_world_posts(7)])
qed

section \<open>How deep a save goes\<close>

lemma SavePlatformPost_leaf:
  assumes "pp_o_pid post \<noteq> NO_ORIGIN_PLATFORM_EXISTS \<or> \<not> MustRepost (pp_repost post)"
  shows "SavePlatformPost (Suc n) x post status = SavePlatformPost (Suc 0) x post status"
proof -
  have "\<not> (b \<and> MustRepost (pp_repost post) \<and> pp_o_pid post = NO_ORIGIN_PLATFORM_EXISTS)" for b
    using assms by blast
  then show ?thesis
    unfolding SavePlatformPost.simps by (simp only: if_False)
qed

lemma yields_with_filter: "(\<And>f. yields P (g f)) \<Longrightarrow> yields P (with_filter args g)"
  by (simp add: with_filter_def yields_seq)

lemma affiliates_not_reposted:
  "yields (\<lambda>afs. \<forall>af \<in> set afs. \<not> MustRepost (pp_repost af)) (MakeAffiliatePosts x post)"
proof -
  have one: "yields (\<lambda>af. \<not> MustRepost (pp_repost af)) (MakeAffiliatePost x name type post)" for name type
    unfolding MakeAffiliatePost_def by (intro yields_seq) (simp add: MustRepost_def)
  have all: "yields (\<lambda>afs. \<forall>af \<in> set afs. \<not> MustRepost (pp_repost af))
      (seq (collect f rows) (\<lambda>posts. ret (filter post_is_valid posts)))"
    if "\<And>row. yields (\<lambda>af. \<not> MustRepost (pp_repost af)) (f row)"
    for f :: "result_map \<Rightarrow> (('a, 'c) world_scheme, platform_post) act" and rows
    using yields_collect [of "\<lambda>af. \<not> MustRepost (pp_repost af)" f rows, OF that]
    by (auto simp: yields_def seq_def split: prod.splits sum.splits)
  show ?thesis
    unfolding MakeAffiliatePosts_def
    by (rule yields_with_filter, rule yields_seq, rule all, intro yields_seq yields_with_filter one)
qed

lemma affiliate_saves:
  "seq (MakeAffiliatePosts x post) (\<lambda>afs. each (\<lambda>af. seq (SavePlatformPost (Suc n) x af st) (\<lambda>_. ret ())) afs) =
   seq (MakeAffiliatePosts x post) (\<lambda>afs. each (\<lambda>af. seq (SavePlatformPost (Suc 0) x af st) (\<lambda>_. ret ())) afs)"
proof (rule seq_cong_yields [OF affiliates_not_reposted])
  fix afs :: "platform_post list"
  assume "\<forall>af \<in> set afs. \<not> MustRepost (pp_repost af)"
  then show "each (\<lambda>af. seq (SavePlatformPost (Suc n) x af st) (\<lambda>_. ret ())) afs =
      each (\<lambda>af. seq (SavePlatformPost (Suc 0) x af st) (\<lambda>_. ret ())) afs"
    by (intro each_cong arg_cong [where f = "\<lambda>m. seq m (\<lambda>_. ret ())"] SavePlatformPost_leaf) simp
qed

lemma SavePlatformPost_depth:
  assumes "pp_pid post \<noteq> NO_ORIGIN_PLATFORM_EXISTS"
  shows "SavePlatformPost (Suc (Suc n)) x post status = SavePlatformPost 2 x post status"
proof -
  have leaf: "SavePlatformPost (Suc n) x (empty_post\<lparr>pp_pid := a, pp_o_pid := pp_pid post, pp_id := b,
      pp_user := c, pp_time := d, pp_content := e, pp_urls := f, pp_repost := g, pp_name := h,
      pp_args := i, pp_method := j\<rparr>) st =
    SavePlatformPost (Suc 0) x (empty_post\<lparr>pp_pid := a, pp_o_pid := pp_pid post, pp_id := b,
      pp_user := c, pp_time := d, pp_content := e, pp_urls := f, pp_repost := g, pp_name := h,
      pp_args := i, pp_method := j\<rparr>) st" for a b c d e f g h i j st
    using assms by (intro SavePlatformPost_leaf) simp
  have two: "SavePlatformPost 2 x post status = SavePlatformPost (Suc (Suc 0)) x post status"
    by (simp only: numeral_2_eq_2)
  show ?thesis
    unfolding two SavePlatformPost.simps(2) [of "Suc n"] SavePlatformPost.simps(2) [of "Suc 0"] Let_def
      affiliate_saves [of _ _ n] leaf ..
qed

section \<open>Properties\<close>

definition sample_platform :: "unit platform" where
  "sample_platform = \<lparr>w_db = (), w_fs = sample_fs, w_now = 1000, w_uuids = 0, w_events = [], w_mails = [],
     pf_map = [], pf_pending = 0, pf_errors = 0, pf_posted = 0,
     pf_timer = timer_reset 1000 (new_timer False 0 TEN_MINUTES False)\<rparr>"

definition sample_post :: platform_post where
  "sample_post = empty_post\<lparr>pp_pid := ''4'', pp_id := ''7'', pp_user := ''bob'', pp_time := ''100'',
     pp_content := ''hello'', pp_urls := ''file://a>''\<rparr>"

lemma sample_post_key [simp]: "post_key sample_post = (''4'', ''7'')"
  by (simp add: post_key_def sample_post_def)

text \<open>
  C2: the map of platform requests stays well formed whatever the server does to it: however the
  reports, errors and ticks come in, and whatever the database answers or throws, there is one
  entry for each pair of platform and post, it holds that post, and it is in process or failed.
\<close>

theorem request_map_stays_well_formed:
  assumes "requests_ok (pf_map s)"
  shows "requests_ok (pf_map (fold (platform_step n x) ops s))"
  using pfs.good_fold [of s n x ops] assms by (simp add: pf_good_def)

theorem request_map_stays_well_formed_witness:
  "requests_ok (pf_map (fold (platform_step 2 idle_libs)
     [DoProcess, DoReport [''YT'', ''7'', ''bob''], DoError [''YT'', ''7'', ''bob'', ''oops''], DoProcess] sample_platform))"
  by (rule request_map_stays_well_formed) (simp add: sample_platform_def)

text \<open>
  A save is at most two calls deep: a post whose platform's id is not the mark for no origin is
  saved, with all its reposts and affiliate posts, within two nested calls, so no bound on the
  depth above that changes the result.
\<close>

theorem save_is_two_deep:
  assumes "pp_pid post \<noteq> NO_ORIGIN_PLATFORM_EXISTS" and "2 \<le> n"
  shows "SavePlatformPost n x post status = SavePlatformPost 2 x post status"
proof -
  obtain k where "n = Suc (Suc k)"
    using assms(2) by (metis Suc_le_D numeral_2_eq_2 Suc_le_mono)
  then show ?thesis by (simp only: SavePlatformPost_depth [OF assms(1)])
qed

theorem save_is_two_deep_witness:
  "SavePlatformPost 9 idle_libs sample_post ''1'' = (SavePlatformPost 2 idle_libs sample_post ''1'' :: (unit platform, bool) act)"
  by (rule save_is_two_deep) (simp_all add: sample_post_def NO_ORIGIN_PLATFORM_EXISTS_def)

definition post_dir :: "platform_post \<Rightarrow> string" where
  "post_dir p = pp_time p @ pp_id p @ pp_pid p"

lemma saved_post_file:
  assumes "task_fs fs" and "fresh_uuid fs (post_dir p)"
  shows "read_file (snd (SavePlatformEnvFile fs p)) (GetEnvPath (pp_id p) (pp_time p) (pp_pid p)) =
    CreateEnvFile [(''content'', pp_content p), (''urls'', pp_urls p), (''args'', pp_args p)]"
proof -
  obtain fs1 where "CreateTaskDirectory fs (post_dir p) = (True, fs1)"
    using CreateTaskDirectory_fresh [OF assms] by blast
  from read_saved_env [OF assms this] this show ?thesis
    by (simp add: SavePlatformEnvFile_def post_dir_def GetEnvPath_def Let_def)
qed

text \<open>
  What \<open>SavePlatformEnvFile\<close> writes, \<open>PopulatePlatformPost\<close> reads: the content and the urls of
  a saved post come back as they were.
\<close>

theorem saved_post_is_populated:
  assumes "task_fs fs" and "fresh_uuid fs (post_dir p)"
    and "plain_value (pp_content p)" and "plain_value (pp_urls p)"
    and "unit_sep \<notin> set (pp_args p)" and "pp_args p = [] \<or> last (pp_args p) \<noteq> dquote"
    and "newline \<notin> set (pp_content p)" and "newline \<notin> set (pp_urls p)"
    and "GetJSONArray (x_jparse x) (pp_args p) = Inr args"
  shows "PopulatePlatformPost x (snd (SavePlatformEnvFile fs p))
      (p\<lparr>pp_content := [], pp_urls := [], pp_args := []\<rparr>) =
    Inr (p\<lparr>pp_args := CreateOperation (x_jwrite x) ''Bot'' args\<rparr>, True)"
proof -
  let ?fs = "snd (SavePlatformEnvFile fs p)"
  let ?path = "GetEnvPath (pp_id p) (pp_time p) (pp_pid p)"
  have k1: "env_key_ok ''content'' []" and k2: "env_key_ok ''urls'' [(''content'', pp_content p)]"
    using assms(7,8) by (simp_all add: env_key_ok_def)
  have k3: "CHR ''='' \<notin> set ''args''" "clear_of ''args'' [(''content'', pp_content p), (''urls'', pp_urls p)]"
    using assms(7,8) by simp_all
  note args = env_token_CreateEnvFile [OF k3 assms(5), of "[]"]
  have "ReadEnvToken ?fs ?path ''content'' False = Inr (pp_content p)"
    "ReadEnvToken ?fs ?path ''urls'' False = Inr (pp_urls p)"
    using envf.token_render [OF k1 assms(3), of "[(''urls'', pp_urls p), (''args'', pp_args p)]"]
      envf.token_render [OF k2 assms(4), of "[(''args'', pp_args p)]"]
    by (simp_all add: ReadEnvToken_def ReadEnvFile_def saved_post_file [OF assms(1,2)])
  moreover have "ReadEnvToken ?fs ?path ''args'' False = Inr (SanitizeToken (dquote # pp_args p))"
    "ReadEnvToken ?fs ?path ''args'' True = Inr (pp_args p)"
    using args [of False] args [of True] trim_outer_quotes_open [OF assms(6)]
    by (simp_all add: ReadEnvToken_def ReadEnvFile_def saved_post_file [OF assms(1,2)])
  ultimately show ?thesis
    using assms(9)
    by (simp add: PopulatePlatformPost_def ReadEnvValues_def GetArgsOperation_def Let_def)
qed

theorem saved_post_is_populated_witness:
  "PopulatePlatformPost idle_libs (snd (SavePlatformEnvFile sample_fs sample_post))
      (sample_post\<lparr>pp_content := [], pp_urls := [], pp_args := []\<rparr>) =
    Inr (sample_post\<lparr>pp_args := CreateOperation (x_jwrite idle_libs) ''Bot'' []\<rparr>, True)"
proof (rule saved_post_is_populated)
  show "task_fs sample_fs" by (simp add: task_fs_def sample_fs_def)
  show "fresh_uuid sample_fs (post_dir sample_post)"
    by (simp add: fresh_uuid_def sample_fs_def post_dir_def sample_post_def)
qed (simp_all add: sample_post_def plain_value_def idle_libs_def empty_post_def GetJSONArray_def)

lemma validate_loop_any:
  "\<not> r \<Longrightarrow> validate_loop user r filters \<longleftrightarrow>
     (\<exists>(t, v) \<in> set filters. (t = ''user'' \<and> user = v) \<or> (t = ''default'' \<and> v \<in> {''true'', ''t'', ''1''}))"
  by (induction user r filters rule: validate_loop.induct) (auto simp: Let_def)

text \<open>
  A post is reposted to a platform when that platform has no filters for it, or when one of
  them names the post's user or is a default that says yes; the order of the filters is of no
  matter, although the loop stops at the first that holds.
\<close>

theorem repost_filter_is_disjunction:
  "ValidateRepost filters post \<longleftrightarrow> filters = [] \<or>
     (\<exists>(t, v) \<in> set filters. (t = ''user'' \<and> pp_user post = v) \<or> (t = ''default'' \<and> v \<in> {''true'', ''t'', ''1''}))"
proof (cases "filters = []")
  case False
  then show ?thesis by (simp add: ValidateRepost_def validate_loop_any)
qed (simp add: ValidateRepost_def)

section \<open>The count of requests in process\<close>

definition processing_count :: "request_map \<Rightarrow> nat" where
  "processing_count m = length (filter (\<lambda>e. snd (snd e) = PROCESSING) m)"

definition counted :: "('db, 'm) platform_scheme \<Rightarrow> bool" where
  "counted s \<longleftrightarrow> pf_pending s = of_nat (processing_count (pf_map s))"

lemma AList_update_new: "map_of m k = None \<Longrightarrow> AList.update k v m = m @ [(k, v)]"
  by (induction m) (auto split: if_splits)

lemma AList_update_split:
  assumes "map_of m k = Some v" and "distinct (map fst m)"
  shows "\<exists>a b. m = a @ (k, v) # b \<and> AList.update k w m = a @ (k, w) # b \<and> AList.delete k m = a @ b"
  using assms
proof (induction m)
  case (Cons e m)
  show ?case
  proof (cases "fst e = k")
    case True
    with Cons.prems have "e = (k, v)" "k \<notin> fst ` set m" by (cases e; simp)+
    then show ?thesis
      by (intro exI [of _ "[]"] exI [of _ m]) (simp add: AList.delete_idem)
  next
    case False
    with Cons obtain a b where "m = a @ (k, v) # b" "AList.update k w m = a @ (k, w) # b" "AList.delete k m = a @ b"
      by (cases e) auto
    with False show ?thesis
      by (intro exI [of _ "e # a"] exI [of _ b]) (cases e; auto)
  qed
qed simp

lemma count_change:
  assumes "requests_ok m" and "map_of m k = Some (p, PROCESSING)" and "st \<noteq> PROCESSING"
  shows "processing_count m = Suc (processing_count (AList.update k (q, st) m))"
    and "processing_count m = Suc (processing_count (AList.delete k m))"
  using AList_update_split [of m k "(p, PROCESSING)" "(q, st)"] assms
  by (auto simp: requests_ok_def processing_count_def)

lemma not_failed_processing:
  assumes "pf_good s" and "map_of (pf_map s) k = Some e" and "\<nexists>q. map_of (pf_map s) k = Some (q, FAILURE)"
  shows "\<exists>q. e = (q, PROCESSING)"
proof -
  obtain q st where e: "e = (q, st)" by force
  with assms requests_ok_lookup [of "pf_map s" k q st] have "st \<noteq> SUCCESS" "st \<noteq> FAILURE"
    by (auto simp: pf_good_def)
  with e show ?thesis by (cases st) auto
qed

lemma counted_request:
  assumes "counted s" and "\<nexists>q. map_of (pf_map s) (post_key p) = Some (q, FAILURE)" and "pf_good s"
  shows "counted (snd (process_post p s))"
proof (cases "map_of (pf_map s) (post_key p)")
  case None
  then have "insert_or_update p s = (Inr True, s\<lparr>pf_map := pf_map s @ [(post_key p, p, PROCESSING)]\<rparr>)"
    by (simp add: insert_or_update_def AList_update_new)
  then show ?thesis
    using assms(1) by (simp add: process_post_def seq_def emit_def counted_def processing_count_def)
next
  case (Some e)
  then obtain q where e: "e = (q, PROCESSING)"
    using not_failed_processing [OF assms(3) _ assms(2)] by blast
  then have "insert_or_update p s = (Inr False, s)"
    using Some by (simp add: insert_or_update_def)
  then show ?thesis using assms(1) by (simp add: process_post_def seq_def)
qed

lemma counted_complete:
  assumes "counted s" and "\<nexists>q. map_of (pf_map s) (post_key p) = Some (q, FAILURE)" and "pf_good s"
  shows "counted (snd (complete_post p s))"
proof (cases "map_of (pf_map s) (post_key p)")
  case (Some e)
  then obtain q where e: "e = (q, PROCESSING)"
    using not_failed_processing [OF assms(3) _ assms(2)] by blast
  have "processing_count (pf_map s) = Suc (processing_count (AList.delete (post_key p) (pf_map s)))"
    using count_change(2) [of "pf_map s" "post_key p" q FAILURE] assms(3) Some e by (simp add: pf_good_def)
  then show ?thesis
    using assms(1) Some e by (simp add: complete_post_def counted_def)
qed (use assms(1) in \<open>simp add: complete_post_def\<close>)

text \<open>
  The counter of pending requests is the number of posts in process as long as no failed post
  is touched again: requesting a post and completing one keep it so.
\<close>

theorem pending_counts_requests:
  assumes "counted s" and "requests_ok (pf_map s)"
    and "\<nexists>q. map_of (pf_map s) (post_key p) = Some (q, FAILURE)"
  shows "counted (snd (process_post p s)) \<and> counted (snd (complete_post p s))"
  using counted_request [OF assms(1,3)] counted_complete [OF assms(1,3)] assms(2)
  by (simp add: pf_good_def)

theorem pending_counts_requests_witness:
  "counted (snd (process_post sample_post sample_platform)) \<and> counted (snd (complete_post sample_post sample_platform))"
  by (rule pending_counts_requests) (simp_all add: sample_platform_def counted_def processing_count_def)

text \<open>
  A failed post breaks the count, twice over. Retrying it sets the retry mark and not its
  state, so it is announced and counted as pending while the map still has it as failed; and
  completing a failed post counts a request off that its failure had counted off before: with
  nothing in process, the unsigned counter is then \<open>2^32 - 1\<close>.
\<close>

theorem failed_post_breaks_the_count:
  assumes "requests_ok (pf_map s)" and "map_of (pf_map s) (post_key p) = Some (q, FAILURE)"
    and "counted s" and "processing_count (pf_map s) = 0"
  shows "(\<not> pp_retry q \<longrightarrow>
      (let s' = snd (process_post p s) in
        w_events s' = w_events s @ [(ALL_CLIENTS, EV_PLATFORM_POST_REQUESTED, GetPayload_post p)] \<and>
        pf_pending s' = 1 \<and> \<not> IsProcessingPlatform (pf_map s'))) \<and>
    pf_pending (snd (complete_post p s)) = - 1"
proof -
  have z: "pf_pending s = 0" using assms(3,4) by (simp add: counted_def)
  obtain a b where m: "pf_map s = a @ (post_key p, q, FAILURE) # b"
    and u: "AList.update (post_key p) (q\<lparr>pp_retry := True\<rparr>, FAILURE) (pf_map s) =
        a @ (post_key p, q\<lparr>pp_retry := True\<rparr>, FAILURE) # b"
    using AList_update_split [OF assms(2)] assms(1) unfolding requests_ok_def by blast
  have np: "\<not> IsProcessingPlatform (a @ (post_key p, q\<lparr>pp_retry := True\<rparr>, FAILURE) # b)"
    using assms(4) by (auto simp: m processing_count_def IsProcessingPlatform_def filter_empty_conv)
  show ?thesis
    using assms(2) z np
    by (auto simp: process_post_def insert_or_update_def complete_post_def seq_def emit_def u Let_def)
qed

theorem failed_post_breaks_the_count_witness:
  "pf_pending (snd (process_post sample_post (sample_platform\<lparr>pf_map := [(post_key sample_post, sample_post, FAILURE)]\<rparr>))) = 1 \<and>
   pf_pending (snd (complete_post sample_post (sample_platform\<lparr>pf_map := [(post_key sample_post, sample_post, FAILURE)]\<rparr>))) = - 1"
proof -
  let ?s = "sample_platform\<lparr>pf_map := [(post_key sample_post, sample_post, FAILURE)]\<rparr>"
  have r: "\<not> pp_retry sample_post" by (simp add: sample_post_def empty_post_def)
  show ?thesis
    using failed_post_breaks_the_count [of ?s sample_post sample_post] r
    by (simp add: Let_def requests_ok_def counted_def processing_count_def sample_platform_def)
qed

section \<open>Ticks\<close>



























end
