(* ===== verification/PostExec.thy ===== *)
theory PostExec
  imports TaskModel "HOL-Library.AList"
begin

text \<open>
  The lists of tasks that run after a task, \<open>PostExecWait\<close> of \<open>system/process/scheduler.cpp\<close> and
  the node functions of \<open>helper.cpp\<close>.

  The code keeps the nodes (\<open>TaskWrapper\<close>) inside the map \<open>m_postexec_map\<close>, linked by raw
  pointers to the parent and the child, and a second map from the id of a list to its root. The
  entries of a hash map do not move, so a pointer to a node is the key of its entry here. A walk
  along the child pointers need not end; \<open>None\<close> is a walk that does not.

  The abstraction is a list of chains of ids. Shown: waiting for a new task appends it to the
  chain of the task it waits for, once both tasks have been looked up; every walk then ends, the node is found from any node before
  it, and the master root is the head of its chain. Waiting twice for the same task ties the
  chain into a loop.
\<close>

type_synonym process_event = "int \<times> string list"

record wrapper =
  tw_task :: task
  tw_id :: int
  tw_complete :: bool
  tw_parent :: "int option"
  tw_child :: "int option"
  tw_event :: process_event

definition new_wrapper :: "task \<Rightarrow> bool \<Rightarrow> wrapper" where
  "new_wrapper t complete = \<lparr>tw_task = t, tw_id = tk_id t, tw_complete = complete,
     tw_parent = None, tw_child = None, tw_event = (0, [])\<rparr>"

definition SetEvent :: "process_event \<Rightarrow> wrapper \<Rightarrow> wrapper" where
  "SetEvent ev w = w\<lparr>tw_event := ev\<rparr>"

type_synonym postexec_map = "(int \<times> (int \<times> wrapper)) list"

record postexec =
  px_map :: postexec_map
  px_lists :: "(int \<times> int) list"

definition node :: "postexec_map \<Rightarrow> int \<Rightarrow> wrapper res" where
  "node m a = (case map_of m a of None \<Rightarrow> Inl Undefined | Some (_, w) \<Rightarrow> Inr w)"

definition INVALID_ID :: int where
  "INVALID_ID = 2 ^ 31 - 1"

section \<open>Node functions\<close>

partial_function (option) find_from :: "postexec_map \<Rightarrow> int option \<Rightarrow> int \<Rightarrow> int res option" where
  "find_from m next id1 =
     (case next of None \<Rightarrow> Some (Inl InvalidArgument)
      | Some a \<Rightarrow> (case node m a of Inl e \<Rightarrow> Some (Inl e)
          | Inr w \<Rightarrow> if tw_id w = id1 then Some (Inr a) else find_from m (tw_child w) id1))"

definition run_walk :: "'a res option \<Rightarrow> 'a res" where
  "run_walk r = (case r of None \<Rightarrow> Inl Diverges | Some x \<Rightarrow> x)"

definition FindNode :: "postexec_map \<Rightarrow> int \<Rightarrow> int \<Rightarrow> int res" where
  "FindNode m a id1 = bind (node m a) (\<lambda>w. run_walk (find_from m (tw_child w) id1))"

partial_function (option) pending_from :: "postexec_map \<Rightarrow> int option \<Rightarrow> bool res option" where
  "pending_from m next =
     (case next of None \<Rightarrow> Some (Inr False)
      | Some a \<Rightarrow> (case node m a of Inl e \<Rightarrow> Some (Inl e)
          | Inr w \<Rightarrow> if \<not> tw_complete w then Some (Inr True) else pending_from m (tw_child w)))"

definition HasPendingTasks :: "postexec_map \<Rightarrow> int option \<Rightarrow> bool res" where
  "HasPendingTasks m root = run_walk (pending_from m root)"

partial_function (option) parent_from :: "postexec_map \<Rightarrow> int option \<Rightarrow> int \<Rightarrow> int option res option" where
  "parent_from m parent msk =
     (case parent of None \<Rightarrow> Some (Inr None)
      | Some a \<Rightarrow> (case node m a of Inl e \<Rightarrow> Some (Inl e)
          | Inr w \<Rightarrow> if tk_mask (tw_task w) = msk then Some (Inr (Some a)) else parent_from m (tw_parent w) msk))"

definition FindParent :: "postexec_map \<Rightarrow> int \<Rightarrow> int \<Rightarrow> int option res" where
  "FindParent m a msk = bind (node m a) (\<lambda>w. run_walk (parent_from m (tw_parent w) msk))"

text \<open>\<open>FindMasterRoot\<close> of a node without a parent reads through a null pointer.\<close>

partial_function (option) root_from :: "postexec_map \<Rightarrow> int \<Rightarrow> int res option" where
  "root_from m a =
     (case node m a of Inl e \<Rightarrow> Some (Inl e)
      | Inr w \<Rightarrow> (case tw_parent w of None \<Rightarrow> Some (Inr a) | Some p \<Rightarrow> root_from m p))"

definition FindMasterRoot :: "postexec_map \<Rightarrow> int \<Rightarrow> int res" where
  "FindMasterRoot m a = bind (node m a) (\<lambda>w.
     case tw_parent w of None \<Rightarrow> Inl Undefined | Some p \<Rightarrow> run_walk (root_from m p))"

definition AllTasksComplete :: "postexec_map \<Rightarrow> bool" where
  "AllTasksComplete m \<longleftrightarrow> (\<forall>e \<in> set m. tw_complete (snd (snd e)))"

definition FindPostExec :: "postexec_map \<Rightarrow> int \<Rightarrow> int" where
  "FindPostExec m id1 =
     (case find (\<lambda>e. tw_id (snd (snd e)) = id1) m of None \<Rightarrow> INVALID_ID | Some e \<Rightarrow> fst (snd e))"

section \<open>Waiting for a task\<close>

text \<open>
  \<open>AddRoot\<close> and \<open>AddNode\<close> are given the task that the \<open>GetTask(int)\<close> of their line has answered. The lookups
  themselves, which throw for a task that is there, are made where \<open>PostExecWait\<close> is called:
  \<open>wait_node\<close> of the theory \<open>SchedIpc\<close> is the whole function. \<open>PostExecLink\<close> is what it does to the lists when
  both lookups have returned.
\<close>

text \<open>\<open>insert\<close> leaves an entry that is there.\<close>

definition map_insert :: "'k \<Rightarrow> 'v \<Rightarrow> ('k \<times> 'v) list \<Rightarrow> ('k \<times> 'v) list" where
  "map_insert k v m = (if map_of m k = None then m @ [(k, v)] else m)"

definition update_node :: "int \<Rightarrow> (wrapper \<Rightarrow> wrapper) \<Rightarrow> postexec_map \<Rightarrow> postexec_map" where
  "update_node a f m = map (\<lambda>e. if fst e = a then (fst e, fst (snd e), f (snd (snd e))) else e) m"

definition AddRoot :: "int \<Rightarrow> task \<Rightarrow> postexec \<Rightarrow> postexec" where
  "AddRoot k t s = s\<lparr>px_map := map_insert k (k, new_wrapper t True) (px_map s),
                     px_lists := map_insert k k (px_lists s)\<rparr>"

partial_function (option) chain_end :: "postexec_map \<Rightarrow> int \<Rightarrow> int res option" where
  "chain_end m a =
     (case node m a of Inl e \<Rightarrow> Some (Inl e)
      | Inr w \<Rightarrow> (case tw_child w of None \<Rightarrow> Some (Inr a) | Some b \<Rightarrow> chain_end m b))"

definition AddNode :: "int \<Rightarrow> int \<Rightarrow> task \<Rightarrow> postexec \<Rightarrow> postexec res" where
  "AddNode p v t s =
     (let m = map_insert v (p, new_wrapper t False) (px_map s) in
      bind (map_at (map_of (px_lists s)) p) (\<lambda>root.
      bind (run_walk (chain_end m root)) (\<lambda>parent.
        Inr (s\<lparr>px_map := update_node v (\<lambda>w. w\<lparr>tw_parent := Some parent\<rparr>)
                          (update_node parent (\<lambda>w. w\<lparr>tw_child := Some v\<rparr>) m)\<rparr>))))"

definition PostExecLink :: "int \<Rightarrow> int \<Rightarrow> task \<Rightarrow> task \<Rightarrow> postexec \<Rightarrow> postexec res" where
  "PostExecLink i r ti tr s =
     AddNode i r tr (if map_of (px_lists s) i = None then AddRoot i ti s else s)"

definition CompleteTask :: "int \<Rightarrow> postexec \<Rightarrow> postexec res" where
  "CompleteTask id1 s =
     bind (map_at (map_of (px_map s)) id1) (\<lambda>(pid, _).
     bind (map_at (map_of (px_lists s)) pid) (\<lambda>root.
     bind (FindNode (px_map s) root id1) (\<lambda>a.
       Inr (s\<lparr>px_map := update_node a (\<lambda>w. w\<lparr>tw_complete := True\<rparr>) (px_map s)\<rparr>))))"

declare find_from.simps [code] pending_from.simps [code] parent_from.simps [code] root_from.simps [code] chain_end.simps [code]

section \<open>Chains\<close>

text \<open>
  \<open>linked m par c\<close>: the nodes of \<open>c\<close> are in the map, each is the child of the one before it, the
  first has the parent \<open>par\<close> and the last has no child; and a node's own id is its key.
\<close>

fun linked :: "postexec_map \<Rightarrow> int option \<Rightarrow> int list \<Rightarrow> bool" where
  "linked m par [] = True"
| "linked m par (a # c) =
     ((\<exists>w. node m a = Inr w \<and> tw_id w = a \<and> tw_parent w = par \<and>
        tw_child w = (case c of [] \<Rightarrow> None | b # _ \<Rightarrow> Some b)) \<and> linked m (Some a) c)"

definition px_chains :: "postexec \<Rightarrow> int list list \<Rightarrow> bool" where
  "px_chains s cs \<longleftrightarrow> distinct (map fst (px_map s)) \<and> distinct (concat cs) \<and>
     set (concat cs) = fst ` set (px_map s) \<and> (\<forall>c \<in> set cs. c \<noteq> [] \<and> linked (px_map s) None c) \<and>
     (\<forall>k a. map_of (px_lists s) k = Some a \<longrightarrow> a = k \<and> k \<in> set (concat cs))"

definition wait_chains :: "int \<Rightarrow> int \<Rightarrow> int list list \<Rightarrow> int list list" where
  "wait_chains i r cs =
     (if i \<in> set (concat cs) then map (\<lambda>c. if i \<in> set c then c @ [r] else c) cs else cs @ [[i, r]])"

lemma node_insert_other: "a \<noteq> k \<or> map_of m k \<noteq> None \<Longrightarrow> node (map_insert k v m) a = node m a"
  by (auto simp: node_def map_insert_def map_add_def split: option.splits)

lemma node_insert_new: "map_of m k = None \<Longrightarrow> node (map_insert k (p, w) m) k = Inr w"
  by (simp add: node_def map_insert_def map_add_def)

lemma map_of_update_node: "map_of (update_node a f m) b =
    (if b = a then map_option (\<lambda>(p, w). (p, f w)) (map_of m b) else map_of m b)"
  by (induction m) (auto simp: update_node_def)

lemma node_update: "node (update_node a f m) b =
    (if b = a then bind (node m b) (\<lambda>w. Inr (f w)) else node m b)"
  by (auto simp: node_def map_of_update_node split: option.splits)

lemma keys_update_node [simp]: "map fst (update_node a f m) = map fst m"
  by (induction m) (auto simp: update_node_def)

lemma linked_cong: "(\<And>a. a \<in> set c \<Longrightarrow> node m' a = node m a) \<Longrightarrow> linked m' par c = linked m par c"
  by (induction c arbitrary: par) auto

lemma linkedE:
  assumes "linked m par (a # c)"
  obtains w where "node m a = Inr w" "tw_id w = a" "tw_parent w = par"
    "tw_child w = (case c of [] \<Rightarrow> None | b # _ \<Rightarrow> Some b)" "linked m (Some a) c"
  using assms by auto

lemma chain_end_linked:
  assumes "linked m par (a # c)"
  shows "chain_end m a = Some (Inr (last (a # c)))"
  using assms
proof (induction c arbitrary: par a)
  case Nil
  then obtain w where "node m a = Inr w" "tw_child w = None" by (rule linkedE) simp
  then show ?case by (simp add: chain_end.simps [of m a])
next
  case (Cons b c)
  from Cons.prems obtain w where "node m a = Inr w" "tw_child w = Some b" "linked m (Some a) (b # c)"
    by (rule linkedE) simp
  with Cons.IH [of "Some a" b] show ?case by (simp add: chain_end.simps [of m a])
qed

lemma linked_append: "linked m par (xs @ ys) \<Longrightarrow> linked m (if xs = [] then par else Some (last xs)) ys"
  by (induction xs arbitrary: par) auto

lemma find_from_linked:
  assumes "linked m par c" and "id1 \<in> set c"
  shows "find_from m (case c of [] \<Rightarrow> None | b # _ \<Rightarrow> Some b) id1 = Some (Inr id1)"
  using assms
proof (induction c arbitrary: par)
  case (Cons a c)
  from Cons.prems(1) obtain w where w: "node m a = Inr w" "tw_id w = a"
    "tw_child w = (case c of [] \<Rightarrow> None | b # _ \<Rightarrow> Some b)" "linked m (Some a) c"
    by (rule linkedE)
  show ?case
  proof (cases "id1 = a")
    case True
    with w show ?thesis by (simp add: find_from.simps [of m "Some a"])
  next
    case False
    with Cons.prems(2) have "id1 \<in> set c" by simp
    with Cons.IH [OF w(4)] False w(1-3) show ?thesis
      by (simp add: find_from.simps [of m "Some a"])
  qed
qed simp

lemma root_from_linked:
  "linked m None (xs @ a # ys) \<Longrightarrow> root_from m a = Some (Inr (hd (xs @ [a])))"
proof (induction xs arbitrary: a ys rule: rev_induct)
  case Nil
  then have "linked m None (a # ys)" by simp
  then obtain w where "node m a = Inr w" "tw_parent w = None" by (rule linkedE)
  then show ?case by (simp add: root_from.simps [of m a])
next
  case (snoc p xs)
  have "linked m (if xs @ [p] = [] then None else Some (last (xs @ [p]))) (a # ys)"
    using snoc.prems linked_append [of m None "xs @ [p]" "a # ys"] by simp
  then obtain w where "node m a = Inr w" "tw_parent w = Some p"
    by (rule linkedE) simp
  moreover have "root_from m p = Some (Inr (hd (xs @ [p])))"
    using snoc by simp
  ultimately show ?case
    by (simp add: root_from.simps [of m a] hd_append)
qed

lemma linked_snoc:
  assumes "linked m par c" and "c \<noteq> []" and "distinct c" and "node m (last c) = Inr w"
    and "\<And>a. a \<in> set c \<Longrightarrow> a \<noteq> last c \<Longrightarrow> node m' a = node m a"
    and "node m' (last c) = Inr (w\<lparr>tw_child := Some r\<rparr>)"
    and "node m' r = Inr wr" "tw_id wr = r" "tw_parent wr = Some (last c)" "tw_child wr = None"
  shows "linked m' par (c @ [r])"
  using assms
proof (induction c arbitrary: par)
  case (Cons a c)
  show ?case
  proof (cases "c = []")
    case True
    from Cons.prems(1) obtain v where "node m a = Inr v" "tw_id v = a" "tw_parent v = par" by (rule linkedE)
    with True Cons.prems show ?thesis by simp
  next
    case False
    from Cons.prems(1) obtain v where v: "node m a = Inr v" "tw_id v = a" "tw_parent v = par"
      "tw_child v = (case c of [] \<Rightarrow> None | b # _ \<Rightarrow> Some b)" "linked m (Some a) c" by (rule linkedE)
    have "a \<noteq> last c" using False Cons.prems(3) last_in_set [of c] by auto
    then have "node m' a = Inr v" using Cons.prems(5) [of a] False v(1) by simp
    moreover have "linked m' (Some a) (c @ [r])"
      using Cons.prems False v(5) by (intro Cons.IH) auto
    ultimately show ?thesis using False v by (cases c) auto
  qed
qed simp

lemma px_chainsD:
  assumes "px_chains s cs"
  shows "distinct (map fst (px_map s))" and "distinct (concat cs)" and "set (concat cs) = fst ` set (px_map s)"
    and "c \<in> set cs \<Longrightarrow> linked (px_map s) None c" and "c \<in> set cs \<Longrightarrow> c \<noteq> []"
    and "map_of (px_lists s) k = Some a \<Longrightarrow> a = k \<and> k \<in> set (concat cs)"
  using assms unfolding px_chains_def by auto

lemma node_in_chain:
  assumes "px_chains s cs" and "a \<in> set (concat cs)"
  obtains xs ys pre post where "cs = pre @ (xs @ a # ys) # post" and "linked (px_map s) None (xs @ a # ys)"
proof -
  from assms(2) obtain c where c: "c \<in> set cs" "a \<in> set c" by auto
  then obtain pre post where "cs = pre @ c # post" by (meson split_list)
  moreover from c obtain xs ys where "c = xs @ a # ys" by (meson split_list)
  ultimately show thesis using that px_chainsD(4) [OF assms(1) c(1)] by blast
qed

lemma lookup_key_iff: "map_of m k = None \<longleftrightarrow> k \<notin> fst ` set m"
  by (simp add: map_of_eq_None_iff)

lemma px_key: "px_chains s cs \<Longrightarrow> map_of (px_map s) a = None \<longleftrightarrow> a \<notin> set (concat cs)"
  by (simp only: lookup_key_iff px_chainsD(3))

lemma distinct_keys_insert: "distinct (map fst m) \<Longrightarrow> distinct (map fst (map_insert k v m))"
  by (auto simp: map_insert_def map_of_eq_None_iff)

lemma keys_insert: "fst ` set (map_insert k v m) = insert k (fst ` set m)"
  by (auto simp: map_insert_def image_iff dest!: map_of_SomeD) force+

lemma AddRoot_chains:
  assumes "px_chains s cs" and "map_of (px_lists s) i = None" and "tk_id t = i"
  shows "px_chains (AddRoot i t s) (if i \<in> set (concat cs) then cs else cs @ [[i]]) \<and>
    map_of (px_lists (AddRoot i t s)) i = Some i"
proof -
  have lists: "map_of (map_insert i i (px_lists s)) k = (if k = i then Some i else map_of (px_lists s) k)" for k
    using assms(2) by (auto simp: map_insert_def map_add_def split: option.splits)
  show ?thesis
  proof (cases "i \<in> set (concat cs)")
    case True
    then have "map_of (px_map s) i \<noteq> None"
      using px_key [OF assms(1)] by blast
    then have "px_map (AddRoot i t s) = px_map s" by (simp add: AddRoot_def map_insert_def)
    with True assms(1) lists show ?thesis
      by (auto simp: px_chains_def AddRoot_def)
  next
    case False
    then have new: "map_of (px_map s) i = None"
      using px_key [OF assms(1)] by blast
    let ?m = "map_insert i (i, new_wrapper t True) (px_map s)"
    have old: "linked ?m None c" if "c \<in> set cs" for c
    proof -
      have "i \<notin> set c" using that False by auto
      then have "linked ?m None c = linked (px_map s) None c"
        by (intro linked_cong node_insert_other) auto
      with px_chainsD(4) [OF assms(1) that] show ?thesis by simp
    qed
    have "linked ?m None [i]"
      using node_insert_new [OF new, of i] assms(3) by (simp add: new_wrapper_def)
    with old False assms(1) lists show ?thesis
      by (auto simp: px_chains_def AddRoot_def keys_insert distinct_keys_insert)
  qed
qed

lemma AddNode_chains:
  assumes px: "px_chains s cs" and root: "map_of (px_lists s) i = Some i"
    and new: "r \<notin> set (concat cs)" and idr: "tk_id t = r"
  shows "\<exists>s'. AddNode i r t s = Inr s' \<and> px_chains s' (map (\<lambda>c. if i \<in> set c then c @ [r] else c) cs)"
proof -
  have i: "i \<in> set (concat cs)" using px_chainsD(6) [OF px root] by simp
  obtain xs ys pre post where cs: "cs = pre @ (xs @ i # ys) # post"
    and lk: "linked (px_map s) None (xs @ i # ys)"
    by (rule node_in_chain [OF px i])
  define c where "c = xs @ i # ys"
  define e where "e = last (i # ys)"
  define m where "m = map_insert r (i, new_wrapper t False) (px_map s)"
  define m' where "m' = update_node r (\<lambda>w. w\<lparr>tw_parent := Some e\<rparr>) (update_node e (\<lambda>w. w\<lparr>tw_child := Some r\<rparr>) m)"
  have dist: "distinct (concat cs)" by (rule px_chainsD(2) [OF px])
  have e: "e = last c" "e \<in> set c" by (simp_all add: c_def e_def)
  have c: "c \<in> set cs" "distinct c" "c \<noteq> []" using dist by (auto simp: cs c_def)
  have rc: "r \<notin> set c" using new c(1) by auto
  have rn: "map_of (px_map s) r = None"
    using new px_key [OF px] by blast
  have m: "node m a = node (px_map s) a" if "a \<noteq> r" for a
    unfolding m_def using that by (intro node_insert_other) simp
  have mr: "node m r = Inr (new_wrapper t False)"
    unfolding m_def by (rule node_insert_new [OF rn])
  have lm: "linked m None c"
  proof -
    have "linked m None c = linked (px_map s) None c"
      using m rc by (intro linked_cong) metis
    with lk show ?thesis by (simp only: c_def)
  qed
  have "linked m None (xs @ i # ys)" using lm by (simp only: c_def)
  from chain_end_linked [OF linked_append [OF this]] have "chain_end m i = Some (Inr e)"
    by (simp only: e_def)
  then have add: "AddNode i r t s = Inr (s\<lparr>px_map := m'\<rparr>)"
    using root by (simp add: AddNode_def run_walk_def m_def m'_def Let_def)
  obtain w where w: "node m e = Inr w"
  proof -
    from e(2) obtain us vs where "c = us @ e # vs" by (meson split_list)
    with linked_append [of m None us "e # vs"] lm
    have "linked m (if us = [] then None else Some (last us)) (e # vs)" by simp
    then show thesis using that by (rule linkedE) 
  qed
  have er: "e \<noteq> r" using e(2) rc by auto
  have n1: "node m' a = node m a" if "a \<noteq> e" "a \<noteq> r" for a
    using that by (simp add: m'_def node_update)
  have n2: "node m' e = Inr (w\<lparr>tw_child := Some r\<rparr>)"
    using er w by (simp add: m'_def node_update)
  have n3: "node m' r = Inr ((new_wrapper t False)\<lparr>tw_parent := Some e\<rparr>)"
    using er mr by (simp add: m'_def node_update)
  have lc: "linked m' None (c @ [r])"
  proof (rule linked_snoc [OF lm c(3,2)])
    show "node m (last c) = Inr w" using w e by simp
    show "node m' a = node m a" if "a \<in> set c" "a \<noteq> last c" for a
      using that n1 [of a] rc e by auto
    show "node m' (last c) = Inr (w\<lparr>tw_child := Some r\<rparr>)" using n2 e by simp
    show "node m' r = Inr ((new_wrapper t False)\<lparr>tw_parent := Some e\<rparr>)" by (rule n3)
  qed (simp_all add: new_wrapper_def idr e)
  have ld: "linked m' None d" if "d \<in> set cs" "d \<noteq> c" for d
  proof -
    have "e \<notin> set d" "r \<notin> set d"
      using that dist e(2) new by (auto simp: cs c_def [symmetric])
    then have "linked m' None d = linked (px_map s) None d"
      using n1 m by (intro linked_cong) metis
    with px_chainsD(4) [OF px that(1)] show ?thesis by simp
  qed
  have cs': "map (\<lambda>c. if i \<in> set c then c @ [r] else c) cs = pre @ (c @ [r]) # post"
    using dist by (auto simp: cs c_def intro!: map_idI)
  have "px_chains (s\<lparr>px_map := m'\<rparr>) (pre @ (c @ [r]) # post)"
    unfolding px_chains_def
  proof (intro conjI ballI allI impI)
    show "distinct (map fst (px_map (s\<lparr>px_map := m'\<rparr>)))"
      using px_chainsD(1) [OF px] by (simp add: m'_def m_def distinct_keys_insert)
    show "distinct (concat (pre @ (c @ [r]) # post))"
      using dist new by (auto simp: cs c_def)
    have "set (map fst m') = set (map fst m)"
      by (simp only: m'_def keys_update_node)
    then have "fst ` set m' = insert r (fst ` set (px_map s))"
      by (simp add: m_def keys_insert)
    then show "set (concat (pre @ (c @ [r]) # post)) = fst ` set (px_map (s\<lparr>px_map := m'\<rparr>))"
      using px_chainsD(3) [OF px] by (auto simp: cs c_def)
    fix d
    assume "d \<in> set (pre @ (c @ [r]) # post)"
    moreover have "c \<notin> set pre" "c \<notin> set post"
      using dist e(2) by (auto simp: cs c_def [symmetric])
    ultimately consider "d = c @ [r]" | "d \<in> set cs" "d \<noteq> c"
      by (auto simp: cs)
    then show "linked (px_map (s\<lparr>px_map := m'\<rparr>)) None d"
      by cases (use lc ld in auto)
    show "d \<noteq> []" using \<open>d \<in> set (pre @ (c @ [r]) # post)\<close> px_chainsD(5) [OF px] by (auto simp: cs)
  next
    fix k a
    assume "map_of (px_lists (s\<lparr>px_map := m'\<rparr>)) k = Some a"
    then have "map_of (px_lists s) k = Some a" by simp
    from px_chainsD(6) [OF px this]
    show "a = k" and "k \<in> set (concat (pre @ (c @ [r]) # post))" by (auto simp: cs c_def)
  qed
  then show ?thesis using add cs' by simp
qed

lemma PostExecLink_chains:
  assumes "px_chains s cs" and "r \<notin> set (concat cs)" and "r \<noteq> i" and "tk_id ti = i" and "tk_id tr = r"
  shows "\<exists>s'. PostExecLink i r ti tr s = Inr s' \<and> px_chains s' (wait_chains i r cs)"
proof (cases "map_of (px_lists s) i")
  case None
  let ?cs = "if i \<in> set (concat cs) then cs else cs @ [[i]]"
  have a: "px_chains (AddRoot i ti s) ?cs" "map_of (px_lists (AddRoot i ti s)) i = Some i"
    using AddRoot_chains [OF assms(1) None assms(4)] by auto
  have "r \<notin> set (concat ?cs)" using assms(2,3) by auto
  from AddNode_chains [OF a this assms(5)]
  have "\<exists>s'. AddNode i r tr (AddRoot i ti s) = Inr s' \<and>
      px_chains s' (map (\<lambda>c. if i \<in> set c then c @ [r] else c) ?cs)" .
  moreover have "map (\<lambda>c. if i \<in> set c then c @ [r] else c) ?cs = wait_chains i r cs"
    by (auto simp: wait_chains_def intro!: map_idI)
  ultimately show ?thesis using None by (simp add: PostExecLink_def)
next
  case (Some a)
  from px_chainsD(6) [OF assms(1) Some] have "a = i" "i \<in> set (concat cs)" by simp_all
  with AddNode_chains [OF assms(1) _ assms(2,5), of i] Some show ?thesis
    by (simp add: PostExecLink_def wait_chains_def)
qed

section \<open>Properties\<close>

text \<open>
  Waiting for a task that is not yet known puts it at the end of the chain of the task it
  waits for, or starts a new chain with the two, once both have been looked up: the pointer structure is then again a set of
  chains, and the walk to the end of the chain has ended.
\<close>

theorem wait_appends_to_chain:
  assumes "px_chains s cs" and "r \<notin> set (concat cs)" and "r \<noteq> i" and "tk_id ti = i" and "tk_id tr = r"
  shows "\<exists>s'. PostExecLink i r ti tr s = Inr s' \<and> px_chains s' (wait_chains i r cs)"
  by (rule PostExecLink_chains [OF assms])

definition id_task :: "int \<Rightarrow> task" where
  "id_task i = empty_task\<lparr>tk_id := i\<rparr>"

definition no_postexec :: postexec where
  "no_postexec = \<lparr>px_map = [], px_lists = []\<rparr>"

theorem wait_appends_to_chain_witness:
  "\<exists>s'. PostExecLink 5 9 (id_task 5) (id_task 9) no_postexec = Inr s' \<and> px_chains s' (wait_chains 5 9 [])"
  by (rule wait_appends_to_chain) (simp_all add: px_chains_def no_postexec_def id_task_def)

text \<open>
  In a set of chains the node functions end and find what they should: \<open>FindNode\<close> finds every
  task behind the one it starts from, and \<open>FindMasterRoot\<close> of a task that has a parent is the
  head of its chain.
\<close>

theorem chain_walks_find:
  assumes "px_chains s (pre @ (xs @ a # ys) # post)"
  shows "(\<forall>b \<in> set ys. FindNode (px_map s) a b = Inr b) \<and>
    (xs \<noteq> [] \<longrightarrow> FindMasterRoot (px_map s) a = Inr (hd xs))"
proof -
  have lk: "linked (px_map s) None (xs @ a # ys)"
    using px_chainsD(4) [OF assms] by simp
  have la: "linked (px_map s) (if xs = [] then None else Some (last xs)) (a # ys)"
    using linked_append [OF lk] .
  then obtain w where w: "node (px_map s) a = Inr w" "tw_parent w = (if xs = [] then None else Some (last xs))"
    "tw_child w = (case ys of [] \<Rightarrow> None | b # _ \<Rightarrow> Some b)" "linked (px_map s) (Some a) ys"
    by (rule linkedE)
  have "FindNode (px_map s) a b = Inr b" if "b \<in> set ys" for b
    using find_from_linked [OF w(4) that] w(1,3) by (simp add: FindNode_def run_walk_def)
  moreover have "FindMasterRoot (px_map s) a = Inr (hd xs)" if ne: "xs \<noteq> []"
  proof -
    obtain zs p where xs: "xs = zs @ [p]" using ne by (meson rev_exhaust)
    have "root_from (px_map s) p = Some (Inr (hd (zs @ [p])))"
      using root_from_linked [of "px_map s" zs p "a # ys"] lk xs by simp
    with w(1,2) ne xs show ?thesis by (simp add: FindMasterRoot_def run_walk_def)
  qed
  ultimately show ?thesis by blast
qed

definition link :: "int \<Rightarrow> int option \<Rightarrow> int option \<Rightarrow> int \<times> int \<times> wrapper" where
  "link a p c = (a, 5, (new_wrapper (id_task a) False)\<lparr>tw_parent := p, tw_child := c\<rparr>)"

definition three_tasks :: postexec where
  "three_tasks = \<lparr>px_map = [link 5 None (Some 9), link 9 (Some 5) (Some 11), link 11 (Some 9) None],
     px_lists = [(5, 5)]\<rparr>"

lemma three_tasks_chains: "px_chains three_tasks [[5, 9, 11]]"
  by (simp add: px_chains_def three_tasks_def link_def node_def new_wrapper_def id_task_def)

theorem chain_walks_find_witness:
  "FindNode (px_map three_tasks) 9 11 = Inr 11 \<and> FindMasterRoot (px_map three_tasks) 9 = Inr 5"
  using chain_walks_find [of three_tasks "[]" "[5]" 9 "[11]" "[]"] by (simp add: three_tasks_chains)

section \<open>Waiting twice for the same task\<close>

lemma chain_end_no_loop:
  assumes ret: "chain_end m a = Some x"
  shows "\<nexists>w. node m a = Inr w \<and> tw_child w = Some a"
proof (rule chain_end.raw_induct [where P = "\<lambda>m a x. \<nexists>w. node m a = Inr w \<and> tw_child w = Some a", OF _ ret])
  fix f :: "postexec_map \<Rightarrow> int \<Rightarrow> int res option" and m a x
  assume IH: "\<And>m a x. f m a = Some x \<Longrightarrow> \<nexists>w. node m a = Inr w \<and> tw_child w = Some a"
    and eq: "(case node m a of Inl e \<Rightarrow> Some (Inl e)
      | Inr w \<Rightarrow> (case tw_child w of None \<Rightarrow> Some (Inr a) | Some b \<Rightarrow> f m b)) = Some x"
  show "\<nexists>w. node m a = Inr w \<and> tw_child w = Some a"
  proof
    assume "\<exists>w. node m a = Inr w \<and> tw_child w = Some a"
    then obtain w where "node m a = Inr w" "tw_child w = Some a" by blast
    with eq have "f m a = Some x" by simp
    from IH [OF this] \<open>node m a = Inr w\<close> \<open>tw_child w = Some a\<close> show False by blast
  qed
qed

lemma chain_end_loop: "node m a = Inr w \<Longrightarrow> tw_child w = Some a \<Longrightarrow> chain_end m a = None"
  using chain_end_no_loop [of m a] by (cases "chain_end m a") auto

fun walks :: "postexec_map \<Rightarrow> int list \<Rightarrow> int \<Rightarrow> bool" where
  "walks m [] r = True"
| "walks m (a # c) r =
     ((\<exists>w. node m a = Inr w \<and> tw_child w = Some (case c of [] \<Rightarrow> r | b # _ \<Rightarrow> b)) \<and> walks m c r)"

lemma chain_end_walks: "walks m c r \<Longrightarrow> chain_end m (hd (c @ [r])) = chain_end m r"
proof (induction c)
  case (Cons a c)
  from Cons.prems obtain w where "node m a = Inr w" "tw_child w = Some (hd (c @ [r]))" "walks m c r"
    by (cases c) auto
  with Cons.IH show ?case by (simp add: chain_end.simps [of m a])
qed simp

lemma linked_walks: "linked m par (c @ [r]) \<Longrightarrow> walks m c r"
proof (induction c arbitrary: par)
  case (Cons a c)
  from Cons.prems obtain w where "node m a = Inr w"
    "tw_child w = (case c @ [r] of [] \<Rightarrow> None | b # _ \<Rightarrow> Some b)" "linked m (Some a) (c @ [r])"
    by (simp, blast)
  with Cons.IH show ?case by (cases c) auto
qed simp

lemma walks_cong: "(\<And>a. a \<in> set c \<Longrightarrow> node m' a = node m a) \<Longrightarrow> walks m' c r = walks m c r"
  by (induction c) auto

text \<open>
  A task that is waited for a second time, while it is the last of its chain, becomes its own
  child: nothing fails at that point, but the next wait on that list walks in a circle for ever.
\<close>

theorem waiting_twice_never_ends:
  assumes "px_chains s (pre @ (i # xs @ [r]) # post)" and "map_of (px_lists s) i = Some i"
    and "q \<notin> fst ` set (px_map s)"
  shows "\<exists>s'. PostExecLink i r ti tr s = Inr s' \<and> PostExecLink i q ti tq s' = Inl Diverges"
proof -
  have dist: "distinct (i # xs @ [r])" using px_chainsD(2) [OF assms(1)] by simp
  have lk: "linked (px_map s) None ((i # xs) @ [r])"
    using px_chainsD(4) [OF assms(1), of "i # xs @ [r]"] by (simp del: linked.simps)
  have "chain_end (px_map s) i = Some (Inr r)"
    using chain_end_linked [of "px_map s" None i "xs @ [r]"] lk by simp
  moreover have "map_insert r (i, new_wrapper tr False) (px_map s) = px_map s"
    using px_key [OF assms(1), of r] by (simp add: map_insert_def)
  ultimately have w: "PostExecLink i r ti tr s = Inr (s\<lparr>px_map := update_node r (\<lambda>w. w\<lparr>tw_parent := Some r\<rparr>)
      (update_node r (\<lambda>w. w\<lparr>tw_child := Some r\<rparr>) (px_map s))\<rparr>)"
    using assms(2) by (simp add: PostExecLink_def AddNode_def run_walk_def Let_def)
  let ?m = "update_node r (\<lambda>w. w\<lparr>tw_parent := Some r\<rparr>) (update_node r (\<lambda>w. w\<lparr>tw_child := Some r\<rparr>) (px_map s))"
  have q: "q \<noteq> r" "q \<notin> set (i # xs)"
    using assms(3) px_chainsD(3) [OF assms(1)] by auto
  let ?m' = "map_insert q (i, new_wrapper tq False) ?m"
  have n: "node ?m' a = node ?m a" if "a \<noteq> q" for a
    using that by (intro node_insert_other) simp
  have "walks ?m' (i # xs) r = walks (px_map s) (i # xs) r"
  proof (rule walks_cong)
    fix a assume "a \<in> set (i # xs)"
    then have "a \<noteq> q" "a \<noteq> r" using q dist by auto
    then show "node ?m' a = node (px_map s) a" using n [of a] by (simp add: node_update)
  qed
  then have "chain_end ?m' i = chain_end ?m' r"
    using chain_end_walks [of ?m' "i # xs" r] linked_walks [OF lk] by simp
  moreover obtain w where "node (px_map s) r = Inr w"
    using linked_append [OF lk] by (auto elim: linkedE)
  then have "node ?m' r = Inr (w\<lparr>tw_child := Some r, tw_parent := Some r\<rparr>)"
    using n [of r] q by (simp add: node_update)
  then have "chain_end ?m' r = None" by (rule chain_end_loop) simp
  ultimately have "PostExecLink i q ti tq (s\<lparr>px_map := ?m\<rparr>) = Inl Diverges"
    using assms(2) by (simp add: PostExecLink_def AddNode_def run_walk_def Let_def)
  with w show ?thesis by blast
qed

theorem waiting_twice_never_ends_witness:
  "\<exists>s'. PostExecLink 5 11 (id_task 5) (id_task 11) three_tasks = Inr s' \<and>
     PostExecLink 5 12 (id_task 5) (id_task 12) s' = Inl Diverges"
  by (rule waiting_twice_never_ends [where pre = "[]" and post = "[]" and xs = "[9]"])
    (use three_tasks_chains in \<open>simp_all add: three_tasks_def link_def\<close>)

end
