(* ===== verification/Triggers.thy ===== *)
theory Triggers
  imports Kdb TaskHandlers "HOL-Library.AList"
begin

text \<open>
  Triggers and the registrar: \<open>system/process/trigger.cpp\<close>, \<open>trigger.hpp\<close>, \<open>registrar.hpp\<close>.

  A trigger belongs to an application's mask: when a task of that application has run and its
  environment file holds the trigger's value under the trigger's token, a task of another
  application is made, whose environment file takes its tokens from the first one under new
  names, and the rest from files named in the configuration. The map of a trigger is the
  association list of the hash map's entries.

  Shown: a token of the new task is the value of the token it is mapped from; storing a trigger
  answers the opposite of what happened; the loop over the triggers of a task walks on inside a
  vector that it has replaced.
\<close>

section \<open>Data\<close>

record param_config_info =
  pc_token_name :: string
  pc_section :: string
  pc_name :: string

record trigger_config =
  tc_app :: kapplication
  tc_map :: "(string \<times> string) list"
  tc_infos :: "param_config_info list"
  tc_token_name :: string
  tc_token_value :: string
  tc_mask :: int

definition new_trigger_config :: trigger_config where
  "new_trigger_config = \<lparr>tc_app = empty_app, tc_map = [], tc_infos = [], tc_token_name = [],
     tc_token_value = [], tc_mask = 0\<rparr>"

definition trigger_ready :: "trigger_config \<Rightarrow> bool" where
  "trigger_ready c \<longleftrightarrow> (tc_map c \<noteq> [] \<or> tc_infos c \<noteq> []) \<and> app_path (tc_app c) \<noteq> []"

section \<open>The triggers of a task\<close>

definition trigger_map_row :: "result_map \<Rightarrow> (string \<times> string) res" where
  "trigger_map_row r = bind (map_at r ''old'') (\<lambda>old. bind (map_at r ''new'') (\<lambda>new. Inr (old, new)))"

definition trigger_config_row :: "result_map \<Rightarrow> param_config_info res" where
  "trigger_config_row r =
     bind (map_at r ''token_name'') (\<lambda>t. bind (map_at r ''section'') (\<lambda>s. bind (map_at r ''name'') (\<lambda>n.
       Inr \<lparr>pc_token_name = t, pc_section = s, pc_name = n\<rparr>)))"

definition trigger_params ::
  "'db libs \<Rightarrow> string \<Rightarrow> (('db, 'm) world_scheme, (string \<times> string) list \<times> param_config_info list) act" where
  "trigger_params x id1 = with_filter [''tid'', id1] (\<lambda>flt.
     seq (kdb_select x ''trigger_map'' [''old'', ''new''] flt) (\<lambda>m_rows.
     seq (of_res (mapM trigger_map_row m_rows)) (\<lambda>pairs.
     seq (kdb_select x ''trigger_config'' [''token_name'', ''section'', ''name''] flt) (\<lambda>c_rows.
     seq (of_res (mapM trigger_config_row c_rows)) (\<lambda>infos.
       ret (fold (\<lambda>kv m. AList.update (fst kv) (snd kv) m) pairs [(''id'', id1)], infos))))))"

text \<open>
  The loop over the rows of \<open>triggers\<close>. Where a row matches and its application is there, the
  vector \<open>query\<close> that the loop runs over is replaced; after the last row the loop only compares
  its iterators, before it they are read: undefined.
\<close>

fun trigger_rows :: "'db libs \<Rightarrow> task \<Rightarrow> result_map list \<Rightarrow> (('db, 'm) world_scheme, trigger_config list) act" where
  "trigger_rows x t [] = ret []"
| "trigger_rows x t (row # rows) =
     seq (of_res (map_at row ''id'')) (\<lambda>id1.
     seq (of_res (map_at row ''trigger_mask'')) (\<lambda>trigger_mask.
     seq (of_res (map_at row ''token_name'')) (\<lambda>token_name.
     seq (of_res (map_at row ''token_value'')) (\<lambda>token_value.
     seq get_fs (\<lambda>fs.
     seq (of_res (ReadEnvToken fs (tk_env t) token_name False)) (\<lambda>tok_v.
       if tok_v \<noteq> token_value then trigger_rows x t rows
       else
         seq (of_res (stoi trigger_mask)) (\<lambda>m.
         seq (get_app_info x m) (\<lambda>app.
         if \<not> app_is_valid app
         then seq (trigger_rows x t rows) (\<lambda>cs. ret (new_trigger_config\<lparr>tc_app := app\<rparr> # cs))
         else
           seq (trigger_params x id1) (\<lambda>(m, infos).
             if rows \<noteq> [] then raise Undefined
             else ret [new_trigger_config\<lparr>tc_app := app, tc_map := m, tc_infos := infos\<rparr>])))))))))"

definition get_triggers :: "'db libs \<Rightarrow> task \<Rightarrow> (('db, 'm) world_scheme, trigger_config list) act" where
  "get_triggers x t = with_filter [''mask'', int_to_string (tk_mask t)] (\<lambda>flt.
     seq (kdb_select x ''triggers'' [''id'', ''trigger_mask'', ''token_name'', ''token_value''] flt)
       (trigger_rows x t))"

section \<open>The task a trigger makes\<close>

fun mapped_tokens ::
  "fsys \<Rightarrow> string \<Rightarrow> (string \<rightharpoonup> string) \<Rightarrow> string list \<Rightarrow> string \<times> string \<Rightarrow> (string \<times> string) res" where
  "mapped_tokens fs env m [] acc = Inr acc"
| "mapped_tokens fs env m (token # tokens) (body, flags) =
     (case m token of
        None \<Rightarrow> mapped_tokens fs env m tokens (body, flags)
      | Some token_name \<Rightarrow>
          bind (ReadEnvToken fs env token False) (\<lambda>v.
          bind (AsExecutionFlag token_name (if flags = [] then [] else '' '')) (\<lambda>f.
            mapped_tokens fs env m tokens (body @ newline # env_line (token_name, v), flags @ f))))"

fun config_tokens ::
  "'db libs \<Rightarrow> fsys \<Rightarrow> param_config_info list \<Rightarrow> string \<times> string \<Rightarrow> (string \<times> string) res" where
  "config_tokens x fs [] acc = Inr acc"
| "config_tokens x fs (info # infos) (body, flags) =
     (let config_value = x_conf x (pc_section info) (pc_name info) in
      if config_value = [] then config_tokens x fs infos (body, flags)
      else
        bind (ReadFile fs config_value) (\<lambda>v.
        bind (AsExecutionFlag (pc_token_name info) (if flags = [] then [] else '' '')) (\<lambda>f.
          config_tokens x fs infos (body @ newline # env_line (pc_token_name info, v), flags @ f))))"

definition triggered_task :: "'db libs \<Rightarrow> task \<Rightarrow> trigger_config \<Rightarrow> (('db, 'm) world_scheme, task) act" where
  "triggered_task x t config =
     seq (of_res (stoi (app_mask (tc_app config)))) (\<lambda>m.
     seq (GenerateUUIDString x) (\<lambda>uuid.
     seq (of_res (ExtractFlagTokens (tk_flags t))) (\<lambda>tokens.
     seq get_fs (\<lambda>fs.
     seq (of_res (mapped_tokens fs (tk_env t) (map_of (tc_map config)) tokens ([], []))) (\<lambda>acc.
     seq (of_res (config_tokens x fs (tc_infos config) acc)) (\<lambda>(environment_file, flags).
     let (env, fs') = SaveEnvFile fs environment_file uuid in
     seq (put_fs fs') (\<lambda>_.
       ret ((clone_basic t m)\<lparr>tk_flags := flags, tk_env := env\<rparr>))))))))"

definition Trigger_process :: "'db libs \<Rightarrow> task \<Rightarrow> (('db, 'm) world_scheme, task list) act" where
  "Trigger_process x t =
     seq (get_triggers x t) (\<lambda>configs.
       collect (triggered_task x t) (filter trigger_ready configs))"

section \<open>Storing a trigger\<close>

text \<open>
  \<open>m_db->insert\<close> without a returned column gives \<open>true\<close> for a row that went in, and the result
  is kept in \<open>error\<close>.
\<close>

fun insert_last :: "(string list \<Rightarrow> ('s, bool) act) \<Rightarrow> string list list \<Rightarrow> bool \<Rightarrow> ('s, bool) act" where
  "insert_last ins [] error = ret error"
| "insert_last ins (vals # rest) error = seq (ins vals) (\<lambda>r. insert_last ins rest r)"

definition Trigger_add :: "'db libs \<Rightarrow> trigger_config \<Rightarrow> (('db, 'm) world_scheme, bool) act" where
  "Trigger_add x config =
     (if \<not> trigger_ready config then ret True
      else
        seq (kdb_insert_returning x ''triggers'' [''mask'', ''trigger_mask'', ''token_name'', ''token_value'']
               [int_to_string (tc_mask config), app_mask (tc_app config), tc_token_name config,
                tc_token_value config] ''id'') (\<lambda>id1.
        if id1 = [] then ret False
        else
          seq (insert_last (kdb_insert x ''trigger_map'' [''tid'', ''old'', ''new''])
                 (map (\<lambda>(old, new). [id1, old, new]) (tc_map config)) False) (\<lambda>error.
          if error then ret False
          else
            seq (insert_last (kdb_insert x ''trigger_config'' [''token_name'', ''section'', ''name''])
                   (map (\<lambda>info. [pc_token_name info, pc_section info, pc_name info]) (tc_infos config)) error)
              (\<lambda>error. ret (\<not> error)))))"

section \<open>Registrar\<close>

definition args_to_application :: "string list \<Rightarrow> kapplication res" where
  "args_to_application args =
     (if args = [] then Inr empty_app
      else bind (vec_at args 1) (\<lambda>n. bind (vec_at args 2) (\<lambda>p. bind (vec_at args 3) (\<lambda>d.
           bind (vec_at args 4) (\<lambda>m.
             Inr (empty_app\<lparr>app_name := n, app_path := p, app_data := d, app_mask := m\<rparr>))))))"

definition Registrar_find :: "'db libs \<Rightarrow> kapplication \<Rightarrow> (('db, 'm) world_scheme, bool) act" where
  "Registrar_find x app = with_filter [''name'', app_name app] (\<lambda>flt.
     seq (kdb_select x ''apps'' [''name'', ''mask'', ''path'', ''data''] flt) (\<lambda>result.
       ret (length result > 2)))"

definition Registrar_add :: "'db libs \<Rightarrow> kapplication \<Rightarrow> (('db, 'm) world_scheme, string) act" where
  "Registrar_add x app =
     (if app_name app = [] then ret []
      else catch_all
        (seq (Registrar_find x app) (\<lambda>found.
           if found then ret []
           else kdb_insert_returning x ''apps'' [''name'', ''data'', ''path'', ''mask'']
                  [app_name app, app_data app, app_path app, app_mask app] ''id''))
        (ret []))"

definition Registrar_remove :: "'db libs \<Rightarrow> kapplication \<Rightarrow> (('db, 'm) world_scheme, string) act" where
  "Registrar_remove x app = with_filter [''name'', app_name app, ''path'', app_path app] (kdb_remove x ''apps'')"


section \<open>Reading back\<close>

definition trigger_text :: "(string \<times> string) list \<Rightarrow> string" where
  "trigger_text kvs = concat (map (\<lambda>kv. newline # env_line kv) kvs)"

lemma trigger_text_lines: "trigger_text kvs @ [newline] = newline # env_lines kvs"
  by (induction kvs) (simp_all add: trigger_text_def)

lemma trigger_text_simps [simp]:
  "trigger_text [] = []"
  "trigger_text (kv # kvs) = newline # env_line kv @ trigger_text kvs"
  "trigger_text (kvs @ kvs') = trigger_text kvs @ trigger_text kvs'"
  by (simp_all add: trigger_text_def)

lemma env_token_trigger_text:
  assumes "CHR ''='' \<notin> set k" and "clear_of k pre" and "unit_sep \<notin> set v"
  shows "env_token (trigger_text (pre @ (k, v) # post)) k j =
    Inr (if j then trim_outer_quotes (dquote # v) else SanitizeToken (dquote # v))"
proof -
  let ?t = "trigger_text post"
  have e: "trigger_text (pre @ (k, v) # post) = newline # env_lines pre @ env_line (k, v) @ ?t"
    using trigger_text_lines [of pre] by (metis append.assoc append_Cons append_Nil trigger_text_simps(2,3))
  have f: "find_str (newline # k) (trigger_text (pre @ (k, v) # post)) = Some (length (env_lines pre))"
    unfolding e by (rule find_key_in_lines [OF assms(1,2)])
  show ?thesis
    by (rule env_token_at [OF f, of "newline # env_lines pre" v ?t])
      (use assms(3) in \<open>simp_all add: e env_line_def del: trigger_text_simps\<close>)
qed

interpretation trigf: token_file trigger_text env_token env_key_ok plain_value
  by unfold_locales
    (auto simp: env_key_ok_def env_token_trigger_text SanitizeToken_plain plain_value_def
        simp del: trigger_text_simps)

text \<open>What the two loops add: one entry for each mapped token, then for each configured file.\<close>

definition mapped_pairs :: "fsys \<Rightarrow> string \<Rightarrow> (string \<rightharpoonup> string) \<Rightarrow> string list \<Rightarrow> (string \<times> string) list res" where
  "mapped_pairs fs env m tokens =
     mapM (\<lambda>token. bind (ReadEnvToken fs env token False) (\<lambda>v. Inr (the (m token), v)))
       (filter (\<lambda>token. m token \<noteq> None) tokens)"

lemma mapped_tokens_text:
  assumes "mapped_tokens fs env m tokens (body, flags) = Inr (body', flags')"
  shows "\<exists>kvs. mapped_pairs fs env m tokens = Inr kvs \<and> body' = body @ trigger_text kvs"
  using assms
proof (induction tokens arbitrary: body flags)
  case Nil
  then show ?case by (simp add: mapped_pairs_def)
next
  case (Cons t ts)
  show ?case
  proof (cases "m t")
    case None
    with Cons show ?thesis by (simp add: mapped_pairs_def)
  next
    case (Some k)
    with Cons.prems obtain v f where v: "ReadEnvToken fs env t False = Inr v"
      and r: "mapped_tokens fs env m ts (body @ newline # env_line (k, v), flags @ f) = Inr (body', flags')"
      by (auto simp: bind_def split: sum.splits)
    from Cons.IH [OF r] obtain kvs where "mapped_pairs fs env m ts = Inr kvs"
      and "body' = (body @ newline # env_line (k, v)) @ trigger_text kvs" by blast
    with Some v show ?thesis by (intro exI [of _ "(k, v) # kvs"]) (simp add: mapped_pairs_def)
  qed
qed

lemma config_tokens_text:
  assumes "config_tokens x fs infos (body, flags) = Inr (body', flags')"
  shows "\<exists>kvs. body' = body @ trigger_text kvs"
  using assms
proof (induction infos arbitrary: body flags)
  case Nil
  then show ?case by (intro exI [of _ "[]"]) simp
next
  case (Cons i infs)
  show ?case
  proof (cases "x_conf x (pc_section i) (pc_name i) = []")
    case True
    with Cons show ?thesis by simp
  next
    case False
    with Cons.prems obtain v f where
      r: "config_tokens x fs infs (body @ newline # env_line (pc_token_name i, v), flags @ f) = Inr (body', flags')"
      by (auto simp: bind_def Let_def split: sum.splits)
    from Cons.IH [OF r] obtain kvs where
      "body' = (body @ newline # env_line (pc_token_name i, v)) @ trigger_text kvs" by blast
    then show ?thesis by (intro exI [of _ "(pc_token_name i, v) # kvs"]) simp
  qed
qed

text \<open>\<open>SaveEnvFile\<close> makes the directory of the task.\<close>

lemma SaveEnvFile_makes:
  assumes "task_fs fs" and "fresh_uuid fs uuid"
  shows "SaveEnvFile fs env uuid = SaveEnvFile (snd (CreateTaskDirectory fs uuid)) env uuid"
proof -
  let ?d = "fs_cwd fs @ ''/data/'' @ uuid"
  have r: "resolve fs (fs_exe fs @ ''/data/'' @ uuid) = ?d"
    using assms(1) by (simp add: task_fs_def resolve_abs)
  have p: "parent_dir ?d = fs_cwd fs @ ''/data''"
    using parent_dir_append [of uuid "fs_cwd fs @ ''/data''"] assms(2) by (simp add: fresh_uuid_def)
  have d: "\<not> is_dir fs ?d" "is_dir fs (fs_cwd fs @ ''/data'')" "fs_files fs ?d = None"
    using assms by (simp_all add: is_dir_def fresh_uuid_def task_fs_def)
  have "CreateDirectory fs (fs_exe fs @ ''/data/'' @ uuid) = CreateTaskDirectory fs uuid"
    using r p d resolve_data [of fs uuid] by (simp add: CreateDirectory_def CreateTaskDirectory_def Let_def)
  moreover have "is_dir (snd (CreateTaskDirectory fs uuid)) (resolve (snd (CreateTaskDirectory fs uuid))
      (fs_exe (snd (CreateTaskDirectory fs uuid)) @ ''/data/'' @ uuid))"
    using CreateTaskDirectory_fresh [OF assms] assms(1)
    by (simp add: task_fs_def resolve_abs is_dir_def)
  moreover have "fs_exe (snd (CreateTaskDirectory fs uuid)) = fs_exe fs"
    using CreateTaskDirectory_fresh [OF assms] by simp
  ultimately show ?thesis
    using r d by (simp add: SaveEnvFile_def Let_def)
qed

lemma read_saved_env_makes:
  assumes "task_fs fs" and "fresh_uuid fs uuid" and "SaveEnvFile fs env uuid = (p, fs')"
  shows "p = ''data/'' @ uuid @ ''/v.env'' \<and> read_file fs' p = env"
proof -
  obtain fs1 where fs1: "CreateTaskDirectory fs uuid = (True, fs1)"
    using CreateTaskDirectory_fresh [OF assms(1,2)] by blast
  then have "SaveEnvFile fs1 env uuid = (p, fs')"
    using SaveEnvFile_makes [OF assms(1,2), of env] assms(3) by simp
  then show ?thesis
    using read_saved_env [OF assms(1,2) fs1, of env] by (auto simp: SaveEnvFile_def Let_def)
qed


section \<open>Properties\<close>

text \<open>
  A task made by a trigger reads, under the name a token of the first task is mapped to, the
  value the first task has under that token, as \<open>Task::GetToken\<close> reads both.
\<close>

theorem triggered_token_is_read:
  assumes run: "triggered_task x t config w = (Inr n, w')"
    and "task_fs (w_fs w)" and "fresh_uuid (w_fs w) (x_uuid x (w_uuids w))"
    and "ExtractFlagTokens (tk_flags t) = Inr tokens"
    and pairs: "mapped_pairs (w_fs w) (tk_env t) (map_of (tc_map config)) tokens = Inr (pre @ (k, v) # post)"
    and "env_key_ok k pre" and "plain_value v"
  shows "GetToken_task (w_fs w') n k = Inr v"
proof -
  obtain m acc env flags p fs' where
      m: "mapped_tokens (w_fs w) (tk_env t) (map_of (tc_map config)) tokens ([], []) = Inr acc"
    and c: "config_tokens x (w_fs w) (tc_infos config) acc = Inr (env, flags)"
    and sv: "SaveEnvFile (w_fs w) env (x_uuid x (w_uuids w)) = (p, fs')"
    and n: "n = (clone_basic t m)\<lparr>tk_flags := flags, tk_env := p\<rparr>" and w': "w_fs w' = fs'"
    using run assms(4)
    by (auto simp: triggered_task_def seq_def GenerateUUIDString_def get_fs_def put_fs_def
        split: sum.splits prod.splits)
  obtain a b where acc: "acc = (a, b)" by (cases acc)
  from mapped_tokens_text [OF m [unfolded acc]] pairs have "a = trigger_text (pre @ (k, v) # post)"
    by auto
  with config_tokens_text [OF c [unfolded acc]] obtain rest
    where "env = trigger_text (pre @ (k, v) # (post @ rest))"
    by (auto simp only: trigger_text_simps append_assoc append_Cons)
  then have "env_token env k False = Inr v"
    by (simp only: trigf.token_render [OF assms(6,7)])
  moreover have "read_file fs' p = env"
    using read_saved_env_makes [OF assms(2,3) sv] by blast
  ultimately show ?thesis
    by (simp add: GetToken_task_def ReadEnvToken_def ReadEnvFile_def n w')
qed

definition trigger_world :: "unit world" where
  "trigger_world = \<lparr>w_db = (),
     w_fs = sample_fs\<lparr>fs_files := Map.empty(''/srv/v.env'' := Some (newline # env_line (''HEADER'', ''a post'')))\<rparr>,
     w_now = 0, w_uuids = 7, w_events = [], w_mails = []\<rparr>"

definition sample_trigger :: trigger_config where
  "sample_trigger = new_trigger_config\<lparr>tc_app := empty_app\<lparr>app_name := ''KNLP'', app_path := ''/bin/knlp'', app_mask := ''32''\<rparr>,
     tc_map := [(''id'', ''4''), (''HEADER'', ''DESCRIPTION'')]\<rparr>"

definition sample_trigger_task :: task where
  "sample_trigger_task = empty_task\<lparr>tk_mask := 16, tk_flags := ''--header=$HEADER'', tk_env := ''v.env''\<rparr>"

lemma sample_tokens: "ExtractFlagTokens ''--header=$HEADER'' = Inr [''HEADER'']"
  using extract_flags [of "[(''--header='', ''HEADER'')]" "[]" "[]"]
  by (simp add: flag_ok_def npos_def flag_text_def ExtractFlagTokens_def)


lemma triggered_task_runs:
  assumes "stoi (app_mask (tc_app config)) = Inr m" and "ExtractFlagTokens (tk_flags t) = Inr tokens"
    and "mapped_tokens (w_fs w) (tk_env t) (map_of (tc_map config)) tokens ([], []) = Inr acc"
    and "config_tokens x (w_fs w) (tc_infos config) acc = Inr out"
  shows "\<exists>n w'. triggered_task x t config w = (Inr n, w')"
  using assms
  by (auto simp: triggered_task_def seq_def GenerateUUIDString_def get_fs_def put_fs_def split: prod.splits)

theorem triggered_token_is_read_witness:
  "\<exists>n w'. triggered_task idle_libs sample_trigger_task sample_trigger trigger_world = (Inr n, w') \<and>
     GetToken_task (w_fs w') n ''DESCRIPTION'' = Inr ''a post''"
proof -
  have tok: "ExtractFlagTokens (tk_flags sample_trigger_task) = Inr [''HEADER'']"
    using sample_tokens by (simp add: sample_trigger_task_def)
  have "\<exists>n w'. triggered_task idle_libs sample_trigger_task sample_trigger trigger_world = (Inr n, w')"
  proof (rule triggered_task_runs [OF _ tok])
    show "stoi (app_mask (tc_app sample_trigger)) = Inr 32" by code_simp
    show "mapped_tokens (w_fs trigger_world) (tk_env sample_trigger_task) (map_of (tc_map sample_trigger))
        [''HEADER''] ([], []) = Inr (newline # env_line (''DESCRIPTION'', ''a post''), ''--description=$DESCRIPTION'')"
      by code_simp
  qed (simp add: sample_trigger_def new_trigger_config_def)
  then obtain n w' where run: "triggered_task idle_libs sample_trigger_task sample_trigger trigger_world = (Inr n, w')"
    by blast
  have "GetToken_task (w_fs w') n ''DESCRIPTION'' = Inr ''a post''"
  proof (rule triggered_token_is_read [OF run _ _ tok, where pre = "[]" and post = "[]"])
    show "mapped_pairs (w_fs trigger_world) (tk_env sample_trigger_task) (map_of (tc_map sample_trigger))
        [''HEADER''] = Inr ([] @ (''DESCRIPTION'', ''a post'') # [])"
      by code_simp
    show "task_fs (w_fs trigger_world)"
      by (simp add: trigger_world_def task_fs_def sample_fs_def)
    show "fresh_uuid (w_fs trigger_world) (x_uuid idle_libs (w_uuids trigger_world))"
      by code_simp
  qed (simp_all add: env_key_ok_def plain_value_def)
  then show ?thesis using run by blast
qed

lemma kdb_insert_True: "kdb_insert x t f v w = (Inr b, w') \<Longrightarrow> b"
  by (auto simp: kdb_insert_def kdb_try_def handle_def seq_def split: prod.splits sum.splits)

lemma insert_last_True:
  "insert_last (kdb_insert x t f) vs e w = (Inr b, w') \<Longrightarrow> b = (vs \<noteq> [] \<or> e)"
proof (induction vs arbitrary: e w)
  case (Cons v vs)
  then obtain r w1 where "kdb_insert x t f v w = (Inr r, w1)" "insert_last (kdb_insert x t f) vs r w1 = (Inr b, w')"
    by (auto simp: seq_def split: prod.splits sum.splits)
  with kdb_insert_True [of x t f v w r w1] Cons.IH [of r w1] show ?case by auto
qed simp

text \<open>
  Whenever storing a trigger returns, it answers \<open>false\<close> for a trigger that is ready, also where
  every row went in, and \<open>true\<close> for one that is not, of which nothing is stored.
\<close>

theorem trigger_add_answers_inverted:
  assumes "Trigger_add x config w = (Inr b, w')"
  shows "(b \<longleftrightarrow> \<not> trigger_ready config) \<and> (b \<longrightarrow> w' = w)"
proof (cases "trigger_ready config")
  case True
  then have n: "tc_map config \<noteq> [] \<or> tc_infos config \<noteq> []" by (simp add: trigger_ready_def)
  have "\<not> b"
    using assms True n
    by (auto simp: Trigger_add_def seq_def split: prod.splits sum.splits if_splits
        dest!: insert_last_True)
  with True show ?thesis by simp
qed (use assms in \<open>simp add: Trigger_add_def\<close>)

definition ready_libs :: "unit libs" where
  "ready_libs = idle_libs\<lparr>x_exec := \<lambda>_ db. (Inr [[Some ''7'']], db)\<rparr>"

theorem trigger_add_answers_inverted_witness:
  "\<exists>w'. Trigger_add ready_libs sample_trigger trigger_world = (Inr False, w')"
proof -
  have "\<not> isl (fst (Trigger_add ready_libs sample_trigger trigger_world))"
    by code_simp
  then obtain b w' where run: "Trigger_add ready_libs sample_trigger trigger_world = (Inr b, w')"
    by (metis isl_def prod.collapse sum.exhaust)
  moreover have "trigger_ready sample_trigger" by code_simp
  ultimately show ?thesis using trigger_add_answers_inverted [OF run] by simp
qed

text \<open>
  The loop over the triggers of a task goes wrong as soon as one of them fires before the last:
  it has put the rows of the trigger's map where the rows it walks over were.
\<close>

theorem firing_trigger_breaks_loop:
  assumes "row ''id'' = Some id1" and "row ''trigger_mask'' = Some tm"
    and "row ''token_name'' = Some name" and "row ''token_value'' = Some val"
    and "ReadEnvToken (w_fs w) (tk_env t) name False = Inr val"
    and "stoi tm = Inr m" and "get_app_info x m w = (Inr app, w1)" and "app_is_valid app"
    and "trigger_params x id1 w1 = (Inr p, w2)" and "rows \<noteq> []"
  shows "fst (trigger_rows x t (row # rows) w) = Inl Undefined"
  using assms by (auto simp: get_fs_def seq_def split: prod.splits)

definition fires_libs :: "unit libs" where
  "fires_libs = idle_libs\<lparr>x_exec := \<lambda>s db. (if str_contains s ''FROM apps'' then Inr [[Some ''/bin/knlp'', Some [], Some ''KNLP'']]
     else Inr [], db)\<rparr>"

theorem firing_trigger_breaks_loop_witness:
  "fst (trigger_rows fires_libs sample_trigger_task
     [[''id'' \<mapsto> ''4'', ''trigger_mask'' \<mapsto> ''32'', ''token_name'' \<mapsto> ''HEADER'', ''token_value'' \<mapsto> ''a post''],
      Map.empty] trigger_world) = Inl Undefined"
proof (rule firing_trigger_breaks_loop)
  let ?app = "empty_app\<lparr>app_path := ''/bin/knlp'', app_name := ''KNLP'', app_mask := ''32''\<rparr>"
  have a: "fst (get_app_info fires_libs 32 trigger_world) = Inr ?app"
    by code_simp
  then show "get_app_info fires_libs 32 trigger_world = (Inr ?app, snd (get_app_info fires_libs 32 trigger_world))"
    by (simp add: prod_eq_iff)
  have "fst (trigger_params fires_libs ''4'' (snd (get_app_info fires_libs 32 trigger_world)))
      = Inr ([(''id'', ''4'')], [])"
    by code_simp
  then show "trigger_params fires_libs ''4'' (snd (get_app_info fires_libs 32 trigger_world))
      = (Inr ([(''id'', ''4'')], []), snd (trigger_params fires_libs ''4'' (snd (get_app_info fires_libs 32 trigger_world))))"
    by (simp add: prod_eq_iff)
  show "app_is_valid ?app" by (simp add: app_is_valid_def)
  show "stoi ''32'' = Inr 32" by code_simp
  show "ReadEnvToken (w_fs trigger_world) (tk_env sample_trigger_task) ''HEADER'' False = Inr ''a post''"
    by code_simp
qed simp_all

end
