(* ===== verification/SchedTasks.thy ===== *)
theory SchedTasks
  imports Triggers
begin

text \<open>
  The scheduler's tasks, \<open>system/process/scheduler.cpp\<close> and \<open>helper.cpp\<close>: storing a task with its
  files and its recurrence, reading tasks back from rows, updating them, and the tasks that a
  finished task triggers. The map of the applications' masks, read once when the scheduler is made,
  is the argument \<open>apps\<close>; turning a time into today's is the C library's \<open>localtime\<close> and
  \<open>mktime\<close>, the argument \<open>x_today\<close>.

  Shown: the statements that storing a task sends, in order, and that an exception of the database
  does not leave \<open>schedule\<close>; that the queries of pending tasks lack a column their reader asks
  for, so they never return a task; that \<open>updateEnvfile\<close> never writes; that a date range loses its
  shape; that a trigger a client sends is never stored.
\<close>

section \<open>Constants\<close>

definition F_MASK :: string where "F_MASK = ''schedule.mask''"
definition F_FLAGS :: string where "F_FLAGS = ''schedule.flags''"
definition F_ENVFILE :: string where "F_ENVFILE = ''schedule.envfile''"
definition F_TIME :: string where "F_TIME = ''schedule.time''"
definition F_REC_TIME :: string where "F_REC_TIME = ''recurring.time''"
definition F_ID :: string where "F_ID = ''schedule.id''"
definition F_COMPLETED :: string where "F_COMPLETED = ''schedule.completed''"
definition F_RECURRING :: string where "F_RECURRING = ''schedule.recurring''"
definition F_NOTIFY :: string where "F_NOTIFY = ''schedule.notify''"

lemmas field_names = F_MASK_def F_FLAGS_def F_ENVFILE_def F_TIME_def F_REC_TIME_def F_ID_def
  F_COMPLETED_def F_RECURRING_def F_NOTIFY_def

definition FILEQUERY :: string where
  "FILEQUERY = ''(SELECT string_agg(file.name, '' @ [squote] @ '' '' @ [squote] @
     '') FROM file WHERE file.sid = schedule.id) as files''"

definition UNIXTIME_NOW :: string where
  "UNIXTIME_NOW = ''extract(epoch from (now()))::int''"

definition DEFAULT_TASK_FIELDS :: "string list" where
  "DEFAULT_TASK_FIELDS = [F_ID, F_TIME, F_MASK, F_FLAGS, F_ENVFILE, F_COMPLETED, F_NOTIFY, F_RECURRING]"

definition Completed_STRINGS :: "string list" where
  "Completed_STRINGS = [''0'', ''1'', ''2'', ''3'']"

definition file_join :: join where
  "file_join = \<lparr>j_table = ''file'', j_field = ''sid'', j_join_table = ''schedule'', j_join_field = ''id'', j_type = OUTER\<rparr>"

section \<open>Storing a task\<close>

definition IsImageExtension :: "string \<Rightarrow> bool" where
  "IsImageExtension e \<longleftrightarrow> e \<in> {''jpg'', ''jpeg'', ''png'', ''gif'', ''bmp'', ''svg''}"

definition IsVideoExtension :: "string \<Rightarrow> bool" where
  "IsVideoExtension e \<longleftrightarrow> e \<in> {''mp4'', ''avi'', ''mkv'', ''webm''}"

definition GetFileType :: "string \<Rightarrow> string" where
  "GetFileType filename =
     (let extension = (case find_last_char (CHR ''.'') filename of None \<Rightarrow> filename | Some i \<Rightarrow> drop (i + 1) filename);
          e = ToLower extension
      in if IsImageExtension e then ''image'' else if IsVideoExtension e then ''video'' else ''unknown'')"

text \<open>
  \<open>std::stoi(datetime) - GetIntervalSeconds(recurring)\<close> and the sum: the interval is unsigned, so
  the whole is, and its decimal text is that of a \<open>uint32_t\<close>.
\<close>

definition time_before :: "string \<Rightarrow> int \<Rightarrow> string res" where
  "time_before datetime recurring = bind (stoi datetime) (\<lambda>i.
     Inr (nat_to_string (unat (word_of_int i - GetIntervalSeconds (word_of_int recurring)))))"

definition time_after :: "string \<Rightarrow> int \<Rightarrow> string res" where
  "time_after datetime recurring = bind (stoi datetime) (\<lambda>i.
     Inr (nat_to_string (unat (word_of_int i + GetIntervalSeconds (word_of_int recurring)))))"

definition schedule_values :: "task \<Rightarrow> string list" where
  "schedule_values t = [tk_datetime t, int_to_string (tk_mask t), tk_flags t, tk_env t,
     int_to_string (tk_recurring t), bool_to_string (tk_notify t)]"

definition insert_files :: "'db libs \<Rightarrow> string \<Rightarrow> task \<Rightarrow> (('db, 'm) world_scheme, unit) act" where
  "insert_files x id1 t = each (\<lambda>file.
     seq (kdb_insert x ''file'' [''name'', ''sid'', ''type''] [fst file, id1, GetFileType (fst file)])
       (\<lambda>_. ret ())) (tk_files t)"

definition insert_recurring :: "'db libs \<Rightarrow> string \<Rightarrow> task \<Rightarrow> (('db, 'm) world_scheme, unit) act" where
  "insert_recurring x id1 t =
     seq (of_res (time_before (tk_datetime t) (tk_recurring t))) (\<lambda>time.
     seq (kdb_insert x ''recurring'' [''sid'', ''time''] [id1, time]) (\<lambda>_. ret ()))"

text \<open>The variable \<open>id\<close> is set before what may throw after it, and is what is returned.\<close>

definition schedule :: "'db libs \<Rightarrow> task \<Rightarrow> (('db, 'm) world_scheme, string) act" where
  "schedule x t =
     (if \<not> task_validate t then seq (of_res (task_toString t)) (\<lambda>_. ret [])
      else
        seq (catch_all (kdb_insert_returning x ''schedule''
               [''time'', ''mask'', ''flags'', ''envfile'', ''recurring'', ''notify''] (schedule_values t) ''id'')
             (ret [])) (\<lambda>id1.
        seq (catch_all
              (if id1 = [] then seq (of_res (task_toString t)) (\<lambda>_. ret ())
               else seq (insert_files x id1 t) (\<lambda>_.
                    if tk_recurring t \<noteq> 0 then insert_recurring x id1 t else ret ()))
              (ret ())) (\<lambda>_.
          ret id1)))"

section \<open>Files of a task\<close>

definition file_row :: "string \<Rightarrow> result_map \<Rightarrow> file_meta res" where
  "file_row sid row =
     bind (map_at row ''id'') (\<lambda>i. bind (map_at row ''name'') (\<lambda>n. bind (map_at row ''type'') (\<lambda>t.
       Inr \<lparr>fm_task_id = sid, fm_id = i, fm_name = n, fm_type = t\<rparr>)))"

definition getFiles :: "'db libs \<Rightarrow> string \<Rightarrow> string \<Rightarrow> (('db, 'm) world_scheme, file_meta list) act" where
  "getFiles x sid type =
     with_filter (if type = [] then [''sid'', sid] else [''sid'', sid, ''type'', type]) (\<lambda>flt.
     seq (kdb_select x ''file'' [''id'', ''name'', ''type''] flt) (\<lambda>rows. of_res (mapM (file_row sid) rows)))"

definition getFiles_of :: "'db libs \<Rightarrow> string list \<Rightarrow> string \<Rightarrow> (('db, 'm) world_scheme, file_meta list) act" where
  "getFiles_of x sids type = seq (collect (\<lambda>sid. getFiles x sid type) sids) (\<lambda>fss. ret (concat fss))"

section \<open>Tasks from rows\<close>

definition time_as_today :: "'db libs \<Rightarrow> string \<Rightarrow> (('db, 'm) world_scheme, string) act" where
  "time_as_today x unixtime = seq (of_res (stoi unixtime)) (\<lambda>time. seq UnixTime (\<lambda>now.
     ret (int_to_string (x_today x time now))))"

definition files_added :: "file_meta list \<Rightarrow> task \<Rightarrow> task" where
  "files_added fs t = t\<lparr>tk_filenames := tk_filenames t @ map fm_name fs,
     tk_files := tk_files t @ map (\<lambda>f. (fm_name f, [])) fs\<rparr>"

text \<open>One row of \<open>parseTask\<close>, on the task the rows before it left.\<close>

definition parseTask_row ::
  "'db libs \<Rightarrow> (int \<rightharpoonup> string) \<Rightarrow> string \<Rightarrow> task \<Rightarrow> result_map \<Rightarrow> (('db, 'm) world_scheme, task) act" where
  "parseTask_row x apps time_field t row =
     seq (of_res (bind (map_at row F_MASK) stoi)) (\<lambda>msk.
     seq (of_res (map_at row F_FLAGS)) (\<lambda>flags.
     seq (of_res (map_at row F_ENVFILE)) (\<lambda>env.
     seq (of_res (map_at row time_field)) (\<lambda>time.
     seq (of_res (bind (map_at row F_ID) stoi)) (\<lambda>tid.
     seq (of_res (bind (map_at row F_COMPLETED) stoi)) (\<lambda>completed.
     seq (of_res (bind (map_at row F_RECURRING) stoi)) (\<lambda>recurring.
     seq (of_res (map_at row F_NOTIFY)) (\<lambda>notify.
     seq (if recurring \<noteq> 0 then time_as_today x time else ret time) (\<lambda>datetime.
     seq get_fs (\<lambda>fs.
     seq (of_res (ReadRunArgs fs env)) (\<lambda>runtime.
     seq (of_res (map_at apps msk)) (\<lambda>name.
     let t' = t\<lparr>tk_mask := msk, tk_flags := flags, tk_env := env, tk_datetime := datetime, tk_id := tid,
                tk_completed := completed, tk_recurring := recurring, tk_runtime := runtime,
                tk_name := name, tk_notify := (notify = ''t'')\<rparr>
     in if tk_filenames t' = [] then seq (getFiles x (task_id_string t') []) (\<lambda>files. ret (files_added files t'))
        else ret t'))))))))))))"

fun parseTask_rows ::
  "'db libs \<Rightarrow> (int \<rightharpoonup> string) \<Rightarrow> string \<Rightarrow> task \<Rightarrow> result_map list \<Rightarrow> (('db, 'm) world_scheme, task) act" where
  "parseTask_rows x apps time_field t [] = ret t"
| "parseTask_rows x apps time_field t (row # rows) =
     seq (parseTask_row x apps time_field t row) (\<lambda>t'. parseTask_rows x apps time_field t' rows)"

definition parseTask :: "'db libs \<Rightarrow> (int \<rightharpoonup> string) \<Rightarrow> bool \<Rightarrow> result_map list \<Rightarrow> (('db, 'm) world_scheme, task) act" where
  "parseTask x apps is_recurring rows =
     parseTask_rows x apps (if is_recurring then F_REC_TIME else F_TIME) empty_task rows"

definition parseTasks_row ::
  "'db libs \<Rightarrow> (int \<rightharpoonup> string) \<Rightarrow> bool \<Rightarrow> result_map \<Rightarrow> (('db, 'm) world_scheme, task) act" where
  "parseTasks_row x apps original_time row =
     seq (of_res (bind (map_at row F_RECURRING) stoi)) (\<lambda>recurring.
     seq (of_res (map_at row F_ENVFILE)) (\<lambda>env.
     seq (of_res (map_at row F_MASK)) (\<lambda>msk.
     seq (of_res (map_at row (if original_time then F_TIME
                              else if recurring \<noteq> 0 \<and> row F_REC_TIME \<noteq> None then F_REC_TIME else F_TIME))) (\<lambda>time0.
     seq (of_res (map_at row FILEQUERY)) (\<lambda>filenames.
     seq (if \<not> original_time \<and> recurring \<noteq> 0 then time_as_today x time0 else ret time0) (\<lambda>time.
     seq (of_res (stoi msk)) (\<lambda>m.
     seq (of_res (map_at row F_FLAGS)) (\<lambda>flags.
     seq (of_res (bind (map_at row F_ID) stoi)) (\<lambda>tid.
     seq (of_res (bind (map_at row F_COMPLETED) stoi)) (\<lambda>completed.
     seq (of_res (map_at row F_NOTIFY)) (\<lambda>notify.
     seq get_fs (\<lambda>fs.
     seq (of_res (ReadRunArgs fs env)) (\<lambda>runtime.
     seq (of_res (map_at apps m)) (\<lambda>name.
       ret \<lparr>tk_mask = m, tk_datetime = time, tk_file = True, tk_files = [], tk_env = env, tk_flags = flags,
            tk_id = tid, tk_completed = completed, tk_recurring = recurring, tk_notify = (notify = ''t''),
            tk_runtime = runtime, tk_filenames = Split filenames (CHR '' ''), tk_name = name\<rparr>))))))))))))))"

definition parseTasks ::
  "'db libs \<Rightarrow> (int \<rightharpoonup> string) \<Rightarrow> bool \<Rightarrow> result_map list \<Rightarrow> (('db, 'm) world_scheme, task list) act" where
  "parseTasks x apps original_time rows = collect (parseTasks_row x apps original_time) rows"


section \<open>Queries for tasks\<close>

definition INT32_MAX_TEXT :: string where
  "INT32_MAX_TEXT = ''2147483647''"

fun find_first_of :: "char list \<Rightarrow> string \<Rightarrow> nat option" where
  "find_first_of cs [] = None"
| "find_first_of cs (x # xs) = (if x \<in> set cs then Some 0 else map_option Suc (find_first_of cs xs))"

text \<open>\<open>find_first_of("TO")\<close> finds one of the two letters, not the word.\<close>

definition GetDateRange :: "string \<Rightarrow> (string \<times> string) res" where
  "GetDateRange s =
     bind (vec_front s) (\<lambda>c.
       if c = CHR ''0'' then Inr (''0'', INT32_MAX_TEXT)
       else
         let pos = pos_of (find_first_of ''TO'' s) in
         bind (substr s 0 (sz_sub (sz_sub (length s) pos) 2)) (\<lambda>a.
         bind (substr_from s ((pos + 1) mod 2 ^ 64)) (\<lambda>b. Inr (a, b))))"

definition fetchTasks_range ::
  "'db libs \<Rightarrow> (int \<rightharpoonup> string) \<Rightarrow> string \<Rightarrow> string \<Rightarrow> string \<Rightarrow> string \<Rightarrow> string \<Rightarrow> (('db, 'm) world_scheme, task list) act" where
  "fetchTasks_range x apps msk date_range count max_id order =
     seq (of_res (GetDateRange date_range)) (\<lambda>(from_time, to_time).
     with_filter [F_MASK, msk] (\<lambda>flt.
     seq (kdb_selectMultiFilter x ''schedule'' DEFAULT_TASK_FIELDS
            [CompBetweenFilter F_TIME from_time to_time, QueryFilterTerm flt]
            \<lparr>of_field = F_ID, of_order = order\<rparr> count)
       (parseTasks x apps False)))"

definition not_done :: filter_term where
  "not_done = MultiOptionFilter ''completed'' ''IN'' [Completed_STRINGS ! 0, Completed_STRINGS ! 2]"

definition fetchTasks :: "'db libs \<Rightarrow> (int \<rightharpoonup> string) \<Rightarrow> (('db, 'm) world_scheme, task list) act" where
  "fetchTasks x apps =
     seq (kdb_selectMultiFilter x ''schedule'' DEFAULT_TASK_FIELDS
            [CompFilter ''recurring'' ''0'' ''='', CompFilter UNIXTIME_NOW F_TIME ''>'', not_done]
            \<lparr>of_field = F_ID, of_order = ''ASC''\<rparr> []) (\<lambda>rows.
     seq (parseTasks x apps False rows) (\<lambda>tasks.
     collect (\<lambda>t. seq (getFiles x (task_id_string t) []) (\<lambda>files.
       ret (t\<lparr>tk_filenames := tk_filenames t @ map fm_name files\<rparr>))) tasks))"

text \<open>\<open>parseTasks\<close> does not look at its arguments \<open>parse_files\<close> and \<open>is_recurring\<close>.\<close>

definition recurring_fields :: "string list" where
  "recurring_fields = [F_ID, F_TIME, F_MASK, F_FLAGS, F_ENVFILE, F_COMPLETED, F_RECURRING, F_NOTIFY,
     ''recurring.time'', FILEQUERY]"

definition fetchRecurringTasks :: "'db libs \<Rightarrow> (int \<rightharpoonup> string) \<Rightarrow> (('db, 'm) world_scheme, task list) act" where
  "fetchRecurringTasks x apps =
     seq (kdb_selectJoin_variant x ''schedule'' recurring_fields
            [CompFilter F_RECURRING ''0'' ''<>'', CompFilter UNIXTIME_NOW ''recurring.time'' ''>'', not_done]
            [\<lparr>j_table = ''recurring'', j_field = ''sid'', j_join_table = ''schedule'', j_join_field = ''id'', j_type = INNER\<rparr>,
             file_join])
       (parseTasks x apps False)"

definition all_task_fields :: "string list" where
  "all_task_fields = [F_ID, F_TIME, F_MASK, F_FLAGS, F_ENVFILE, F_COMPLETED, F_RECURRING, F_NOTIFY, FILEQUERY]"

text \<open>The argument \<open>original_time\<close> is passed in the place of \<open>is_recurring\<close>.\<close>

definition fetchAllTasks :: "'db libs \<Rightarrow> (int \<rightharpoonup> string) \<Rightarrow> bool \<Rightarrow> (('db, 'm) world_scheme, task list) act" where
  "fetchAllTasks x apps original_time =
     seq (kdb_selectJoin x ''schedule'' all_task_fields [] [file_join]) (parseTasks x apps False)"

definition GetTask :: "'db libs \<Rightarrow> (int \<rightharpoonup> string) \<Rightarrow> string \<Rightarrow> (('db, 'm) world_scheme, task) act" where
  "GetTask x apps id1 = with_filter [''schedule.id'', id1] (\<lambda>flt.
     seq (kdb_selectJoin x ''schedule'' all_task_fields flt [file_join]) (parseTask x apps False))"

definition GetTask_int :: "'db libs \<Rightarrow> (int \<rightharpoonup> string) \<Rightarrow> int \<Rightarrow> (('db, 'm) world_scheme, task) act" where
  "GetTask_int x apps id1 = with_filter [''id'', int_to_string id1] (\<lambda>flt.
     seq (kdb_select x ''schedule'' [F_MASK, F_FLAGS, F_ENVFILE, F_TIME, F_COMPLETED, F_ID] flt) (\<lambda>rows.
     seq (parseTask x apps False rows) (\<lambda>t.
     seq (getFiles x (int_to_string id1) []) (\<lambda>files.
       ret (t\<lparr>tk_filenames := tk_filenames t @ map fm_name files\<rparr>)))))"

definition getFlags :: "'db libs \<Rightarrow> string \<Rightarrow> (('db, 'm) world_scheme, string list) act" where
  "getFlags x msk = with_filter [''mask'', msk] (\<lambda>flt.
     seq (kdb_select x ''schedule'' [F_FLAGS] flt) (\<lambda>rows.
       case rows of [] \<Rightarrow> ret []
       | row # _ \<Rightarrow> seq (of_res (map_at row F_FLAGS)) (\<lambda>f. ret (Split f (CHR '' '')))))"

section \<open>Updates\<close>

definition HasRecurring :: "'db libs \<Rightarrow> string \<Rightarrow> (('db, 'm) world_scheme, bool) act" where
  "HasRecurring x id1 = with_filter [''sid'', id1] (\<lambda>flt.
     seq (kdb_select x ''recurring'' [''id''] flt) (\<lambda>rows. ret (rows \<noteq> [])))"

definition updateStatus :: "'db libs \<Rightarrow> task \<Rightarrow> (('db, 'm) world_scheme, bool) act" where
  "updateStatus x t = with_filter [''id'', task_id_string t] (\<lambda>flt.
     seq (kdb_update x ''schedule'' [''completed''] [int_to_string (tk_completed t)] flt ''id'') (\<lambda>r. ret (r \<noteq> [])))"

definition update_task :: "'db libs \<Rightarrow> task \<Rightarrow> (('db, 'm) world_scheme, bool) act" where
  "update_task x t =
     seq (if IsRecurringTask t
          then seq (HasRecurring x (task_id_string t)) (\<lambda>has.
               seq (of_res (time_before (tk_datetime t) (tk_recurring t))) (\<lambda>time.
                 if \<not> has
                 then seq (kdb_insert x ''recurring'' [''sid'', ''time''] [task_id_string t, time]) (\<lambda>_. ret ())
                 else with_filter [''sid'', task_id_string t] (\<lambda>flt.
                      seq (kdb_update x ''recurring'' [''time''] [time] flt ''id'') (\<lambda>_. ret ()))))
          else ret ()) (\<lambda>_.
     with_filter [''id'', task_id_string t] (\<lambda>flt.
     seq (kdb_update x ''schedule''
            [''mask'', ''time'', ''flags'', ''completed'', ''recurring'', ''notify'', ''runtime'']
            [int_to_string (tk_mask t), tk_datetime t, tk_flags t, int_to_string (tk_completed t),
             int_to_string (tk_recurring t), bool_to_string (tk_notify t), tk_runtime t] flt ''id'')
       (\<lambda>r. ret (r \<noteq> []))))"

text \<open>The log line reads \<open>names[task->recurring]\<close>, an array of six.\<close>

definition updateRecurring :: "'db libs \<Rightarrow> task \<Rightarrow> (('db, 'm) world_scheme, bool) act" where
  "updateRecurring x t =
     seq (of_res (time_after (tk_datetime t) (tk_recurring t))) (\<lambda>time.
     seq (of_res (if 0 \<le> tk_recurring t then vec_nth Recurring_names (nat (tk_recurring t)) else Inl Undefined)) (\<lambda>_.
     with_filter [''sid'', task_id_string t] (\<lambda>flt.
     seq (kdb_update x ''recurring'' [''time''] [time] flt ''id'') (\<lambda>r. ret (r \<noteq> [])))))"

definition updateEnvfile :: "'db libs \<Rightarrow> string \<Rightarrow> string \<Rightarrow> (('db, 'm) world_scheme, bool) act" where
  "updateEnvfile x id1 env = with_filter [''id'', id1] (\<lambda>flt.
     seq (kdb_select x ''schedule'' [''envfile''] flt) (\<lambda>rows.
       if rows \<noteq> [] then ret False
       else seq (of_res (vec_front rows)) (\<lambda>row. seq (of_res (map_at row ''envfile'')) (\<lambda>p.
            seq get_fs (\<lambda>fs. seq (put_fs (SaveFile fs env p)) (\<lambda>_. ret True))))))"

definition as_int32 :: "int \<Rightarrow> int" where
  "as_int32 i = sint (word_of_int i :: 32 word)"

definition isKIQProcess :: "'db libs \<Rightarrow> int \<Rightarrow> (('db, 'm) world_scheme, bool) act" where
  "isKIQProcess x msk = seq (GetAppInfo x (as_int32 msk) []) (\<lambda>app. ret (app_is_kiq app))"

definition args_to_task :: "'db libs \<Rightarrow> string list \<Rightarrow> (('db, 'm) world_scheme, task) act" where
  "args_to_task x args =
     (if length args \<noteq> 11 then ret empty_task
      else seq (of_res (vec_at args 2)) (\<lambda>name. seq (getAppMask x name) (\<lambda>msk.
           if msk = NO_APP_MASK then ret empty_task
           else of_res (bind (vec_at args 1) (\<lambda>a1. bind (stoi a1) (\<lambda>tid. bind (vec_at args 3) (\<lambda>time.
                bind (vec_at args 4) (\<lambda>flags. bind (vec_at args 5) (\<lambda>a5. bind (stoi a5) (\<lambda>completed.
                bind (vec_at args 6) (\<lambda>a6. bind (stoi a6) (\<lambda>recurring. bind (vec_at args 7) (\<lambda>notify.
                bind (vec_at args 8) (\<lambda>runtime. bind (vec_at args 10) (\<lambda>env.
                Inr (empty_task\<lparr>tk_id := tid, tk_mask := as_int32 msk, tk_datetime := time, tk_flags := flags,
                  tk_completed := completed, tk_recurring := recurring, tk_notify := (notify = ''1''),
                  tk_runtime := StripSQuotes runtime, tk_env := env\<rparr>))))))))))))))))"

section \<open>Triggers of a task\<close>

definition processTriggers :: "'db libs \<Rightarrow> task \<Rightarrow> (('db, 'm) world_scheme, bool) act" where
  "processTriggers x t =
     seq (Trigger_process x t) (\<lambda>tasks.
     seq (collect (schedule x) tasks) (\<lambda>ids. ret ([] \<notin> set ids)))"

text \<open>
  \<open>insert\<close> keeps the first pair of a key. The map's pairs overlap: the pair of index \<open>i\<close> starts
  at \<open>i + 6\<close>, and so do the triples of the configuration.
\<close>

fun payload_pairs :: "string list \<Rightarrow> nat \<Rightarrow> nat \<Rightarrow> (string \<times> string) list \<Rightarrow> (string \<times> string) list res" where
  "payload_pairs payload i 0 m = Inr m"
| "payload_pairs payload i (Suc n) m =
     bind (vec_at payload (5 + i + 1)) (\<lambda>a. bind (vec_at payload (5 + i + 2)) (\<lambda>b.
       payload_pairs payload (Suc i) n (if map_of m a = None then m @ [(a, b)] else m)))"

definition payload_infos :: "string list \<Rightarrow> int \<Rightarrow> nat \<Rightarrow> param_config_info list res" where
  "payload_infos payload map_num n = mapM (\<lambda>i.
     let at = (\<lambda>k. let j = 5 + map_num + int i + k in if 0 \<le> j then vec_at payload (nat j) else Inl OutOfRange)
     in bind (at 1) (\<lambda>a. bind (at 2) (\<lambda>b. bind (at 3) (\<lambda>c.
       Inr \<lparr>pc_token_name = a, pc_section = b, pc_name = c\<rparr>)))) [0..<n]"

definition addTrigger :: "'db libs \<Rightarrow> string list \<Rightarrow> (('db, 'm) world_scheme, bool) act" where
  "addTrigger x payload =
     (if payload = [] then ret False
      else
        seq (of_res (bind (vec_at payload 1) stoi)) (\<lambda>msk.
        seq (of_res (bind (vec_at payload 2) stoi)) (\<lambda>trigger_mask.
        seq (of_res (bind (vec_at payload 5) stoi)) (\<lambda>map_num.
        seq (of_res (bind (vec_at payload 6) stoi)) (\<lambda>config_num.
        seq (GetAppInfo x msk []) (\<lambda>app.
        seq (GetAppInfo x trigger_mask []) (\<lambda>trigger_app.
        if \<not> (app_is_valid app \<and> app_is_valid trigger_app) then ret False
        else
          seq (of_res (vec_at payload 3)) (\<lambda>token_name.
          seq (of_res (vec_at payload 4)) (\<lambda>token_value.
          seq (of_res (payload_pairs payload 0 (nat map_num) [])) (\<lambda>m.
          seq (of_res (payload_infos payload map_num (nat config_num))) (\<lambda>infos.
            Trigger_add x (new_trigger_config\<lparr>tc_token_name := token_name, tc_token_value := token_value,
              tc_map := m, tc_infos := infos\<rparr>))))))))))))"


section \<open>A database that logs its statements\<close>

text \<open>
  What an operation sends is read off a database whose state is the list of the statements it has
  been given.
\<close>

definition logs :: "string list libs \<Rightarrow> (string \<Rightarrow> db_row list res) \<Rightarrow> bool" where
  "logs x answer \<longleftrightarrow> x_exec x = (\<lambda>s db. (answer s, db @ [s]))"

lemma pq_exec_logs: "logs x answer \<Longrightarrow> pq_exec x s w = (answer s, w\<lparr>w_db := w_db w @ [s]\<rparr>)"
  by (simp add: pq_exec_def logs_def)

definition sent :: "(string \<Rightarrow> bool) \<Rightarrow> (string list, 'm) world_scheme \<Rightarrow> (string list, 'm) world_scheme \<Rightarrow> bool" where
  "sent P w w' \<longleftrightarrow> (\<exists>ss. w_db w' = w_db w @ ss \<and> (\<forall>s \<in> set ss. P s))"

lemma reflp_sent [simp]: "reflp (sent P)"
  by (rule reflpI) (simp add: sent_def)

lemma transp_sent [simp]: "transp (sent P)"
proof (rule transpI)
  fix a b c assume "sent P a b" "sent P b c"
  then obtain s t where "w_db b = w_db a @ s" "w_db c = w_db b @ t" "\<forall>s \<in> set s. P s" "\<forall>s \<in> set t. P s"
    by (auto simp: sent_def)
  then show "sent P a c" unfolding sent_def by (intro exI [of _ "s @ t"]) auto
qed

lemma keeps_sent_exec: "logs x answer \<Longrightarrow> P s \<Longrightarrow> keeps (sent P) (pq_exec x s)"
  by (auto simp: keeps_def pq_exec_logs sent_def)

definition is_select :: "string \<Rightarrow> bool" where
  "is_select s \<longleftrightarrow> starts_with ''SELECT '' s"

lemma is_select_head: "is_select (select_head flds t @ s)"
  by (simp add: is_select_def select_head_def)

lemma is_select_DatabaseQuery: "is_select (select_DatabaseQuery q)"
  using is_select_head [of "dq_fields q" "dq_table q" "[]"]
  by (auto simp: select_DatabaseQuery_def is_select_head split: list.splits)

lemma seq_of_res_Inr [simp]: "seq (of_res (Inr a)) f = f a"
  by (simp add: fun_eq_iff)

lemma keeps_select_sent: "logs x answer \<Longrightarrow> keeps (sent is_select) (kdb_select x t f flt)"
  unfolding kdb_select_def kdb_try_def query_rows_def seq_of_res_Inr
  by (intro keeps_handle keeps_seq keeps_pure keeps_sent_exec [where P = is_select] is_select_DatabaseQuery)
    simp_all

lemma keeps_GetAppInfo_sent: "logs x answer \<Longrightarrow> keeps (sent is_select) (GetAppInfo x m n)"
  unfolding GetAppInfo_def
  by (intro keeps_if keeps_seq keeps_collect keeps_pure keeps_select_sent) simp_all

section \<open>One row at a time\<close>

definition insert_text :: "string \<Rightarrow> string list \<Rightarrow> string list \<Rightarrow> string" where
  "insert_text table flds vals =
     ''INSERT INTO '' @ table @ ''('' @ fields_string flds @ '') VALUES ('' @ row_text vals @ '')''"

lemma values_string_row:
  "length vals = length flds \<Longrightarrow> flds \<noteq> [] \<Longrightarrow>
   values_string vals (length flds) = Inr (''VALUES ('' @ row_text vals @ '')'')"
  using values_string_rows [of "[vals]" "length flds"] by (simp add: rows_text_Cons)

lemma kdb_insert_logs:
  assumes "logs x (\<lambda>_. Inr [[Some id1]])" and "length vals = length flds" and "flds \<noteq> []"
  shows "kdb_insert x table flds vals w = (Inr True, w\<lparr>w_db := w_db w @ [insert_text table flds vals]\<rparr>)"
  using assms
  by (simp add: kdb_insert_def kdb_try_def handle_def seq_def insert_statement_def values_string_row
      pq_exec_logs insert_text_def)

lemma kdb_insert_returning_logs:
  assumes "logs x (\<lambda>_. Inr [[Some id1]])" and "length vals = length flds" and "flds \<noteq> []" and "r \<noteq> []"
  shows "kdb_insert_returning x table flds vals r w =
    (Inr id1, w\<lparr>w_db := w_db w @ [insert_text table flds vals @ '' RETURNING '' @ r]\<rparr>)"
  using assms
  by (simp add: kdb_insert_returning_def kdb_try_def handle_def seq_def insert_statement_returning_def
      values_string_row pq_exec_logs insert_text_def query_value_def cell_as_string_def)

definition file_text :: "string \<Rightarrow> file_info \<Rightarrow> string" where
  "file_text id1 f = insert_text ''file'' [''name'', ''sid'', ''type''] [fst f, id1, GetFileType (fst f)]"

lemma insert_files_logs:
  assumes "logs x (\<lambda>_. Inr [[Some id1]])"
  shows "insert_files x id1 t w = (Inr (), w\<lparr>w_db := w_db w @ map (file_text id1) (tk_files t)\<rparr>)"
proof -
  have "each (\<lambda>file. seq (kdb_insert x ''file'' [''name'', ''sid'', ''type''] [fst file, id1, GetFileType (fst file)])
       (\<lambda>_. ret ())) fs w = (Inr (), w\<lparr>w_db := w_db w @ map (file_text id1) fs\<rparr>)" for fs w
    by (induction fs arbitrary: w) (simp_all add: seq_def kdb_insert_logs [OF assms] file_text_def)
  then show ?thesis by (simp add: insert_files_def)
qed

section \<open>Properties\<close>

text \<open>
  C5: storing a valid task sends one statement for the task, one for each of its files under the
  id the database gave, and one for its recurrence exactly if it recurs, with the time one interval
  before the task's; and returns that id.
\<close>

theorem schedule_sends:
  assumes "logs x (\<lambda>_. Inr [[Some id1]])" and "id1 \<noteq> []"
    and "task_validate t" and "stoi (tk_datetime t) = Inr i"
  shows "schedule x t w = (Inr id1, w\<lparr>w_db := w_db w @
    [insert_text ''schedule'' [''time'', ''mask'', ''flags'', ''envfile'', ''recurring'', ''notify'']
       (schedule_values t) @ '' RETURNING id''] @
    map (file_text id1) (tk_files t) @
    (if tk_recurring t = 0 then []
     else [insert_text ''recurring'' [''sid'', ''time''] [id1, nat_to_string
             (unat (word_of_int i - GetIntervalSeconds (word_of_int (tk_recurring t))))]])\<rparr>)"
  using assms(2-4)
  by (simp add: schedule_def catch_all_def handle_def seq_def kdb_insert_returning_logs [OF assms(1)]
      schedule_values_def insert_files_logs [OF assms(1)] insert_recurring_def time_before_def
      kdb_insert_logs [OF assms(1)])

definition log_libs :: "string list libs" where
  "log_libs = \<lparr>x_exec = (\<lambda>s db. (Inr [[Some ''7'']], db @ [s])), x_uuid = (\<lambda>n. ''u'' @ nat_to_string n),
     x_conf = (\<lambda>_ _. []), x_jwrite = (\<lambda>_. []), x_jparse = (\<lambda>_. None), x_today = (\<lambda>t _. t),
     x_run = (\<lambda>_ _. ([], False))\<rparr>"

definition log_world :: "string list world" where
  "log_world = \<lparr>w_db = [], w_fs = sample_fs, w_now = 1600000000, w_uuids = 0, w_events = [], w_mails = []\<rparr>"

definition hourly_task :: task where
  "hourly_task = empty_task\<lparr>tk_mask := 16, tk_datetime := ''1600000000'', tk_flags := ''--user=$USER'',
     tk_env := ''data/u1/v.env'', tk_recurring := 1, tk_files := [(''a.b.JPG'', []), (''mp4'', [])]\<rparr>"

lemma logs_log_libs: "logs log_libs (\<lambda>_. Inr [[Some ''7'']])"
  by (simp add: logs_def log_libs_def)

theorem schedule_sends_witness:
  "schedule log_libs hourly_task log_world = (Inr ''7'', log_world\<lparr>w_db := w_db log_world @
    [insert_text ''schedule'' [''time'', ''mask'', ''flags'', ''envfile'', ''recurring'', ''notify'']
       (schedule_values hourly_task) @ '' RETURNING id''] @
    map (file_text ''7'') (tk_files hourly_task) @
    (if tk_recurring hourly_task = 0 then []
     else [insert_text ''recurring'' [''sid'', ''time''] [''7'', nat_to_string
             (unat (word_of_int 1600000000 - GetIntervalSeconds (word_of_int (tk_recurring hourly_task))))]])\<rparr>)"
proof (rule schedule_sends [OF logs_log_libs])
  show "stoi (tk_datetime hourly_task) = Inr 1600000000"
    by (simp add: hourly_task_def empty_task_def stoi_def stoi_unsigned_def is_space_def is_digit_def
        digit_val_def int32_min_def int32_max_def Let_def)
qed (simp_all add: hourly_task_def empty_task_def task_validate_def)

text \<open>
  \<open>schedule\<close> does nothing to a task that does not validate; for one that does, no exception of
  the database or of the conversions leaves it.
\<close>

theorem schedule_catches:
  "(\<not> task_validate t \<longrightarrow> snd (schedule x t w) = w) \<and>
   (task_validate t \<longrightarrow> (\<forall>e. fst (schedule x t w) = Inl e \<longrightarrow> \<not> is_exception e))"
  by (auto simp: schedule_def catch_all_def handle_def seq_def split: prod.splits sum.splits if_splits)

theorem schedule_catches_witness: "snd (schedule log_libs empty_task log_world) = log_world"
  using schedule_catches [of empty_task log_libs log_world] by (simp add: task_validate_def empty_task_def)


section \<open>The columns a query gives\<close>

text \<open>The rows of a query have its fields and no other.\<close>

definition rows_within :: "string list \<Rightarrow> result_map list \<Rightarrow> bool" where
  "rows_within flds rows \<longleftrightarrow> (\<forall>r \<in> set rows. dom r \<subseteq> set flds)"

lemma row_map_dom: "row_map flds row = Inr r \<Longrightarrow> dom r \<subseteq> set flds"
  by (auto simp: row_map_def split: if_splits dest!: map_of_SomeD dest: set_zip_leftD)

lemma mapM_row_map: "mapM (row_map flds) rows = Inr rs \<Longrightarrow> rows_within flds rs"
proof (induction rows arbitrary: rs)
  case (Cons row rows)
  then obtain r rs' where "row_map flds row = Inr r" "mapM (row_map flds) rows = Inr rs'" "rs = r # rs'"
    by (auto simp: bind_def split: sum.splits)
  with Cons.IH [of rs'] row_map_dom [of flds row r] show ?case
    by (simp add: rows_within_def)
qed (simp add: rows_within_def)

lemma yields_query_rows: "yields (rows_within flds) (query_rows x flds stmt)"
  unfolding query_rows_def
  by (intro yields_seq) (auto simp: yields_def dest: mapM_row_map)

lemma yields_kdb_try: "yields P m \<Longrightarrow> yields P (kdb_try m)"
  by (auto simp: yields_def kdb_try_def handle_def split: prod.splits sum.splits)

lemma yields_selects:
  "yields (rows_within flds) (kdb_select x t flds flt)"
  "yields (rows_within flds) (kdb_selectMultiFilter x t flds terms order limit)"
  "yields (rows_within flds) (kdb_selectJoin x t flds flt js)"
  by (simp_all add: kdb_select_def kdb_selectMultiFilter_def kdb_selectJoin_def yields_kdb_try yields_query_rows)

lemma FILEQUERY_not_default: "FILEQUERY \<notin> set DEFAULT_TASK_FIELDS"
  by (simp add: FILEQUERY_def DEFAULT_TASK_FIELDS_def field_names)

lemma parseTasks_row_needs_files:
  "row FILEQUERY = None \<Longrightarrow> parseTasks_row x apps o1 row w \<noteq> (Inr t, w')"
  by (auto simp: parseTasks_row_def seq_def map_at_def split: prod.splits sum.splits)

lemma parseTasks_default_fields:
  assumes "rows_within DEFAULT_TASK_FIELDS rows" and "parseTasks x apps o1 rows w = (Inr ts, w')"
  shows "ts = []"
proof (cases rows)
  case (Cons row rows')
  then have "row FILEQUERY = None"
    using assms(1) FILEQUERY_not_default by (auto simp: rows_within_def)
  with Cons assms(2) parseTasks_row_needs_files [of row x apps o1 w] show ?thesis
    by (auto simp: parseTasks_def seq_def split: prod.splits sum.splits)
qed (use assms in \<open>simp add: parseTasks_def\<close>)

lemma seq_InrD:
  assumes "seq m f w = (Inr b, w')"
  obtains a w1 where "m w = (Inr a, w1)" and "f a w1 = (Inr b, w')"
  using assms by (auto simp: seq_def split: prod.splits sum.splits)

lemma default_query_returns_none:
  assumes "kdb_selectMultiFilter x t DEFAULT_TASK_FIELDS terms order limit w = (Inr rows, w1)"
    and "parseTasks x apps o1 rows w1 = (Inr ts, w')"
  shows "ts = []"
proof -
  have "rows_within DEFAULT_TASK_FIELDS rows"
    using assms(1) yields_selects(2) [of DEFAULT_TASK_FIELDS x t terms order limit] unfolding yields_def by blast
  then show ?thesis using assms(2) by (rule parseTasks_default_fields)
qed

text \<open>
  Neither query of pending tasks ever returns a task: their statements do not ask for the
  column of the files that \<open>parseTasks\<close> reads in every row, so with a row to read it throws, and
  what is returned is empty.
\<close>

theorem fetch_never_returns_tasks:
  assumes "fetchTasks x apps w = (Inr ts, w') \<or>
    fetchTasks_range x apps msk date_range count max_id order w = (Inr ts, w')"
  shows "ts = []"
  using assms
proof
  assume "fetchTasks x apps w = (Inr ts, w')"
  then obtain rows w1 tasks w2 where
    r: "kdb_selectMultiFilter x ''schedule'' DEFAULT_TASK_FIELDS
            [CompFilter ''recurring'' ''0'' ''='', CompFilter UNIXTIME_NOW F_TIME ''>'', not_done]
            \<lparr>of_field = F_ID, of_order = ''ASC''\<rparr> [] w = (Inr rows, w1)"
    and p: "parseTasks x apps False rows w1 = (Inr tasks, w2)"
    and c: "collect (\<lambda>t. seq (getFiles x (task_id_string t) []) (\<lambda>files.
       ret (t\<lparr>tk_filenames := tk_filenames t @ map fm_name files\<rparr>))) tasks w2 = (Inr ts, w')"
    unfolding fetchTasks_def by (elim seq_InrD)
  have "tasks = []"
    by (rule default_query_returns_none [OF r p])
  with c show "ts = []" by simp
next
  assume "fetchTasks_range x apps msk date_range count max_id order w = (Inr ts, w')"
  then show "ts = []"
    by (auto simp: fetchTasks_range_def with_filter_def elim!: seq_InrD dest: default_query_returns_none)
qed

theorem fetch_never_returns_tasks_witness:
  "fetchTasks idle_libs Map.empty trigger_world = (Inr [], trigger_world) \<and> ([] :: task list) = []"
proof -
  have run: "fetchTasks idle_libs Map.empty trigger_world = (Inr [], trigger_world)"
    by (simp add: fetchTasks_def kdb_selectMultiFilter_def kdb_try_def handle_def query_rows_def seq_def
        pq_exec_def parseTasks_def select_MultiVariant_def variant_filter_statement_def not_done_def)
  then show ?thesis
    using fetch_never_returns_tasks [of idle_libs Map.empty trigger_world "[]" trigger_world] by blast
qed

text \<open>
  \<open>updateEnvfile\<close> never changes a file and never answers \<open>true\<close>: its test is turned round, so a
  task that is there is refused, and one that is not is read from an empty answer.
\<close>

theorem updateEnvfile_never_writes:
  "w_fs (snd (updateEnvfile x id1 env w)) = w_fs w \<and> fst (updateEnvfile x id1 env w) \<noteq> Inr True"
proof -
  have fs: "w_fs w1 = w_fs w" if "kdb_select x t f flt w = (r, w1)" for t f flt r w1 and w :: "('a, 'b) world_scheme"
    using keepsD [OF keeps_kdb_ops(1) that] by (auto simp: only_db_def)
  show ?thesis
    by (auto simp: updateEnvfile_def seq_def split: prod.splits sum.splits dest: fs)
qed

lemma find_first_of_skip: "set s \<inter> set cs = {} \<Longrightarrow> c \<in> set cs \<Longrightarrow> find_first_of cs (s @ c # t) = Some (length s)"
  by (induction s) auto

text \<open>
  A date range is cut at the first letter \<open>T\<close> or \<open>O\<close>, not at the word: its end begins with the
  letter \<open>O\<close>, and its start is as long as its end.
\<close>

theorem date_range_loses_shape:
  assumes "a \<noteq> []" and "hd a \<noteq> CHR ''0''" and "\<forall>c \<in> set a. is_digit c" and "length a < 2 ^ 64 - 2"
  shows "GetDateRange (a @ ''TO'' @ b) = Inr (take (length b) (a @ ''TO'' @ b), CHR ''O'' # b)"
proof -
  have "set a \<inter> set ''TO'' = {}"
    using assms(3) by (auto simp: is_digit_def)
  then have "find_first_of ''TO'' (a @ CHR ''T'' # CHR ''O'' # b) = Some (length a)"
    by (rule find_first_of_skip) simp
  moreover have "vec_front (a @ ''TO'' @ b) = Inr (hd a)"
    using assms(1) by (cases a) simp_all
  ultimately show ?thesis
    using assms(2,4) by (simp add: GetDateRange_def)
qed

theorem date_range_loses_shape_witness:
  "GetDateRange (''99'' @ ''TO'' @ ''1600'') = Inr (take (length ''1600'') (''99'' @ ''TO'' @ ''1600''), CHR ''O'' # ''1600'')"
  by (rule date_range_loses_shape) (simp_all add: is_digit_def)

lemma keeps_addTrigger_sent:
  assumes "logs x answer"
  shows "keeps (sent is_select) (addTrigger x payload)"
proof -
  have nr: "Trigger_add x (new_trigger_config\<lparr>tc_token_name := n, tc_token_value := v, tc_map := m, tc_infos := is1\<rparr>) = ret True"
    for n v m is1
    by (simp add: Trigger_add_def trigger_ready_def new_trigger_config_def empty_app_def)
  show ?thesis
    unfolding addTrigger_def nr
    by (intro keeps_if keeps_seq keeps_pure keeps_GetAppInfo_sent [OF assms]) simp_all
qed

text \<open>
  A trigger that a client sends is never stored: \<open>addTrigger\<close> only reads the database, because
  it leaves the application of the trigger empty, and such a trigger is not ready.
\<close>

theorem client_trigger_is_never_stored:
  assumes "logs x answer"
  shows "\<exists>ss. w_db (snd (addTrigger x payload w)) = w_db w @ ss \<and> (\<forall>s \<in> set ss. is_select s)"
  using keeps_addTrigger_sent [OF assms, of payload] unfolding keeps_def sent_def by blast

theorem client_trigger_is_never_stored_witness:
  "\<exists>ss. w_db (snd (addTrigger log_libs (replicate 9 ''1'') log_world)) = w_db log_world @ ss \<and>
     (\<forall>s \<in> set ss. is_select s)"
  by (rule client_trigger_is_never_stored [OF logs_log_libs])

lemma parseTask_row_needs_recurring:
  "row F_RECURRING = None \<Longrightarrow> parseTask_row x apps f t row w \<noteq> (Inr t', w')"
  by (auto simp: parseTask_row_def seq_def map_at_def split: prod.splits sum.splits)

text \<open>
  A task that is asked for by its number is never found: the query leaves out a column that
  \<open>parseTask\<close> reads, so what is returned is the empty task, with the names of the number's files.
\<close>

theorem task_by_number_is_empty:
  assumes "GetTask_int x apps n w = (Inr t, w')"
  shows "\<exists>names. t = empty_task\<lparr>tk_filenames := names\<rparr>"
proof -
  let ?f = "[F_MASK, F_FLAGS, F_ENVFILE, F_TIME, F_COMPLETED, F_ID]"
  let ?flt = "[(''id'', DoubleSingleQuotes (int_to_string n))]"
  obtain rows w1 where k: "kdb_select x ''schedule'' ?f ?flt w = (Inr rows, w1)"
    and r: "seq (parseTask x apps False rows) (\<lambda>t. seq (getFiles x (int_to_string n) []) (\<lambda>files.
       ret (t\<lparr>tk_filenames := tk_filenames t @ map fm_name files\<rparr>))) w1 = (Inr t, w')"
    using assms unfolding GetTask_int_def with_filter_one by (auto elim: seq_InrD)
  from r obtain t1 w2 where p: "parseTask x apps False rows w1 = (Inr t1, w2)"
    and g: "seq (getFiles x (int_to_string n) []) (\<lambda>files. ret (t1\<lparr>tk_filenames := tk_filenames t1 @ map fm_name files\<rparr>)) w2
      = (Inr t, w')"
    by (rule seq_InrD)
  from g obtain files :: "file_meta list" where t: "t1\<lparr>tk_filenames := tk_filenames t1 @ map fm_name files\<rparr> = t"
    by (rule seq_InrD) auto
  have "rows = []"
  proof (cases rows)
    case (Cons row rows')
    have "rows_within ?f rows"
      using k yields_selects(1) [of ?f x "''schedule''" ?flt] unfolding yields_def by blast
    then have "row F_RECURRING = None"
      using Cons by (auto simp: rows_within_def field_names)
    with p Cons parseTask_row_needs_recurring [of row x apps F_TIME empty_task w1] show ?thesis
      by (auto simp: parseTask_def elim!: seq_InrD)
  qed
  then show ?thesis using p t by (auto simp: parseTask_def empty_task_def)
qed

theorem task_by_number_is_empty_witness:
  "\<exists>t w'. GetTask_int idle_libs Map.empty 5 trigger_world = (Inr t, w') \<and> (\<exists>names. t = empty_task\<lparr>tk_filenames := names\<rparr>)"
proof -
  have "\<exists>t w'. GetTask_int idle_libs Map.empty 5 trigger_world = (Inr t, w')"
    by (simp add: GetTask_int_def seq_def parseTask_def getFiles_def)
  then show ?thesis using task_by_number_is_empty by blast
qed

end
