(* ===== verification/Executor.thy ===== *)
theory Executor
  imports SchedTasks
begin

text \<open>
  Running a task: \<open>executor/executor.cpp\<close> and the class \<open>Environment\<close> of \<open>executor/environment.hpp\<close>.
  The command line of a process is made from the task's environment file, its flags and its files;
  the process itself is the argument \<open>x_run\<close>, and the callback that its end is reported to is an
  argument of the operations, an operation on the world.

  Shown: after a process that ended without error exactly one statement is sent, which sets the
  task's state; after one with an error, none; a token's flag becomes the option of the token with
  the token's value in quotes.
\<close>

record execution_state =
  ex_path :: string
  ex_argv :: "string list"

type_synonym ('db, 'm) tracked_callback =
  "string \<Rightarrow> int \<Rightarrow> string \<Rightarrow> int \<Rightarrow> bool \<Rightarrow> (('db, 'm) world_scheme, unit) act"

definition IMMEDIATE_REQUEST :: int where "IMMEDIATE_REQUEST = 0"
definition SCHEDULED_REQUEST :: int where "SCHEDULED_REQUEST = 1"
definition RECURRING_REQUEST :: int where "RECURRING_REQUEST = 2"

section \<open>The command line\<close>

definition runtime_args :: "task \<Rightarrow> string \<Rightarrow> string list res" where
  "runtime_args t envfile =
     bind (parseExecArguments envfile) (\<lambda>args.
     bind (mapM (\<lambda>flag. parseNamedArgument flag envfile) (exec_flags_to_vector (tk_flags t))) (\<lambda>named.
       Inr (map SanitizeArg (Split args (CHR '' '')) @ filter (\<lambda>a. a \<noteq> []) named @
            map parse_filename (tk_filenames t))))"

definition prepareRuntime :: "'db libs \<Rightarrow> task \<Rightarrow> (('db, 'm) world_scheme, bool \<times> execution_state) act" where
  "prepareRuntime x t =
     (if \<not> task_validate t then ret (False, \<lparr>ex_path = [], ex_argv = []\<rparr>)
      else
        seq get_fs (\<lambda>fs.
        let envfile = ReadEnvFile fs (tk_env t) True in
        seq (get_app_info x (tk_mask t)) (\<lambda>app.
        seq (of_res (runtime_args t envfile)) (\<lambda>argv.
          ret (argv \<noteq> [], \<lparr>ex_path = app_path app, ex_argv = argv\<rparr>)))))"

section \<open>Running\<close>

text \<open>\<open>path[0]\<close> of an empty path is the zero behind the string it is a view of.\<close>

definition request :: "'db libs \<Rightarrow> (string \<Rightarrow> int \<Rightarrow> int \<Rightarrow> bool \<Rightarrow> (('db, 'm) world_scheme, unit) act) \<Rightarrow>
    string \<Rightarrow> int \<Rightarrow> int \<Rightarrow> string list \<Rightarrow> (('db, 'm) world_scheme, unit) act" where
  "request x callback path msk client_fd argv =
     (if c_str path = [] then ret ()
      else let (out, err) = x_run x path argv in
           if out \<noteq> [] then callback out msk client_fd err else ret ())"

definition request_tracked :: "'db libs \<Rightarrow> ('db, 'm) tracked_callback \<Rightarrow>
    string \<Rightarrow> int \<Rightarrow> int \<Rightarrow> string \<Rightarrow> string list \<Rightarrow> int \<Rightarrow> (('db, 'm) world_scheme, unit) act" where
  "request_tracked x callback path msk client_fd id1 argv type =
     (if c_str path = [] then ret ()
      else let (out, err) = x_run x path argv in
        seq (callback out msk id1 client_fd err) (\<lambda>_.
        if \<not> err \<and> type \<noteq> IMMEDIATE_REQUEST
        then
          let completed = (if type = RECURRING_REQUEST then Completed_STRINGS ! 0 else Completed_STRINGS ! 1)
          in with_filter [''id'', id1] (\<lambda>flt.
             seq (kdb_update x ''schedule'' [''completed''] [completed] flt ''id'') (\<lambda>_. ret ()))
        else ret ()))"

definition executeTask :: "'db libs \<Rightarrow> ('db, 'm) tracked_callback \<Rightarrow> int \<Rightarrow> task \<Rightarrow> (('db, 'm) world_scheme, unit) act" where
  "executeTask x callback client_fd t =
     seq (prepareRuntime x t) (\<lambda>(ok, st).
       if ok then request_tracked x callback (ex_path st) (tk_mask t) client_fd (task_id_string t) (ex_argv st)
                    (if tk_recurring t \<noteq> 0 then RECURRING_REQUEST else SCHEDULED_REQUEST)
       else ret ())"

definition Completed_NAMES :: "string list" where
  "Completed_NAMES = [''Scheduled'', ''Success'', ''Failed'', ''Retry Failed'']"

text \<open>The log line reads \<open>NAMES[status]\<close> after the row is written.\<close>

definition saveResult :: "'db libs \<Rightarrow> int \<Rightarrow> int \<Rightarrow> int \<Rightarrow> (('db, 'm) world_scheme, bool) act" where
  "saveResult x msk status time =
     catch_all
       (seq (GetAppInfo x (as_int32 msk) []) (\<lambda>app_info.
          if app_id app_info = [] then ret False
          else
            seq (kdb_insert_returning x ''process_result'' [''aid'', ''time'', ''status'']
                   [app_id app_info, int_to_string time, int_to_string status] ''id'') (\<lambda>id1.
            if id1 = [] then ret False
            else seq (of_res (if 0 \<le> status then vec_nth Completed_NAMES (nat status) else Inl Undefined)) (\<lambda>_.
                 ret True))))
       (ret False)"

section \<open>Properties\<close>

definition set_completed_text :: "string \<Rightarrow> string \<Rightarrow> string" where
  "set_completed_text value id1 =
     ''UPDATE schedule SET completed='' @ squote # value @ squote # '' WHERE id='' @
       squote # DoubleSingleQuotes id1 @ squote # '' RETURNING id''"

lemma kdb_set_completed_logs:
  assumes "logs x answer" and "id1 \<noteq> []"
  shows "\<exists>r. seq (kdb_update x ''schedule'' [''completed''] [v] [(''id'', DoubleSingleQuotes id1)] ''id'') (\<lambda>_. ret ()) w =
    (r, w\<lparr>w_db := w_db w @ [set_completed_text v id1]\<rparr>)"
proof -
  have u: "update_statement \<lparr>ur_table = ''schedule'', ur_fields = [''completed''], ur_values = [v],
      ur_filter = [(''id'', DoubleSingleQuotes id1)], ur_returning = ''id''\<rparr> ''id'' False = Inr (set_completed_text v id1)"
    by (simp add: update_statement_def set_clause_def filter_pairs_def set_completed_text_def)
  show ?thesis
    unfolding kdb_update_def kdb_try_def query_value_def u
    using pq_exec_logs [OF assms(1), of "set_completed_text v id1" w]
    by (auto simp: seq_def handle_def split: sum.splits list.splits)
qed

text \<open>
  Once a process has been reported, its task's state is set by exactly one statement if it ended
  without error and was not run on request: to scheduled again for a recurring task, to success
  otherwise. In every other case nothing is sent to the database after the report.
\<close>

theorem request_sets_state:
  fixes w :: "(string list, 'm) world_scheme"
  assumes "logs x answer" and "c_str path \<noteq> []" and "id1 \<noteq> []"
    and "callback (fst (x_run x path argv)) msk id1 fd (snd (x_run x path argv)) w = (Inr (), w1)"
  shows "w_db (snd (request_tracked x callback path msk fd id1 argv type w)) =
    w_db w1 @ (if snd (x_run x path argv) \<or> type = IMMEDIATE_REQUEST then []
               else [set_completed_text (if type = RECURRING_REQUEST then ''0'' else ''1'') id1])"
proof -
  obtain out err where run: "x_run x path argv = (out, err)" by force
  have cb: "callback out msk id1 fd err w = (Inr (), w1)" using assms(4) by (simp add: run)
  show ?thesis
  proof (cases "\<not> err \<and> type \<noteq> IMMEDIATE_REQUEST")
    case True
    let ?v = "if type = RECURRING_REQUEST then Completed_STRINGS ! 0 else Completed_STRINGS ! 1"
    obtain r where "seq (kdb_update x ''schedule'' [''completed''] [?v] [(''id'', DoubleSingleQuotes id1)] ''id'') (\<lambda>_. ret ()) w1 =
        (r, w1\<lparr>w_db := w_db w1 @ [set_completed_text ?v id1]\<rparr>)"
      using kdb_set_completed_logs [OF assms(1,3)] by blast
    then show ?thesis
      using True assms(2,3) cb by (auto simp: request_tracked_def run Let_def Completed_STRINGS_def)
  next
    case False
    then show ?thesis
      using assms(2) cb by (auto simp: request_tracked_def run)
  qed
qed

theorem request_sets_state_witness:
  "w_db (snd (request_tracked log_libs (\<lambda>_ _ _ _ _. ret ()) ''/bin/true'' 16 3 ''7'' [] SCHEDULED_REQUEST log_world)) =
    w_db log_world @ (if snd (x_run log_libs ''/bin/true'' []) \<or> SCHEDULED_REQUEST = IMMEDIATE_REQUEST then []
               else [set_completed_text (if SCHEDULED_REQUEST = RECURRING_REQUEST then ''0'' else ''1'') ''7''])"
  by (rule request_sets_state [OF logs_log_libs]) (simp_all add: c_str_def)

text \<open>
  A flag's token becomes the token's option with its value in quotes, as the environment file
  holds it, where the first occurrence of the token's name in the file is its own line.
\<close>

theorem named_argument_is_quoted_value:
  assumes "find_str k (pre @ env_line (k, v) @ post) = Some (length pre)" and "PARAM_KEY_MAP k = Some opt"
    and "dquote \<notin> set k" and "unit_sep \<notin> set k" and "unit_sep \<notin> set v"
  shows "parseNamedArgument k (pre @ env_line (k, v) @ post) = Inr (opt @ ''='' @ dquote # v @ [dquote])"
proof -
  let ?p = "k @ CHR ''='' # dquote # v @ dquote # unit_sep # post"
  have p: "env_line (k, v) @ post = ?p" by (simp add: env_line_def)
  have q: "find_char dquote ?p = Some (length k + 1)" and u: "find_char unit_sep ?p = Some (length k + length v + 3)"
    using assms(3-5) by simp_all
  have "substr ?p (length k + 1) (sz_sub (sz_sub (length k + length v + 3) (length k)) 1) = Inr (dquote # v @ [dquote])"
    by simp
  then show ?thesis
    using assms(1,2) q u by (simp add: parseNamedArgument_def p)
qed

theorem named_argument_is_quoted_value_witness:
  "parseNamedArgument ''USER'' (''HEADER=1 '' @ env_line (''USER'', ''bob'') @ []) =
    Inr (''--user'' @ ''='' @ dquote # ''bob'' @ [dquote])"
  by (rule named_argument_is_quoted_value) (simp_all add: env_line_def PARAM_KEY_MAP_def)

end
