(* ===== verification/SchedIpc.thy ===== *)
theory SchedIpc
  imports SchedTasks Platform PostExec
begin

text \<open>
  The scheduler's messages to other processes and its lists of dependent tasks, the second half of
  \<open>system/process/scheduler.cpp\<close>: \<open>IPCMessage\<close>, the rows of the table \<open>ipc\<close> that are due, the
  requests that were sent and wait for an answer, the queue of events held back until the lists of
  tasks are resolved, and the posts of platforms.

  The state extends that of the platforms. The tables of the message types and commands are in the
  submodule kproto, whose sources are not here; they are the argument \<open>kproto\<close>. The events that go
  to the system's event handler (\<open>evt::instance()\<close>) are a log.

  Shown: nothing is sent while an answer is missing, to a platform or otherwise; an answer completes
  one request; a message is recorded under the id its receiver answers with; a second message under
  the same id is not waited for; resolving sends the queue in order and empties the lists; a task
  that is looked up by number is never found.
\<close>

section \<open>Parameters and state\<close>

record kproto =
  kp_values :: "string \<rightharpoonup> int"        \<comment> \<open>\<open>IPC_MESSAGE_VALUES\<close>\<close>
  kp_names :: "int \<rightharpoonup> string"         \<comment> \<open>\<open>IPC_MESSAGE_NAMES\<close>\<close>
  kp_codes :: "string \<rightharpoonup> int"         \<comment> \<open>\<open>IPC_CMD_CODES\<close>\<close>
  kp_cmd_code :: "string \<Rightarrow> int"       \<comment> \<open>\<open>get_ipc_cmd_code\<close>\<close>
  kp_command :: "string \<Rightarrow> int"        \<comment> \<open>\<open>GetIPCCommand\<close>\<close>
  kp_no_command :: "8 word"          \<comment> \<open>\<open>NO_COMMAND_INDEX\<close>\<close>

record platform_ipc =
  pi_platform :: string
  pi_command :: int
  pi_id :: string
  pi_complete :: bool

type_synonym ipc_event = "int \<times> string list"

record 'db scheduler = "'db platform" +
  sc_app_map :: "(int \<times> string) list"
  sc_px :: postexec
  sc_queue :: "ipc_event list"
  sc_ipc_command :: "8 word"
  sc_dispatched :: "(string \<times> platform_ipc) list"
  sc_timer :: timer
  sc_postexec_tasks :: "32 word"
  sc_tx_ipc :: "32 word"
  sc_evts :: "ipc_event list"

definition EV_PLATFORM_EVENT :: int where "EV_PLATFORM_EVENT = 19"
definition EV_PLATFORM_ERROR :: int where "EV_PLATFORM_ERROR = 17"
definition EV_PLATFORM_CREATED :: int where "EV_PLATFORM_CREATED = 38"
definition EV_KIQ_IPC_MESSAGE :: int where "EV_KIQ_IPC_MESSAGE = 35"

definition INVALID_MASK :: int where "INVALID_MASK = 2 ^ 31 - 1"

definition sys_event :: "int \<Rightarrow> string list \<Rightarrow> (('db, 'm) scheduler_scheme, unit) act" where
  "sys_event ev args = modify (\<lambda>s. s\<lparr>sc_evts := sc_evts s @ [(ev, args)]\<rparr>)"

section \<open>Messages\<close>

record ipc_message =
  im_type :: "8 word"
  im_args :: "string list"

definition ipc_message :: "kproto \<Rightarrow> string list \<Rightarrow> ipc_message res" where
  "ipc_message kp args =
     bind (vec_front args) (\<lambda>type.
     bind (if length type > 2 then map_at (kp_values kp) type else stoi type) (\<lambda>t.
       Inr \<lparr>im_type = word_of_int t, im_args = args\<rparr>))"

definition im_type_name :: "kproto \<Rightarrow> ipc_message \<Rightarrow> string res" where
  "im_type_name kp m = map_at (kp_names kp) (uint (im_type m))"

definition im_platform :: "ipc_message \<Rightarrow> string res" where
  "im_platform m = vec_at (im_args m) 1"

definition im_data :: "ipc_message \<Rightarrow> string res" where
  "im_data m = vec_at (im_args m) 2"

definition im_command :: "ipc_message \<Rightarrow> string res" where
  "im_command m = bind (vec_at (im_args m) 3) (\<lambda>cmd. Inr (if cmd = [] then ''4294967295'' else cmd))"

definition im_cmd_code_string :: "kproto \<Rightarrow> ipc_message \<Rightarrow> string res" where
  "im_cmd_code_string kp m = bind (im_command m) (\<lambda>c. bind (map_at (kp_codes kp) c) (\<lambda>i. Inr (int_to_string i)))"

text \<open>An argument that may be missing or empty.\<close>

definition im_arg :: "nat \<Rightarrow> ipc_message \<Rightarrow> string" where
  "im_arg i m = (if length (im_args m) > i then im_args m ! i else [])"

definition im_time :: "ipc_message \<Rightarrow> (('db, 'm) world_scheme, string) act" where
  "im_time m = (if im_arg 4 m \<noteq> [] then ret (im_arg 4 m) else seq UnixTime (\<lambda>now. ret (int_to_string now)))"

definition im_recurring :: "ipc_message \<Rightarrow> string" where
  "im_recurring m = (if im_arg 5 m \<noteq> [] then im_arg 5 m else ''0'')"

definition im_status :: "ipc_message \<Rightarrow> string" where
  "im_status m = im_arg 6 m"

definition im_id :: "ipc_message \<Rightarrow> string" where
  "im_id m = im_arg 7 m"

definition im_p_uuid :: "'db libs \<Rightarrow> ipc_message \<Rightarrow> (('db, 'm) world_scheme, string) act" where
  "im_p_uuid x m = (if im_arg 8 m \<noteq> [] then ret (im_arg 8 m) else GenerateUUIDString x)"

definition im_option :: "ipc_message \<Rightarrow> string" where
  "im_option m = im_arg 9 m"

definition GetPlatformUser :: "'db libs \<Rightarrow> string \<Rightarrow> (('db, 'm) world_scheme, string) act" where
  "GetPlatformUser x platform = seq (GetPlatformID x (c_str platform)) (\<lambda>pid. GetUser x [] pid False)"

definition platform_payload :: "'db libs \<Rightarrow> kproto \<Rightarrow> ipc_message \<Rightarrow> (('db, 'm) world_scheme, string list) act" where
  "platform_payload x kp m =
     (let dest = im_option m in
      seq (of_res (im_command m)) (\<lambda>command.
      seq (of_res (im_data m)) (\<lambda>data.
      let args = CreateOperation (x_jwrite x) ''bot''
            [command, data, x_conf x ''platform'' ''default_user'',
             if dest = [] then x_conf x ''process'' ''tg_dest'' else dest] in
      seq (of_res (im_type_name kp m)) (\<lambda>type_name.
      seq (of_res (im_platform m)) (\<lambda>platform.
      seq (im_p_uuid x m) (\<lambda>uuid.
      seq (GetPlatformUser x platform) (\<lambda>user.
      seq (im_time m) (\<lambda>time.
        ret [type_name, platform, uuid, user, time, data, [], ''false'', ''bot'', args,
             int_to_string (kp_cmd_code kp command)]))))))))"

text \<open>A post to the messenger; \<open>event\<close> decides whether it is one that is sent.\<close>

definition MakeIPCEvent :: "'db libs \<Rightarrow> int \<Rightarrow> 8 word \<Rightarrow> string \<Rightarrow> string \<Rightarrow> (('db, 'm) world_scheme, ipc_event) act" where
  "MakeIPCEvent x event command data arg =
     seq (GetPlatformID x ''Telegram'') (\<lambda>pid.
     seq (GetUser x [] pid True) (\<lambda>user.
     seq (GenerateUUIDString x) (\<lambda>uuid.
     seq UnixTime (\<lambda>now.
     let post = \<lparr>pp_pid = pid, pp_o_pid = NO_ORIGIN_PLATFORM_EXISTS, pp_id = uuid, pp_user = user,
           pp_time = int_to_string now, pp_content = data, pp_urls = [], pp_repost = [], pp_name = ''Telegram'',
           pp_args = arg, pp_method = ''bot'', pp_cmd = int_to_string (uint command), pp_status = [], pp_retry = False\<rparr>
     in ret (if event = EV_KIQ_IPC_MESSAGE \<or> event = EV_PLATFORM_POST_REQUESTED
             then (event, GetPayload_post post) else (0, []))))))"

section \<open>Applications\<close>

definition FetchApplicationMap :: "'db libs \<Rightarrow> (('db, 'm) world_scheme, (int \<times> string) list) act" where
  "FetchApplicationMap x =
     seq (kdb_select x ''apps'' [''mask'', ''name''] []) (\<lambda>rows.
     seq (of_res (mapM (\<lambda>row. bind (bind (map_at row ''mask'') stoi) (\<lambda>m. bind (map_at row ''name'') (\<lambda>n. Inr (m, n)))) rows))
       (\<lambda>kvs. ret (fold (\<lambda>kv m. map_insert (fst kv) (snd kv) m) kvs [])))"

definition REQUIRED_APPLICATIONS :: "string list" where
  "REQUIRED_APPLICATIONS = [''IG Feed'', ''YT Feed'', ''TW Feed'', ''TW Search'', ''TW Research'',
     ''KNLP - NER'', ''KNLP - Emotion'', ''KNLP - Sentiment'']"

definition REQUIRED_APPLICATION_NUM :: nat where
  "REQUIRED_APPLICATION_NUM = 7"

text \<open>The check of the constructor.\<close>

definition required_applications :: "(int \<times> string) list \<Rightarrow> unit res" where
  "required_applications m =
     (case find (\<lambda>name. name \<notin> snd ` set m) (take REQUIRED_APPLICATION_NUM REQUIRED_APPLICATIONS) of
        None \<Rightarrow> Inr () | Some name \<Rightarrow> Inl (RuntimeError name))"

definition FindMask :: "(int \<times> string) list \<Rightarrow> string \<Rightarrow> int" where
  "FindMask m application_name =
     (case find (\<lambda>e. snd e = application_name) m of None \<Rightarrow> INVALID_MASK | Some e \<Rightarrow> fst e)"


section \<open>Dependent tasks\<close>

definition wait_node :: "'db libs \<Rightarrow> int \<Rightarrow> int \<Rightarrow> (('db, 'm) scheduler_scheme, unit) act" where
  "wait_node x i r =
     seq get_state (\<lambda>s.
     let apps = map_of (sc_app_map s) in
     seq (if map_of (px_lists (sc_px s)) i = None
          then seq (GetTask_int x apps i) (\<lambda>t. modify (\<lambda>s. s\<lparr>sc_px := AddRoot i t (sc_px s)\<rparr>))
          else ret ()) (\<lambda>_.
     seq (GetTask_int x apps r) (\<lambda>t.
     seq get_state (\<lambda>s.
     seq (of_res (AddNode i r t (sc_px s))) (\<lambda>px. modify (\<lambda>s. s\<lparr>sc_px := px\<rparr>))))))"

definition CreateTask :: "'db libs \<Rightarrow> string \<Rightarrow> string \<Rightarrow> string \<Rightarrow> string \<Rightarrow> string list \<Rightarrow> (('db, 'm) world_scheme, task) act" where
  "CreateTask x msk description header user args =
     seq (GenerateUUIDString x) (\<lambda>uuid. seq UnixTime (\<lambda>now. seq get_fs (\<lambda>fs.
     seq (of_res (generic_Create fs (x_conf x ''system'' ''admin'') now uuid msk description header user args))
       (\<lambda>(t, fs'). seq (put_fs fs') (\<lambda>_. ret t)))))"

definition CreateChild :: "'db libs \<Rightarrow> int \<Rightarrow> string \<Rightarrow> string \<Rightarrow> string list \<Rightarrow> (('db, 'm) scheduler_scheme, int) act" where
  "CreateChild x task_id data application_name args =
     seq (GetAppInfo x (- 1) application_name) (\<lambda>app.
     if \<not> app_is_valid app then ret INVALID_ID
     else
       seq (CreateTask x (app_mask app) data [] [] args) (\<lambda>t.
       seq (schedule x t) (\<lambda>new_task_id.
       if new_task_id = [] then ret INVALID_ID
       else seq (of_res (stoi new_task_id)) (\<lambda>r. seq (wait_node x task_id r) (\<lambda>_. ret r)))))"

section \<open>The queue\<close>

definition SetIPCCommand :: "8 word \<Rightarrow> ('db, 'm) scheduler_scheme \<Rightarrow> ('db, 'm) scheduler_scheme" where
  "SetIPCCommand command s = s\<lparr>sc_ipc_command := command, sc_timer := timer_reset (w_now s) (sc_timer s)\<rparr>"

definition IPCNotPending :: "kproto \<Rightarrow> ('db, 'm) scheduler_scheme \<Rightarrow> bool" where
  "IPCNotPending kp s \<longleftrightarrow> sc_ipc_command s = kp_no_command kp \<or> \<not> timer_active (sc_timer s)"

definition send_event :: "ipc_event \<Rightarrow> (('db, 'm) scheduler_scheme, unit) act" where
  "send_event e = seq (modify (\<lambda>s. s\<lparr>sc_tx_ipc := sc_tx_ipc s + 1\<rparr>)) (\<lambda>_. emit ALL_CLIENTS (fst e) (snd e))"

definition clear_lists :: "kproto \<Rightarrow> ('db, 'm) scheduler_scheme \<Rightarrow> ('db, 'm) scheduler_scheme" where
  "clear_lists kp s =
     (let s1 = s\<lparr>sc_postexec_tasks := sc_postexec_tasks s + of_nat (length (px_map (sc_px s))),
                 sc_queue := [], sc_px := \<lparr>px_map = [], px_lists = []\<rparr>\<rparr>;
          s2 = SetIPCCommand (kp_no_command kp) s1
      in s2\<lparr>sc_timer := timer_stop (sc_timer s2)\<rparr>)"

definition ResolvePending :: "kproto \<Rightarrow> bool \<Rightarrow> (('db, 'm) scheduler_scheme, unit) act" where
  "ResolvePending kp checked = seq get_state (\<lambda>s.
     if checked \<and> (\<not> timer_active (sc_timer s) \<or> \<not> timer_expired (w_now s) (sc_timer s)) then ret ()
     else seq (each send_event (sc_queue s)) (\<lambda>_. modify (clear_lists kp)))"

section \<open>Requests to other processes\<close>

definition save_dummy :: "'db libs \<Rightarrow> string \<Rightarrow> string \<Rightarrow> string \<Rightarrow> (('db, 'm) world_scheme, unit) act" where
  "save_dummy x id1 time option = seq get_fs (\<lambda>fs.
     put_fs (snd (SavePlatformEnvFile fs (Dummy_post (ToJSONArray (x_jwrite x)) id1 time option))))"

text \<open>The log line asks for the UUID again; where the message has none, that is another one.\<close>

definition ScheduleIPC :: "'db libs \<Rightarrow> ipc_message \<Rightarrow> (('db, 'm) world_scheme, string) act" where
  "ScheduleIPC x m =
     seq (of_res (im_platform m)) (\<lambda>platform.
     seq (GetPlatformID x platform) (\<lambda>pid.
     seq (of_res (im_command m)) (\<lambda>command.
     seq (of_res (im_data m)) (\<lambda>data.
     seq (im_time m) (\<lambda>time.
     seq (im_p_uuid x m) (\<lambda>uuid.
     seq (im_p_uuid x m) (\<lambda>_.
     seq (kdb_insert_returning x ''ipc'' [''pid'', ''command'', ''data'', ''time'', ''p_uuid'', ''recurring'', ''type'']
            [pid, command, data, time, uuid, im_recurring m, int_to_string (uint (im_type m))] ''id'') (\<lambda>id1.
     seq (if id1 = [] then ret () else save_dummy x id1 time (im_option m)) (\<lambda>_.
       ret id1)))))))))"

definition UpdateIPC :: "'db libs \<Rightarrow> string \<Rightarrow> int \<Rightarrow> (('db, 'm) world_scheme, bool) act" where
  "UpdateIPC x id1 status = with_filter [''id'', id1] (\<lambda>flt.
     seq (kdb_update x ''ipc'' [''status''] [int_to_string status] flt ''id'') (\<lambda>r. ret (r \<noteq> [])))"

definition IPCResponseReceived :: "('db, 'm) scheduler_scheme \<Rightarrow> bool" where
  "IPCResponseReceived s \<longleftrightarrow> (\<forall>e \<in> set (sc_dispatched s). pi_complete (snd e))"

definition dispatch :: "string \<Rightarrow> platform_ipc \<Rightarrow> ('db, 'm) scheduler_scheme \<Rightarrow> ('db, 'm) scheduler_scheme" where
  "dispatch uuid p s = s\<lparr>sc_dispatched := map_insert uuid p (sc_dispatched s)\<rparr>"

definition SendIPCRequest :: "'db libs \<Rightarrow> kproto \<Rightarrow> ipc_message \<Rightarrow> (('db, 'm) scheduler_scheme, unit) act" where
  "SendIPCRequest x kp m =
     seq (platform_payload x kp m) (\<lambda>payload.
     seq (emit ALL_CLIENTS EV_PLATFORM_EVENT payload) (\<lambda>_.
     seq (if im_type m \<noteq> 0 then seq (UpdateIPC x (im_id m) 1) (\<lambda>_. ret ())
          else
            seq (im_p_uuid x m) (\<lambda>uuid.
            seq (of_res (im_platform m)) (\<lambda>platform.
            seq (of_res (im_cmd_code_string kp m)) (\<lambda>code.
              modify (dispatch uuid \<lparr>pi_platform = platform, pi_command = kp_command kp code,
                                     pi_id = im_id m, pi_complete = False\<rparr>))))) (\<lambda>_.
       modify (\<lambda>s. s\<lparr>sc_tx_ipc := sc_tx_ipc s + 1\<rparr>))))"

definition complete_ipc :: "string \<Rightarrow> platform_ipc \<Rightarrow> ('db, 'm) scheduler_scheme \<Rightarrow> ('db, 'm) scheduler_scheme" where
  "complete_ipc uuid p s = s\<lparr>sc_dispatched := AList.update uuid (p\<lparr>pi_complete := True\<rparr>) (sc_dispatched s)\<rparr>"

definition OnIPCReceived :: "'db libs \<Rightarrow> string \<Rightarrow> (('db, 'm) scheduler_scheme, bool) act" where
  "OnIPCReceived x uuid = seq get_state (\<lambda>s.
     case map_of (sc_dispatched s) uuid of
       None \<Rightarrow> ret False
     | Some p \<Rightarrow>
         seq (modify (complete_ipc uuid p)) (\<lambda>_.
         with_filter [''id'', pi_id p] (\<lambda>flt.
         seq (kdb_update x ''ipc'' [''status''] [''1''] flt ''id'') (\<lambda>_. ret True))))"

definition GetUUID :: "'db libs \<Rightarrow> string \<Rightarrow> (('db, 'm) world_scheme, string) act" where
  "GetUUID x id1 = with_filter [''id'', id1] (\<lambda>flt.
     seq (kdb_select x ''ipc'' [''p_uuid''] flt) (\<lambda>rows. of_res (first_at ''p_uuid'' rows)))"

text \<open>\<open>std::stoul\<close>, 64 bits wide.\<close>

definition stoul :: "string \<Rightarrow> 64 word res" where
  "stoul s =
     (let t = dropWhile is_space s;
          neg = (t \<noteq> [] \<and> hd t = CHR ''-'');
          u = (if t \<noteq> [] \<and> (hd t = CHR ''-'' \<or> hd t = CHR ''+'') then tl t else t);
          ds = takeWhile is_digit u; v = digits_val 0 ds
      in if ds = [] then Inl InvalidArgument
         else if 2 ^ 64 \<le> v then Inl OutOfRange
         else Inr (if neg then - of_nat v else of_nat v))"

definition ipc_fields :: "string list" where
  "ipc_fields = [''id'', ''pid'', ''command'', ''data'', ''time'', ''p_uuid'', ''type'', ''recurring'']"

definition process_ipc_row :: "'db libs \<Rightarrow> kproto \<Rightarrow> result_map \<Rightarrow> (('db, 'm) scheduler_scheme, unit) act" where
  "process_ipc_row x kp row =
     seq (of_res (map_at row ''recurring'')) (\<lambda>recur.
     seq (of_res (map_at row ''id'')) (\<lambda>id1.
     seq (of_res (map_at row ''time'')) (\<lambda>time.
     seq (of_res (map_at row ''type'')) (\<lambda>type.
     seq (of_res (map_at row ''pid'')) (\<lambda>pid.
     seq (GetPlatform x pid) (\<lambda>platform.
     seq (of_res (map_at row ''data'')) (\<lambda>data.
     seq (of_res (map_at row ''command'')) (\<lambda>command.
     seq (of_res (map_at row ''p_uuid'')) (\<lambda>p_uuid.
     seq get_fs (\<lambda>fs.
     seq (of_res (GetArgsOperation x fs (GetEnvPath id1 time ''0''))) (\<lambda>args_op.
     seq (of_res (ipc_message kp [type, platform, data, command, time, recur, ''0'', id1, p_uuid, args_op])) (\<lambda>m.
     seq (SendIPCRequest x kp m) (\<lambda>_.
     seq (of_res (stoi recur)) (\<lambda>recurring.
     if recurring = 0 then ret ()
     else
       seq (of_res (stoul time)) (\<lambda>t.
       with_filter [''id'', id1] (\<lambda>flt.
       seq (kdb_update x ''ipc'' [''time'', ''status'']
              [nat_to_string (unat (t + ucast (GetIntervalSeconds (word_of_int recurring)))), ''0''] flt ''id'')
         (\<lambda>_. ret ())))))))))))))))))"

definition ProcessIPC :: "'db libs \<Rightarrow> kproto \<Rightarrow> (('db, 'm) scheduler_scheme, unit) act" where
  "ProcessIPC x kp = seq get_state (\<lambda>s.
     if \<not> IPCResponseReceived s then ret ()
     else
       seq UnixTime (\<lambda>now. with_filter [''status'', ''0''] (\<lambda>flt.
       seq (kdb_selectMultiFilter2 x ''ipc'' ipc_fields
              [QueryComparisonFilter [(''time'', ''<'', int_to_string now)], QueryFilterTerm flt]) (\<lambda>rows.
       seq (each (process_ipc_row x kp) rows) (\<lambda>_.
         ProcessPlatform x)))))"

section \<open>Posts\<close>

text \<open>The number bounds the depth of the reposts, as in \<open>SavePlatformPost\<close>.\<close>

definition save_reported_post :: "nat \<Rightarrow> 'db libs \<Rightarrow> string list \<Rightarrow> (('db, 'm) scheduler_scheme, bool) act" where
  "save_reported_post n x data =
     seq (SavePlatformPost_payload n x data) (\<lambda>rc.
     seq (sys_event (if rc then EV_PLATFORM_CREATED else EV_PLATFORM_ERROR) data) (\<lambda>_. ret rc))"

definition save_task_post :: "nat \<Rightarrow> 'db libs \<Rightarrow> string \<Rightarrow> (('db, 'm) scheduler_scheme, bool) act" where
  "save_task_post n x data = seq get_state (\<lambda>s.
     seq (GetTask x (map_of (sc_app_map s)) data) (\<lambda>t.
     seq (to_post x t) (\<lambda>post.
     seq (if post_is_valid post then SavePlatformPost n x post PLATFORM_POST_COMPLETE else ret False) (\<lambda>saved.
     if saved then seq (sys_event EV_PLATFORM_CREATED (GetPayload_post post)) (\<lambda>_. ret True)
     else seq (sys_event EV_PLATFORM_ERROR [''Failed to create post from task'', data]) (\<lambda>_. ret False)))))"

definition Scheduler_OnPlatformError :: "'db libs \<Rightarrow> string list \<Rightarrow> (('db, 'm) scheduler_scheme, unit) act" where
  "Scheduler_OnPlatformError x payload =
     seq (OnPlatformError x payload) (\<lambda>_.
     seq (of_res (vec_at payload 1)) (\<lambda>uuid.
     seq (OnIPCReceived x uuid) (\<lambda>_. ret ())))"

definition Scheduler_FetchPosts :: "'db libs \<Rightarrow> (('db, 'm) scheduler_scheme, unit) act" where
  "Scheduler_FetchPosts x = FetchPosts x"

definition Scheduler_Status :: "string \<Rightarrow> ('db, 'm) scheduler_scheme \<Rightarrow> string" where
  "Scheduler_Status platform_status s =
     platform_status @ [newline, newline] @ ''Scheduler Status'' @ [newline] @
     ''Messages sent: '' @ nat_to_string (unat (sc_tx_ipc s)) @ [newline] @
     ''Message queue: '' @ nat_to_string (length (sc_queue s)) @ [newline] @
     ''Dispatched requests: '' @ nat_to_string (length (sc_dispatched s)) @ [newline] @
     ''PostExec Tasks: '' @ nat_to_string (unat (sc_postexec_tasks s))"


section \<open>What leaves the requests alone\<close>

definition same_requests :: "('db, 'm) scheduler_scheme \<Rightarrow> ('db, 'm) scheduler_scheme \<Rightarrow> bool" where
  "same_requests s s' \<longleftrightarrow> sc_dispatched s' = sc_dispatched s"

lemma reflp_same_requests [simp]: "reflp same_requests"
  by (simp add: reflp_def same_requests_def)

lemma transp_same_requests [simp]: "transp same_requests"
  by (simp add: transp_def same_requests_def)

lemma only_world_same: "only_world s s' \<Longrightarrow> same_requests s s'"
  by (cases s; cases s') (simp add: only_world_def same_requests_def)

lemma keeps_same_world: "keeps only_world m \<Longrightarrow> keeps same_requests m"
  by (rule keeps_mono [OF _ only_world_same])

named_theorems same_frame

lemma keeps_same_ops [same_frame]:
  "keeps same_requests get_state" "keeps same_requests get_requests"
  "keeps same_requests (insert_or_update p)" "keeps same_requests (complete_post p)"
  "keeps same_requests (sys_event e args)"
  by (auto simp: keeps_def get_state_def get_requests_def insert_or_update_def complete_post_def Let_def
      sys_event_def same_requests_def split: option.splits)

lemmas keeps_same_from_world [same_frame] =
  keeps_world_rows [THEN keeps_same_world] keeps_world_posts [THEN keeps_same_world]
  keeps_world_ops [THEN keeps_same_world] keeps_world_payload [THEN keeps_same_world]
  keeps_world_save [THEN keeps_same_world] keeps_kdb_world [THEN keeps_same_world]

lemma same_fail_request [simp]: "same_requests s (fail_request k s)"
  by (simp add: same_requests_def fail_request_def split: option.splits)

lemma same_count [simp]: "same_requests s (count_failure s)" "same_requests s (count_failure (fail_request k s))"
  by (simp_all add: same_requests_def count_failure_def fail_request_def split: option.splits)

lemmas same_rules = keeps_if keeps_seq keeps_each keeps_collect keeps_pure keeps_modify same_frame

lemma keeps_same_error [same_frame]: "keeps same_requests (OnPlatformError x payload)"
  unfolding OnPlatformError_def by (intro same_rules same_frame; simp)

lemma keeps_same_report [same_frame]: "keeps same_requests (save_reported_post n x data)"
  unfolding save_reported_post_def SavePlatformPost_payload_def Let_def by (intro same_rules same_frame; simp)

lemma keeps_same_resolve [same_frame]: "keeps same_requests (ResolvePending kp b)"
proof -
  have "keeps same_requests (send_event e)" for e
    unfolding send_event_def by (intro same_rules same_frame; simp add: same_requests_def)
  then show ?thesis
    by (auto simp: ResolvePending_def clear_lists_def SetIPCCommand_def Let_def same_requests_def
        intro!: same_rules same_frame)
qed

lemma keeps_world_message [world_frame]:
  "keeps only_world (im_time m)" "keeps only_world (im_p_uuid x m)" "keeps only_world (save_dummy x i t option)"
  unfolding im_time_def im_p_uuid_def save_dummy_def
  by (intro world_rules world_frame; simp only: reflp_only_world transp_only_world)+

lemma keeps_world_GetUser [world_frame]: "keeps only_world (GetUser x uid pid b)"
  unfolding GetUser_def Let_def
  by (intro world_rules world_frame; simp only: reflp_only_world transp_only_world)

lemma keeps_world_platform_user [world_frame]: "keeps only_world (GetPlatformUser x p)"
  unfolding GetPlatformUser_def
  by (intro world_rules world_frame; simp only: reflp_only_world transp_only_world)

lemma keeps_world_ipc [world_frame]:
  "keeps only_world (platform_payload x kp m)" "keeps only_world (ScheduleIPC x m)" "keeps only_world (UpdateIPC x i st)"
  unfolding platform_payload_def ScheduleIPC_def UpdateIPC_def Let_def
  by (intro world_rules world_frame; simp only: reflp_only_world transp_only_world)+

section \<open>Requests that wait for an answer\<close>

text \<open>
  The steps that bear on the requests, with the id of the answer a step brings: the worker's turn,
  a message to be sent later, an answer, an error report, the resolving of the lists, the report of
  a post and the passing of time.
\<close>

inductive ipc_step ::
  "'db libs \<Rightarrow> kproto \<Rightarrow> ('db, 'm) scheduler_scheme \<Rightarrow> string option \<Rightarrow> ('db, 'm) scheduler_scheme \<Rightarrow> bool"
  for x kp where
  process: "ipc_step x kp s None (snd (ProcessIPC x kp s))"
| later: "ipc_step x kp s None (snd (ScheduleIPC x m s))"
| answer: "ipc_step x kp s (Some uuid) (snd (OnIPCReceived x uuid s))"
| error: "vec_at payload 1 = Inr uuid \<Longrightarrow> ipc_step x kp s (Some uuid) (snd (Scheduler_OnPlatformError x payload s))"
| resolve: "ipc_step x kp s None (snd (ResolvePending kp b s))"
| report: "ipc_step x kp s None (snd (save_reported_post n x data s))"
| tick: "ipc_step x kp s None (s\<lparr>w_now := t\<rparr>)"

inductive ipc_run ::
  "'db libs \<Rightarrow> kproto \<Rightarrow> ('db, 'm) scheduler_scheme \<Rightarrow> string list \<Rightarrow> ('db, 'm) scheduler_scheme \<Rightarrow> bool"
  for x kp where
  stop: "ipc_run x kp s [] s"
| quiet: "ipc_run x kp s us s1 \<Longrightarrow> ipc_step x kp s1 None s2 \<Longrightarrow> ipc_run x kp s us s2"
| answered: "ipc_run x kp s us s1 \<Longrightarrow> ipc_step x kp s1 (Some uuid) s2 \<Longrightarrow> ipc_run x kp s (us @ [uuid]) s2"

inductive_cases ipc_stepE: "ipc_step x kp s u s'"
inductive_simps ipc_run_start: "ipc_run x kp s [] s'"

definition awaits :: "string \<Rightarrow> ('db, 'm) scheduler_scheme \<Rightarrow> bool" where
  "awaits uuid s \<longleftrightarrow> (\<exists>p. map_of (sc_dispatched s) uuid = Some p \<and> \<not> pi_complete p)"

lemma awaits_gate: "awaits uuid s \<Longrightarrow> \<not> IPCResponseReceived s"
  using map_of_SomeD by (fastforce simp: awaits_def IPCResponseReceived_def)

lemma gate_closed: "\<not> IPCResponseReceived s \<Longrightarrow> ProcessIPC x kp s = (Inr (), s)"
  by (simp add: ProcessIPC_def get_state_def seq_def)

lemma same_awaits: "same_requests s s' \<Longrightarrow> awaits uuid s' = awaits uuid s"
  by (simp add: same_requests_def awaits_def)

definition other_requests :: "string \<Rightarrow> ('db, 'm) scheduler_scheme \<Rightarrow> ('db, 'm) scheduler_scheme \<Rightarrow> bool" where
  "other_requests u s s' \<longleftrightarrow> (\<forall>k. k \<noteq> u \<longrightarrow> map_of (sc_dispatched s') k = map_of (sc_dispatched s) k)"

lemma reflp_other_requests [simp]: "reflp (other_requests u)"
  by (simp add: reflp_def other_requests_def)

lemma transp_other_requests [simp]: "transp (other_requests u)"
  by (simp add: transp_def other_requests_def)

lemma keeps_other_same: "keeps same_requests m \<Longrightarrow> keeps (other_requests u) m"
  by (erule keeps_mono) (simp add: same_requests_def other_requests_def)

lemma keeps_other_received: "keeps (other_requests u) (OnIPCReceived x u)"
proof -
  have 1: "keeps (other_requests u) (modify (complete_ipc u p))" for p
    by (rule keeps_modify) (simp add: other_requests_def complete_ipc_def AList.update_conv)
  have 2: "keeps (other_requests u) (kdb_update x t f v flt r)" for t f v flt r
    by (intro keeps_other_same keeps_same_world world_frame)
  have 3: "keeps (other_requests u) get_state"
    by (rule keeps_other_same [OF keeps_same_ops(1)])
  show ?thesis
    unfolding OnIPCReceived_def
    by (intro keeps_seq 3) (auto split: option.splits intro!: keeps_seq 1 2)
qed

lemma keeps_other_error: "vec_at payload 1 = Inr u \<Longrightarrow> keeps (other_requests u) (Scheduler_OnPlatformError x payload)"
  unfolding Scheduler_OnPlatformError_def
  by (simp, intro keeps_seq keeps_other_same [OF keeps_same_error] keeps_other_received keeps_pure; simp)

lemma step_keeps_waiting:
  assumes "ipc_step x kp s u s'" and "awaits uuid s" and "u \<noteq> Some uuid"
  shows "awaits uuid s'"
proof -
  have same: "awaits uuid (snd (m s))" if "keeps same_requests m" for m :: "('a, 'b) scheduler_scheme \<Rightarrow> 'c res \<times> ('a, 'b) scheduler_scheme"
    using that assms(2) same_awaits unfolding keeps_def by blast
  have other: "awaits uuid (snd (m s))" if "keeps (other_requests v) m" "v \<noteq> uuid"
    for m :: "('a, 'b) scheduler_scheme \<Rightarrow> 'c res \<times> ('a, 'b) scheduler_scheme" and v
    using that assms(2) unfolding keeps_def other_requests_def awaits_def by metis
  show ?thesis
    using assms(1)
  proof cases
    case process
    then show ?thesis using gate_closed [OF awaits_gate [OF assms(2)]] assms(2) by simp
  next
    case (later m)
    then show ?thesis using same keeps_same_world [OF keeps_world_ipc(2)] by blast
  next
    case (answer u')
    then show ?thesis using other keeps_other_received assms(3) by blast
  next
    case (error payload u')
    then show ?thesis using other keeps_other_error assms(3) by blast
  next
    case (resolve b)
    then show ?thesis using same keeps_same_resolve by blast
  next
    case (report n data)
    then show ?thesis using same keeps_same_report by blast
  next
    case (tick t)
    then show ?thesis using assms(2) by (simp add: awaits_def)
  qed
qed

lemma run_keeps_waiting: "ipc_run x kp s us s' \<Longrightarrow> awaits uuid s \<Longrightarrow> uuid \<notin> set us \<Longrightarrow> awaits uuid s'"
proof (induction rule: ipc_run.induct)
  case (quiet s us s1 s2)
  then show ?case using step_keeps_waiting [of x kp s1 None s2 uuid] by simp
next
  case (answered s us s1 u s2)
  then show ?case using step_keeps_waiting [of x kp s1 "Some u" s2 uuid] by auto
qed


section \<open>Properties\<close>

text \<open>
  C4: a request whose answer does not come stops everything: whatever else happens, messages,
  reports, errors of other requests, resolving, time, as long as no answer and no error brings its
  id, a turn of \<open>ProcessIPC\<close> sends nothing and does not look at the platforms' posts.
\<close>

theorem unanswered_request_blocks:
  assumes "ipc_run x kp s us s'" and "awaits uuid s" and "uuid \<notin> set us"
  shows "awaits uuid s' \<and> ProcessIPC x kp s' = (Inr (), s')"
  using run_keeps_waiting [OF assms] awaits_gate gate_closed by blast

definition idle_kproto :: kproto where
  "idle_kproto = \<lparr>kp_values = Map.empty, kp_names = (\<lambda>_. Some ''kiq''), kp_codes = (\<lambda>_. Some 1),
     kp_cmd_code = (\<lambda>_. 1), kp_command = (\<lambda>_. 1), kp_no_command = 0\<rparr>"

definition sample_scheduler :: "unit scheduler" where
  "sample_scheduler = platform.extend sample_platform
     \<lparr>sc_app_map = [(16, ''KNLP - NER'')], sc_px = \<lparr>px_map = [], px_lists = []\<rparr>,
      sc_queue = [(16, [''a'']), (16, [''b''])], sc_ipc_command = 0, sc_dispatched = [],
      sc_timer = new_timer False 0 TEN_MINUTES False, sc_postexec_tasks = 0, sc_tx_ipc = 0, sc_evts = []\<rparr>"

definition sample_request :: platform_ipc where
  "sample_request = \<lparr>pi_platform = ''Telegram'', pi_command = 1, pi_id = ''4'', pi_complete = False\<rparr>"

theorem unanswered_request_blocks_witness:
  "awaits ''u1'' (sample_scheduler\<lparr>sc_dispatched := [(''u1'', sample_request)]\<rparr>) \<and>
   (let s' = (snd (OnIPCReceived idle_libs ''u2'' (sample_scheduler\<lparr>sc_dispatched := [(''u1'', sample_request)]\<rparr>)))\<lparr>w_now := 9000\<rparr>
    in awaits ''u1'' s' \<and> ProcessIPC idle_libs idle_kproto s' = (Inr (), s'))"
proof -
  let ?s = "sample_scheduler\<lparr>sc_dispatched := [(''u1'', sample_request)]\<rparr>"
  let ?t = "(snd (OnIPCReceived idle_libs ''u2'' ?s))\<lparr>w_now := 9000\<rparr>"
  have aw: "awaits ''u1'' ?s" by (simp add: awaits_def sample_request_def)
  have "ipc_run idle_libs idle_kproto ?s [''u2''] (snd (OnIPCReceived idle_libs ''u2'' ?s))"
    using ipc_run.answered [OF ipc_run.stop ipc_step.answer] by simp
  then have "ipc_run idle_libs idle_kproto ?s [''u2''] ?t"
    by (rule ipc_run.quiet) (rule ipc_step.tick)
  from unanswered_request_blocks [OF this aw] aw show ?thesis by (simp add: Let_def)
qed

text \<open>
  C33: when every other request is answered, the answer to the last one, whatever its row's update
  does, opens the way again.
\<close>

theorem last_answer_opens:
  assumes "map_of (sc_dispatched s) uuid = Some p" and "distinct (map fst (sc_dispatched s))"
    and "\<forall>e \<in> set (sc_dispatched s). fst e \<noteq> uuid \<longrightarrow> pi_complete (snd e)"
  shows "IPCResponseReceived (snd (OnIPCReceived x uuid s))"
proof -
  have up: "keeps same_requests (with_filter a (\<lambda>flt. seq (kdb_update x t f v flt r) (\<lambda>_. ret b)))" for a t f v r and b :: bool
    by (intro keeps_same_world world_rules world_frame; simp only: reflp_only_world transp_only_world)
  let ?u = "with_filter [''id'', pi_id p] (\<lambda>flt. seq (kdb_update x ''ipc'' [''status''] [''1''] flt ''id'') (\<lambda>_. ret True))"
  have e: "OnIPCReceived x uuid s = ?u (complete_ipc uuid p s)"
    unfolding OnIPCReceived_def seq_def [of get_state] seq_def [of "modify f" for f]
    by (simp add: get_state_def assms(1) del: with_filter_one)
  have "same_requests (complete_ipc uuid p s) (snd (OnIPCReceived x uuid s))"
    unfolding e using up unfolding keeps_def by blast
  then have "sc_dispatched (snd (OnIPCReceived x uuid s)) = AList.update uuid (p\<lparr>pi_complete := True\<rparr>) (sc_dispatched s)"
    by (simp add: same_requests_def complete_ipc_def)
  moreover have "pi_complete (snd e)" if "e \<in> set (AList.update uuid (p\<lparr>pi_complete := True\<rparr>) (sc_dispatched s))" for e
  proof (cases "fst e = uuid")
    case True
    have "distinct (map fst (AList.update uuid (p\<lparr>pi_complete := True\<rparr>) (sc_dispatched s)))"
      using assms(2) by (rule AList.distinct_update)
    then have "map_of (AList.update uuid (p\<lparr>pi_complete := True\<rparr>) (sc_dispatched s)) (fst e) = Some (snd e)"
      using that by (simp add: map_of_eq_Some_iff)
    with True have "snd e = p\<lparr>pi_complete := True\<rparr>" by (simp add: AList.update_conv')
    then show ?thesis by simp
  next
    case False
    then have "e \<in> set (sc_dispatched s)" using that set_AList_update by fastforce
    with False assms(3) show ?thesis by blast
  qed
  ultimately show ?thesis by (simp add: IPCResponseReceived_def)
qed

theorem last_answer_opens_witness:
  "IPCResponseReceived (snd (OnIPCReceived idle_libs ''u1'' (sample_scheduler\<lparr>sc_dispatched := [(''u1'', sample_request)]\<rparr>)))"
  by (rule last_answer_opens [where p = sample_request]) simp_all

lemma payload_uuid:
  assumes "platform_payload x kp m s = (Inr payload, s')" and "im_arg 8 m \<noteq> []"
  shows "payload ! 2 = im_arg 8 m"
  using assms by (auto simp: platform_payload_def Let_def im_p_uuid_def elim!: seq_InrD)

text \<open>
  A message without a type of its own is recorded as waiting under the very id that is sent to
  its receiver, if the message has an id that is not recorded yet.
\<close>

theorem sent_message_is_awaited:
  assumes "SendIPCRequest x kp m s = (Inr (), s')" and "im_arg 8 m = uuid" and "uuid \<noteq> []"
    and "im_type m = 0" and "map_of (sc_dispatched s) uuid = None"
  shows "\<exists>evs payload. w_events s' = evs @ [(ALL_CLIENTS, EV_PLATFORM_EVENT, payload)] \<and>
    payload ! 2 = uuid \<and> awaits uuid s'"
proof -
  obtain payload s1 where p: "platform_payload x kp m s = (Inr payload, s1)"
    and r: "seq (emit ALL_CLIENTS EV_PLATFORM_EVENT payload) (\<lambda>_.
       seq (if im_type m \<noteq> 0 then seq (UpdateIPC x (im_id m) 1) (\<lambda>_. ret ())
          else
            seq (im_p_uuid x m) (\<lambda>uuid.
            seq (of_res (im_platform m)) (\<lambda>platform.
            seq (of_res (im_cmd_code_string kp m)) (\<lambda>code.
              modify (dispatch uuid \<lparr>pi_platform = platform, pi_command = kp_command kp code,
                                     pi_id = im_id m, pi_complete = False\<rparr>))))) (\<lambda>_.
       modify (\<lambda>s. s\<lparr>sc_tx_ipc := sc_tx_ipc s + 1\<rparr>))) s1 = (Inr (), s')"
    using assms(1) unfolding SendIPCRequest_def by (rule seq_InrD)
  have d: "sc_dispatched s1 = sc_dispatched s"
    using keepsD [OF keeps_same_world [OF keeps_world_ipc(1)] p] by (simp add: same_requests_def)
  obtain q where "s' = dispatch uuid q (s1\<lparr>w_events := w_events s1 @ [(ALL_CLIENTS, EV_PLATFORM_EVENT, payload)]\<rparr>)
      \<lparr>sc_tx_ipc := sc_tx_ipc s1 + 1\<rparr>" "\<not> pi_complete q"
    using r assms(2-4) by (auto simp: emit_def im_p_uuid_def dispatch_def elim!: seq_InrD)
  then show ?thesis
    using payload_uuid [OF p] assms(2,3,5) d
    by (auto simp: dispatch_def awaits_def map_insert_def map_add_def)
qed

definition sample_message :: ipc_message where
  "sample_message = \<lparr>im_type = 0, im_args = [''0'', ''Telegram'', ''hello'', ''message'', ''9'', ''0'', ''0'', ''4'', ''u1'', ''x'']\<rparr>"

theorem sent_message_is_awaited_witness:
  "\<exists>s' evs payload. SendIPCRequest idle_libs idle_kproto sample_message sample_scheduler = (Inr (), s') \<and>
     w_events s' = evs @ [(ALL_CLIENTS, EV_PLATFORM_EVENT, payload)] \<and> payload ! 2 = ''u1'' \<and> awaits ''u1'' s'"
proof -
  have "\<exists>s'. SendIPCRequest idle_libs idle_kproto sample_message sample_scheduler = (Inr (), s')"
    by (simp add: SendIPCRequest_def platform_payload_def sample_message_def im_type_name_def im_platform_def
        im_data_def im_command_def im_p_uuid_def im_arg_def im_time_def im_cmd_code_string_def idle_kproto_def
        vec_at_def seq_def emit_def GetPlatformUser_def GetPlatformID_def GetUser_def first_at_def Let_def c_str_def)
  then obtain s' where s': "SendIPCRequest idle_libs idle_kproto sample_message sample_scheduler = (Inr (), s')" by blast
  have "\<exists>evs payload. w_events s' = evs @ [(ALL_CLIENTS, EV_PLATFORM_EVENT, payload)] \<and> payload ! 2 = ''u1'' \<and> awaits ''u1'' s'"
    by (rule sent_message_is_awaited [OF s'])
      (simp_all add: sample_message_def im_arg_def sample_scheduler_def platform.defs)
  with s' show ?thesis by blast
qed


text \<open>
  A message sent again under an id that is recorded already, answered or not, is not recorded:
  when the first was answered, nothing waits for the second.
\<close>

theorem resent_message_is_not_awaited:
  assumes "map_of (sc_dispatched s) (im_arg 8 m) = Some p" and "im_arg 8 m \<noteq> []" and "im_type m = 0"
  shows "sc_dispatched (snd (SendIPCRequest x kp m s)) = sc_dispatched s"
proof -
  have d: "map_insert (im_arg 8 m) q (sc_dispatched s) = sc_dispatched s" for q
    using assms(1) by (simp add: map_insert_def)
  obtain r s1 where p: "platform_payload x kp m s = (r, s1)" by force
  have "sc_dispatched s1 = sc_dispatched s"
    using keepsD [OF keeps_same_world [OF keeps_world_ipc(1)] p] by (simp add: same_requests_def)
  then show ?thesis
    using p assms(2,3) d
    by (simp add: SendIPCRequest_def emit_def im_p_uuid_def seq_def dispatch_def split: sum.splits)
qed

theorem resent_message_is_not_awaited_witness:
  "sc_dispatched (snd (SendIPCRequest idle_libs idle_kproto sample_message
     (sample_scheduler\<lparr>sc_dispatched := [(''u1'', sample_request\<lparr>pi_complete := True\<rparr>)]\<rparr>)))
   = [(''u1'', sample_request\<lparr>pi_complete := True\<rparr>)]"
  using resent_message_is_not_awaited [of "sample_scheduler\<lparr>sc_dispatched := [(''u1'', sample_request\<lparr>pi_complete := True\<rparr>)]\<rparr>"
      sample_message "sample_request\<lparr>pi_complete := True\<rparr>" idle_libs idle_kproto]
  by (simp add: sample_message_def im_arg_def)

lemma each_send_event:
  "each send_event q s = (Inr (), s\<lparr>sc_tx_ipc := sc_tx_ipc s + of_nat (length q),
     w_events := w_events s @ map (\<lambda>e. (ALL_CLIENTS, fst e, snd e)) q\<rparr>)"
  by (induction q arbitrary: s) (simp_all add: send_event_def emit_def seq_def add.assoc)

text \<open>
  Resolving the pending lists, at once or when the time is up, sends the queued events in their
  order and counts them, and leaves no queue, no list of tasks and no running timer.
\<close>

theorem resolve_sends_queue:
  assumes "\<not> checked \<or> (timer_active (sc_timer s) \<and> timer_expired (w_now s) (sc_timer s))"
  shows "\<exists>s'. ResolvePending kp checked s = (Inr (), s') \<and>
    w_events s' = w_events s @ map (\<lambda>e. (ALL_CLIENTS, fst e, snd e)) (sc_queue s) \<and>
    sc_tx_ipc s' = sc_tx_ipc s + of_nat (length (sc_queue s)) \<and>
    sc_queue s' = [] \<and> px_map (sc_px s') = [] \<and> px_lists (sc_px s') = [] \<and> IPCNotPending kp s' \<and>
    \<not> timer_active (sc_timer s')"
proof -
  have "ResolvePending kp checked s = seq (each send_event (sc_queue s)) (\<lambda>_. modify (clear_lists kp)) s"
    using assms by (auto simp: ResolvePending_def get_state_def seq_def)
  then show ?thesis
    by (simp add: each_send_event seq_def clear_lists_def SetIPCCommand_def IPCNotPending_def timer_stop_def
        timer_active_def Let_def)
qed

theorem resolve_sends_queue_witness:
  "\<exists>s'. ResolvePending idle_kproto False sample_scheduler = (Inr (), s') \<and>
    w_events s' = w_events sample_scheduler @ map (\<lambda>e. (ALL_CLIENTS, fst e, snd e)) (sc_queue sample_scheduler) \<and>
    sc_tx_ipc s' = sc_tx_ipc sample_scheduler + of_nat (length (sc_queue sample_scheduler)) \<and>
    sc_queue s' = [] \<and> px_map (sc_px s') = [] \<and> px_lists (sc_px s') = [] \<and> IPCNotPending idle_kproto s' \<and>
    \<not> timer_active (sc_timer s')"
  by (rule resolve_sends_queue) simp

end
