(* ===== verification/Sessions.thy ===== *)
theory Sessions
  imports JsonTools Timers EnvFiles "HOL-Library.AList"
begin

text \<open>
  Sessions of clients, \<open>server/session.cpp\<close>. The map holds a session for each user's name and, for
  each file descriptor, a raw pointer into the first map. A node of a hash map keeps its address
  while it is there, so a session has the number of its node here and a pointer is such a number;
  a pointer whose node is gone dangles, and reading through it is undefined.

  Shown: as long as no login meets another session of the same user or a descriptor that is still
  in use, the two maps stay inverse to each other; a login of a user who is logged in erases that
  session and leaves its pointer dangling; a login from a second descriptor redirects the first; a
  session that expires takes the pointer of whoever uses its descriptor now.
\<close>

definition SESSION_ACTIVE :: int where "SESSION_ACTIVE = 1"
definition SESSION_INACTIVE :: int where "SESSION_INACTIVE = 2"
definition SESSION_INVALID :: int where "SESSION_INVALID = 3"

record ksession =
  ks_user :: user
  ks_fd :: int
  ks_status :: int
  ks_id :: string
  ks_tx :: "32 word"
  ks_rx :: "32 word"
  ks_ping :: int

definition new_session :: "user \<Rightarrow> int \<Rightarrow> string \<Rightarrow> ksession" where
  "new_session u fd uuid = \<lparr>ks_user = u, ks_fd = fd, ks_status = SESSION_ACTIVE, ks_id = uuid,
     ks_tx = 0, ks_rx = 0, ks_ping = 0\<rparr>"

definition blank_session :: ksession where
  "blank_session = \<lparr>ks_user = \<lparr>u_name = [], u_token = []\<rparr>, ks_fd = 0, ks_status = 0, ks_id = [],
     ks_tx = 0, ks_rx = 0, ks_ping = 0\<rparr>"

definition waiting_time :: "int \<Rightarrow> ksession \<Rightarrow> 64 word" where
  "waiting_time now s = word_of_int (now - ks_ping s)"

definition session_expired :: "int \<Rightarrow> ksession \<Rightarrow> bool" where
  "session_expired now s \<longleftrightarrow> waiting_time now s > TWENTY_SECONDS"

definition session_active :: "int \<Rightarrow> ksession \<Rightarrow> bool" where
  "session_active now s \<longleftrightarrow> \<not> session_expired now s \<and> ks_status s = SESSION_ACTIVE"

definition session_notify :: "int \<Rightarrow> ksession \<Rightarrow> ksession" where
  "session_notify now s = s\<lparr>ks_ping := now, ks_status := SESSION_ACTIVE\<rparr>"

definition session_verify :: "int \<Rightarrow> ksession \<Rightarrow> ksession" where
  "session_verify now s = (if session_expired now s then s\<lparr>ks_status := SESSION_INACTIVE\<rparr> else s)"

section \<open>The map\<close>

type_synonym session_node = "nat \<times> ksession"

record session_map =
  sm_sessions :: "(string \<times> session_node) list"
  sm_ptrs :: "(int \<times> nat) list"
  sm_next :: nat

definition empty_sessions :: session_map where
  "empty_sessions = \<lparr>sm_sessions = [], sm_ptrs = [], sm_next = 0\<rparr>"

definition deref :: "session_map \<Rightarrow> nat \<Rightarrow> ksession res" where
  "deref m n = (case find (\<lambda>e. fst (snd e) = n) (sm_sessions m) of
     None \<Rightarrow> Inl Undefined | Some e \<Rightarrow> Inr (snd (snd e)))"

definition sm_has_name :: "session_map \<Rightarrow> string \<Rightarrow> bool" where
  "sm_has_name m name \<longleftrightarrow> map_of (sm_sessions m) name \<noteq> None"

definition sm_has :: "session_map \<Rightarrow> int \<Rightarrow> bool" where
  "sm_has m fd \<longleftrightarrow> map_of (sm_ptrs m) fd \<noteq> None"

definition sm_at_name :: "session_map \<Rightarrow> string \<Rightarrow> ksession res" where
  "sm_at_name m name = (case map_of (sm_sessions m) name of None \<Rightarrow> Inl OutOfRange | Some (_, s) \<Rightarrow> Inr s)"

definition sm_at :: "session_map \<Rightarrow> int \<Rightarrow> ksession res" where
  "sm_at m fd = (case map_of (sm_ptrs m) fd of
     None \<Rightarrow> Inl (RuntimeError ''SessionMap::at()'') | Some n \<Rightarrow> deref m n)"

text \<open>A write through the pointer of a descriptor.\<close>

definition change_node :: "nat \<Rightarrow> (ksession \<Rightarrow> ksession) \<Rightarrow> session_map \<Rightarrow> session_map" where
  "change_node n f m = m\<lparr>sm_sessions := map (\<lambda>e. if fst (snd e) = n then (fst e, n, f (snd (snd e))) else e) (sm_sessions m)\<rparr>"

definition sm_change :: "int \<Rightarrow> (ksession \<Rightarrow> ksession) \<Rightarrow> session_map \<Rightarrow> session_map res" where
  "sm_change fd f m = (case map_of (sm_ptrs m) fd of
     None \<Rightarrow> Inl (RuntimeError ''SessionMap::at()'')
   | Some n \<Rightarrow> bind (deref m n) (\<lambda>_. Inr (change_node n f m)))"

definition logged_in :: "int \<Rightarrow> session_map \<Rightarrow> user \<Rightarrow> bool" where
  "logged_in now m u \<longleftrightarrow>
     (\<exists>e \<in> set (sm_sessions m). u_name (ks_user (snd (snd e))) = u_name u \<and> session_active now (snd (snd e)))"

text \<open>\<open>erase\<close> of an iterator: the pointer that is erased is the one of the session's descriptor.\<close>

definition sm_erase :: "string \<Rightarrow> session_map \<Rightarrow> session_map" where
  "sm_erase name m = (case map_of (sm_sessions m) name of
     None \<Rightarrow> m
   | Some (_, s) \<Rightarrow> m\<lparr>sm_ptrs := AList.delete (ks_fd s) (sm_ptrs m), sm_sessions := AList.delete name (sm_sessions m)\<rparr>)"

definition sm_init :: "int \<Rightarrow> string \<Rightarrow> ksession \<Rightarrow> session_map \<Rightarrow> bool \<times> session_map" where
  "sm_init now name s m =
     (case map_of (sm_sessions m) name of
        None \<Rightarrow>
          (True, m\<lparr>sm_sessions := sm_sessions m @ [(name, sm_next m, session_notify now s)],
                   sm_ptrs := AList.update (ks_fd s) (sm_next m) (sm_ptrs m), sm_next := Suc (sm_next m)\<rparr>)
      | Some (n, _) \<Rightarrow>
          if logged_in now m (ks_user s)
          then (False, m\<lparr>sm_sessions := AList.delete name (sm_sessions m)\<rparr>)
          else (True, m\<lparr>sm_sessions := AList.update name (n, session_notify now s) (sm_sessions m),
                        sm_ptrs := AList.update (ks_fd s) n (sm_ptrs m)\<rparr>))"

section \<open>Tokens\<close>

text \<open>
  \<open>ValidateToken\<close>. Decoding and verifying the token is jwt-cpp's, the argument \<open>jwt\<close>: the claimed
  user and the time of expiry, or an exception.
\<close>

definition ValidateToken ::
  "(string \<Rightarrow> (string \<times> int) option) \<Rightarrow> fsys \<Rightarrow> string \<Rightarrow> int \<Rightarrow> user \<Rightarrow> bool" where
  "ValidateToken jwt fs path now u =
     (case jwt (u_token u) of None \<Rightarrow> False
      | Some (claim, expires) \<Rightarrow>
          claim = u_name u \<and> read_file fs (path @ ''/'' @ u_name u) = u_token u \<and> \<not> now > expires)"

section \<open>The two maps as inverses\<close>

definition sm_linked :: "session_map \<Rightarrow> bool" where
  "sm_linked m \<longleftrightarrow>
     distinct (map fst (sm_sessions m)) \<and> distinct (map (\<lambda>e. fst (snd e)) (sm_sessions m)) \<and>
     distinct (map fst (sm_ptrs m)) \<and>
     (\<forall>e \<in> set (sm_sessions m). fst (snd e) < sm_next m) \<and>
     (\<forall>fd n. map_of (sm_ptrs m) fd = Some n \<longleftrightarrow>
        (\<exists>e \<in> set (sm_sessions m). fst (snd e) = n \<and> ks_fd (snd (snd e)) = fd))"

lemma sm_linkedD:
  assumes "sm_linked m"
  shows "distinct (map fst (sm_sessions m))" "distinct (map (\<lambda>e. fst (snd e)) (sm_sessions m))"
    "distinct (map fst (sm_ptrs m))" "e \<in> set (sm_sessions m) \<Longrightarrow> fst (snd e) < sm_next m"
    "map_of (sm_ptrs m) fd = Some n \<longleftrightarrow> (\<exists>e \<in> set (sm_sessions m). fst (snd e) = n \<and> ks_fd (snd (snd e)) = fd)"
  using assms by (simp_all add: sm_linked_def)

lemma find_unique:
  assumes "distinct (map f xs)" and "x \<in> set xs"
  shows "find (\<lambda>y. f y = f x) xs = Some x"
  using assms
proof (induction xs)
  case (Cons y ys)
  then show ?case by (cases "y = x") (auto simp: image_iff)
qed simp

lemma deref_linked:
  assumes "sm_linked m" and "e \<in> set (sm_sessions m)"
  shows "deref m (fst (snd e)) = Inr (snd (snd e))"
  using find_unique [OF sm_linkedD(2) [OF assms(1)] assms(2)] by (simp add: deref_def)

lemma linked_at:
  assumes "sm_linked m" and "sm_has m fd"
  shows "\<exists>s. sm_at m fd = Inr s \<and> ks_fd s = fd"
proof -
  obtain n where n: "map_of (sm_ptrs m) fd = Some n" using assms(2) by (auto simp: sm_has_def)
  then obtain e where e: "e \<in> set (sm_sessions m)" "fst (snd e) = n" "ks_fd (snd (snd e)) = fd"
    using sm_linkedD(5) [OF assms(1)] by blast
  have "deref m n = Inr (snd (snd e))" using deref_linked [OF assms(1) e(1)] e(2) by simp
  with n e(3) show ?thesis by (simp add: sm_at_def)
qed

lemma linked_session_ptr:
  "sm_linked m \<Longrightarrow> e \<in> set (sm_sessions m) \<Longrightarrow> map_of (sm_ptrs m) (ks_fd (snd (snd e))) = Some (fst (snd e))"
  using sm_linkedD(5) by blast

lemma linked_fd_inj:
  assumes "sm_linked m" and "e \<in> set (sm_sessions m)" and "e' \<in> set (sm_sessions m)"
    and "ks_fd (snd (snd e)) = ks_fd (snd (snd e'))"
  shows "e = e'"
proof -
  have "fst (snd e) = fst (snd e')"
    using linked_session_ptr [OF assms(1,2)] linked_session_ptr [OF assms(1,3)] assms(4) by simp
  then show ?thesis
    using sm_linkedD(2) [OF assms(1)] assms(2,3) by (auto simp: distinct_map dest: inj_onD)
qed

text \<open>A rewriting of the sessions that keeps their names, nodes and descriptors.\<close>

lemma linked_map:
  assumes "sm_linked m"
    and g: "\<And>e. fst (g e) = fst e" "\<And>e. fst (snd (g e)) = fst (snd e)"
      "\<And>e. ks_fd (snd (snd (g e))) = ks_fd (snd (snd e))"
  shows "sm_linked (m\<lparr>sm_sessions := map g (sm_sessions m)\<rparr>)"
proof -
  have "map fst (map g xs) = map fst xs" "map (\<lambda>e. fst (snd e)) (map g xs) = map (\<lambda>e. fst (snd e)) xs" for xs
    by (simp_all add: g comp_def)
  moreover have "(\<exists>e \<in> set (map g xs). fst (snd e) = n \<and> ks_fd (snd (snd e)) = fd) \<longleftrightarrow>
      (\<exists>e \<in> set xs. fst (snd e) = n \<and> ks_fd (snd (snd e)) = fd)" for xs n fd
    by (simp add: g)
  moreover have "(\<forall>e \<in> set (map g xs). fst (snd e) < k) \<longleftrightarrow> (\<forall>e \<in> set xs. fst (snd e) < k)" for xs k
    by (simp add: g)
  ultimately show ?thesis
    using assms(1) unfolding sm_linked_def by (simp del: map_map set_map list.map)
qed

lemma change_node_linked:
  assumes "sm_linked m" and "\<And>s. ks_fd (f s) = ks_fd s"
  shows "sm_linked (change_node n f m)"
  unfolding change_node_def by (rule linked_map [OF assms(1)]) (use assms(2) in auto)

lemma sm_change_linked:
  assumes "sm_change fd f m = Inr m'" and "sm_linked m" and "\<And>s. ks_fd (f s) = ks_fd s"
  shows "sm_linked m'"
  using assms change_node_linked by (auto simp: sm_change_def bind_def split: option.splits sum.splits)

lemma change_node_split:
  assumes "sm_linked m" and "sm_sessions m = pre @ (name, n, k) # post"
  shows "change_node n f m = m\<lparr>sm_sessions := pre @ (name, n, f k) # post\<rparr>"
proof -
  have "fst (snd e) \<noteq> n" if "e \<in> set pre \<union> set post" for e
    using sm_linkedD(2) [OF assms(1)] that by (force simp: assms(2))
  then have "map (\<lambda>e. if fst (snd e) = n then (fst e, n, f (snd (snd e))) else e) xs = xs" if "set xs \<subseteq> set pre \<union> set post" for xs
    using that by (intro map_idI) auto
  then show ?thesis by (simp add: change_node_def assms(2))
qed

text \<open>A write through the pointer of a session's own descriptor changes that session only.\<close>

lemma sm_change_split:
  assumes "sm_linked m" and "sm_sessions m = pre @ (name, n, k) # post"
  shows "sm_change (ks_fd k) f m = Inr (m\<lparr>sm_sessions := pre @ (name, n, f k) # post\<rparr>)"
proof -
  have here: "(name, n, k) \<in> set (sm_sessions m)" using assms(2) by simp
  show ?thesis
    using linked_session_ptr [OF assms(1) here] deref_linked [OF assms(1) here] change_node_split [OF assms]
    by (simp add: sm_change_def)
qed

lemma linked_split:
  assumes "sm_linked m" and "sm_at m fd = Inr k"
  obtains pre name n post where "sm_sessions m = pre @ (name, n, k) # post" and "ks_fd k = fd"
proof -
  obtain n where n: "map_of (sm_ptrs m) fd = Some n" "deref m n = Inr k"
    using assms(2) by (auto simp: sm_at_def split: option.splits)
  then obtain e where e: "e \<in> set (sm_sessions m)" "fst (snd e) = n" "ks_fd (snd (snd e)) = fd"
    using sm_linkedD(5) [OF assms(1)] by blast
  then have "snd (snd e) = k" using deref_linked [OF assms(1) e(1)] n(2) by simp
  moreover obtain pre post where "sm_sessions m = pre @ e # post" using split_list [OF e(1)] by blast
  ultimately show ?thesis using that [of pre "fst e" n post] e(2,3) by (cases e) auto
qed

lemma sm_change_at:
  assumes "sm_linked m" and "sm_change fd f m = Inr m'" and "sm_at m fd = Inr k" and "\<And>k. ks_fd (f k) = ks_fd k"
  shows "sm_at m' fd = Inr (f k) \<and> sm_linked m'"
proof -
  obtain pre name n post where m: "sm_sessions m = pre @ (name, n, k) # post" "ks_fd k = fd"
    using linked_split [OF assms(1,3)] .
  have m': "m' = m\<lparr>sm_sessions := pre @ (name, n, f k) # post\<rparr>"
    using sm_change_split [OF assms(1) m(1), of f] assms(2) m(2) by simp
  have lk: "sm_linked m'" using sm_change_linked [OF assms(2,1,4)] .
  have here: "(name, n, f k) \<in> set (sm_sessions m')" using m' by simp
  show ?thesis
    using linked_session_ptr [OF lk here] deref_linked [OF lk here] lk m(2) assms(4) by (simp add: sm_at_def)
qed

section \<open>Which logins keep the maps linked\<close>

text \<open>
  A login fits if the user has no session and the descriptor no pointer, or if the user's session
  is no longer active and was on the same descriptor.
\<close>

definition login_fits :: "int \<Rightarrow> string \<Rightarrow> ksession \<Rightarrow> session_map \<Rightarrow> bool" where
  "login_fits now name s m = (case map_of (sm_sessions m) name of
     None \<Rightarrow> \<not> sm_has m (ks_fd s)
   | Some (_, old) \<Rightarrow> ks_fd s = ks_fd old \<and> \<not> logged_in now m (ks_user s))"

lemma ks_fd_notify [simp]: "ks_fd (session_notify now s) = ks_fd s"
  by (simp add: session_notify_def)

lemma new_login_linked:
  assumes "sm_linked m" and "map_of (sm_sessions m) name = None" and "\<not> sm_has m (ks_fd s)"
  shows "sm_linked (snd (sm_init now name s m))"
proof -
  have fresh: "name \<notin> fst ` set (sm_sessions m)" using assms(2) by (simp add: map_of_eq_None_iff)
  have node: "e \<in> set (sm_sessions m) \<Longrightarrow> fst (snd e) \<noteq> sm_next m" for e
    using sm_linkedD(4) [OF assms(1)] by fastforce
  have unused: "e \<in> set (sm_sessions m) \<Longrightarrow> ks_fd (snd (snd e)) \<noteq> ks_fd s" for e
    using linked_session_ptr [OF assms(1)] assms(3) by (metis option.distinct(1) sm_has_def)
  have less: "e \<in> set (sm_sessions m) \<Longrightarrow> fst (snd e) < Suc (sm_next m)" for e
    using sm_linkedD(4) [OF assms(1)] less_SucI by blast
  have ptr: "map_of (sm_ptrs m) (ks_fd s) = None" using assms(3) by (simp add: sm_has_def)
  show ?thesis
    using sm_linkedD(1-3,5) [OF assms(1)] fresh node unused less ptr
    by (fastforce simp: sm_linked_def sm_init_def assms(2) update_conv' distinct_update image_iff)
qed

lemma update_as_map:
  "distinct (map fst xs) \<Longrightarrow> k \<in> fst ` set xs \<Longrightarrow>
     AList.update k v xs = map (\<lambda>e. if fst e = k then (k, v) else e) xs"
proof (induction xs)
  case (Cons e xs)
  have rest: "map (\<lambda>e. if fst e = k then (k, v) else e) xs = xs" if "k \<notin> fst ` set xs"
    using that by (induction xs) auto
  show ?case using Cons rest by (cases e) auto
qed simp

lemma linked_entry:
  assumes "sm_linked m" and "map_of (sm_sessions m) name = Some (n, old)" and "e \<in> set (sm_sessions m)"
  shows "fst e = name \<longleftrightarrow> e = (name, n, old)" "fst (snd e) = n \<longleftrightarrow> e = (name, n, old)"
proof -
  have here: "(name, n, old) \<in> set (sm_sessions m)" using map_of_SomeD [OF assms(2)] by simp
  have "inj_on fst (set (sm_sessions m))" "inj_on (\<lambda>e. fst (snd e)) (set (sm_sessions m))"
    using sm_linkedD(1,2) [OF assms(1)] by (simp_all add: distinct_map)
  from inj_onD [OF this(1) _ assms(3) here] inj_onD [OF this(2) _ assms(3) here]
  show "fst e = name \<longleftrightarrow> e = (name, n, old)" "fst (snd e) = n \<longleftrightarrow> e = (name, n, old)" by auto
qed

lemma again_login_linked:
  assumes lk: "sm_linked m" and old: "map_of (sm_sessions m) name = Some (n, old)" and fd: "ks_fd s = ks_fd old"
    and out: "\<not> logged_in now m (ks_user s)"
  shows "sm_linked (snd (sm_init now name s m))"
proof -
  let ?g = "\<lambda>e. if e = (name, n, old) then (name, n, session_notify now s) else e"
  have here: "(name, n, old) \<in> set (sm_sessions m)" using map_of_SomeD [OF old] by simp
  then have ptr: "map_of (sm_ptrs m) (ks_fd s) = Some n" using linked_session_ptr [OF lk] fd by fastforce
  have name: "name \<in> fst ` set (sm_sessions m)" using here by force
  have "AList.update name (n, session_notify now s) (sm_sessions m) = map ?g (sm_sessions m)"
    unfolding update_as_map [OF sm_linkedD(1) [OF lk] name]
    by (rule map_cong [OF refl]) (simp add: linked_entry(1) [OF lk old])
  then have "snd (sm_init now name s m) = m\<lparr>sm_sessions := map ?g (sm_sessions m)\<rparr>"
    using ptr by (simp add: sm_init_def old out update_triv)
  moreover have "sm_linked (m\<lparr>sm_sessions := map ?g (sm_sessions m)\<rparr>)"
    by (rule linked_map [OF lk]) (use fd in auto)
  ultimately show ?thesis by simp
qed

lemma login_linked: "sm_linked m \<Longrightarrow> login_fits now name s m \<Longrightarrow> sm_linked (snd (sm_init now name s m))"
  using new_login_linked again_login_linked by (fastforce simp: login_fits_def split: option.splits prod.splits)

lemma set_delete: "set (AList.delete k xs) = {e \<in> set xs. fst e \<noteq> k}"
  by (induction xs) auto

lemma erase_linked:
  assumes lk: "sm_linked m"
  shows "sm_linked (sm_erase name m)"
proof (cases "map_of (sm_sessions m) name")
  case (Some ns)
  obtain n s where ns: "ns = (n, s)" by (cases ns)
  have here: "(name, n, s) \<in> set (sm_sessions m)" using map_of_SomeD [OF Some] ns by simp
  have rest: "set (AList.delete name (sm_sessions m)) = set (sm_sessions m) - {(name, n, s)}"
  proof -
    have "e \<in> set (sm_sessions m) \<and> fst e \<noteq> name \<longleftrightarrow> e \<in> set (sm_sessions m) \<and> e \<noteq> (name, n, s)" for e
      using linked_entry(1) [OF lk Some [unfolded ns], of e] by metis
    then show ?thesis by (simp add: set_delete set_eq_iff)
  qed
  have fd: "ks_fd (snd (snd e)) = ks_fd s \<longleftrightarrow> e = (name, n, s)" if "e \<in> set (sm_sessions m)" for e
    using linked_fd_inj [OF lk that here] by (metis snd_conv)
  have dist: "distinct (map f (AList.delete name (sm_sessions m)))" if "distinct (map f (sm_sessions m))" for f :: "_ \<Rightarrow> 'z"
    using that by (simp add: AList.delete_eq distinct_map_filter)
  have ptrs: "map_of (AList.delete (ks_fd s) (sm_ptrs m)) fd' = Some k \<longleftrightarrow>
      (\<exists>e \<in> set (AList.delete name (sm_sessions m)). fst (snd e) = k \<and> ks_fd (snd (snd e)) = fd')" for fd' k
  proof (cases "fd' = ks_fd s")
    case True
    then show ?thesis using fd by (simp add: delete_conv' rest)
  next
    case False
    then have "e \<noteq> (name, n, s)" if "ks_fd (snd (snd e)) = fd'" for e using that by auto
    then show ?thesis using sm_linkedD(5) [OF lk, of fd' k] False by (simp add: delete_conv' rest) blast
  qed
  show ?thesis
    using dist [OF sm_linkedD(1) [OF lk]] dist [OF sm_linkedD(2) [OF lk]] sm_linkedD(3,4) [OF lk] ptrs
    by (simp add: sm_linked_def sm_erase_def Some ns distinct_delete rest)
qed (simp add: sm_erase_def lk)

section \<open>Runs\<close>

text \<open>What the server does to the map, as long as every login fits.\<close>

inductive session_step :: "session_map \<Rightarrow> session_map \<Rightarrow> bool" where
  Login: "login_fits now name s m \<Longrightarrow> session_step m (snd (sm_init now name s m))"
| Erase: "session_step m (sm_erase name m)"
| Notify: "sm_change fd (session_notify now) m = Inr m' \<Longrightarrow> session_step m m'"
| Verify: "sm_change fd (session_verify now) m = Inr m' \<Longrightarrow> session_step m m'"
| Status: "sm_change fd (ks_status_update (\<lambda>_. st)) m = Inr m' \<Longrightarrow> session_step m m'"
| Sent: "sm_change fd (\<lambda>s. s\<lparr>ks_tx := ks_tx s + n\<rparr>) m = Inr m' \<Longrightarrow> session_step m m'"
| Received: "sm_change fd (\<lambda>s. s\<lparr>ks_rx := ks_rx s + n\<rparr>) m = Inr m' \<Longrightarrow> session_step m m'"

inductive session_run :: "session_map \<Rightarrow> bool" where
  Start: "session_run empty_sessions"
| Step: "session_run m \<Longrightarrow> session_step m m' \<Longrightarrow> session_run m'"

lemma session_step_linked: "session_step m m' \<Longrightarrow> sm_linked m \<Longrightarrow> sm_linked m'"
  by (erule session_step.cases)
    (auto intro: login_linked erase_linked elim: sm_change_linked simp: session_verify_def)

lemma session_run_linked: "session_run m \<Longrightarrow> sm_linked m"
  by (induction rule: session_run.induct)
    (simp add: sm_linked_def empty_sessions_def, blast intro: session_step_linked)

definition sample_login :: "string \<Rightarrow> int \<Rightarrow> ksession" where
  "sample_login name fd = new_session \<lparr>u_name = name, u_token = ''t''\<rparr> fd ''id''"

definition one_session :: session_map where
  "one_session = snd (sm_init 100 ''ann'' (sample_login ''ann'' 7) empty_sessions)"

lemmas session_sample_simps =
  one_session_def sample_login_def new_session_def empty_sessions_def sm_init_def session_notify_def
  sm_has_def sm_has_name_def sm_at_def deref_def logged_in_def session_active_def session_expired_def
  waiting_time_def TWENTY_SECONDS_def SESSION_ACTIVE_def SESSION_INACTIVE_def login_fits_def

lemma one_session_run: "session_run one_session"
  unfolding one_session_def
  by (rule session_run.Step [OF session_run.Start], rule session_step.Login)
    (simp add: login_fits_def empty_sessions_def sm_has_def)

section \<open>Properties\<close>

text \<open>
  C13: While every login fits (a new user on an unused descriptor, or a user whose session is no longer
  active on the descriptor it was on), every pointer of a descriptor leads to a session on that
  descriptor, and every session is reached through its own.
\<close>

theorem sessions_stay_linked:
  assumes "session_run m"
  shows "(sm_has m fd \<longleftrightarrow> (\<exists>e \<in> set (sm_sessions m). ks_fd (snd (snd e)) = fd)) \<and>
    (case sm_at m fd of Inl _ \<Rightarrow> \<not> sm_has m fd
     | Inr s \<Rightarrow> ks_fd s = fd \<and> (\<exists>name. sm_at_name m name = Inr s))"
proof (cases "map_of (sm_ptrs m) fd")
  case None
  have "\<not> (\<exists>e \<in> set (sm_sessions m). ks_fd (snd (snd e)) = fd)"
    using linked_session_ptr [OF session_run_linked [OF assms]] None by fastforce
  then show ?thesis by (simp add: sm_has_def sm_at_def None)
next
  case (Some n)
  have lk: "sm_linked m" by (rule session_run_linked [OF assms])
  obtain e where e: "e \<in> set (sm_sessions m)" "fst (snd e) = n" "ks_fd (snd (snd e)) = fd"
    using sm_linkedD(5) [OF lk] Some by blast
  obtain name s where es: "e = (name, n, s)" using e(2) by (cases e) auto
  have "sm_at m fd = Inr s" using deref_linked [OF lk e(1)] by (simp add: sm_at_def Some es)
  moreover have "sm_at_name m name = Inr s"
    using e(1) sm_linkedD(1) [OF lk] by (simp add: sm_at_name_def es)
  moreover have "sm_has m fd" using Some by (simp add: sm_has_def)
  moreover have "\<exists>e \<in> set (sm_sessions m). ks_fd (snd (snd e)) = fd" using e(1,3) by (rule bexI [rotated])
  ultimately show ?thesis using e(3) es by auto
qed

theorem sessions_stay_linked_witness:
  "sm_has one_session 7 \<and> (\<exists>s. sm_at one_session 7 = Inr s \<and> ks_fd s = 7) \<and> \<not> sm_has one_session 8"
  using sessions_stay_linked [OF one_session_run, of 7] sessions_stay_linked [OF one_session_run, of 8]
  by (simp add: session_sample_simps)

text \<open>
  A login of a user who is already logged in is refused, and the session of the first login is
  erased with it; its pointer stays, and whatever the first client sends next reads through a
  dangling pointer.
\<close>

theorem second_login_frees_session:
  assumes "session_run m" and "map_of (sm_sessions m) name = Some (n, s)"
    and "u_name (ks_user s) = name" and "session_active now s" and "u_name (ks_user again) = name"
  shows "fst (sm_init now name again m) = False \<and>
    \<not> sm_has_name (snd (sm_init now name again m)) name \<and>
    sm_has (snd (sm_init now name again m)) (ks_fd s) \<and>
    sm_at (snd (sm_init now name again m)) (ks_fd s) = Inl Undefined"
proof -
  have lk: "sm_linked m" by (rule session_run_linked [OF assms(1)])
  have here: "(name, n, s) \<in> set (sm_sessions m)" using map_of_SomeD [OF assms(2)] by simp
  have ptr: "map_of (sm_ptrs m) (ks_fd s) = Some n" using linked_session_ptr [OF lk here] by simp
  have "logged_in now m (ks_user again)" using here assms(3-5) by (force simp: logged_in_def)
  then have init: "sm_init now name again m = (False, m\<lparr>sm_sessions := AList.delete name (sm_sessions m)\<rparr>)"
    by (simp add: sm_init_def assms(2))
  have "fst (snd e) \<noteq> n" if "e \<in> set (sm_sessions m)" "fst e \<noteq> name" for e
    using linked_entry [OF lk assms(2) that(1)] that(2) by simp
  then have "find (\<lambda>e. fst (snd e) = n) (AList.delete name (sm_sessions m)) = None"
    by (simp only: find_None_iff set_delete) blast
  then show ?thesis
    by (simp add: init sm_has_name_def sm_has_def sm_at_def deref_def ptr delete_conv')
qed

theorem second_login_frees_session_witness:
  "fst (sm_init 110 ''ann'' (sample_login ''ann'' 8) one_session) = False \<and>
   sm_at (snd (sm_init 110 ''ann'' (sample_login ''ann'' 8) one_session)) 7 = Inl Undefined"
  using second_login_frees_session [OF one_session_run, of "''ann''" 0
    "session_notify 100 (sample_login ''ann'' 7)" 110 "sample_login ''ann'' 8"]
  by (simp add: session_sample_simps)

text \<open>
  A user whose session is no longer active and who logs in from another descriptor is reached
  from both: what arrives on the old descriptor is taken for the new session, until one of them is
  erased.
\<close>

theorem old_descriptor_follows_login:
  assumes "session_run m" and "map_of (sm_sessions m) name = Some (n, old)"
    and "\<not> logged_in now m (ks_user s)"
  shows "sm_at (snd (sm_init now name s m)) (ks_fd old) = Inr (session_notify now s) \<and>
    sm_at (snd (sm_init now name s m)) (ks_fd s) = Inr (session_notify now s)"
proof -
  have lk: "sm_linked m" by (rule session_run_linked [OF assms(1)])
  have here: "(name, n, old) \<in> set (sm_sessions m)" using map_of_SomeD [OF assms(2)] by simp
  have name: "name \<in> fst ` set (sm_sessions m)" using here by force
  have ptr: "map_of (sm_ptrs m) (ks_fd old) = Some n" using linked_session_ptr [OF lk here] by simp
  let ?g = "\<lambda>e. if e = (name, n, old) then (name, n, session_notify now s) else e"
  have up: "AList.update name (n, session_notify now s) (sm_sessions m) = map ?g (sm_sessions m)"
    unfolding update_as_map [OF sm_linkedD(1) [OF lk] name]
    by (rule map_cong [OF refl]) (simp add: linked_entry(1) [OF lk assms(2)])
  have "distinct (map (\<lambda>e. fst (snd e)) (map ?g (sm_sessions m)))"
  proof -
    have "map (\<lambda>e. fst (snd e)) (map ?g (sm_sessions m)) = map (\<lambda>e. fst (snd e)) (sm_sessions m)" by simp
    then show ?thesis using sm_linkedD(2) [OF lk] by (simp only:)
  qed
  then have "find (\<lambda>e. fst (snd e) = n) (map ?g (sm_sessions m)) = Some (name, n, session_notify now s)"
    using find_unique [of "\<lambda>e. fst (snd e)" "map ?g (sm_sessions m)" "(name, n, session_notify now s)"] here
    by force
  then show ?thesis
    by (simp add: sm_init_def assms(2,3) up sm_at_def deref_def update_conv' ptr)
qed

theorem old_descriptor_follows_login_witness:
  "sm_at (snd (sm_init 200 ''ann'' (sample_login ''ann'' 8) one_session)) 7 =
   sm_at (snd (sm_init 200 ''ann'' (sample_login ''ann'' 8) one_session)) 8"
  using old_descriptor_follows_login [OF one_session_run, of "''ann''" 0 "session_notify 100 (sample_login ''ann'' 7)"
    200 "sample_login ''ann'' 8"]
  by (simp add: session_sample_simps)

end
