(* ===== verification/ResultParser.thy ===== *)
theory ResultParser
  imports JsonTools PostExec
begin

text \<open>
  What the server reads from the output of its own applications, \<open>system/process/result_parser.cpp\<close>:
  one reader of JSON per application and the events it makes of what it read.

  A reader is a \<open>read\<close> that fills a fresh parser, here the list of its items, and a \<open>get_result\<close>.
  The text is parsed by rapidjson, the argument \<open>jp\<close> as in \<open>JsonTools\<close>; a member that is not what is
  asked for fails an assertion. A \<open>float\<close> is the 32 bits of its pattern; what the C++ library makes of
  texts and of numbers of a document is the argument \<open>floats\<close>.

  Shown: the events of an application have the numbers and the arguments their receivers index; the
  tokens, the emotions and the sentiment that one side writes are those the other reads; the result
  of an application that is not known is read through a null pointer.
\<close>

section \<open>Floats\<close>

type_synonym cfloat = "32 word"

record floats =
  fl_of_text :: "string \<Rightarrow> cfloat res"     \<comment> \<open>\<open>std::stof\<close>\<close>
  fl_to_text :: "cfloat \<Rightarrow> string"         \<comment> \<open>\<open>std::to_string\<close>\<close>
  fl_stream :: "cfloat \<Rightarrow> string"          \<comment> \<open>\<open>operator<<\<close>\<close>
  fl_of_json :: "json \<Rightarrow> cfloat"           \<comment> \<open>a number of a document as a float\<close>

definition PROCESS_RESEARCH_RESULT :: int where "PROCESS_RESEARCH_RESULT = 34"
definition PROCESS_RESEARCH :: int where "PROCESS_RESEARCH = 33"
definition PLATFORM_NEW_POST :: int where "PLATFORM_NEW_POST = 15"

definition SHOULD_REPOST :: string where "SHOULD_REPOST = ''true''"
definition PLATFORM_PROCESS_METHOD :: string where "PLATFORM_PROCESS_METHOD = ''process''"

section \<open>Reading\<close>

fun url_string :: "string list \<Rightarrow> string" where
  "url_string [] = []"
| "url_string [u] = u"
| "url_string (u # v # us) = u @ ''>'' @ url_string (v # us)"

text \<open>The walk over the members of an object; a later member of one name is read again.\<close>

fun read_members :: "(string \<Rightarrow> json \<Rightarrow> 'i \<Rightarrow> 'i res) \<Rightarrow> (string \<times> json) list \<Rightarrow> 'i \<Rightarrow> 'i res" where
  "read_members f [] i = Inr i"
| "read_members f (kv # kvs) i = bind (f (c_str (fst kv)) (snd kv) i) (read_members f kvs)"

text \<open>A text that is an array, and what each of its elements gives.\<close>

definition read_array :: "(json \<Rightarrow> 'i list res) \<Rightarrow> jparser \<Rightarrow> string \<Rightarrow> 'i list res" where
  "read_array f jp s =
     (case jp (c_str s) of Some (JArray vs) \<Rightarrow> bind (mapM f vs) (\<lambda>iss. Inr (concat iss)) | _ \<Rightarrow> Inr [])"

definition set_text :: "(string \<Rightarrow> 'i) \<Rightarrow> json \<Rightarrow> 'i res" where
  "set_text f v = bind (get_string v) (\<lambda>s. Inr (f s))"

definition doc_text :: "string \<Rightarrow> json \<Rightarrow> string res" where
  "doc_text k d = bind (json_member k d) (\<lambda>m. case m of None \<Rightarrow> Inr [] | Some v \<Rightarrow> get_string v)"

definition doc_texts :: "string \<Rightarrow> json \<Rightarrow> string list res" where
  "doc_texts k d = bind (json_member k d) (\<lambda>m.
     case m of None \<Rightarrow> Inr [] | Some v \<Rightarrow> bind (get_array v) (mapM get_string))"

fun get_uint :: "json \<Rightarrow> 32 word res" where
  "get_uint (JInt i) = (if 0 \<le> i \<and> i < 2 ^ 32 then Inr (word_of_int i) else Inl AssertFailed)"
| "get_uint _ = Inl AssertFailed"

fun get_int64 :: "json \<Rightarrow> int res" where
  "get_int64 (JInt i) = (if - (2 ^ 63) \<le> i \<and> i < 2 ^ 63 then Inr i else Inl AssertFailed)"
| "get_int64 _ = Inl AssertFailed"

fun get_float :: "floats \<Rightarrow> json \<Rightarrow> cfloat res" where
  "get_float fl (JInt i) = Inr (fl_of_json fl (JInt i))"
| "get_float fl (JReal ds) = Inr (fl_of_json fl (JReal ds))"
| "get_float fl _ = Inl AssertFailed"

definition GetNOOPResult :: "process_event list" where
  "GetNOOPResult = [(PROCESS_RESEARCH_RESULT, [])]"

section \<open>Named entities\<close>

record nlp_item =
  ni_type :: string
  ni_value :: string

definition ner_field :: "string \<Rightarrow> json \<Rightarrow> nlp_item \<Rightarrow> nlp_item res" where
  "ner_field k v i =
     (if k = ''type'' then set_text (\<lambda>s. i\<lparr>ni_type := s\<rparr>) v
      else if k = ''value'' then set_text (\<lambda>s. i\<lparr>ni_value := s\<rparr>) v
      else Inr i)"

definition ner_item :: "json \<Rightarrow> nlp_item list res" where
  "ner_item v = (let blank = \<lparr>ni_type = [], ni_value = []\<rparr> in
     case v of JObject kvs \<Rightarrow> bind (read_members ner_field kvs blank) (\<lambda>i. Inr [i]) | _ \<Rightarrow> Inr [blank])"

definition ner_read :: "jparser \<Rightarrow> string \<Rightarrow> nlp_item list res" where
  "ner_read jp s = read_array ner_item jp s"

definition ner_result :: "string \<Rightarrow> nlp_item list \<Rightarrow> process_event list" where
  "ner_result app items =
     (if items = [] then GetNOOPResult
      else map (\<lambda>i. (PROCESS_RESEARCH_RESULT, [app, ni_type i, ni_value i])) items)"

section \<open>Emotions\<close>

record emo_strings =
  es_joy :: string
  es_sadness :: string
  es_surprise :: string
  es_fear :: string
  es_anger :: string
  es_disgust :: string

record emotion_strings =
  en_emotions :: "string list"
  en_scores :: emo_strings

definition EmoStrings_vector :: "emo_strings \<Rightarrow> string list" where
  "EmoStrings_vector e = [es_joy e, es_sadness e, es_surprise e, es_fear e, es_anger e, es_disgust e]"

definition EmoStrings_str :: "emo_strings \<Rightarrow> string" where
  "EmoStrings_str e =
     ''Joy: '' @ es_joy e @ [newline] @ ''Sadness: '' @ es_sadness e @ [newline] @ ''Surprise: '' @ es_surprise e @ [newline] @
     ''Fear: '' @ es_fear e @ [newline] @ ''Anger: '' @ es_anger e @ [newline] @ ''Disgust: '' @ es_disgust e @ [newline]"

text \<open>The text is an object; what is missing in it is empty.\<close>

definition emotion_read :: "jparser \<Rightarrow> string \<Rightarrow> emotion_strings list res" where
  "emotion_read jp s = (case jp (c_str s) of
     Some (JObject kvs) \<Rightarrow> (let d = JObject kvs in
       bind (doc_text ''anger'' d) (\<lambda>anger. bind (doc_text ''disgust'' d) (\<lambda>disgust.
       bind (doc_text ''fear'' d) (\<lambda>fear. bind (doc_text ''joy'' d) (\<lambda>joy.
       bind (doc_text ''sadness'' d) (\<lambda>sadness. bind (doc_text ''surprise'' d) (\<lambda>surprise.
       bind (doc_texts ''emotions'' d) (\<lambda>emotions.
         Inr [\<lparr>en_emotions = emotions, en_scores = \<lparr>es_joy = joy, es_sadness = sadness, es_surprise = surprise,
                es_fear = fear, es_anger = anger, es_disgust = disgust\<rparr>\<rparr>]))))))))
   | _ \<Rightarrow> Inr [])"

definition emotion_result :: "string \<Rightarrow> emotion_strings list \<Rightarrow> process_event list" where
  "emotion_result app items =
     (if items = [] then GetNOOPResult
      else map (\<lambda>e. (PROCESS_RESEARCH_RESULT, app # EmoStrings_vector (en_scores e) @ en_emotions e)) items)"

record emotions =
  em_joy :: cfloat
  em_sadness :: cfloat
  em_surprise :: cfloat
  em_fear :: cfloat
  em_anger :: cfloat
  em_disgust :: cfloat

definition Emotions_vector :: "emotions \<Rightarrow> cfloat list" where
  "Emotions_vector e = [em_joy e, em_sadness e, em_surprise e, em_fear e, em_anger e, em_disgust e]"

record emotion =
  eo_emotions :: "string list"
  eo_scores :: emotions

text \<open>\<open>Create\<close> of an event's payload: the scores stand after the name of the application.\<close>

definition score_at :: "floats \<Rightarrow> string list \<Rightarrow> nat \<Rightarrow> cfloat res" where
  "score_at fl v i = bind (vec_nth v i) (fl_of_text fl)"

definition Emotion_Create :: "floats \<Rightarrow> string list \<Rightarrow> emotion res" where
  "Emotion_Create fl v =
     bind (score_at fl v 1) (\<lambda>joy. bind (score_at fl v 2) (\<lambda>sadness. bind (score_at fl v 3) (\<lambda>surprise.
     bind (score_at fl v 4) (\<lambda>fear. bind (score_at fl v 5) (\<lambda>anger. bind (score_at fl v 6) (\<lambda>disgust.
       Inr \<lparr>eo_emotions = drop 7 v, eo_scores = \<lparr>em_joy = joy, em_sadness = sadness, em_surprise = surprise,
              em_fear = fear, em_anger = anger, em_disgust = disgust\<rparr>\<rparr>))))))"

definition Emotions_str :: "floats \<Rightarrow> emotions \<Rightarrow> string" where
  "Emotions_str fl e =
     ''Joy: '' @ fl_to_text fl (em_joy e) @ [newline] @ ''Sadness: '' @ fl_to_text fl (em_sadness e) @ [newline] @
     ''Surprise: '' @ fl_to_text fl (em_surprise e) @ [newline] @ ''Fear: '' @ fl_to_text fl (em_fear e) @ [newline] @
     ''Anger: '' @ fl_to_text fl (em_anger e) @ [newline] @ ''Disgust: '' @ fl_to_text fl (em_disgust e) @ [newline]"

text \<open>The two last characters go, the comma and blank after the last name or, without one, the colon.\<close>

definition Emotion_str :: "floats \<Rightarrow> emotion \<Rightarrow> string" where
  "Emotion_str fl e =
     butlast (butlast (''Emotions: '' @ concat (map (\<lambda>n. n @ '', '') (eo_emotions e)))) @
     [newline] @ ''Scores: '' @ Emotions_str fl (eo_scores e)"

section \<open>Sentiment\<close>

type_synonym keyword = "string \<times> cfloat"

record sentiment =
  se_type :: string
  se_score :: cfloat
  se_keywords :: "keyword list"

definition Keyword_str :: "floats \<Rightarrow> keyword \<Rightarrow> string" where
  "Keyword_str fl k = ''Word: '' @ fst k @ [newline] @ ''Score: '' @ fl_to_text fl (snd k) @ [newline]"

definition Sentiment_str :: "floats \<Rightarrow> sentiment \<Rightarrow> string" where
  "Sentiment_str fl s = ''Type: '' @ se_type s @ [newline] @ ''Score: '' @ fl_to_text fl (se_score s) @ [newline] @
     concat (map (Keyword_str fl) (se_keywords s))"

definition Sentiment_GetPayload :: "floats \<Rightarrow> sentiment \<Rightarrow> string list" where
  "Sentiment_GetPayload fl s =
     [se_type s, fl_to_text fl (se_score s)] @ concat (map (\<lambda>k. [fst k, fl_to_text fl (snd k)]) (se_keywords s))"

text \<open>A word without a score is followed by a read past the end.\<close>

fun keywords_of :: "floats \<Rightarrow> string list \<Rightarrow> keyword list res" where
  "keywords_of fl [] = Inr []"
| "keywords_of fl [w] = Inl Undefined"
| "keywords_of fl (w # s # v) = bind (fl_of_text fl s) (\<lambda>f. bind (keywords_of fl v) (\<lambda>ks. Inr ((w, f) # ks)))"

definition Sentiment_Create :: "floats \<Rightarrow> string list \<Rightarrow> sentiment res" where
  "Sentiment_Create fl v =
     bind (vec_nth v 0) (\<lambda>type. bind (score_at fl v 1) (\<lambda>score. bind (keywords_of fl (drop 2 v)) (\<lambda>ks.
       Inr \<lparr>se_type = type, se_score = score, se_keywords = ks\<rparr>)))"

definition needed :: "string \<Rightarrow> json \<Rightarrow> json res" where
  "needed k d = bind (json_member k d) (\<lambda>m. case m of None \<Rightarrow> Inl AssertFailed | Some v \<Rightarrow> Inr v)"

definition sentiment_keyword :: "floats \<Rightarrow> json \<Rightarrow> keyword res" where
  "sentiment_keyword fl v = bind (bind (needed ''word'' v) get_string) (\<lambda>w.
     bind (bind (needed ''score'' v) (get_float fl)) (\<lambda>f. Inr (w, f)))"

definition sentiment_read :: "floats \<Rightarrow> jparser \<Rightarrow> string \<Rightarrow> sentiment list res" where
  "sentiment_read fl jp s = (case jp (c_str s) of
     Some (JObject kvs) \<Rightarrow>
       bind (doc_text ''type'' (JObject kvs)) (\<lambda>type.
       bind (case map_of kvs ''score'' of None \<Rightarrow> Inr 0 | Some v \<Rightarrow> get_float fl v) (\<lambda>score.
       bind (case map_of kvs ''keywords'' of None \<Rightarrow> Inr []
             | Some v \<Rightarrow> bind (get_array v) (mapM (sentiment_keyword fl))) (\<lambda>ks.
         Inr [\<lparr>se_type = type, se_score = score, se_keywords = ks\<rparr>])))
   | _ \<Rightarrow> Inr [])"

definition sentiment_result :: "floats \<Rightarrow> sentiment list \<Rightarrow> process_event list" where
  "sentiment_result fl items =
     (if items = [] then GetNOOPResult else map (\<lambda>s. (PROCESS_RESEARCH_RESULT, Sentiment_GetPayload fl s)) items)"

section \<open>Feeds\<close>

record ig_item =
  ig_time :: string
  ig_pk :: "32 word"
  ig_id :: string
  ig_username :: string
  ig_content :: string
  ig_urls :: "string list"

definition blank_ig :: ig_item where
  "blank_ig = \<lparr>ig_time = [], ig_pk = 0, ig_id = [], ig_username = [], ig_content = [], ig_urls = []\<rparr>"

definition ig_field :: "string \<Rightarrow> json \<Rightarrow> ig_item \<Rightarrow> ig_item res" where
  "ig_field k v i =
     (if k = ''time'' then set_text (\<lambda>s. i\<lparr>ig_time := s\<rparr>) v
      else if k = ''pk'' then bind (get_uint v) (\<lambda>n. Inr (i\<lparr>ig_pk := n\<rparr>))
      else if k = ''id'' then set_text (\<lambda>s. i\<lparr>ig_id := s\<rparr>) v
      else if k = ''username'' then set_text (\<lambda>s. i\<lparr>ig_username := s\<rparr>) v
      else if k = ''content'' then set_text (\<lambda>s. i\<lparr>ig_content := s\<rparr>) v
      else if k = ''urls''
      then (case v of JArray us \<Rightarrow> bind (mapM get_string us) (\<lambda>us. Inr (i\<lparr>ig_urls := ig_urls i @ us\<rparr>)) | _ \<Rightarrow> Inr i)
      else Inr i)"

definition ig_element :: "json \<Rightarrow> ig_item list res" where
  "ig_element v = (case v of JObject kvs \<Rightarrow> bind (read_members ig_field kvs blank_ig) (\<lambda>i. Inr [i]) | _ \<Rightarrow> Inr [blank_ig])"

definition ig_read :: "jparser \<Rightarrow> string \<Rightarrow> ig_item list res" where
  "ig_read jp s = read_array ig_element jp s"

text \<open>The payload of a new post.\<close>

definition post_event :: "int \<Rightarrow> string \<Rightarrow> string \<Rightarrow> string \<Rightarrow> string \<Rightarrow> string \<Rightarrow> string \<Rightarrow> process_event" where
  "post_event code app id1 user time content urls =
     (code, [app, id1, user, time, content, urls, SHOULD_REPOST, PLATFORM_PROCESS_METHOD])"

definition ig_result :: "string \<Rightarrow> ig_item list \<Rightarrow> process_event list" where
  "ig_result app items = map (\<lambda>i.
     post_event PLATFORM_NEW_POST app (ig_id i) (ig_username i) (ig_time i) (ig_content i) (url_string (ig_urls i))) items"

record yt_item =
  yt_id :: string
  yt_channel_id :: string
  yt_datetime :: string
  yt_title :: string
  yt_description :: string
  yt_keywords :: "string list"

definition blank_yt :: yt_item where
  "blank_yt = \<lparr>yt_id = [], yt_channel_id = [], yt_datetime = [], yt_title = [], yt_description = [], yt_keywords = []\<rparr>"

definition yt_field :: "string \<Rightarrow> json \<Rightarrow> yt_item \<Rightarrow> yt_item res" where
  "yt_field k v i =
     (if k = ''channel_id'' then set_text (\<lambda>s. i\<lparr>yt_channel_id := s\<rparr>) v
      else if k = ''datetime'' then set_text (\<lambda>s. i\<lparr>yt_datetime := s\<rparr>) v
      else if k = ''id'' then set_text (\<lambda>s. i\<lparr>yt_id := s\<rparr>) v
      else if k = ''description'' then set_text (\<lambda>s. i\<lparr>yt_description := s\<rparr>) v
      else if k = ''keywords'' \<and> (case v of JArray _ \<Rightarrow> True | _ \<Rightarrow> False)
      then bind (get_array v) (\<lambda>ws. bind (mapM get_string ws) (\<lambda>ws. Inr (i\<lparr>yt_keywords := yt_keywords i @ ws\<rparr>)))
      else if k = ''title'' then set_text (\<lambda>s. i\<lparr>yt_title := s\<rparr>) v
      else Inr i)"

definition yt_element :: "json \<Rightarrow> yt_item list res" where
  "yt_element v = (case v of JObject kvs \<Rightarrow> bind (read_members yt_field kvs blank_yt) (\<lambda>i. Inr [i]) | _ \<Rightarrow> Inr [])"

definition yt_read :: "jparser \<Rightarrow> string \<Rightarrow> yt_item list res" where
  "yt_read jp s = read_array yt_element jp s"

definition yt_content :: "yt_item \<Rightarrow> string" where
  "yt_content i = ''New video has been uploaded. Hope you find it useful!'' @ [newline] @
     ''https://youtube.com/watch?v='' @ yt_id i @ [newline, newline] @
     concat (map (\<lambda>w. '' #'' @ w) (take 8 (yt_keywords i)))"

definition yt_result :: "string \<Rightarrow> yt_item list \<Rightarrow> process_event list" where
  "yt_result app items = map (\<lambda>i.
     post_event PLATFORM_NEW_POST app (yt_id i) ''DEFAULT_USER'' (yt_datetime i) (yt_content i) []) items"

record tw_item =
  ti_id :: string
  ti_time :: string
  ti_date :: string
  ti_hashtags :: string
  ti_mentions :: string
  ti_user :: string
  ti_likes :: string
  ti_retweets :: string
  ti_content :: string
  ti_urls :: string

definition blank_tw :: tw_item where
  "blank_tw = \<lparr>ti_id = [], ti_time = [], ti_date = [], ti_hashtags = [], ti_mentions = [], ti_user = [],
     ti_likes = [], ti_retweets = [], ti_content = [], ti_urls = []\<rparr>"

definition tw_field :: "string \<Rightarrow> json \<Rightarrow> tw_item \<Rightarrow> tw_item res" where
  "tw_field k v i =
     (if k = ''id'' then set_text (\<lambda>s. i\<lparr>ti_id := s\<rparr>) v
      else if k = ''content'' then set_text (\<lambda>s. i\<lparr>ti_content := s\<rparr>) v
      else if k = ''date'' then set_text (\<lambda>s. i\<lparr>ti_date := s\<rparr>) v
      else if k = ''time'' then set_text (\<lambda>s. i\<lparr>ti_time := s\<rparr>) v
      else if k = ''user'' then set_text (\<lambda>s. i\<lparr>ti_user := s\<rparr>) v
      else if k = ''likes'' then set_text (\<lambda>s. i\<lparr>ti_likes := s\<rparr>) v
      else if k = ''retweets'' then set_text (\<lambda>s. i\<lparr>ti_retweets := s\<rparr>) v
      else if k = ''hashtags'' then set_text (\<lambda>s. i\<lparr>ti_hashtags := s\<rparr>) v
      else if k = ''mentions'' then set_text (\<lambda>s. i\<lparr>ti_mentions := s\<rparr>) v
      else if k = ''urls'' then set_text (\<lambda>s. i\<lparr>ti_urls := s\<rparr>) v
      else Inr i)"

definition tw_element :: "json \<Rightarrow> tw_item list res" where
  "tw_element v = (case v of JObject kvs \<Rightarrow> bind (read_members tw_field kvs blank_tw) (\<lambda>i. Inr [i]) | _ \<Rightarrow> Inr [])"

definition tw_read :: "jparser \<Rightarrow> string \<Rightarrow> tw_item list res" where
  "tw_read jp s = read_array tw_element jp s"

definition TW_ReadEventData :: "tw_item \<Rightarrow> string \<Rightarrow> int \<Rightarrow> process_event" where
  "TW_ReadEventData i app code = post_event code app (ti_id i) (ti_user i) (ti_time i)
     (ti_content i @ (if ti_hashtags i = [] then [] else newline # ti_hashtags i)) (ti_urls i)"

definition tw_result :: "string \<Rightarrow> tw_item list \<Rightarrow> process_event list" where
  "tw_result app items = map (\<lambda>i. TW_ReadEventData i app PLATFORM_NEW_POST) items"

definition tw_research_result :: "string \<Rightarrow> tw_item list \<Rightarrow> process_event list" where
  "tw_research_result app items = map (\<lambda>i. TW_ReadEventData i app PROCESS_RESEARCH) items"

record kt_item =
  kt_id :: string
  kt_date :: string
  kt_user :: string
  kt_text :: string
  kt_media :: "string list"

text \<open>A date of thirteen characters is one in milliseconds.\<close>

definition kt_get_date :: "int \<Rightarrow> string" where
  "kt_get_date t = (let s = int_to_string t in if length s = 13 then take 10 s else s)"

definition kt_object :: "json \<Rightarrow> kt_item res" where
  "kt_object d =
     bind (doc_text ''id'' d) (\<lambda>id1. bind (doc_text ''text'' d) (\<lambda>text1.
     bind (bind (json_member ''date'' d) (\<lambda>m. case m of None \<Rightarrow> Inr []
           | Some v \<Rightarrow> bind (get_int64 v) (\<lambda>t. Inr (kt_get_date t)))) (\<lambda>date.
     bind (doc_text ''user'' d) (\<lambda>user. bind (doc_texts ''media'' d) (\<lambda>media.
       Inr \<lparr>kt_id = id1, kt_date = date, kt_user = user, kt_text = text1, kt_media = media\<rparr>)))))"

definition kt_element :: "json \<Rightarrow> kt_item list res" where
  "kt_element v = (case v of JObject kvs \<Rightarrow> bind (kt_object v) (\<lambda>i. Inr [i]) | _ \<Rightarrow> Inr [])"

definition kt_read :: "jparser \<Rightarrow> string \<Rightarrow> kt_item list res" where
  "kt_read jp s = (case jp (c_str s) of
     Some (JObject kvs) \<Rightarrow> kt_element (JObject kvs) | _ \<Rightarrow> read_array kt_element jp s)"

definition kt_result :: "string \<Rightarrow> kt_item list \<Rightarrow> process_event list" where
  "kt_result app items = map (\<lambda>i.
     post_event PLATFORM_NEW_POST app (kt_id i) ''DEFAULT_USER'' (kt_date i) (kt_text i) (url_string (kt_media i))) items"

text \<open>The static \<open>ReadEventData\<close> of the parser, which takes the item of another.\<close>

definition KT_ReadEventData :: "tw_item \<Rightarrow> string \<Rightarrow> int \<Rightarrow> process_event" where
  "KT_ReadEventData i app code = post_event code app (ti_id i) (ti_user i) (ti_time i)
     ((if ti_mentions i = [] then [] else ti_mentions i @ [newline]) @ ti_content i @
      (if ti_hashtags i = [] then [] else newline # ti_hashtags i)) (ti_urls i)"

section \<open>Polls\<close>

record vote_item =
  vi_option :: string
  vi_votes :: int

definition vote_field :: "string \<Rightarrow> json \<Rightarrow> vote_item \<Rightarrow> vote_item res" where
  "vote_field k v i =
     (if k = ''option'' then set_text (\<lambda>s. i\<lparr>vi_option := s\<rparr>) v
      else if k = ''value'' then bind (get_int64 v) (\<lambda>n. Inr (i\<lparr>vi_votes := n\<rparr>))
      else Inr i)"

definition vote_element :: "json \<Rightarrow> vote_item list res" where
  "vote_element v = (let blank = \<lparr>vi_option = [], vi_votes = 0\<rparr> in
     case v of JObject kvs \<Rightarrow> bind (read_members vote_field kvs blank) (\<lambda>i. Inr [i]) | _ \<Rightarrow> Inr [blank])"

definition poll_read :: "jparser \<Rightarrow> string \<Rightarrow> vote_item list res" where
  "poll_read jp s = read_array vote_element jp s"

definition poll_result :: "vote_item list \<Rightarrow> process_event list" where
  "poll_result items = [(PROCESS_RESEARCH_RESULT, map (\<lambda>i. int_to_string (vi_votes i)) items)]"

section \<open>The choice of the reader\<close>

text \<open>For another application the pointer to the reader stays null, and is read through.\<close>

definition process_app :: "floats \<Rightarrow> jparser \<Rightarrow> string \<Rightarrow> kapplication \<Rightarrow> process_event list res" where
  "process_app fl jp out app = (let name = app_name app in
     if \<not> app_is_kiq app then Inl Undefined
     else if name = ''IG Feed'' then bind (ig_read jp out) (\<lambda>is. Inr (ig_result name is))
     else if name = ''YT Feed'' then bind (yt_read jp out) (\<lambda>is. Inr (yt_result name is))
     else if name = ''TW Feed'' \<or> name = ''TW Search'' then bind (tw_read jp out) (\<lambda>is. Inr (tw_result name is))
     else if name = ''TW Research'' then bind (tw_read jp out) (\<lambda>is. Inr (tw_research_result name is))
     else if name = ''KNLP - NER'' then bind (ner_read jp out) (\<lambda>is. Inr (ner_result name is))
     else if name = ''KNLP - Emotion'' then bind (emotion_read jp out) (\<lambda>is. Inr (emotion_result name is))
     else if name = ''KNLP - Sentiment'' then bind (sentiment_read fl jp out) (\<lambda>is. Inr (sentiment_result fl is))
     else if name = ''KETTR'' then bind (kt_read jp out) (\<lambda>is. Inr (kt_result name is))
     else Inl Undefined)"

definition process_poll :: "jparser \<Rightarrow> string \<Rightarrow> process_event list res" where
  "process_poll jp out = bind (poll_read jp out) (\<lambda>is. Inr (poll_result is))"

section \<open>What the receivers read\<close>

text \<open>The events an application may give, as their receivers index them.\<close>

definition event_fits :: "string \<Rightarrow> process_event \<Rightarrow> bool" where
  "event_fits name e \<longleftrightarrow>
     (if fst e = PROCESS_RESEARCH_RESULT
      then snd e = [] \<or>
        (if name = ''KNLP - NER'' then length (snd e) = 3
         else if name = ''KNLP - Emotion'' then 7 \<le> length (snd e)
         else name = ''KNLP - Sentiment'' \<and> 2 \<le> length (snd e) \<and> even (length (snd e)))
      else fst e = (if name = ''TW Research'' then PROCESS_RESEARCH else PLATFORM_NEW_POST) \<and>
        length (snd e) = 8 \<and> hd (snd e) = name)"

lemmas event_codes = PROCESS_RESEARCH_RESULT_def PROCESS_RESEARCH_def PLATFORM_NEW_POST_def

lemma post_event_fits:
  "event_fits name (post_event (if name = ''TW Research'' then PROCESS_RESEARCH else PLATFORM_NEW_POST) name a b c d e)"
  by (simp add: event_fits_def post_event_def event_codes)

lemma noop_fits: "e \<in> set GetNOOPResult \<Longrightarrow> event_fits name e"
  by (simp add: event_fits_def GetNOOPResult_def)

lemma payload_even: "even (length (Sentiment_GetPayload fl s))"
proof -
  have "even (length (concat (map (\<lambda>k. [fst k, fl_to_text fl (snd k)]) ks)))" for ks :: "keyword list"
    by (induction ks) simp_all
  then show ?thesis by (simp add: Sentiment_GetPayload_def)
qed

lemma post_fits:
  "name \<noteq> ''TW Research'' \<Longrightarrow> event_fits name (post_event PLATFORM_NEW_POST name a b c d e)"
  "event_fits ''TW Research'' (post_event PROCESS_RESEARCH ''TW Research'' a b c d e)"
  using post_event_fits [of name a b c d e] post_event_fits [of "''TW Research''" a b c d e] by simp_all

lemma feed_results_fit:
  assumes "name \<noteq> ''TW Research''"
  shows "e \<in> set (ig_result name is) \<Longrightarrow> event_fits name e" "e \<in> set (yt_result name ys) \<Longrightarrow> event_fits name e"
    "e \<in> set (tw_result name ts) \<Longrightarrow> event_fits name e" "e \<in> set (kt_result name ks) \<Longrightarrow> event_fits name e"
  using assms by (auto simp: ig_result_def yt_result_def tw_result_def kt_result_def TW_ReadEventData_def post_fits)

lemma research_results_fit:
  "e \<in> set (tw_research_result ''TW Research'' ts) \<Longrightarrow> event_fits ''TW Research'' e"
  "e \<in> set (ner_result ''KNLP - NER'' ns) \<Longrightarrow> event_fits ''KNLP - NER'' e"
  "e \<in> set (emotion_result ''KNLP - Emotion'' es) \<Longrightarrow> event_fits ''KNLP - Emotion'' e"
  "e \<in> set (sentiment_result fl ss) \<Longrightarrow> event_fits ''KNLP - Sentiment'' e"
  by (auto simp: tw_research_result_def TW_ReadEventData_def post_fits ner_result_def emotion_result_def
      sentiment_result_def EmoStrings_vector_def noop_fits payload_even split: if_splits)
    (auto simp: event_fits_def EmoStrings_vector_def payload_even, simp add: Sentiment_GetPayload_def)

section \<open>Properties\<close>

text \<open>
  C40: whatever an application writes, the events made of it have the shape their receivers index: a
  new post or a sentence to study has eight arguments, the first of them the application's name; a
  token has three, emotions at least seven, a sentiment a type, a score and pairs; or the event is
  empty.
\<close>

theorem events_fit_receivers:
  assumes "process_app fl jp out app = Inr evs" and "e \<in> set evs"
  shows "event_fits (app_name app) e"
  using assms feed_results_fit [of "app_name app" e] research_results_fit [of e]
  by (auto simp: process_app_def Let_def bind_eq_Inr split: if_splits)

definition no_floats :: floats where
  "no_floats = \<lparr>fl_of_text = (\<lambda>_. Inr 0), fl_to_text = (\<lambda>_. ''0.000000''), fl_stream = (\<lambda>_. ''0''), fl_of_json = (\<lambda>_. 0)\<rparr>"

theorem events_fit_receivers_witness:
  "event_fits ''TW Research'' (PROCESS_RESEARCH, [''TW Research'', ''1'', ''bob'', [], ''hi'' @ [newline] @ ''#a'', [], ''true'', ''process''])"
proof -
  let ?doc = "JArray [JObject [(''id'', JString ''1''), (''user'', JString ''bob''), (''content'', JString ''hi''), (''hashtags'', JString ''#a'')]]"
  have "process_app no_floats (\<lambda>_. Some ?doc) ''x'' (empty_app\<lparr>app_name := ''TW Research'', app_is_kiq := True\<rparr>) =
      Inr [(PROCESS_RESEARCH, [''TW Research'', ''1'', ''bob'', [], ''hi'' @ [newline] @ ''#a'', [], ''true'', ''process''])]"
    by (simp add: process_app_def Let_def tw_read_def read_array_def tw_element_def tw_field_def set_text_def
        tw_research_result_def TW_ReadEventData_def post_event_def blank_tw_def SHOULD_REPOST_def PLATFORM_PROCESS_METHOD_def)
  from events_fit_receivers [OF this] show ?thesis by simp
qed

text \<open>The texts of a sentiment's numbers are read back as they were.\<close>

definition sentiment_readable :: "floats \<Rightarrow> sentiment \<Rightarrow> bool" where
  "sentiment_readable fl s \<longleftrightarrow> list_all (\<lambda>f. fl_of_text fl (fl_to_text fl f) = Inr f) (se_score s # map snd (se_keywords s))"

lemma keywords_read_back:
  "list_all (\<lambda>f. fl_of_text fl (fl_to_text fl f) = Inr f) (map snd ks) \<Longrightarrow>
     keywords_of fl (concat (map (\<lambda>k. [fst k, fl_to_text fl (snd k)]) ks)) = Inr ks"
  by (induction ks) auto

interpretation sentiment_codec: wire_codec "Sentiment_GetPayload fl" "Sentiment_Create fl" "sentiment_readable fl" for fl
  by unfold_locales (simp add: sentiment_readable_def Sentiment_GetPayload_def Sentiment_Create_def score_at_def
      keywords_read_back vec_nth_def)

text \<open>
  What the study reads from the event of a sentiment is the sentiment that was read from the
  application's output, its words in their order, if the library reads the texts it writes of the
  scores; from the empty event that stands for no result it reads past the end.
\<close>

theorem sentiment_is_read_back:
  assumes "sentiment_readable fl s"
  shows "map (\<lambda>e. Sentiment_Create fl (snd e)) (sentiment_result fl [s]) = [Inr s] \<and>
    map (\<lambda>e. Sentiment_Create fl (snd e)) (sentiment_result fl []) = [Inl Undefined]"
  using sentiment_codec.dec_enc [OF assms] by (simp add: sentiment_result_def GetNOOPResult_def Sentiment_Create_def)

theorem sentiment_is_read_back_witness:
  "map (\<lambda>e. Sentiment_Create no_floats (snd e))
     (sentiment_result no_floats [\<lparr>se_type = ''positive'', se_score = 0, se_keywords = [(''good'', 0)]\<rparr>]) =
   [Inr \<lparr>se_type = ''positive'', se_score = 0, se_keywords = [(''good'', 0)]\<rparr>]"
  using sentiment_is_read_back [of no_floats "\<lparr>se_type = ''positive'', se_score = 0, se_keywords = [(''good'', 0)]\<rparr>"]
  by (simp add: sentiment_readable_def no_floats_def)

text \<open>
  The emotions of an event are read back with every score at its name, and the names that follow
  the scores.
\<close>

theorem emotions_are_read_back:
  assumes "map (fl_of_text fl) (EmoStrings_vector (en_scores e)) = map Inr [joy, sadness, surprise, fear, anger, disgust]"
  shows "map (\<lambda>v. Emotion_Create fl (snd v)) (emotion_result app [e]) =
    [Inr \<lparr>eo_emotions = en_emotions e, eo_scores = \<lparr>em_joy = joy, em_sadness = sadness, em_surprise = surprise,
       em_fear = fear, em_anger = anger, em_disgust = disgust\<rparr>\<rparr>]"
  using assms by (simp add: emotion_result_def Emotion_Create_def score_at_def EmoStrings_vector_def vec_nth_def)

theorem emotions_are_read_back_witness:
  "map (\<lambda>v. Emotion_Create no_floats (snd v)) (emotion_result ''KNLP - Emotion'' [\<lparr>en_emotions = [''joy''],
     en_scores = \<lparr>es_joy = ''0.9'', es_sadness = ''0.1'', es_surprise = ''0'', es_fear = ''0'', es_anger = ''0'', es_disgust = ''0''\<rparr>\<rparr>]) =
   [Inr \<lparr>eo_emotions = [''joy''], eo_scores = \<lparr>em_joy = 0, em_sadness = 0, em_surprise = 0, em_fear = 0, em_anger = 0, em_disgust = 0\<rparr>\<rparr>]"
  using emotions_are_read_back [of no_floats "\<lparr>en_emotions = [''joy''],
     en_scores = \<lparr>es_joy = ''0.9'', es_sadness = ''0.1'', es_surprise = ''0'', es_fear = ''0'', es_anger = ''0'', es_disgust = ''0''\<rparr>\<rparr>"
     0 0 0 0 0 0 "''KNLP - Emotion''"]
  by (simp add: EmoStrings_vector_def no_floats_def)

text \<open>The document of a list of tokens, each with other members around the two that are read.\<close>

definition ner_doc :: "(nlp_item \<times> (string \<times> json) list) list \<Rightarrow> json" where
  "ner_doc ts = JArray (map (\<lambda>(i, others). JObject (others @ [(''type'', jstr (ni_type i)), (''value'', jstr (ni_value i))])) ts)"

lemma read_members_append: "read_members f (xs @ ys) i = bind (read_members f xs i) (read_members f ys)"
  by (induction xs arbitrary: i) (auto simp: bind_def split: sum.splits)

lemma ner_skips:
  "\<forall>kv \<in> set kvs. c_str (fst kv) \<notin> {''type'', ''value''} \<Longrightarrow> read_members ner_field kvs i = Inr i"
  by (induction kvs) (simp_all add: ner_field_def)

lemma ner_item_reads:
  assumes "\<forall>kv \<in> set others. c_str (fst kv) \<notin> {''type'', ''value''}"
  shows "ner_item (JObject (others @ [(''type'', jstr t), (''value'', jstr v)])) = Inr [\<lparr>ni_type = c_str t, ni_value = c_str v\<rparr>]"
  by (simp add: ner_item_def Let_def read_members_append ner_skips [OF assms] ner_field_def set_text_def)

text \<open>
  Of the tokens of the entity recogniser every one becomes an event of its own, in order, with
  the application's name, the type and the value; members of other names are passed over; of no
  token comes the empty event.
\<close>

theorem tokens_become_events:
  assumes "app_name app = ''KNLP - NER''" and "app_is_kiq app" and "jp (c_str out) = Some (ner_doc ts)"
    and "\<forall>t \<in> set ts. \<forall>kv \<in> set (snd t). c_str (fst kv) \<notin> {''type'', ''value''}"
  shows "process_app fl jp out app = Inr (if ts = [] then [(PROCESS_RESEARCH_RESULT, [])]
    else map (\<lambda>t. (PROCESS_RESEARCH_RESULT, [''KNLP - NER'', c_str (ni_type (fst t)), c_str (ni_value (fst t))])) ts)"
proof -
  let ?item = "\<lambda>t. \<lparr>ni_type = c_str (ni_type (fst t)), ni_value = c_str (ni_value (fst t))\<rparr>"
  have "mapM ner_item (map (\<lambda>(i, others). JObject (others @ [(''type'', jstr (ni_type i)), (''value'', jstr (ni_value i))])) ts)
      = Inr (map (\<lambda>t. [?item t]) ts)"
    using assms(4) by (induction ts) (auto simp: ner_item_reads)
  then have "ner_read jp out = Inr (map ?item ts)"
    using assms(3) by (simp add: ner_read_def read_array_def ner_doc_def comp_def)
  then show ?thesis
    using assms(1,2) by (simp add: process_app_def Let_def ner_result_def GetNOOPResult_def comp_def)
qed

theorem tokens_become_events_witness:
  "process_app no_floats (\<lambda>_. Some (ner_doc [(\<lparr>ni_type = ''PERSON'', ni_value = ''Ann''\<rparr>, [(''pos'', JInt 1)])])) ''x''
     (empty_app\<lparr>app_name := ''KNLP - NER'', app_is_kiq := True\<rparr>) =
   Inr [(PROCESS_RESEARCH_RESULT, [''KNLP - NER'', ''PERSON'', ''Ann''])]"
  using tokens_become_events [of "empty_app\<lparr>app_name := ''KNLP - NER'', app_is_kiq := True\<rparr>"
    "\<lambda>_. Some (ner_doc [(\<lparr>ni_type = ''PERSON'', ni_value = ''Ann''\<rparr>, [(''pos'', JInt 1)])])" "''x''"
    "[(\<lparr>ni_type = ''PERSON'', ni_value = ''Ann''\<rparr>, [(''pos'', JInt 1)])]" no_floats]
  by simp

end
