(* ===== verification/Research.thy ===== *)
theory Research
  imports SchedTasks Platform ResultParser
begin

text \<open>
  The research manager, \<open>system/process/research_manager.cpp\<close> and \<open>.hpp\<close>: which terms are taken from
  a text, the people, terms and hits of the database, the analysis that ends a study with a question
  to the people who rate it, and the rows of training data that their answers complete.

  The state extends that of the platforms with \<open>m_ml_generator\<close>. Not of this repository: the
  \<open>localtime\<close> behind \<open>DatabaseTime\<close>, the escaping JSON writer, conversions of floats; they are
  arguments. The entries of the map of inputs are a list, in an order the program leaves open.

  Shown: a term is taken if it has fewer than two at signs and none of the patterns; every row of a
  hit is read; a recorded term leaves one row with its identity and task; the training data has a
  row for each input or is not written at all, and the check that should prevent the latter never
  does.
\<close>

section \<open>Terms\<close>

text \<open>The loop of at most two searches, each after the last.\<close>

fun few_ats :: "nat \<Rightarrow> string \<Rightarrow> bool" where
  "few_ats 0 s = False"
| "few_ats (Suc i) s =
     (case find_char (CHR ''@'') s of None \<Rightarrow> True | Some p \<Rightarrow> few_ats i (drop (Suc p) s))"

definition REJECT_PATTERNS :: "string list" where
  "REJECT_PATTERNS = [''&amp;'', ''Thu Feb'', ''Wed Feb'', ''Sun Nov'', ''Wed Nov'',
     [CHR ''@'', CHR 0xE2, CHR 0x80, CHR 0xA6], ''Thu Oct'', ''//twitter .'']"

definition VerifyTerm :: "string \<Rightarrow> bool" where
  "VerifyTerm term \<longleftrightarrow> few_ats 2 term \<and> list_all (\<lambda>p. \<not> str_contains term p) REJECT_PATTERNS"

record term_event =
  te_id :: string
  te_user :: string
  te_person :: string
  te_organization :: string
  te_term :: string
  te_type :: string
  te_time :: string
  te_tid :: string

definition blank_event :: term_event where
  "blank_event = \<lparr>te_id = [], te_user = [], te_person = [], te_organization = [], te_term = [], te_type = [],
     te_time = [], te_tid = []\<rparr>"

definition te_valid :: "term_event \<Rightarrow> bool" where
  "te_valid e \<longleftrightarrow> te_id e \<noteq> []"

definition te_to_str :: "bool \<Rightarrow> term_event \<Rightarrow> string" where
  "te_to_str verbose e =
     (if verbose then ''ID  : '' @ te_id e @ [newline] @ ''Term: '' @ te_term e @ [newline] @
        ''Type: '' @ te_type e @ [newline] @ ''User: '' @ te_user e @ [newline] @
        ''Org : '' @ te_organization e @ [newline] @ ''Time: '' @ te_time e
      else te_term e @ '' of type '' @ te_type e @ '' by '' @ te_user e @ '' ('' @ te_person e @ '') from '' @
        te_organization e @ [newline])"

definition te_to_JSON :: "jwriter \<Rightarrow> term_event \<Rightarrow> string" where
  "te_to_JSON jw e = c_str (jw (JObject [(''id'', jstr (te_id e)), (''term'', jstr (te_term e)), (''type'', jstr (te_type e)),
     (''user'', jstr (te_user e)), (''person'', jstr (te_person e)), (''organization'', jstr (te_organization e)),
     (''time'', jstr (te_time e))]))"

record term_hit =
  th_id :: string
  th_person :: string
  th_user :: string
  th_organization :: string
  th_time :: string
  th_term :: string
  th_sid :: string

definition th_ToString :: "term_hit \<Rightarrow> string" where
  "th_ToString h = ''Person: '' @ th_person h @ [newline] @ ''User:   '' @ th_user h @ [newline] @
     ''Org:    '' @ th_organization h @ [newline] @ ''Time:   '' @ th_time h @ [newline]"

definition term_event_of :: "result_map \<Rightarrow> term_event res" where
  "term_event_of row =
     bind (map_at row ''term.id'') (\<lambda>i. bind (map_at row ''platform_user.name'') (\<lambda>u.
     bind (map_at row ''person.name'') (\<lambda>p. bind (map_at row ''organization.name'') (\<lambda>org.
     bind (map_at row ''term.name'') (\<lambda>n. bind (map_at row ''term.type'') (\<lambda>ty. bind (map_at row ''term_hit.time'') (\<lambda>t.
       Inr \<lparr>te_id = i, te_user = u, te_person = p, te_organization = org, te_term = n, te_type = ty, te_time = t,
            te_tid = []\<rparr>)))))))"

definition ParseTermEvents :: "result_map list \<Rightarrow> term_event list res" where
  "ParseTermEvents rows = mapM term_event_of rows"

section \<open>The database\<close>

definition exists_in :: "'db libs \<Rightarrow> string \<Rightarrow> string list \<Rightarrow> (('db, 'm) world_scheme, bool) act" where
  "exists_in x table args = with_filter args (\<lambda>flt. seq (kdb_select x table [''id''] flt) (\<lambda>rows. ret (rows \<noteq> [])))"

definition id_in :: "'db libs \<Rightarrow> string \<Rightarrow> string list \<Rightarrow> (('db, 'm) world_scheme, string) act" where
  "id_in x table args = with_filter args (\<lambda>flt. seq (kdb_select x table [''id''] flt) (\<lambda>rows. of_res (first_at ''id'' rows)))"

definition PersonExists :: "'db libs \<Rightarrow> string \<Rightarrow> (('db, 'm) world_scheme, bool) act" where
  "PersonExists x name = exists_in x ''person'' [''name'', name]"

text \<open>Users are looked for in the table of people.\<close>

definition rm_UserExists :: "'db libs \<Rightarrow> string \<Rightarrow> string \<Rightarrow> (('db, 'm) world_scheme, bool) act" where
  "rm_UserExists x name id1 = (if id1 = [] \<and> name = [] then ret False
     else exists_in x ''person'' [''id'', id1, ''name'', name])"

definition OrganizationExists :: "'db libs \<Rightarrow> string \<Rightarrow> (('db, 'm) world_scheme, bool) act" where
  "OrganizationExists x name = exists_in x ''organization'' [''name'', name]"

definition TermExists :: "'db libs \<Rightarrow> string \<Rightarrow> (('db, 'm) world_scheme, bool) act" where
  "TermExists x name = exists_in x ''term'' [''name'', name]"

definition AddPerson :: "'db libs \<Rightarrow> string \<Rightarrow> (('db, 'm) world_scheme, string) act" where
  "AddPerson x name = (if name = [] then ret [] else kdb_insert_returning x ''person'' [''name''] [name] ''id'')"

definition AddTermHit :: "'db libs \<Rightarrow> string \<Rightarrow> string \<Rightarrow> string \<Rightarrow> string \<Rightarrow> string \<Rightarrow> (('db, 'm) world_scheme, string) act" where
  "AddTermHit x tid uid pid oid time =
     (if tid = [] \<or> uid = [] \<or> pid = [] then raise InvalidArgument
      else kdb_insert_returning x ''term_hit''
        ([''tid'', ''uid'', ''pid''] @ (if oid \<noteq> [] then [''oid''] else []) @ (if time \<noteq> [] then [''time''] else []))
        ([tid, uid, pid] @ (if oid \<noteq> [] then [oid] else []) @ (if time \<noteq> [] then [time] else [])) ''id'')"

definition GetTerm :: "'db libs \<Rightarrow> string \<Rightarrow> (('db, 'm) world_scheme, string) act" where
  "GetTerm x term1 = id_in x ''term'' [''name'', term1]"

definition GetPerson :: "'db libs \<Rightarrow> string \<Rightarrow> (('db, 'm) world_scheme, string) act" where
  "GetPerson x name = id_in x ''person'' [''name'', name]"

definition inner_join :: "string \<Rightarrow> string \<Rightarrow> string \<Rightarrow> string \<Rightarrow> join" where
  "inner_join t f jt jf = \<lparr>j_table = t, j_field = f, j_join_table = jt, j_join_field = jf, j_type = INNER\<rparr>"

record person =
  pe_id :: string
  pe_name :: string

definition GetPersonForUID :: "'db libs \<Rightarrow> string \<Rightarrow> (('db, 'm) world_scheme, person) act" where
  "GetPersonForUID x uid =
     seq (of_res (QueryFilter_Add [] [''platform_user.id'', uid])) (\<lambda>flt.
     seq (kdb_selectSimpleJoin x ''platform_user'' [''platform_user.pers_id'', ''person.name''] flt
            (inner_join ''person'' ''id'' ''platform_user'' ''pers_id'')) (\<lambda>rows.
       of_res (case rows of [] \<Rightarrow> Inr \<lparr>pe_id = [], pe_name = []\<rparr>
         | row # _ \<Rightarrow> bind (map_at row ''platform_user.pers_id'') (\<lambda>i. bind (map_at row ''person.name'') (\<lambda>n.
             Inr \<lparr>pe_id = i, pe_name = n\<rparr>)))))"

record identity =
  idn_id :: string
  idn_name :: string
  idn_organization :: string

definition GetIdentity :: "'db libs \<Rightarrow> string \<Rightarrow> string \<Rightarrow> (('db, 'm) world_scheme, identity) act" where
  "GetIdentity x name pid =
     (if name = [] \<or> pid = [] then raise InvalidArgument
      else with_filter [''platform_user.name'', name, ''platform_user.pid'', pid] (\<lambda>flt.
        seq (kdb_selectJoin x ''platform_user'' [''platform_user.id'', ''platform_user.name'', ''organization.name''] flt
               [inner_join ''person'' ''id'' ''platform_user'' ''pers_id'', inner_join ''affiliation'' ''pid'' ''person'' ''id'',
                inner_join ''organization'' ''id'' ''affiliation'' ''oid'']) (\<lambda>rows.
          of_res (case rows of [] \<Rightarrow> Inr \<lparr>idn_id = [], idn_name = [], idn_organization = []\<rparr>
            | row # _ \<Rightarrow> bind (map_at row ''platform_user.id'') (\<lambda>i. bind (map_at row ''platform_user.name'') (\<lambda>n.
                bind (map_at row ''organization.name'') (\<lambda>org. Inr \<lparr>idn_id = i, idn_name = n, idn_organization = org\<rparr>)))))))"

definition rm_GetUser :: "'db libs \<Rightarrow> string \<Rightarrow> string \<Rightarrow> (('db, 'm) world_scheme, string) act" where
  "rm_GetUser x name pid =
     (if name = [] \<or> pid = [] then raise InvalidArgument else id_in x ''platform_user'' [''name'', name, ''pid'', pid])"

definition AddTerm :: "'db libs \<Rightarrow> string \<Rightarrow> string \<Rightarrow> (('db, 'm) world_scheme, string) act" where
  "AddTerm x name type = kdb_insert_returning x ''term'' [''name'', ''type''] [name, type] ''id''"

definition SaveTermHit :: "'db libs \<Rightarrow> nlp_item \<Rightarrow> string \<Rightarrow> string \<Rightarrow> (('db, 'm) world_scheme, string) act" where
  "SaveTermHit x term1 uid sid =
     seq (TermExists x (ni_value term1)) (\<lambda>there.
     seq (if there then GetTerm x (ni_value term1) else AddTerm x (ni_value term1) (ni_type term1)) (\<lambda>tid.
       kdb_insert_returning x ''term_hit'' [''tid'', ''uid'', ''sid''] [tid, uid, sid] ''id''))"

text \<open>The hits of a term: a query that fails has none, a row that lacks a column throws.\<close>

definition hit_of :: "string \<Rightarrow> result_map \<Rightarrow> term_hit res" where
  "hit_of term1 row =
     bind (map_at row ''term_hit.time'') (\<lambda>t. bind (map_at row ''person.name'') (\<lambda>p.
     bind (map_at row ''term_hit.id'') (\<lambda>i. bind (map_at row ''platform_user.name'') (\<lambda>u.
     bind (map_at row ''organization.name'') (\<lambda>org. bind (map_at row ''term_hit.sid'') (\<lambda>sid.
       Inr \<lparr>th_id = i, th_person = p, th_user = u, th_organization = org, th_time = t, th_term = term1, th_sid = sid\<rparr>))))))"

definition hit_fields :: "string list" where
  "hit_fields = [''term_hit.id'', ''term_hit.time'', ''term_hit.sid'', ''person.name'', ''platform_user.name'', ''organization.name'']"

definition hit_joins :: "join list" where
  "hit_joins = [inner_join ''platform_user'' ''id'' ''term_hit'' ''uid'', inner_join ''person'' ''id'' ''platform_user'' ''pers_id'',
     inner_join ''affiliation'' ''pid'' ''person'' ''id'', inner_join ''organization'' ''id'' ''affiliation'' ''oid'']"

definition hit_rows :: "'db libs \<Rightarrow> string \<Rightarrow> (('db, 'm) world_scheme, result_map list) act" where
  "hit_rows x tid = catch_all (with_filter [''term_hit.tid'', tid] (\<lambda>flt. kdb_selectJoin_filters x ''term_hit'' hit_fields [flt] hit_joins)) (ret [])"

definition GetTermHits :: "'db libs \<Rightarrow> string \<Rightarrow> (('db, 'm) world_scheme, term_hit list) act" where
  "GetTermHits x term1 =
     seq (TermExists x term1) (\<lambda>there.
     if \<not> there then ret []
     else seq (GetTerm x term1) (\<lambda>tid. seq (hit_rows x tid) (\<lambda>rows. of_res (mapM (hit_of term1) rows))))"

definition TermHasHits :: "'db libs \<Rightarrow> string \<Rightarrow> (('db, 'm) world_scheme, bool) act" where
  "TermHasHits x term1 = seq (GetTermHits x term1) (\<lambda>hits. ret (hits \<noteq> []))"

text \<open>A term that is not there has the empty id, which a filter leaves out: any hit of the time counts.\<close>

definition TermHitExists :: "'db libs \<Rightarrow> string \<Rightarrow> string \<Rightarrow> (('db, 'm) world_scheme, bool) act" where
  "TermHitExists x term1 time = seq (GetTerm x term1) (\<lambda>tid. exists_in x ''term_hit'' [''tid'', tid, ''time'', time])"

definition event_fields :: "string list" where
  "event_fields = [''term_hit.id'', ''term.id'', ''term.name'', ''term.type'', ''term_hit.time'', ''platform_user.name'',
     ''organization.name'', ''person.name'']"

definition event_joins :: "join list" where
  "event_joins = [inner_join ''platform_user'' ''id'' ''term_hit'' ''uid'', inner_join ''person'' ''id'' ''platform_user'' ''pers_id'',
     inner_join ''affiliation'' ''pid'' ''person'' ''id'', inner_join ''term'' ''id'' ''term_hit'' ''tid'',
     inner_join ''organization'' ''id'' ''affiliation'' ''oid'']"

definition GetAllTermEvents :: "'db libs \<Rightarrow> (('db, 'm) world_scheme, term_event list) act" where
  "GetAllTermEvents x = seq (kdb_selectJoin x ''term_hit'' event_fields [] event_joins) (\<lambda>rows. of_res (ParseTermEvents rows))"

section \<open>Recording a term\<close>

definition PlatformMaster :: "string \<rightharpoonup> string" where
  "PlatformMaster = map_of [(''TW Research'', ''Twitter''), (''TW Search'', ''Twitter'')]"

definition GetBasePlatform :: "string \<Rightarrow> string res" where
  "GetBasePlatform name = map_at PlatformMaster name"

definition HasBasePlatform :: "string \<Rightarrow> bool" where
  "HasBasePlatform name = (case GetBasePlatform name of Inl _ \<Rightarrow> False | Inr base \<Rightarrow> base \<noteq> [])"

definition DatabaseTime :: "(int \<Rightarrow> string) \<Rightarrow> string \<Rightarrow> string res" where
  "DatabaseTime localtime unixtime = bind (stoi unixtime) (\<lambda>t. Inr (localtime t))"

definition record_hit :: "'db libs \<Rightarrow> nlp_item \<Rightarrow> string \<Rightarrow> string \<Rightarrow> task \<Rightarrow> string \<Rightarrow> term_event \<Rightarrow> (('db, 'm) world_scheme, term_event) act" where
  "record_hit x term1 user pid t time event =
     seq (GetIdentity x user pid) (\<lambda>idn.
     if idn_id idn = [] then ret event
     else
       seq (SaveTermHit x term1 (idn_id idn) (task_id_string t)) (\<lambda>id1.
       seq (GetTerm x (ni_value term1)) (\<lambda>tid.
       seq (GetPersonForUID x (idn_id idn)) (\<lambda>p.
         ret (event\<lparr>te_id := id1, te_tid := tid, te_organization := idn_organization idn, te_person := pe_name p,
                    te_time := time\<rparr>)))))"

definition RecordTermEvent ::
  "'db libs \<Rightarrow> (int \<Rightarrow> string) \<Rightarrow> nlp_item \<Rightarrow> string \<Rightarrow> string \<Rightarrow> task \<Rightarrow> string \<Rightarrow> (('db, 'm) world_scheme, term_event) act" where
  "RecordTermEvent x localtime term1 user app t time =
     (let event = blank_event\<lparr>te_term := ni_value term1, te_type := ni_type term1, te_user := user\<rparr> in
      seq (of_res (DatabaseTime localtime time)) (\<lambda>dbtime.
      seq (TermHitExists x (ni_value term1) dbtime) (\<lambda>known.
      if known \<or> \<not> HasBasePlatform app then ret event
      else
        seq (of_res (GetBasePlatform app)) (\<lambda>base.
        seq (GetPlatformID x base) (\<lambda>pid.
        if pid = [] then ret event else record_hit x term1 user pid t time event)))))"

section \<open>Training data\<close>

record tw_inputs =
  in_emotions :: emotion
  in_sentiment :: sentiment
  in_poll_results :: "string list"

definition inputs_Ready :: "tw_inputs \<Rightarrow> bool" where
  "inputs_Ready i \<longleftrightarrow> eo_emotions (in_emotions i) \<noteq> [] \<and> in_poll_results i \<noteq> []"

record ml_generator =
  ml_inputs :: "(string \<times> tw_inputs) list"
  ml_output :: string

definition ml_init :: "string \<Rightarrow> ml_generator \<Rightarrow> ml_generator" where
  "ml_init header g = g\<lparr>ml_output := header\<rparr>"

definition ml_put :: "string \<Rightarrow> tw_inputs \<Rightarrow> ml_generator \<Rightarrow> ml_generator" where
  "ml_put idx i g = g\<lparr>ml_inputs := AList.update idx i (ml_inputs g)\<rparr>"

definition ml_line :: "floats \<Rightarrow> string \<times> tw_inputs \<Rightarrow> string res" where
  "ml_line fl e =
     (let i = snd e; sc = eo_scores (in_emotions i); p = in_poll_results i;
          num = (\<lambda>f. fl_stream fl f @ '','') in
      bind (vec_at p 0) (\<lambda>p0. bind (vec_at p 1) (\<lambda>p1. bind (vec_at p 2) (\<lambda>p2. bind (vec_at p 3) (\<lambda>p3.
        Inr ([newline] @ fst e @ '','' @ num (em_joy sc) @ num (em_sadness sc) @ num (em_surprise sc) @
          num (em_fear sc) @ num (em_anger sc) @ num (em_disgust sc) @ num (se_score (in_sentiment i)) @
          p0 @ '','' @ p1 @ '','' @ p2 @ '','' @ p3))))))"

text \<open>The lines are gathered first: an exception leaves the output as it was.\<close>

definition ml_Generate :: "floats \<Rightarrow> ml_generator \<Rightarrow> ml_generator res" where
  "ml_Generate fl g = bind (mapM (ml_line fl) (ml_inputs g)) (\<lambda>ls. Inr (g\<lparr>ml_output := ml_output g @ concat ls\<rparr>))"

text \<open>The loop stops at the first input that is not ready, and the answer after the loop is yes.\<close>

fun ml_loop :: "(string \<times> tw_inputs) list \<Rightarrow> bool" where
  "ml_loop [] = True"
| "ml_loop (e # es) = (if \<not> inputs_Ready (snd e) then True else ml_loop es)"

definition ml_Ready :: "ml_generator \<Rightarrow> bool" where
  "ml_Ready g = ml_loop (ml_inputs g)"

definition ml_clear :: "ml_generator \<Rightarrow> ml_generator" where
  "ml_clear g = g\<lparr>ml_output := [], ml_inputs := []\<rparr>"

definition ml_has_data :: "ml_generator \<Rightarrow> bool" where
  "ml_has_data g \<longleftrightarrow> ml_output g \<noteq> []"

definition ml_has :: "string \<Rightarrow> ml_generator \<Rightarrow> bool" where
  "ml_has key g \<longleftrightarrow> map_of (ml_inputs g) key \<noteq> None"

definition ML_HEADER :: string where
  "ML_HEADER = ''id,emo1,emo2,emo3,emo4,emo5,emo6,sen1,poll1,poll2,poll3,poll4''"

definition ml_add :: "string \<Rightarrow> tw_inputs \<Rightarrow> ml_generator \<Rightarrow> ml_generator" where
  "ml_add id1 i g = ml_put id1 i (if ml_has_data g then g else ml_init ML_HEADER g)"

definition ml_finalize :: "string \<Rightarrow> string list \<Rightarrow> ml_generator \<Rightarrow> ml_generator" where
  "ml_finalize id1 data g = (case map_of (ml_inputs g) id1 of None \<Rightarrow> g | Some i \<Rightarrow> ml_put id1 (i\<lparr>in_poll_results := data\<rparr>) g)"

section \<open>The analysis\<close>

datatype study = poll

record research_request =
  rq_hit :: term_hit
  rq_data :: string
  rq_title :: string
  rq_type :: study
  rq_emotion :: emotion
  rq_sentiment :: sentiment

definition POLL_Q :: string where
  "POLL_Q = ''Rate the civilization impact:''"

definition MakePollMessage :: "floats \<Rightarrow> string \<Rightarrow> emotion \<Rightarrow> sentiment \<Rightarrow> string \<Rightarrow> string" where
  "MakePollMessage fl text1 emo sts hit =
     ''Please rate the civilizational impact of the following statement:'' @ [newline, newline, CHR 0x22] @ text1 @
     [CHR 0x22, newline, newline] @ ''EMOTION'' @ [newline] @ Emotion_str fl emo @ [newline] @
     ''SENTIMENT'' @ [newline] @ Sentiment_str fl sts @ [newline] @ ''HIT'' @ [newline] @ hit"

text \<open>The pairs after the first element; one without a partner is dropped.\<close>

fun pairs_of :: "string list \<Rightarrow> nlp_item list" where
  "pairs_of (t # v # vs) = \<lparr>ni_type = t, ni_value = v\<rparr> # pairs_of vs"
| "pairs_of vs = []"

definition GetTokens :: "string list \<Rightarrow> nlp_item list" where
  "GetTokens payload = pairs_of (tl payload)"

text \<open>A parent that is not there is read through a null pointer.\<close>

definition parent_with :: "postexec_map \<Rightarrow> int \<Rightarrow> int \<Rightarrow> int res" where
  "parent_with m a msk = bind (FindParent m a msk) (\<lambda>p. case p of None \<Rightarrow> Inl Undefined | Some b \<Rightarrow> Inr b)"

definition payload_of :: "postexec_map \<Rightarrow> int \<Rightarrow> string list res" where
  "payload_of m a = bind (node m a) (\<lambda>w. Inr (snd (tw_event w)))"

definition description_of :: "fsys \<Rightarrow> postexec_map \<Rightarrow> int \<Rightarrow> string res" where
  "description_of fs m a = bind (node m a) (\<lambda>w. GetToken_task fs (tw_task w) ''DESCRIPTION'')"

record study_data =
  sd_text :: string
  sd_terms :: "nlp_item list"
  sd_emotion :: emotion
  sd_sentiment :: sentiment

definition study_of :: "floats \<Rightarrow> (string \<Rightarrow> int) \<Rightarrow> fsys \<Rightarrow> postexec_map \<Rightarrow> int \<Rightarrow> int \<Rightarrow> study_data res" where
  "study_of fl mask_fn fs m child subchild =
     bind (description_of fs m child) (\<lambda>child_text.
     bind (description_of fs m subchild) (\<lambda>_.
     bind (parent_with m child (mask_fn ''KNLP - NER'')) (\<lambda>ner.
     bind (parent_with m subchild (mask_fn ''KNLP - Emotion'')) (\<lambda>sub_emo.
     bind (parent_with m sub_emo (mask_fn ''KNLP - Emotion'')) (\<lambda>child_emo.
     bind (payload_of m ner) (\<lambda>ner_data.
     bind (payload_of m child_emo) (\<lambda>ce. bind (Emotion_Create fl ce) (\<lambda>child_emotion.
     bind (payload_of m sub_emo) (\<lambda>se. bind (Emotion_Create fl se) (\<lambda>_.
     bind (payload_of m child) (\<lambda>cs. bind (Sentiment_Create fl cs) (\<lambda>child_sentiment.
     bind (payload_of m subchild) (\<lambda>ss. bind (Sentiment_Create fl ss) (\<lambda>_.
       Inr \<lparr>sd_text = child_text, sd_terms = GetTokens ner_data, sd_emotion = child_emotion,
            sd_sentiment = child_sentiment\<rparr>))))))))))))))"

definition study_request :: "floats \<Rightarrow> study_data \<Rightarrow> term_hit \<Rightarrow> research_request" where
  "study_request fl d hit = \<lparr>rq_hit = hit,
     rq_data = MakePollMessage fl (sd_text d) (sd_emotion d) (sd_sentiment d) (th_ToString hit),
     rq_title = POLL_Q, rq_type = poll, rq_emotion = sd_emotion d, rq_sentiment = sd_sentiment d\<rparr>"

definition AnalyzeTW ::
  "'db libs \<Rightarrow> floats \<Rightarrow> (string \<Rightarrow> int) \<Rightarrow> postexec_map \<Rightarrow> int \<Rightarrow> int \<Rightarrow> (('db, 'm) world_scheme, research_request list) act" where
  "AnalyzeTW x fl mask_fn m child subchild =
     seq get_fs (\<lambda>fs.
     seq (of_res (study_of fl mask_fn fs m child subchild)) (\<lambda>d.
     seq (of_res (vec_front (sd_terms d))) (\<lambda>t.
     seq (GetTermHits x (RemoveTags (ni_value t))) (\<lambda>hits.
       ret (map (study_request fl d) hits)))))"

section \<open>Properties\<close>

lemma contains_sub: "str_contains s p \<longleftrightarrow> (\<exists>a b. s = a @ p @ b)"
proof (induction s)
  case Nil
  then show ?case by (simp add: str_contains_def)
next
  case (Cons c s)
  have "(\<exists>a b. c # s = a @ p @ b) \<longleftrightarrow> starts_with p (c # s) \<or> (\<exists>a b. s = a @ p @ b)"
    by (auto simp: starts_with_iff Cons_eq_append_conv)
  with Cons show ?case by (auto simp: str_contains_def)
qed

lemma find_char_count:
  "find_char c s = None \<Longrightarrow> count_list s c = 0"
  "find_char c s = Some p \<Longrightarrow> count_list s c = Suc (count_list (drop (Suc p) s) c)"
  by (induction s arbitrary: p) (auto split: if_splits)

lemma few_ats_count: "few_ats i s \<longleftrightarrow> count_list s (CHR ''@'') < i"
proof (induction i arbitrary: s)
  case (Suc i)
  then show ?case by (cases "find_char (CHR ''@'') s") (simp_all add: find_char_count)
qed simp

text \<open>
  A term is taken just if it holds fewer than two at signs and none of the eight patterns occurs
  in it.
\<close>

theorem taken_terms:
  "VerifyTerm s \<longleftrightarrow> count_list s (CHR ''@'') < 2 \<and>
     list_all (\<lambda>p. \<nexists>a b. s = a @ p @ b) REJECT_PATTERNS"
  by (simp add: VerifyTerm_def few_ats_count contains_sub)

lemma mapM_bind:
  "(\<And>a. a \<in> set xs \<Longrightarrow> bind (f a) g = Inr (h a)) \<Longrightarrow> bind (mapM f xs) (mapM g) = Inr (map h xs)"
proof (induction xs)
  case (Cons a xs)
  then obtain b where "f a = Inr b" "g b = Inr (h a)" by (fastforce simp: bind_eq_Inr)
  moreover obtain bs where "mapM f xs = Inr bs" "mapM g bs = Inr (map h xs)"
    using Cons by (fastforce simp: bind_eq_Inr)
  ultimately show ?case by simp
qed simp

text \<open>
  Every row of the query of all hits becomes one event, in order, with each column where it
  belongs; here no column that is read is missing from the query.
\<close>

theorem all_hits_are_listed:
  assumes "x_exec x (select_JoinFilter ''term_hit'' event_fields [] event_joins) (w_db w) = (Inr rows, db)"
    and "\<forall>r \<in> set rows. length r = 8"
  shows "GetAllTermEvents x w = (Inr (map (\<lambda>r. \<lparr>te_id = cell (r ! 1), te_user = cell (r ! 5), te_person = cell (r ! 7),
     te_organization = cell (r ! 6), te_term = cell (r ! 2), te_type = cell (r ! 3), te_time = cell (r ! 4), te_tid = []\<rparr>) rows),
     w\<lparr>w_db := db\<rparr>)"
proof -
  have one: "bind (row_map event_fields r) term_event_of = Inr \<lparr>te_id = cell (r ! 1), te_user = cell (r ! 5), te_person = cell (r ! 7),
     te_organization = cell (r ! 6), te_term = cell (r ! 2), te_type = cell (r ! 3), te_time = cell (r ! 4), te_tid = []\<rparr>"
    if len: "length r = 8" for r
  proof -
    obtain a b c d e f g h where "r = [a, b, c, d, e, f, g, h]"
      using len by (auto simp: length_Suc_conv eval_nat_numeral)
    then show ?thesis by (simp add: row_map_def event_fields_def term_event_of_def)
  qed
  then obtain ms where "mapM (row_map event_fields) rows = Inr ms" and "ParseTermEvents ms =
      Inr (map (\<lambda>r. \<lparr>te_id = cell (r ! 1), te_user = cell (r ! 5), te_person = cell (r ! 7),
     te_organization = cell (r ! 6), te_term = cell (r ! 2), te_type = cell (r ! 3), te_time = cell (r ! 4), te_tid = []\<rparr>) rows)"
    using mapM_bind [of rows "row_map event_fields" term_event_of, OF one] assms(2)
    by (auto simp: ParseTermEvents_def bind_eq_Inr)
  with assms(1) show ?thesis
    by (simp add: GetAllTermEvents_def kdb_selectJoin_def kdb_try_def query_rows_def pq_exec_def seq_def handle_def)
qed

text \<open>The row of one input.\<close>

definition training_row :: "floats \<Rightarrow> string \<times> tw_inputs \<Rightarrow> string" where
  "training_row fl e = (let i = snd e; sc = eo_scores (in_emotions i) in
     newline # fst e @ '','' @ concat (map (\<lambda>f. fl_stream fl f @ '','') [em_joy sc, em_sadness sc, em_surprise sc, em_fear sc,
       em_anger sc, em_disgust sc, se_score (in_sentiment i)]) @ delimited [] '','' (take 4 (in_poll_results i)))"

lemma ml_line_row: "ml_line fl e = (if 4 \<le> length (in_poll_results (snd e)) then Inr (training_row fl e) else Inl OutOfRange)"
proof (cases "4 \<le> length (in_poll_results (snd e))")
  case True
  then obtain a b c d r where "in_poll_results (snd e) = a # b # c # d # r"
    by (auto simp: numeral_eq_Suc Suc_le_length_iff)
  then show ?thesis by (simp add: ml_line_def training_row_def Let_def)
next
  case False
  then have "length (in_poll_results (snd e)) < 4" by simp
  then show ?thesis by (auto simp: ml_line_def Let_def bind_def vec_at_def)
qed

lemma ml_always_ready: "ml_Ready g"
proof -
  have "ml_loop es" for es by (induction es) auto
  then show ?thesis by (simp add: ml_Ready_def)
qed

text \<open>
  The training data gets one row for each input, or stays as it was and the generation throws,
  when any of the inputs has fewer than four results; the check that should tell the two apart says
  that the data is ready in both cases.
\<close>

theorem training_data_is_never_unready:
  "ml_Ready g \<and> ml_Generate fl g =
     (if list_all (\<lambda>e. 4 \<le> length (in_poll_results (snd e))) (ml_inputs g)
      then Inr (g\<lparr>ml_output := ml_output g @ concat (map (training_row fl) (ml_inputs g))\<rparr>) else Inl OutOfRange)"
proof -
  have "mapM (ml_line fl) es = (if list_all (\<lambda>e. 4 \<le> length (in_poll_results (snd e))) es
      then Inr (map (training_row fl) es) else Inl OutOfRange)" for es
    by (induction es) (auto simp: ml_line_row)
  then show ?thesis by (simp add: ml_Generate_def ml_always_ready)
qed

text \<open>Of the statements a database was sent, those that are no queries.\<close>

definition writes :: "string list \<Rightarrow> string list" where
  "writes ss = filter (\<lambda>s. \<not> is_select s) ss"

definition reads_only :: "(string list, 'm) world_scheme \<Rightarrow> (string list, 'm) world_scheme \<Rightarrow> bool" where
  "reads_only w w' \<longleftrightarrow> writes (w_db w') = writes (w_db w)"

lemma reflp_reads_only [simp]: "reflp reads_only"
  by (simp add: reflp_def reads_only_def)

lemma transp_reads_only [simp]: "transp reads_only"
  by (simp add: transp_def reads_only_def)

lemma sent_reads: "sent is_select w w' \<Longrightarrow> reads_only w w'"
  by (auto simp: sent_def reads_only_def writes_def)

lemma reads_select: "logs x answer \<Longrightarrow> keeps reads_only (kdb_select x t f flt)"
  by (rule keeps_mono [OF keeps_select_sent sent_reads])

lemma reads_joins:
  assumes "logs x answer"
  shows "keeps reads_only (kdb_selectJoin x t f flt js)" "keeps reads_only (kdb_selectJoin_filters x t f flts js)"
    "keeps reads_only (kdb_selectSimpleJoin x t f flt j)"
proof -
  have ex: "is_select s \<Longrightarrow> keeps reads_only (pq_exec x s)" for s
    by (rule keeps_mono [OF keeps_sent_exec [OF assms] sent_reads])
  have q: "is_select s \<Longrightarrow> keeps reads_only (query_rows x f (Inr s))" for s
    unfolding query_rows_def seq_of_res_Inr by (intro keeps_seq ex keeps_pure) simp_all
  have "is_select (select_JoinFilter t f flt js)" "is_select (select_JoinFilters t f flts js)" "is_select (select_SimpleJoin t f flt j)"
    by (auto simp: select_JoinFilter_def select_JoinFilters_def select_SimpleJoin_def is_select_head
        intro: is_select_head [of f t "[]", simplified])
  then show "keeps reads_only (kdb_selectJoin x t f flt js)" "keeps reads_only (kdb_selectJoin_filters x t f flts js)"
    "keeps reads_only (kdb_selectSimpleJoin x t f flt j)"
    unfolding kdb_selectJoin_def kdb_selectJoin_filters_def kdb_selectSimpleJoin_def kdb_try_def
    by (auto intro!: keeps_handle q)
qed

lemma reads_filter: "(\<And>f. keeps reads_only (g f)) \<Longrightarrow> keeps reads_only (with_filter args g)"
  unfolding with_filter_def by (intro keeps_seq keeps_pure) simp_all

lemma reads_lookup:
  assumes "logs x answer"
  shows "keeps reads_only (exists_in x t args)" "keeps reads_only (id_in x t args)" "keeps reads_only (GetPlatformID x name)"
  unfolding exists_in_def id_in_def GetPlatformID_def
  by (intro keeps_seq keeps_pure reads_filter reads_select [OF assms]; simp)+

lemma reads_terms:
  assumes "logs x answer"
  shows "keeps reads_only (TermExists x n)" "keeps reads_only (GetTerm x n)" "keeps reads_only (TermHitExists x n t)"
    "keeps reads_only (GetIdentity x n p)" "keeps reads_only (GetPersonForUID x u)"
  unfolding TermExists_def GetTerm_def TermHitExists_def GetIdentity_def GetPersonForUID_def
  by (intro keeps_if keeps_seq keeps_pure reads_filter reads_lookup [OF assms] reads_joins [OF assms]; simp)+

lemma insert_writes:
  assumes "logs x answer" and "kdb_insert_returning x table flds vals ''id'' w = (r, w')"
    and "length vals = length flds" and "flds \<noteq> []"
  shows "writes (w_db w') = writes (w_db w) @ [insert_text table flds vals @ '' RETURNING id'']"
proof -
  have "w_db w' = w_db w @ [insert_text table flds vals @ '' RETURNING id'']"
    using assms by (auto simp: kdb_insert_returning_def kdb_try_def handle_def seq_def insert_statement_returning_def
      values_string_row pq_exec_logs insert_text_def query_value_def cell_as_string_def split: sum.splits list.splits)
  then show ?thesis by (simp add: writes_def is_select_def insert_text_def)
qed

definition term_text :: "nlp_item \<Rightarrow> string" where
  "term_text t = insert_text ''term'' [''name'', ''type''] [ni_value t, ni_type t] @ '' RETURNING id''"

definition hit_text :: "string \<Rightarrow> string \<Rightarrow> string \<Rightarrow> string" where
  "hit_text tid uid sid = insert_text ''term_hit'' [''tid'', ''uid'', ''sid''] [tid, uid, sid] @ '' RETURNING id''"

text \<open>An operation whose answer does not depend on the state, as a database that only logs answers by the text of a query.\<close>

definition stateless :: "('s, 'a) act \<Rightarrow> bool" where
  "stateless m \<longleftrightarrow> (\<forall>w w'. fst (m w) = fst (m w'))"

lemma stateless_answer: "stateless m \<Longrightarrow> m w1 = (r, w2) \<Longrightarrow> fst (m w) = r"
  by (metis fst_conv stateless_def)

lemma fst_seq: "fst (seq m g w) = (case fst (m w) of Inl e \<Rightarrow> Inl e | Inr a \<Rightarrow> fst (g a (snd (m w))))"
  by (auto simp: seq_def split: prod.splits sum.splits)

lemma fst_handle: "fst (handle m h w) = (case fst (m w) of Inl e \<Rightarrow> fst (h e (snd (m w))) | Inr a \<Rightarrow> Inr a)"
  by (auto simp: handle_def split: prod.splits sum.splits)

lemma stateless_seq:
  assumes "stateless m" and "\<And>a. stateless (g a)"
  shows "stateless (seq m g)"
  unfolding stateless_def
proof (intro allI)
  fix w w'
  have "fst (m w') = fst (m w)" "fst (g a (snd (m w'))) = fst (g a (snd (m w)))" for a
    using assms unfolding stateless_def by blast+
  then show "fst (seq m g w) = fst (seq m g w')" by (simp add: fst_seq split: sum.split)
qed

lemma stateless_handle:
  assumes "stateless m" and "\<And>e. stateless (h e)"
  shows "stateless (handle m h)"
  unfolding stateless_def
proof (intro allI)
  fix w w'
  have "fst (m w') = fst (m w)" "fst (h e (snd (m w'))) = fst (h e (snd (m w)))" for e
    using assms unfolding stateless_def by blast+
  then show "fst (handle m h w) = fst (handle m h w')" by (simp add: fst_handle split: sum.split)
qed

lemma stateless_pure: "stateless (ret a)" "stateless (raise e)" "stateless (of_res r)"
  by (simp_all add: stateless_def)

lemma stateless_if: "stateless a \<Longrightarrow> stateless b \<Longrightarrow> stateless (if c then a else b)"
  by simp

lemma stateless_exec: "logs x answer \<Longrightarrow> stateless (pq_exec x s)"
  by (simp add: stateless_def pq_exec_logs)

lemmas stateless_rules = stateless_if stateless_seq stateless_handle stateless_pure

lemma stateless_lookups:
  assumes "logs x answer"
  shows "stateless (GetPlatformID x name)" "stateless (GetIdentity x name pid)" "stateless (TermExists x name)"
    "stateless (GetTerm x name)" "stateless (AddTerm x name type)"
  unfolding GetPlatformID_def GetIdentity_def TermExists_def GetTerm_def AddTerm_def exists_in_def id_in_def with_filter_def
    kdb_select_def kdb_selectJoin_def kdb_insert_returning_def kdb_try_def query_rows_def query_value_def
  by (intro stateless_rules stateless_exec [OF assms])+

text \<open>What one hit leaves in the database: \<open>tid\<close> is the term's id, \<open>new\<close> what was written to have one.\<close>

definition term_row :: "string list libs \<Rightarrow> nlp_item \<Rightarrow> (string list, 'm) world_scheme \<Rightarrow> string \<Rightarrow> string list \<Rightarrow> bool" where
  "term_row x t w tid new \<longleftrightarrow>
     fst (TermExists x (ni_value t) w) = Inr True \<and> fst (GetTerm x (ni_value t) w) = Inr tid \<and> new = [] \<or>
     fst (TermExists x (ni_value t) w) = Inr False \<and> fst (AddTerm x (ni_value t) (ni_type t) w) = Inr tid \<and> new = [term_text t]"

lemma SaveTermHit_writes:
  fixes w w1 :: "(string list, 'm) world_scheme"
  assumes "logs x answer" and "SaveTermHit x t uid sid w1 = (Inr id1, w')"
  shows "\<exists>tid new. term_row x t w tid new \<and> writes (w_db w') = writes (w_db w1) @ new @ [hit_text tid uid sid]"
proof -
  note free = stateless_lookups [OF assms(1), THEN stateless_answer]
  obtain there w2 tid w3 where e: "TermExists x (ni_value t) w1 = (Inr there, w2)"
    "(if there then GetTerm x (ni_value t) else AddTerm x (ni_value t) (ni_type t)) w2 = (Inr tid, w3)"
    "kdb_insert_returning x ''term_hit'' [''tid'', ''uid'', ''sid''] [tid, uid, sid] ''id'' w3 = (Inr id1, w')"
    using assms(2) unfolding SaveTermHit_def by (elim seq_InrD) auto
  have 1: "reads_only w1 w2" using keepsD [OF reads_terms(1) [OF assms(1)] e(1)] .
  have 2: "\<exists>new. writes (w_db w3) = writes (w_db w2) @ new \<and> term_row x t w tid new"
  proof (cases there)
    case True
    then have g: "GetTerm x (ni_value t) w2 = (Inr tid, w3)" using e(2) by simp
    with keepsD [OF reads_terms(2) [OF assms(1)]] have "reads_only w2 w3" by blast
    then show ?thesis
      using free(3) [OF e(1), of w] free(4) [OF g, of w] True by (simp add: reads_only_def term_row_def)
  next
    case False
    then have g: "AddTerm x (ni_value t) (ni_type t) w2 = (Inr tid, w3)" using e(2) by simp
    then show ?thesis
      using free(3) [OF e(1), of w] free(5) [OF g, of w] False
        insert_writes [OF assms(1), of "''term''" "[''name'', ''type'']" "[ni_value t, ni_type t]" w2 "Inr tid" w3]
      by (simp add: AddTerm_def term_text_def term_row_def)
  qed
  have 3: "writes (w_db w') = writes (w_db w3) @ [hit_text tid uid sid]"
    using insert_writes [OF assms(1) e(3)] by (simp add: hit_text_def)
  from 1 2 3 show ?thesis by (auto simp: reads_only_def)
qed

lemma record_hit_writes:
  fixes w w1 :: "(string list, 'm) world_scheme"
  assumes "logs x answer" and "record_hit x term1 user pid t time ev w1 = (Inr e, w')" and "\<not> te_valid ev" and "te_valid e"
  shows "\<exists>idn tid new. fst (GetIdentity x user pid w) = Inr idn \<and> idn_id idn \<noteq> [] \<and> te_organization e = idn_organization idn \<and>
    term_row x term1 w tid new \<and>
    writes (w_db w') = writes (w_db w1) @ new @ [hit_text tid (idn_id idn) (task_id_string t)]"
proof -
  from assms(2) obtain idn w2 where i: "GetIdentity x user pid w1 = (Inr idn, w2)"
    and s: "(if idn_id idn = [] then ret ev else seq (SaveTermHit x term1 (idn_id idn) (task_id_string t)) (\<lambda>id1.
      seq (GetTerm x (ni_value term1)) (\<lambda>tid. seq (GetPersonForUID x (idn_id idn)) (\<lambda>p.
        ret (ev\<lparr>te_id := id1, te_tid := tid, te_organization := idn_organization idn, te_person := pe_name p,
                te_time := time\<rparr>))))) w2 = (Inr e, w')"
    unfolding record_hit_def by (auto elim: seq_InrD)
  have ne: "idn_id idn \<noteq> []" using s assms(3,4) by auto
  with s obtain id1 w3 tid w4 p where st: "SaveTermHit x term1 (idn_id idn) (task_id_string t) w2 = (Inr id1, w3)"
    "GetTerm x (ni_value term1) w3 = (Inr tid, w4)" "GetPersonForUID x (idn_id idn) w4 = (Inr p, w')"
    and e: "te_organization e = idn_organization idn"
    by (auto elim!: seq_InrD)
  have "reads_only w1 w2" "reads_only w3 w4" "reads_only w4 w'"
    using keepsD [OF reads_terms(4) [OF assms(1)] i] keepsD [OF reads_terms(2) [OF assms(1)] st(2)]
      keepsD [OF reads_terms(5) [OF assms(1)] st(3)] .
  moreover have "fst (GetIdentity x user pid w) = Inr idn"
    using stateless_answer [OF stateless_lookups(2) [OF assms(1)] i] .
  ultimately show ?thesis
    using SaveTermHit_writes [OF assms(1) st(1), of w] ne e by (auto simp: reads_only_def)
qed

text \<open>
  C27: in a database that gives each statement one answer, a term that is recorded is found for an application with a platform of its own,
  and leaves one row of its hit: with the id of the identity that is looked up for the author on that
  platform, the number of the task that found it and the id of the term. If the term was there its id is the one found and nothing else is
  written; if it was not, its row is written before, and its id is the one the insertion answered. The event names the
  term, the author and the organization of that identity. For an application without a platform of its own nothing is written.
\<close>

theorem recorded_term_is_stored:
  assumes "logs x answer" and "RecordTermEvent x lt term1 user app t time w = (Inr e, w')"
  shows "(te_valid e \<longrightarrow> HasBasePlatform app \<and> te_term e = ni_value term1 \<and> te_user e = user \<and>
      (\<exists>base pid idn tid new. GetBasePlatform app = Inr base \<and> fst (GetPlatformID x base w) = Inr pid \<and>
        fst (GetIdentity x user pid w) = Inr idn \<and> idn_id idn \<noteq> [] \<and> te_organization e = idn_organization idn \<and>
        term_row x term1 w tid new \<and>
        writes (w_db w') = writes (w_db w) @ new @ [hit_text tid (idn_id idn) (task_id_string t)])) \<and>
    (\<not> HasBasePlatform app \<longrightarrow> writes (w_db w') = writes (w_db w))"
proof -
  let ?ev = "blank_event\<lparr>te_term := ni_value term1, te_type := ni_type term1, te_user := user\<rparr>"
  have ev: "\<not> te_valid ?ev" by (simp add: te_valid_def blank_event_def)
  obtain dbtime known w1 where k: "TermHitExists x (ni_value term1) dbtime w = (Inr known, w1)"
    and r: "(if known \<or> \<not> HasBasePlatform app then ret ?ev
      else seq (of_res (GetBasePlatform app)) (\<lambda>base. seq (GetPlatformID x base) (\<lambda>pid.
        if pid = [] then ret ?ev else record_hit x term1 user pid t time ?ev))) w1 = (Inr e, w')"
    using assms(2) unfolding RecordTermEvent_def Let_def by (elim seq_InrD) auto
  have 1: "reads_only w w1" using keepsD [OF reads_terms(3) [OF assms(1)] k] .
  show ?thesis
  proof (cases "known \<or> \<not> HasBasePlatform app")
    case True
    with r have "e = ?ev" "w' = w1" by auto
    with 1 ev show ?thesis by (simp add: reads_only_def)
  next
    case False
    then obtain base pid w2 where b: "GetBasePlatform app = Inr base" and p: "GetPlatformID x base w1 = (Inr pid, w2)"
      and h: "(if pid = [] then ret ?ev else record_hit x term1 user pid t time ?ev) w2 = (Inr e, w')"
      using r by (auto elim!: seq_InrD)
    have 2: "reads_only w1 w2" using keepsD [OF reads_lookup(3) [OF assms(1)] p] .
    have pid: "fst (GetPlatformID x base w) = Inr pid"
      using stateless_answer [OF stateless_lookups(1) [OF assms(1)] p] .
    show ?thesis
    proof (cases "te_valid e")
      case True
      then have r: "record_hit x term1 user pid t time ?ev w2 = (Inr e, w')" using h ev by (auto split: if_splits)
      have "te_term e = ni_value term1" "te_user e = user"
        using r by (auto simp: record_hit_def elim!: seq_InrD split: if_splits)
      with record_hit_writes [OF assms(1) r ev True, of w] 1 2 False b pid show ?thesis
        unfolding reads_only_def by auto
    qed (use False in simp)
  qed
qed

text \<open>Answers to every query of recording a term.\<close>

definition study_answer :: "string \<Rightarrow> db_row list res" where
  "study_answer s =
     (if starts_with ''SELECT id FROM term_hit'' s then Inr []
      else if starts_with ''SELECT platform_user.id'' s then Inr [[Some ''3'', Some ''ann'', Some ''ACME'']]
      else if starts_with ''SELECT platform_user.pers_id'' s then Inr [[Some ''4'', Some ''Ann'']]
      else Inr [[Some ''7'']])"

definition study_libs :: "string list libs" where
  "study_libs = log_libs\<lparr>x_exec := (\<lambda>s db. (study_answer s, db @ [s]))\<rparr>"

theorem recorded_term_is_stored_witness:
  "\<exists>e w'. RecordTermEvent study_libs (\<lambda>_. ''2021'') \<lparr>ni_type = ''ORG'', ni_value = ''ACME''\<rparr> ''ann'' ''TW Research''
     (empty_task\<lparr>tk_id := 5\<rparr>) ''9'' log_world = (Inr e, w') \<and> te_valid e \<and> te_organization e = ''ACME'' \<and>
     writes (w_db w') = [hit_text ''7'' ''3'' ''5'']"
proof -
  let ?t = "\<lparr>ni_type = ''ORG'', ni_value = ''ACME''\<rparr>"
  let ?r = "RecordTermEvent study_libs (\<lambda>_. ''2021'') ?t ''ann'' ''TW Research'' (empty_task\<lparr>tk_id := 5\<rparr>) ''9'' log_world"
  have "case fst ?r of Inr e \<Rightarrow> te_id e = ''7'' | Inl _ \<Rightarrow> False" by code_simp
  then obtain e w' where r: "?r = (Inr e, w')" and v: "te_valid e"
    by (cases ?r) (auto simp: te_valid_def split: sum.splits)
  have l: "logs study_libs study_answer" by (simp add: logs_def study_libs_def)
  have answers: "GetBasePlatform ''TW Research'' = Inr ''Twitter''" "fst (GetPlatformID study_libs ''Twitter'' log_world) = Inr ''7''"
    "fst (GetIdentity study_libs ''ann'' ''7'' log_world) = Inr \<lparr>idn_id = ''3'', idn_name = ''ann'', idn_organization = ''ACME''\<rparr>"
    "fst (TermExists study_libs ''ACME'' log_world) = Inr True" "fst (GetTerm study_libs ''ACME'' log_world) = Inr ''7''"
    "task_id_string (empty_task\<lparr>tk_id := 5\<rparr>) = ''5''"
    by code_simp+
  moreover have "writes (w_db log_world) = []" by (simp add: writes_def log_world_def)
  ultimately show ?thesis
    using recorded_term_is_stored [OF l r, THEN conjunct1, THEN mp, OF v] r v by (auto simp: term_row_def)
qed

definition eight :: db_row where
  "eight = [Some ''1'', Some ''2'', Some ''ACME'', Some ''ORG'', None, Some ''ann'', Some ''Inc'', Some ''Ann'']"

theorem all_hits_are_listed_witness:
  "fst (GetAllTermEvents (log_libs\<lparr>x_exec := (\<lambda>s db. (Inr [eight], db @ [s]))\<rparr>) log_world) =
     Inr [\<lparr>te_id = ''2'', te_user = ''ann'', te_person = ''Ann'', te_organization = ''Inc'', te_term = ''ACME'', te_type = ''ORG'',
       te_time = [], te_tid = []\<rparr>]"
proof -
  let ?x = "log_libs\<lparr>x_exec := (\<lambda>s db. (Inr [eight], db @ [s]))\<rparr>"
  have "x_exec ?x (select_JoinFilter ''term_hit'' event_fields [] event_joins) (w_db log_world) =
     (Inr [eight], w_db log_world @ [select_JoinFilter ''term_hit'' event_fields [] event_joins])" by simp
  from all_hits_are_listed [OF this] show ?thesis by (simp add: eight_def cell_def c_str_def)
qed

end
