(* ===== verification/PostWork.thy ===== *)
theory PostWork
  imports SchedIpc Research
begin

text \<open>
  The part of \<open>system/process/scheduler.cpp\<close> that drives the research: \<open>OnProcessOutput\<close> takes what an
  application wrote, \<open>PostExecWork\<close> carries a study from the terms of a sentence over the emotions and
  sentiments of earlier ones to a question for the people who rate it, \<open>OnPlatformRequest\<close> takes their
  answers.

  The state extends that of the messages with the polls and terms already announced, the training
  data and the first message of the queue, which is made once (a \<open>static\<close> of \<open>PostExecWork\<close>). A
  pointer to a node is its key in the map, as in \<open>PostExec\<close>; the \<open>assert\<close> on the names of the
  applications is taken to be compiled in. Not of this repository: the commands and request names of
  kproto and \<open>append_msg\<close>, the record \<open>research_env\<close>.

  Shown: the last empty result resolves the study and sends the queue just if something was found;
  a root is asked about once; an unknown answer changes nothing; one input without an answer spoils
  the training data of all; the posts of a feed are never delivered.
\<close>

section \<open>Parameters and state\<close>

record research_env =
  re_floats :: floats
  re_localtime :: "int \<Rightarrow> string"
  re_ascii :: jwriter                                  \<comment> \<open>the writer that escapes\<close>
  re_append :: "ipc_event \<Rightarrow> string \<Rightarrow> ipc_event"       \<comment> \<open>\<open>append_msg\<close>\<close>
  re_tg_index :: "8 word"                              \<comment> \<open>\<open>TELEGRAM_COMMAND_INDEX\<close>\<close>
  re_message :: "8 word"                               \<comment> \<open>\<open>TGCommand::message\<close>\<close>
  re_poll :: "8 word"                                  \<comment> \<open>\<open>TGCommand::poll\<close>\<close>
  re_poll_stop :: string
  re_poll_result :: string
  re_generate_ai :: string
  re_platform_type :: int                              \<comment> \<open>\<open>IPC_PLATFORM_TYPE\<close>\<close>

record 'db research = "'db scheduler" +
  rs_polls :: "int list"
  rs_terms :: "int list"
  rs_ml :: ml_generator
  rs_header :: "ipc_event option"

definition QUEUE_LIMIT :: nat where "QUEUE_LIMIT = 5"

definition IPC_MESSAGE_HEADER :: string where
  "IPC_MESSAGE_HEADER = ''KIQ is now tracking the following terms'' @ [newline]"

definition TW_RESEARCH_APP :: string where "TW_RESEARCH_APP = REQUIRED_APPLICATIONS ! 4"
definition NER_APP :: string where "NER_APP = REQUIRED_APPLICATIONS ! 5"
definition EMOTION_APP :: string where "EMOTION_APP = REQUIRED_APPLICATIONS ! 6"
definition SENTIMENT_APP :: string where "SENTIMENT_APP = REQUIRED_APPLICATIONS ! 7"

definition tg_operation :: "'db libs \<Rightarrow> string list \<Rightarrow> string" where
  "tg_operation x choices = CreateOperation (x_jwrite x) ''Bot'' (x_conf x ''process'' ''tg_dest'' # choices)"

definition push_event :: "ipc_event \<Rightarrow> (('db, 'm) scheduler_scheme, unit) act" where
  "push_event e = modify (\<lambda>s. s\<lparr>sc_queue := sc_queue s @ [e]\<rparr>)"

definition queue_header :: "'db libs \<Rightarrow> research_env \<Rightarrow> (('db, 'm) research_scheme, ipc_event) act" where
  "queue_header x R = seq get_state (\<lambda>s. case rs_header s of
     Some h \<Rightarrow> ret h
   | None \<Rightarrow> seq (MakeIPCEvent x EV_PLATFORM_POST_REQUESTED (re_message R) IPC_MESSAGE_HEADER (tg_operation x []))
       (\<lambda>h. seq (modify (\<lambda>s. s\<lparr>rs_header := Some h\<rparr>)) (\<lambda>_. ret h)))"

section \<open>The steps of a study\<close>

text \<open>Is there a task of this application for this text already?\<close>

fun scheduled_same :: "fsys \<Rightarrow> int \<Rightarrow> string \<Rightarrow> postexec_map \<Rightarrow> bool res" where
  "scheduled_same fs msk data [] = Inr False"
| "scheduled_same fs msk data (e # es) =
     (let t = tw_task (snd (snd e)) in
      if tk_mask t = msk
      then bind (GetToken_task fs t ''DESCRIPTION'') (\<lambda>d. if d = data then Inr True else scheduled_same fs msk data es)
      else scheduled_same fs msk data es)"

text \<open>Each task waits for the one before it; one that is there already is passed over.\<close>

fun SequenceTasks :: "'db libs \<Rightarrow> int \<Rightarrow> (string \<times> string \<times> string list) list \<Rightarrow> (('db, 'm) scheduler_scheme, unit) act" where
  "SequenceTasks x id1 [] = ret ()"
| "SequenceTasks x id1 ((data, name, args) # ps) = seq get_state (\<lambda>s.
     seq (of_res (scheduled_same (w_fs s) (FindMask (sc_app_map s) name) data (px_map (sc_px s)))) (\<lambda>there.
     if there then SequenceTasks x id1 ps
     else seq (CreateChild x id1 data name args) (\<lambda>id2. SequenceTasks x id2 ps)))"

definition complete_node :: "int \<Rightarrow> (('db, 'm) scheduler_scheme, unit) act" where
  "complete_node id1 = seq get_state (\<lambda>s.
     seq (of_res (CompleteTask id1 (sc_px s))) (\<lambda>px. modify (\<lambda>s. s\<lparr>sc_px := px\<rparr>)))"

definition drop_short_queue :: "('db, 'm) scheduler_scheme \<Rightarrow> ('db, 'm) scheduler_scheme" where
  "drop_short_queue s = (if length (sc_queue s) < 2 then s\<lparr>sc_queue := []\<rparr> else s)"

definition Finalize :: "kproto \<Rightarrow> int \<Rightarrow> (('db, 'm) scheduler_scheme, unit) act" where
  "Finalize kp id1 = seq (complete_node id1) (\<lambda>_. seq get_state (\<lambda>s.
     if AllTasksComplete (px_map (sc_px s))
     then seq (modify drop_short_queue) (\<lambda>_. ResolvePending kp False) else ret ()))"

definition OnTermEvent :: "research_env \<Rightarrow> term_event \<Rightarrow> (('db, 'm) research_scheme, unit) act" where
  "OnTermEvent R te = seq (of_res (stoi (te_tid te))) (\<lambda>tid. seq get_state (\<lambda>s.
     if tid \<in> set (rs_terms s) then ret ()
     else seq (of_res (vec_front (sc_queue s))) (\<lambda>q.
       modify (\<lambda>s. s\<lparr>sc_queue := re_append R q (te_to_str False te) # tl (sc_queue s), rs_terms := rs_terms s @ [tid]\<rparr>))))"

text \<open>An earlier hit: its sentence is studied, too, or else the term is announced.\<close>

definition on_hit :: "'db libs \<Rightarrow> research_env \<Rightarrow> int \<Rightarrow> term_event \<Rightarrow> term_hit \<Rightarrow> (('db, 'm) research_scheme, unit) act" where
  "on_hit x R resp te hit = seq get_state (\<lambda>s.
     seq (of_res (if th_sid hit = [] then Inr False
                  else bind (stoi (th_sid hit)) (\<lambda>i. Inr (map_of (px_map (sc_px s)) i = None)))) (\<lambda>fresh.
     if fresh
     then seq (GetTask x (map_of (sc_app_map s)) (th_sid hit)) (\<lambda>t.
          seq get_fs (\<lambda>fs. seq (of_res (GetToken_task fs t ''DESCRIPTION'')) (\<lambda>d.
          seq (CreateChild x resp d NER_APP [''entity'']) (\<lambda>_. ret ()))))
     else if te_valid te then OnTermEvent R te else ret ()))"

definition master_root :: "postexec_map \<Rightarrow> int \<Rightarrow> wrapper res" where
  "master_root m a = bind (FindMasterRoot m a) (node m)"

definition on_token :: "'db libs \<Rightarrow> research_env \<Rightarrow> task \<Rightarrow> int \<Rightarrow> string \<Rightarrow> string \<Rightarrow> nlp_item \<Rightarrow> (('db, 'm) research_scheme, unit) act" where
  "on_token x R init_task resp app time item =
     (if \<not> VerifyTerm (ni_value item) then ret ()
      else
        let term1 = item\<lparr>ni_value := RemoveTags (ni_value item)\<rparr> in
        seq get_state (\<lambda>s.
        seq (of_res (master_root (px_map (sc_px s)) resp)) (\<lambda>root.
        seq (of_res (GetToken_task (w_fs s) init_task ''USER'')) (\<lambda>user.
        seq (GetTermHits x (ni_value term1)) (\<lambda>hits.
        seq (RecordTermEvent x (re_localtime R) term1 user app (tw_task root) time) (\<lambda>te.
          each (on_hit x R resp te) hits))))))"

text \<open>The terms of a sentence; its time is that of the sentence the study began with.\<close>

definition study_terms ::
  "'db libs \<Rightarrow> kproto \<Rightarrow> research_env \<Rightarrow> ipc_event \<Rightarrow> task \<Rightarrow> int \<Rightarrow> string \<Rightarrow> (('db, 'm) research_scheme, unit) act" where
  "study_terms x kp R header init_task resp app =
     seq (modify (\<lambda>s. if sc_queue s = [] then s\<lparr>sc_queue := [header]\<rparr> else s)) (\<lambda>_. seq get_state (\<lambda>s.
     seq (of_res (bind (master_root (px_map (sc_px s)) resp) (\<lambda>root. vec_at (snd (tw_event root)) 3))) (\<lambda>time.
     seq (of_res (payload_of (px_map (sc_px s)) resp)) (\<lambda>payload.
     seq (each (on_token x R init_task resp app time) (GetTokens payload)) (\<lambda>_.
       modify (\<lambda>s. if IPCNotPending kp s then SetIPCCommand (re_tg_index R) s else s))))))"

text \<open>Both sentences go on to the next application.\<close>

definition study_pair :: "'db libs \<Rightarrow> int \<Rightarrow> task \<Rightarrow> task \<Rightarrow> string \<Rightarrow> string \<Rightarrow> (('db, 'm) scheduler_scheme, unit) act" where
  "study_pair x init init_task resp_task app arg = seq get_fs (\<lambda>fs.
     seq (of_res (GetToken_task fs init_task ''DESCRIPTION'')) (\<lambda>d1.
     seq (of_res (GetToken_task fs resp_task ''DESCRIPTION'')) (\<lambda>d2.
       SequenceTasks x init [(d1, app, [arg]), (d2, app, [arg])])))"

text \<open>One question at most, and none about a root that was asked about.\<close>

definition send_poll :: "'db libs \<Rightarrow> research_env \<Rightarrow> int \<Rightarrow> research_request \<Rightarrow> (('db, 'm) research_scheme, unit) act" where
  "send_poll x R root_id r =
     seq (MakeIPCEvent x EV_PLATFORM_POST_REQUESTED (re_message R) (rq_data r) (tg_operation x [])) (\<lambda>m.
     seq (push_event m) (\<lambda>_.
     seq (MakeIPCEvent x EV_PLATFORM_POST_REQUESTED (re_poll R) (rq_title r)
            (tg_operation x [''High'', ''Some'', ''Little'', ''None''])) (\<lambda>q.
     seq (push_event q) (\<lambda>_.
     seq (of_res (vec_at (snd q) 1)) (\<lambda>uuid.
       modify (\<lambda>s. s\<lparr>rs_ml := ml_add uuid \<lparr>in_emotions = rq_emotion r, in_sentiment = rq_sentiment r, in_poll_results = []\<rparr> (rs_ml s),
                     rs_polls := rs_polls s @ [root_id]\<rparr>))))))"

definition propose_poll :: "'db libs \<Rightarrow> research_env \<Rightarrow> int \<Rightarrow> int \<Rightarrow> int \<Rightarrow> (('db, 'm) research_scheme, unit) act" where
  "propose_poll x R root_id child subchild = seq get_state (\<lambda>s.
     if length (sc_queue s) > QUEUE_LIMIT then ret ()
     else
       seq (AnalyzeTW x (re_floats R) (FindMask (sc_app_map s)) (px_map (sc_px s)) child subchild) (\<lambda>requests.
       case requests of [] \<Rightarrow> ret ()
       | r # _ \<Rightarrow> if root_id \<in> set (rs_polls s) then ret () else send_poll x R root_id r))"

definition end_study :: "'db libs \<Rightarrow> research_env \<Rightarrow> int \<Rightarrow> int \<Rightarrow> (('db, 'm) research_scheme, unit) act" where
  "end_study x R init resp = seq get_state (\<lambda>s. let m = px_map (sc_px s) in
     seq (of_res (FindMasterRoot m init)) (\<lambda>r1.
     seq (of_res (FindMasterRoot m resp)) (\<lambda>r2.
     seq (of_res (node m r1)) (\<lambda>root.
     if r1 \<noteq> r2 then ret ()
     else seq (of_res (map_at (map_of (sc_app_map s)) (tk_mask (tw_task root)))) (\<lambda>app.
       if app = TW_RESEARCH_APP then propose_poll x R (tw_id root) init resp else ret ())))))"

definition app_names :: "(int \<rightharpoonup> string) \<Rightarrow> int \<Rightarrow> int \<Rightarrow> (string \<times> string) res" where
  "app_names m a b =
     bind (map_at m a) (\<lambda>an. if an = [] then Inl AssertFailed
       else bind (map_at m b) (\<lambda>bn. if bn = [] then Inl AssertFailed else Inr (an, bn)))"

definition set_node_event :: "int \<Rightarrow> process_event \<Rightarrow> ('db, 'm) scheduler_scheme \<Rightarrow> ('db, 'm) scheduler_scheme" where
  "set_node_event a ev s = s\<lparr>sc_px := (sc_px s)\<lparr>px_map := update_node a (SetEvent ev) (px_map (sc_px s))\<rparr>\<rparr>"

text \<open>Where an application is not known the work ends, and the task is never complete.\<close>

definition PostExecWork ::
  "'db libs \<Rightarrow> kproto \<Rightarrow> research_env \<Rightarrow> process_event \<Rightarrow> int \<Rightarrow> int \<Rightarrow> (('db, 'm) research_scheme, unit) act" where
  "PostExecWork x kp R ev init resp =
     seq (queue_header x R) (\<lambda>header. seq get_state (\<lambda>s.
     seq (of_res (map_at (map_of (px_map (sc_px s))) init)) (\<lambda>(_, iw).
     seq (of_res (map_at (map_of (px_map (sc_px s))) resp)) (\<lambda>(_, rw).
     if snd ev = [] then Finalize kp resp
     else (case app_names (map_of (sc_app_map s)) (tk_mask (tw_task iw)) (tk_mask (tw_task rw)) of
         Inl e \<Rightarrow> if is_exception e then ret () else raise e
       | Inr (ia, ra) \<Rightarrow>
           seq (modify (set_node_event resp ev)) (\<lambda>_.
           seq (if ia = TW_RESEARCH_APP \<and> ra = NER_APP then study_terms x kp R header (tw_task iw) resp ia
                else if ia = NER_APP \<and> ra = NER_APP then study_pair x init (tw_task iw) (tw_task rw) EMOTION_APP ''emotion''
                else if ia = EMOTION_APP \<and> ra = EMOTION_APP
                then study_pair x init (tw_task iw) (tw_task rw) SENTIMENT_APP ''sentiment''
                else if ia = SENTIMENT_APP \<and> ra = SENTIMENT_APP then end_study x R init resp
                else ret ()) (\<lambda>_.
             Finalize kp resp)))))))"

section \<open>What an application wrote\<close>

definition GENERIC_HEADER :: string where "GENERIC_HEADER = ''Generic Task''"

definition GetValidArgument :: "'db libs \<Rightarrow> int \<Rightarrow> (('db, 'm) scheduler_scheme, string) act" where
  "GetValidArgument x id1 = seq get_state (\<lambda>s.
     seq (GetTask_int x (map_of (sc_app_map s)) id1) (\<lambda>t. seq get_fs (\<lambda>fs.
     seq (of_res (GetToken_task fs t ''HEADER'')) (\<lambda>v. ret (if v \<noteq> GENERIC_HEADER then v else [])))))"

definition on_result_event :: "'db libs \<Rightarrow> kproto \<Rightarrow> research_env \<Rightarrow> int \<Rightarrow> process_event \<Rightarrow> (('db, 'm) research_scheme, unit) act" where
  "on_result_event x kp R id1 e =
     (if fst e = PLATFORM_NEW_POST
      then seq (GetValidArgument x id1) (\<lambda>arg. emit ALL_CLIENTS (fst e) (snd e @ [arg]))
      else if fst e = PROCESS_RESEARCH_RESULT
      then seq get_state (\<lambda>s. let parent = FindPostExec (px_map (sc_px s)) id1 in
             if parent \<noteq> INVALID_ID then PostExecWork x kp R e parent id1 else ret ())
      else if fst e = PROCESS_RESEARCH
      then seq (of_res (vec_nth (snd e) 4)) (\<lambda>content.
           seq (CreateChild x id1 content NER_APP [''entity'']) (\<lambda>_. seq get_state (\<lambda>s.
           seq (of_res (map_at (map_of (px_map (sc_px s))) id1)) (\<lambda>_. modify (set_node_event id1 e)))))
      else ret ())"

definition OnProcessOutput ::
  "'db libs \<Rightarrow> kproto \<Rightarrow> research_env \<Rightarrow> string \<Rightarrow> int \<Rightarrow> int \<Rightarrow> (('db, 'm) research_scheme, bool) act" where
  "OnProcessOutput x kp R out msk id1 =
     seq (GetAppInfo x msk []) (\<lambda>app.
     seq (of_res (process_app (re_floats R) (x_jparse x) out app)) (\<lambda>evs.
     seq (each (on_result_event x kp R id1) evs) (\<lambda>_. ret (evs \<noteq> []))))"

section \<open>What a platform asks or answers\<close>

definition FinalizeMLInputs :: "'db libs \<Rightarrow> string \<Rightarrow> string list \<Rightarrow> (('db, 'm) research_scheme, unit) act" where
  "FinalizeMLInputs x id1 data = seq get_state (\<lambda>s.
     if ml_has id1 (rs_ml s) then modify (\<lambda>s. s\<lparr>rs_ml := ml_finalize id1 data (rs_ml s)\<rparr>)
     else SendMail_subject (x_conf x ''system'' ''admin'') (''Failed to finalize model data with ID '' @ id1) ''KIQ Error'')"

definition GenerateMLData :: "research_env \<Rightarrow> (('db, 'm) research_scheme, unit) act" where
  "GenerateMLData R = seq get_state (\<lambda>s.
     seq (of_res (ml_Generate (re_floats R) (rs_ml s))) (\<lambda>g. modify (\<lambda>s. s\<lparr>rs_ml := g\<rparr>)))"

definition take_votes :: "'db libs \<Rightarrow> string \<Rightarrow> process_event \<Rightarrow> (('db, 'm) research_scheme, unit) act" where
  "take_votes x id1 e =
     (if fst e = PROCESS_RESEARCH_RESULT
      then seq get_state (\<lambda>s. seq (of_res (map_at (map_of (sc_dispatched s)) id1)) (\<lambda>p.
           seq (GetUUID x (pi_id p)) (\<lambda>uuid. FinalizeMLInputs x uuid (snd e))))
      else ret ())"

definition publish_data :: "'db libs \<Rightarrow> kproto \<Rightarrow> research_env \<Rightarrow> (('db, 'm) research_scheme, unit) act" where
  "publish_data x kp R =
     seq (GenerateMLData R) (\<lambda>_. seq get_state (\<lambda>s. let data = ml_output (rs_ml s) in
     seq (MakeIPCEvent x EV_PLATFORM_POST_REQUESTED (re_message R) data (tg_operation x [])) (\<lambda>m.
     seq (push_event m) (\<lambda>_.
     seq (CreateTask x (int_to_string (FindMask (sc_app_map s) ''Kneural'')) [] [] [] [''--input='' @ data]) (\<lambda>t.
     seq (schedule x t) (\<lambda>_. ResolvePending kp False))))))"

definition OnPlatformRequest ::
  "'db libs \<Rightarrow> kproto \<Rightarrow> research_env \<Rightarrow> string list \<Rightarrow> (('db, 'm) research_scheme, unit) act" where
  "OnPlatformRequest x kp R payload =
     seq (of_res (mapM (vec_nth payload) [0, 1, 2, 3, 4])) (\<lambda>_.
     let platform = payload ! 0; id1 = payload ! 1; message = payload ! 3; args = payload ! 4 in
     if message = re_poll_stop R
     then seq (of_res (ipc_message kp [[], platform, args, message, [], [], [], id1])) (\<lambda>m. seq (ScheduleIPC x m) (\<lambda>_. ret ()))
     else if message = re_poll_result R
     then seq (OnIPCReceived x id1) (\<lambda>known.
          if \<not> known then ret ()
          else seq (of_res (process_poll (x_jparse x) args)) (\<lambda>evs.
               seq (each (take_votes x id1) evs) (\<lambda>_. seq get_state (\<lambda>s.
               if IPCResponseReceived s \<and> ml_Ready (rs_ml s) then publish_data x kp R else ret ()))))
     else if message = re_generate_ai R \<and> platform = ''kai''
     then seq (of_res (ipc_message kp [int_to_string (re_platform_type R), platform, args, message, [], [], [], id1]))
            (\<lambda>m. seq (ScheduleIPC x m) (\<lambda>_. ret ()))
     else ret ())"

definition FetchTermEvents :: "'db libs \<Rightarrow> (('db, 'm) scheduler_scheme, term_event list) act" where
  "FetchTermEvents x = GetAllTermEvents x"

section \<open>What the steps leave alone\<close>

lemma keeps_world_schedule [world_frame]: "keeps only_world (schedule x t)"
  unfolding schedule_def insert_recurring_def insert_files_def
  by (intro world_rules world_frame keeps_catch_all; simp)

lemma keeps_world_study [world_frame]:
  "keeps only_world (exists_in x table args)" "keeps only_world (id_in x table args)"
  unfolding exists_in_def id_in_def
  by (intro world_rules world_frame; simp)+

lemma keeps_world_hits [world_frame]: "keeps only_world (GetTermHits x t)"
  unfolding GetTermHits_def TermExists_def GetTerm_def hit_rows_def
  by (intro world_rules world_frame keeps_catch_all; simp)

lemma keeps_world_analysis [world_frame]: "keeps only_world (AnalyzeTW x fl f m a b)"
  unfolding AnalyzeTW_def by (intro world_rules world_frame; simp)

lemma keeps_world_ipc_event [world_frame]: "keeps only_world (MakeIPCEvent x ev cmd data arg)"
  unfolding MakeIPCEvent_def Let_def by (intro world_rules world_frame; simp)

lemma keeps_world_create [world_frame]: "keeps only_world (CreateTask x msk d h u args)"
  unfolding CreateTask_def case_prod_beta by (intro world_rules world_frame; simp)

text \<open>Looking up by its number a task that exists throws: a column is missing from the query.\<close>

lemma task_by_number_throws:
  assumes "kdb_select x ''schedule'' [F_MASK, F_FLAGS, F_ENVFILE, F_TIME, F_COMPLETED, F_ID]
      [(''id'', DoubleSingleQuotes (int_to_string n))] w = (Inr (row # rows), w1)"
  shows "\<exists>e w'. GetTask_int x apps n w = (Inl e, w')"
proof (rule ccontr)
  assume "\<not> ?thesis"
  then obtain t w' where "GetTask_int x apps n w = (Inr t, w')"
    by (cases "GetTask_int x apps n w"; cases "fst (GetTask_int x apps n w)") auto
  then obtain t w' where g: "GetTask_int x apps n w = (Inr t, w')" by blast
  let ?f = "[F_MASK, F_FLAGS, F_ENVFILE, F_TIME, F_COMPLETED, F_ID]"
  have "rows_within ?f (row # rows)"
    using assms yields_selects(1) [of ?f x "''schedule''"] unfolding yields_def by blast
  then have "row F_RECURRING = None" by (auto simp: rows_within_def field_names)
  moreover obtain t1 w2 where "parseTask x apps False (row # rows) w1 = (Inr t1, w2)"
    using g assms unfolding GetTask_int_def with_filter_one by (auto simp: seq_def split: sum.splits prod.splits)
  ultimately show False
    using parseTask_row_needs_recurring [of row x apps F_TIME empty_task w1] by (auto simp: parseTask_def elim!: seq_InrD)
qed

lemma keeps_db_pure: "keeps only_db get_fs" "keeps only_db UnixTime"
  by (auto simp: keeps_def get_fs_def UnixTime_def intro: reflpD [OF reflp_only_db])

lemma keeps_db_files: "keeps only_db (getFiles x sid type)" "keeps only_db (time_as_today x t)"
  unfolding getFiles_def time_as_today_def
  by (intro keeps_if keeps_seq keeps_pure keeps_with_filter keeps_kdb_ops keeps_db_pure; simp)+

lemma keeps_db_row: "keeps only_db (parseTask_row x apps f t row)"
  unfolding parseTask_row_def Let_def
  by (intro keeps_if keeps_seq keeps_pure keeps_db_pure keeps_db_files; simp)

lemma keeps_read_task: "keeps only_db (GetTask_int x apps n)"
proof -
  have "keeps only_db (parseTask_rows x apps f t rows)" for f t rows
    by (induction rows arbitrary: t) (auto intro!: keeps_seq keeps_db_row)
  then show ?thesis
    unfolding GetTask_int_def parseTask_def
    by (intro keeps_seq keeps_pure keeps_with_filter keeps_kdb_ops keeps_db_files; simp)
qed

section \<open>Properties\<close>

text \<open>
  C38: the posts that a feed finds are lost: to give the first of them to the platforms, the task is
  looked up by its number, and when there is such a task, that throws before anything is sent.
\<close>

theorem feeds_are_lost:
  assumes "GetAppInfo x msk [] s = (Inr app, s1)"
    and "process_app (re_floats R) (x_jparse x) out app = Inr (e # es)" and "fst e = PLATFORM_NEW_POST"
    and "kdb_select x ''schedule'' [F_MASK, F_FLAGS, F_ENVFILE, F_TIME, F_COMPLETED, F_ID]
      [(''id'', DoubleSingleQuotes (int_to_string id1))] s1 = (Inr (row # rows), s2)"
  shows "\<exists>err s'. OnProcessOutput x kp R out msk id1 s = (Inl err, s') \<and> w_events s' = w_events s"
proof -
  obtain err s' where t: "GetTask_int x (map_of (sc_app_map s1)) id1 s1 = (Inl err, s')"
    using task_by_number_throws [OF assms(4)] by blast
  then have "on_result_event x kp R id1 e s1 = (Inl err, s')"
    using assms(3) by (simp add: on_result_event_def GetValidArgument_def seq_def get_state_def)
  then have "OnProcessOutput x kp R out msk id1 s = (Inl err, s')"
    using assms(1,2) by (simp add: OnProcessOutput_def seq_def)
  moreover have "only_db s s1" using keepsD [OF keeps_GetAppInfo assms(1)] .
  moreover have "only_db s1 s'" using keepsD [OF keeps_read_task t] .
  ultimately show ?thesis by (auto simp: only_db_def)
qed

text \<open>
  C29: a task that is made for another one, \<open>CreateChild\<close>, and has been scheduled is not linked to it when both have a row in
  the table of tasks: \<open>PostExecWait\<close> looks the tasks up by their numbers, and that throws for a task that is there. The lists of tasks stay
  as they were, and the caller gets the exception in place of the number of the new task.
\<close>

theorem children_are_never_linked:
  assumes "GetAppInfo x (- 1) name s = (Inr app, s1)" and "app_is_valid app"
    and "CreateTask x (app_mask app) data [] [] args s1 = (Inr t, s2)" and "schedule x t s2 = (Inr sid, s3)"
    and "stoi sid = Inr r"
    and "\<forall>n \<in> {id1, r}. \<exists>row rows w. kdb_select x ''schedule'' [F_MASK, F_FLAGS, F_ENVFILE, F_TIME, F_COMPLETED, F_ID]
      [(''id'', DoubleSingleQuotes (int_to_string n))] s3 = (Inr (row # rows), w)"
  shows "\<exists>err s'. CreateChild x id1 data name args s = (Inl err, s') \<and> sc_px s' = sc_px s"
proof -
  have ne: "sid \<noteq> []" using assms(5) by (auto simp: stoi_def)
  obtain n err s' where t: "GetTask_int x (map_of (sc_app_map s3)) n s3 = (Inl err, s')"
    and w: "wait_node x id1 r s3 = (Inl err, s')"
  proof (cases "map_of (px_lists (sc_px s3)) id1 = None")
    case True
    obtain err s' where "GetTask_int x (map_of (sc_app_map s3)) id1 s3 = (Inl err, s')"
      using assms(6) task_by_number_throws by blast
    then show thesis using True that by (fastforce simp: wait_node_def Let_def seq_def get_state_def)
  next
    case False
    obtain err s' where "GetTask_int x (map_of (sc_app_map s3)) r s3 = (Inl err, s')"
      using assms(6) task_by_number_throws by blast
    then show thesis using False that by (fastforce simp: wait_node_def Let_def seq_def get_state_def)
  qed
  have "CreateChild x id1 data name args s = (Inl err, s')"
    using assms(1-5) ne w by (simp add: CreateChild_def seq_def)
  moreover have "only_world s s1" "only_world s1 s2" "only_world s2 s3"
    using keepsD [OF keeps_db_world [OF keeps_GetAppInfo] assms(1)] keepsD [OF keeps_world_create assms(3)]
      keepsD [OF keeps_world_schedule assms(4)] .
  moreover have "only_world s3 s'"
    using keepsD [OF keeps_db_world [OF keeps_read_task] t] .
  ultimately have "world.more s' = world.more s" by (simp add: only_world_def)
  then have "sc_px s' = sc_px s" by (cases s; cases s') simp
  with \<open>CreateChild x id1 data name args s = (Inl err, s')\<close> show ?thesis by blast
qed

definition sample_research :: "string list research" where
  "sample_research = \<lparr>w_db = [], w_fs = sample_fs, w_now = 9, w_uuids = 0, w_events = [], w_mails = [],
     pf_map = [], pf_pending = 0, pf_errors = 0, pf_posted = 0, pf_timer = new_timer False 0 TEN_MINUTES False,
     sc_app_map = [(16, ''KNLP - NER''), (32, ''TW Research'')], sc_px = \<lparr>px_map = [], px_lists = []\<rparr>,
     sc_queue = [], sc_ipc_command = 0, sc_dispatched = [], sc_timer = new_timer False 0 TEN_MINUTES False,
     sc_postexec_tasks = 0, sc_tx_ipc = 0, sc_evts = [],
     rs_polls = [], rs_terms = [], rs_ml = \<lparr>ml_inputs = [], ml_output = []\<rparr>, rs_header = Some (16, [''Telegram'', ''u0''])\<rparr>"

definition sample_research_env :: research_env where
  "sample_research_env = \<lparr>re_floats = no_floats, re_localtime = (\<lambda>_. ''2021''), re_ascii = (\<lambda>_. []),
     re_append = (\<lambda>e t. (fst e, snd e @ [t])), re_tg_index = 1, re_message = 0, re_poll = 1, re_poll_stop = ''stop'',
     re_poll_result = ''result'', re_generate_ai = ''generate'', re_platform_type = 0\<rparr>"

definition feed_answer :: "string \<Rightarrow> db_row list res" where
  "feed_answer s =
     (if starts_with ''SELECT id,path'' s
      then Inr [[Some ''1'', Some ''/usr/bin/app'', Some [], Some ''TW Feed'', Some ''t'', Some ''16'']]
      else Inr [[Some ''7'']])"

definition feed_libs :: "string list libs" where
  "feed_libs = log_libs\<lparr>x_exec := (\<lambda>s db. (feed_answer s, db @ [s])), x_jparse := (\<lambda>_. Some (JArray [JObject []]))\<rparr>"

lemma feed_task_row:
  "\<exists>row w'. kdb_select feed_libs ''schedule'' [F_MASK, F_FLAGS, F_ENVFILE, F_TIME, F_COMPLETED, F_ID]
     [(''id'', DoubleSingleQuotes (int_to_string n))] w = (Inr [row], w')"
proof -
  have "feed_answer (select_head [F_MASK, F_FLAGS, F_ENVFILE, F_TIME, F_COMPLETED, F_ID] ''schedule'' @ t) = Inr [[Some ''7'']]" for t
    by (simp add: feed_answer_def select_head_def fields_string_def field_names)
  then show ?thesis
    by (simp add: kdb_select_def kdb_try_def query_rows_def pq_exec_def seq_def handle_def feed_libs_def
      select_DatabaseQuery_def row_map_def)
qed

definition feed_app :: kapplication where
  "feed_app = \<lparr>app_id = ''1'', app_name = ''TW Feed'', app_path = ''/usr/bin/app'', app_data = [], app_mask = ''16'', app_is_kiq = True\<rparr>"

lemma feed_app_found:
  "fst (GetAppInfo feed_libs 16 [] sample_research) = Inr feed_app"
  "fst (GetAppInfo feed_libs (- 1) NER_APP sample_research) = Inr feed_app"
  by code_simp+

theorem feeds_are_lost_witness:
  "\<exists>err s'. OnProcessOutput feed_libs idle_kproto sample_research_env ''[{}]'' 16 5 sample_research = (Inl err, s') \<and>
     w_events s' = w_events sample_research"
proof -
  obtain s1 where app: "GetAppInfo feed_libs 16 [] sample_research = (Inr feed_app, s1)"
    using feed_app_found(1) by (cases "GetAppInfo feed_libs 16 [] sample_research") auto
  have "process_app (re_floats sample_research_env) (x_jparse feed_libs) ''[{}]'' feed_app =
     Inr [(PLATFORM_NEW_POST, [''TW Feed'', [], [], [], [], [], SHOULD_REPOST, PLATFORM_PROCESS_METHOD])]"
    by (simp add: process_app_def Let_def tw_read_def read_array_def tw_element_def feed_libs_def blank_tw_def
        tw_result_def TW_ReadEventData_def post_event_def feed_app_def)
  then show ?thesis
    using feeds_are_lost [OF app] feed_task_row [of 5 s1] by fastforce
qed

theorem children_are_never_linked_witness:
  "\<exists>err s'. CreateChild feed_libs 5 ''Some words'' NER_APP [''entity''] sample_research = (Inl err, s') \<and>
     sc_px s' = sc_px sample_research"
proof -
  obtain s1 where app: "GetAppInfo feed_libs (- 1) NER_APP sample_research = (Inr feed_app, s1)"
    using feed_app_found(2) by (cases "GetAppInfo feed_libs (- 1) NER_APP sample_research") auto
  obtain t s2 sid s3 where t: "CreateTask feed_libs (app_mask feed_app) ''Some words'' [] [] [''entity''] s1 = (Inr t, s2)"
    and s: "schedule feed_libs t s2 = (Inr sid, s3)" "stoi sid = Inr 7"
  proof -
    have "case fst (seq (GetAppInfo feed_libs (- 1) NER_APP) (\<lambda>app. seq (CreateTask feed_libs ''16'' ''Some words'' [] [] [''entity''])
        (schedule feed_libs)) sample_research) of Inr sid \<Rightarrow> stoi sid = Inr 7 | Inl _ \<Rightarrow> False"
      by code_simp
    then show thesis using that app by (auto simp: feed_app_def seq_def split: sum.splits prod.splits) (metis prod.collapse)
  qed
  show ?thesis
    using children_are_never_linked [OF app _ t s] feed_task_row [of _ s3] by (fastforce simp: app_is_valid_def feed_app_def)
qed

lemma CompleteTask_chain:
  assumes "px_chains px cs" and "xs @ pid # ys \<in> set cs" and "resp \<in> set ys"
    and "map_of (px_lists px) pid = Some pid" and "map_of (px_map px) resp = Some (pid, w)"
  shows "CompleteTask resp px = Inr (px\<lparr>px_map := update_node resp (\<lambda>w. w\<lparr>tw_complete := True\<rparr>) (px_map px)\<rparr>)"
proof -
  have "linked (px_map px) None (xs @ pid # ys)" using assms(1,2) by (rule px_chainsD(4))
  from linked_append [OF this] obtain par where l: "linked (px_map px) par (pid # ys)" by blast
  then obtain v where v: "node (px_map px) pid = Inr v" "tw_child v = (case ys of [] \<Rightarrow> None | b # _ \<Rightarrow> Some b)"
    and l2: "linked (px_map px) (Some pid) ys"
    by (rule linkedE)
  then have "FindNode (px_map px) pid resp = Inr resp"
    using find_from_linked [OF l2 assms(3)] by (simp add: FindNode_def run_walk_def)
  then show ?thesis using assms(4,5) by (simp add: CompleteTask_def)
qed

lemma all_but_one_complete:
  "AllTasksComplete (update_node a (\<lambda>w. w\<lparr>tw_complete := True\<rparr>) m) \<longleftrightarrow>
     (\<forall>e \<in> set m. fst e \<noteq> a \<longrightarrow> tw_complete (snd (snd e)))"
  by (induction m) (auto simp: AllTasksComplete_def update_node_def)

lemma resolve_now:
  "ResolvePending kp False s = (Inr (), clear_lists kp (s\<lparr>sc_tx_ipc := sc_tx_ipc s + of_nat (length (sc_queue s)),
     w_events := w_events s @ map (\<lambda>e. (ALL_CLIENTS, fst e, snd e)) (sc_queue s)\<rparr>))"
  by (simp add: ResolvePending_def get_state_def seq_def each_send_event)

text \<open>
  C23: when the last task that a study waits for has no result, the study ends: the queue is sent,
  in its order, just if it holds more than the header, and nothing is left of the queue and the
  lists of tasks. While another task is open, its task is marked and nothing is sent.
\<close>

theorem last_result_ends_study:
  assumes "rs_header s = Some h" and "snd ev = []"
    and "px_chains (sc_px s) cs" and "xs @ pid # ys \<in> set cs" and "resp \<in> set ys"
    and "map_of (px_lists (sc_px s)) pid = Some pid" and "map_of (px_map (sc_px s)) resp = Some (pid, w)"
    and "map_of (px_map (sc_px s)) init = Some iw"
  shows "\<exists>s'. PostExecWork x kp R ev init resp s = (Inr (), s') \<and>
    (if \<forall>e \<in> set (px_map (sc_px s)). fst e \<noteq> resp \<longrightarrow> tw_complete (snd (snd e))
     then w_events s' = w_events s @ (if length (sc_queue s) < 2 then [] else map (\<lambda>e. (ALL_CLIENTS, fst e, snd e)) (sc_queue s)) \<and>
       sc_queue s' = [] \<and> sc_px s' = \<lparr>px_map = [], px_lists = []\<rparr>
     else w_events s' = w_events s \<and> sc_queue s' = sc_queue s \<and>
       sc_px s' = (sc_px s)\<lparr>px_map := update_node resp (\<lambda>w. w\<lparr>tw_complete := True\<rparr>) (px_map (sc_px s))\<rparr>)"
proof -
  let ?px = "(sc_px s)\<lparr>px_map := update_node resp (\<lambda>w. w\<lparr>tw_complete := True\<rparr>) (px_map (sc_px s))\<rparr>"
  let ?all = "\<forall>e \<in> set (px_map (sc_px s)). fst e \<noteq> resp \<longrightarrow> tw_complete (snd (snd e))"
  let ?s = "s\<lparr>sc_px := ?px\<rparr>"
  have e: "PostExecWork x kp R ev init resp s = Finalize kp resp s"
    using assms(1,2,7,8) by (cases iw) (simp add: PostExecWork_def queue_header_def seq_def get_state_def)
  have c: "complete_node resp s = (Inr (), ?s)"
    using CompleteTask_chain [OF assms(3-7)] by (simp add: complete_node_def seq_def get_state_def)
  have all: "AllTasksComplete (px_map ?px) \<longleftrightarrow> ?all"
    by (simp add: all_but_one_complete)
  show ?thesis
    unfolding e Finalize_def
    using all c by (auto simp: seq_def get_state_def resolve_now drop_short_queue_def clear_lists_def SetIPCCommand_def Let_def
        simp del: map_map)
qed

text \<open>
  C26: a root is asked about once, and only while the queue holds no more than five messages: then
  the message and the question are put behind the rest, and the root is remembered.
\<close>

theorem root_is_asked_once:
  assumes "propose_poll x R root_id a b s = (Inr (), s')"
  shows "(sc_queue s' = sc_queue s \<and> rs_polls s' = rs_polls s \<and> rs_ml s' = rs_ml s) \<or>
    (root_id \<notin> set (rs_polls s) \<and> rs_polls s' = rs_polls s @ [root_id] \<and> length (sc_queue s) \<le> QUEUE_LIMIT \<and>
     (\<exists>m q e t. sc_queue s' = sc_queue s @ [m, q] \<and> vec_at (snd q) 1 = Inr e \<and>
        rs_ml s' = ml_add e \<lparr>in_emotions = fst t, in_sentiment = snd t, in_poll_results = []\<rparr> (rs_ml s)))"
proof (cases "length (sc_queue s) > QUEUE_LIMIT")
  case True
  with assms have "s' = s" by (simp add: propose_poll_def seq_def get_state_def)
  then show ?thesis by simp
next
  case False
  then obtain reqs s1 where r: "AnalyzeTW x (re_floats R) (FindMask (sc_app_map s)) (px_map (sc_px s)) a b s = (Inr reqs, s1)"
    and c: "(case reqs of [] \<Rightarrow> ret () | r # _ \<Rightarrow> if root_id \<in> set (rs_polls s) then ret () else send_poll x R root_id r) s1 = (Inr (), s')"
    using assms by (auto simp: propose_poll_def seq_def get_state_def split: sum.splits prod.splits)
  have 1: "world.more s1 = world.more s"
    using keepsD [OF keeps_world_analysis r] by (simp add: only_world_def)
  show ?thesis
  proof (cases "reqs = [] \<or> root_id \<in> set (rs_polls s)")
    case True
    with c have "s' = s1" by (auto split: list.splits)
    with 1 show ?thesis by (cases s; cases s1) simp
  next
    case new: False
    then obtain r where "send_poll x R root_id r s1 = (Inr (), s')" using c by (auto split: list.splits)
    then obtain m s2 q s3 uuid where
      m: "MakeIPCEvent x EV_PLATFORM_POST_REQUESTED (re_message R) (rq_data r) (tg_operation x []) s1 = (Inr m, s2)"
      and q: "MakeIPCEvent x EV_PLATFORM_POST_REQUESTED (re_poll R) (rq_title r)
            (tg_operation x [''High'', ''Some'', ''Little'', ''None'']) (s2\<lparr>sc_queue := sc_queue s2 @ [m]\<rparr>) = (Inr q, s3)"
      and u: "vec_at (snd q) 1 = Inr uuid"
      and s': "s' = s3\<lparr>sc_queue := sc_queue s3 @ [q], rs_ml := ml_add uuid \<lparr>in_emotions = rq_emotion r, in_sentiment = rq_sentiment r,
        in_poll_results = []\<rparr> (rs_ml s3), rs_polls := rs_polls s3 @ [root_id]\<rparr>"
      unfolding send_poll_def push_event_def by (auto elim!: seq_InrD)
    have "world.more s2 = world.more s1" "world.more s3 = world.more (s2\<lparr>sc_queue := sc_queue s2 @ [m]\<rparr>)"
      using keepsD [OF keeps_world_ipc_event m] keepsD [OF keeps_world_ipc_event q] by (simp_all add: only_world_def)
    with 1 have "sc_queue s3 = sc_queue s @ [m]" "rs_ml s3 = rs_ml s" "rs_polls s3 = rs_polls s"
      by (cases s; cases s1; cases s2; cases s3; simp)+
    with s' u new False show ?thesis
      by (intro disjI2) (auto intro!: exI [of _ "(rq_emotion r, rq_sentiment r)"])
  qed
qed

text \<open>
  One question that nobody answered spoils the training data of all: the answer to the last
  message that is waited for throws, and neither data nor task is sent.
\<close>

theorem missing_votes_stop_training:
  assumes "length payload = 5" and "payload ! 3 = re_poll_result R" and "re_poll_result R \<noteq> re_poll_stop R"
    and "OnIPCReceived x (payload ! 1) s = (Inr True, s1)" and "process_poll (x_jparse x) (payload ! 4) = Inr evs"
    and "each (take_votes x (payload ! 1)) evs s1 = (Inr (), s2)" and "IPCResponseReceived s2"
    and "e \<in> set (ml_inputs (rs_ml s2))" and "length (in_poll_results (snd e)) < 4"
  shows "OnPlatformRequest x kp R payload s = (Inl OutOfRange, s2)"
proof -
  obtain a b c d f where p: "payload = [a, b, c, d, f]"
    using assms(1) by (auto simp: length_Suc_conv eval_nat_numeral)
  have "mapM (ml_line fl) es = Inl OutOfRange" if "e \<in> set es" for fl es
    using that assms(9) by (induction es) (auto simp: ml_line_row)
  then have "ml_Generate (re_floats R) (rs_ml s2) = Inl OutOfRange"
    using assms(8) by (simp add: ml_Generate_def)
  then have "publish_data x kp R s2 = (Inl OutOfRange, s2)"
    by (simp add: publish_data_def GenerateMLData_def seq_def get_state_def)
  then show ?thesis
    using assms(2-7) by (simp add: p OnPlatformRequest_def Let_def seq_def get_state_def ml_always_ready)
qed

definition open_study :: "string list research" where
  "open_study = sample_research\<lparr>sc_px := \<lparr>px_map = [link 5 None (Some 9), link 9 (Some 5) None], px_lists = [(5, 5)]\<rparr>,
     sc_queue := [(16, [''a'']), (16, [''b''])]\<rparr>"

lemma open_study_chains: "px_chains (sc_px open_study) [[5, 9]]"
  by (simp add: px_chains_def open_study_def link_def node_def new_wrapper_def id_task_def)

theorem last_result_ends_study_witness:
  "\<exists>s'. PostExecWork feed_libs idle_kproto sample_research_env (34, []) 5 9 open_study = (Inr (), s') \<and>
     w_events s' = [] \<and> tw_complete (snd (snd (px_map (sc_px s') ! 1)))"
proof -
  have h: "rs_header open_study = Some (16, [''Telegram'', ''u0''])" by (simp add: open_study_def sample_research_def)
  have m: "map_of (px_lists (sc_px open_study)) 5 = Some 5"
    "map_of (px_map (sc_px open_study)) 9 = Some (5, snd (snd (link 9 (Some 5) None)))"
    "map_of (px_map (sc_px open_study)) 5 = Some (snd (link 5 None (Some 9)))"
    by (simp_all add: open_study_def link_def)
  have c: "[] @ 5 # [9] \<in> set [[5, 9]]" "9 \<in> set [9]" for c :: int by simp_all
  note r = last_result_ends_study [OF h _ open_study_chains _ _ m, of "(34, [])" "[]" "[9]" feed_libs idle_kproto sample_research_env]
  from r obtain s' where "PostExecWork feed_libs idle_kproto sample_research_env (34, []) 5 9 open_study = (Inr (), s')"
    and e: "if \<forall>e \<in> set (px_map (sc_px open_study)). fst e \<noteq> 9 \<longrightarrow> tw_complete (snd (snd e))
     then w_events s' = w_events open_study @ (if length (sc_queue open_study) < 2 then []
         else map (\<lambda>e. (ALL_CLIENTS, fst e, snd e)) (sc_queue open_study)) \<and>
       sc_queue s' = [] \<and> sc_px s' = \<lparr>px_map = [], px_lists = []\<rparr>
     else w_events s' = w_events open_study \<and> sc_queue s' = sc_queue open_study \<and>
       sc_px s' = (sc_px open_study)\<lparr>px_map := update_node 9 (\<lambda>w. w\<lparr>tw_complete := True\<rparr>) (px_map (sc_px open_study))\<rparr>"
    by auto
  have "\<not> (\<forall>e \<in> set (px_map (sc_px open_study)). fst e \<noteq> 9 \<longrightarrow> tw_complete (snd (snd e)))"
    "w_events open_study = []" "px_map (sc_px open_study) = [link 5 None (Some 9), link 9 (Some 5) None]"
    by (simp_all add: open_study_def link_def new_wrapper_def sample_research_def)
  with e have "w_events s' = []" "tw_complete (snd (snd (px_map (sc_px s') ! 1)))"
    by (auto simp: update_node_def link_def)
  with \<open>PostExecWork feed_libs idle_kproto sample_research_env (34, []) 5 9 open_study = (Inr (), s')\<close> show ?thesis by blast
qed

text \<open>A study at its end: two sentences, their terms, emotions and sentiments.\<close>

definition study_node :: "int \<Rightarrow> int \<Rightarrow> string list \<Rightarrow> int option \<Rightarrow> int option \<Rightarrow> int \<times> int \<times> wrapper" where
  "study_node a msk payload p c = (a, 1, \<lparr>tw_task = empty_task\<lparr>tk_id := a, tk_mask := msk, tk_env := ''v.env''\<rparr>, tw_id = a,
     tw_complete = True, tw_parent = p, tw_child = c, tw_event = (34, payload)\<rparr>)"

definition ended_study :: "string list research" where
  "ended_study = sample_research\<lparr>sc_app_map := [(1, ''TW Research''), (2, ''KNLP - NER''), (4, ''KNLP - Emotion''), (8, ''KNLP - Sentiment'')],
     w_fs := SaveFile sample_fs (CreateEnvFile [(''DESCRIPTION'', ''hello'')]) ''v.env'',
     sc_px := \<lparr>px_map = [study_node 1 1 [] None (Some 2), study_node 2 2 [''n'', ''ORG'', ''ACME''] (Some 1) (Some 3),
       study_node 3 4 [''e'', ''0'', ''0'', ''0'', ''0'', ''0'', ''0'', ''joy''] (Some 2) (Some 4),
       study_node 4 4 [''e'', ''0'', ''0'', ''0'', ''0'', ''0'', ''0'', ''joy''] (Some 3) (Some 5),
       study_node 5 8 [''positive'', ''1''] (Some 4) (Some 6), study_node 6 8 [''positive'', ''1''] (Some 5) None],
       px_lists = [(1, 1)]\<rparr>\<rparr>"

definition hit_answer :: "string \<Rightarrow> db_row list res" where
  "hit_answer s = (if starts_with ''SELECT term_hit'' s
     then Inr [map Some [''3'', ''2021'', ''7'', ''Ann'', ''ann'', ''ACME'']] else Inr [[Some ''7'']])"

definition hit_libs :: "string list libs" where
  "hit_libs = log_libs\<lparr>x_exec := (\<lambda>s db. (hit_answer s, db @ [s]))\<rparr>"

lemma hit_select:
  "\<exists>w'. kdb_select hit_libs table [f] flt w = (Inr [[f \<mapsto> ''7'']], w')" if "f \<in> {''id'', ''name''}"
proof -
  have "hit_answer (select_head [f] table @ t) = Inr [[Some ''7'']]" for t
    using that by (auto simp: hit_answer_def select_head_def fields_string_def)
  from this [of "[]"] this show ?thesis
    by (auto simp: kdb_select_def kdb_try_def query_rows_def pq_exec_def seq_def handle_def hit_libs_def
      select_DatabaseQuery_def row_map_def cell_def c_str_def split: list.splits)
qed

lemma hit_message:
  obtains m w' where "MakeIPCEvent hit_libs EV_PLATFORM_POST_REQUESTED c d a w = (Inr m, w')" "1 < length (snd m)"
proof -
  obtain w1 where 1: "kdb_select hit_libs ''platform'' [''id''] [(''name'', ''Telegram'')] w = (Inr [[''id'' \<mapsto> ''7'']], w1)"
    using hit_select [of "''id''" "''platform''"] by blast
  obtain w2 where 2: "kdb_select hit_libs ''platform_user'' [''name''] [(''pid'', ''7''), (''type'', ''official'')] w1 = (Inr [[''name'' \<mapsto> ''7'']], w2)"
    using hit_select [of "''name''" "''platform_user''"] by blast
  have "DoubleSingleQuotes ''Telegram'' = ''Telegram''" "DoubleSingleQuotes ''7'' = ''7''" "DoubleSingleQuotes ''official'' = ''official''"
    by code_simp+
  with 1 2 show thesis
    using that by (auto simp: MakeIPCEvent_def GetPlatformID_def GetUser_def Let_def seq_def first_at_def GenerateUUIDString_def
        UnixTime_def GetPayload_post_def)
qed

theorem root_is_asked_once_witness:
  "\<exists>s' m q. propose_poll hit_libs sample_research_env 1 5 6 ended_study = (Inr (), s') \<and> sc_queue s' = [m, q] \<and> rs_polls s' = [1]"
proof -
  let ?r = "propose_poll hit_libs sample_research_env 1 5 6 ended_study"
  let ?a = "AnalyzeTW hit_libs no_floats (FindMask (sc_app_map ended_study)) (px_map (sc_px ended_study)) 5 6 ended_study"
  have "case fst ?a of Inr h \<Rightarrow> h \<noteq> [] | Inl _ \<Rightarrow> False" by code_simp
  then obtain r rs s1 where a: "?a = (Inr (r # rs), s1)"
    by (cases ?a) (auto simp: neq_Nil_conv split: sum.splits)
  obtain m s2 where m: "MakeIPCEvent hit_libs EV_PLATFORM_POST_REQUESTED 0 (rq_data r) (tg_operation hit_libs []) s1 = (Inr m, s2)"
    by (rule hit_message)
  obtain q s3 where q: "MakeIPCEvent hit_libs EV_PLATFORM_POST_REQUESTED 1 (rq_title r)
      (tg_operation hit_libs [''High'', ''Some'', ''Little'', ''None'']) (s2\<lparr>sc_queue := sc_queue s2 @ [m]\<rparr>) = (Inr q, s3)" "1 < length (snd q)"
    by (rule hit_message)
  have p: "rs_polls ended_study = []" "sc_queue ended_study = []" by (simp_all add: ended_study_def sample_research_def)
  have "\<exists>s'. ?r = (Inr (), s') \<and> rs_polls s' = rs_polls s3 @ [1]"
    using a m q p by (simp add: propose_poll_def seq_def get_state_def sample_research_env_def send_poll_def push_event_def QUEUE_LIMIT_def)
  then obtain s' where s': "?r = (Inr (), s')" and "rs_polls s' \<noteq> []" by auto
  with root_is_asked_once [OF s'] p show ?thesis by auto
qed

definition asked_study :: "string list research" where
  "asked_study = sample_research\<lparr>sc_dispatched := [(''u1'', sample_request)],
     rs_ml := \<lparr>ml_inputs = [(''u9'', \<lparr>in_emotions = \<lparr>eo_emotions = [''joy''], eo_scores = \<lparr>em_joy = 0, em_sadness = 0, em_surprise = 0,
       em_fear = 0, em_anger = 0, em_disgust = 0\<rparr>\<rparr>, in_sentiment = \<lparr>se_type = [], se_score = 0, se_keywords = []\<rparr>, in_poll_results = []\<rparr>)],
       ml_output = ML_HEADER\<rparr>\<rparr>"

definition vote_libs :: "string list libs" where
  "vote_libs = log_libs\<lparr>x_jparse := (\<lambda>_. Some (JArray [JObject [(''option'', JString ''High''), (''value'', JInt 3)]]))\<rparr>"

theorem missing_votes_stop_training_witness:
  "\<exists>s'. OnPlatformRequest vote_libs idle_kproto sample_research_env [''Telegram'', ''u1'', ''bot'', ''result'', ''[]''] asked_study
     = (Inl OutOfRange, s') \<and> w_events s' = []"
proof -
  let ?i = "OnIPCReceived vote_libs ''u1'' asked_study"
  let ?t = "take_votes vote_libs ''u1'' (34, [''3''])"
  have ev: "fst ?i = Inr True \<and> fst (?t (snd ?i)) = Inr () \<and> IPCResponseReceived (snd (?t (snd ?i))) \<and>
    w_events (snd (?t (snd ?i))) = []"
    by code_simp
  have len: "length (ml_inputs (rs_ml (snd (?t (snd ?i))))) = 1 \<and>
    length (in_poll_results (snd (hd (ml_inputs (rs_ml (snd (?t (snd ?i)))))))) = 0"
    by code_simp
  then have "hd (ml_inputs (rs_ml (snd (?t (snd ?i))))) \<in> set (ml_inputs (rs_ml (snd (?t (snd ?i)))))"
    by (intro hd_in_set) auto
  moreover have "?i = (Inr True, snd ?i)" "each (take_votes vote_libs ''u1'') [(34, [''3''])] (snd ?i) = (Inr (), snd (?t (snd ?i)))"
    using ev by (cases ?i; cases "?t (snd ?i)"; auto simp: seq_def)+
  moreover have "process_poll (x_jparse vote_libs) ''[]'' = Inr [(34, [''3''])]" by code_simp
  ultimately show ?thesis
    using missing_votes_stop_training [of "[''Telegram'', ''u1'', ''bot'', ''result'', ''[]'']" sample_research_env vote_libs
        asked_study "snd ?i" "[(34, [''3''])]" "snd (?t (snd ?i))" "hd (ml_inputs (rs_ml (snd (?t (snd ?i)))))" idle_kproto] ev len
    by (auto simp: sample_research_env_def)
qed

end
