(* ===== verification/IpcQueue.thy ===== *)
theory IpcQueue
  imports Controller
begin

text \<open>
  The messages to and from other processes and the queue of those that are to be sent: the part of
  \<open>system/process/ipc/manager.cpp\<close> that does not raise events of its own (\<open>find_peer\<close>,
  \<open>deserialize\<close>, \<open>ReceiveEvent\<close>, \<open>start\<close>, \<open>on_heartbeat\<close>, \<open>reconnect\<close>, \<open>run\<close>) and the
  constructor and \<open>connect\<close> of \<open>client.cpp\<close>.

  The classes of the messages, their type numbers and the daemon that watches the peers are in the
  submodule kproto, whose sources are not here. A message is the constructor that was called with
  its arguments, or the fields the code reads of one that was received; the numbers are the argument
  \<open>ipc_types\<close>. Of the daemon only the calls made of it are known: they are the state, and what
  it answers is a function of them (\<open>ie_has\<close>, \<open>ie_validate\<close>). The sockets are logs of what was
  sent and of what was connected.

  Shown: a turn of \<open>run\<close> sends the front of the queue in order, at most nine messages; no turn
  fails for want of a client; a message to a peer that is not observed blocks those behind it.
\<close>

section \<open>Messages\<close>

datatype ipc_msg =
    Platform_Message (pm_platform: string) (pm_id: string) (pm_user: string) (pm_content: string) (pm_urls: string)
      (pm_repost: bool) (pm_cmd: int) (pm_args: string) (pm_time: string)
  | Platform_Request string string string string string   \<comment> \<open>platform, id, user, content, args\<close>
  | Platform_Info string string string string             \<comment> \<open>platform, info, type, id\<close>
  | Platform_Error string string string string            \<comment> \<open>name, id, user, error\<close>
  | Kiq_Message string "string option"                    \<comment> \<open>payload, platform where it is given\<close>
  | Keepalive
  | Okay_Message
  | Status_Check
  | Other_Message int                                     \<comment> \<open>of another type\<close>

record ipc_types =
  it_platform :: int     \<comment> \<open>\<open>IPC_PLATFORM_TYPE\<close>\<close>
  it_request :: int      \<comment> \<open>\<open>IPC_PLATFORM_REQUEST\<close>\<close>
  it_info :: int         \<comment> \<open>\<open>IPC_PLATFORM_INFO\<close>\<close>
  it_error :: int        \<comment> \<open>\<open>IPC_PLATFORM_ERROR\<close>\<close>
  it_kiq :: int          \<comment> \<open>\<open>IPC_KIQ_MESSAGE\<close>\<close>
  it_keepalive :: int    \<comment> \<open>\<open>IPC_KEEPALIVE_TYPE\<close>\<close>
  it_ok :: int           \<comment> \<open>\<open>IPC_OK_TYPE\<close>\<close>
  it_status :: int       \<comment> \<open>\<open>IPC_STATUS\<close>\<close>

fun msg_type :: "ipc_types \<Rightarrow> ipc_msg \<Rightarrow> int" where
  "msg_type T (Platform_Message _ _ _ _ _ _ _ _ _) = it_platform T"
| "msg_type T (Platform_Request _ _ _ _ _) = it_request T"
| "msg_type T (Platform_Info _ _ _ _) = it_info T"
| "msg_type T (Platform_Error _ _ _ _) = it_error T"
| "msg_type T (Kiq_Message _ _) = it_kiq T"
| "msg_type T Keepalive = it_keepalive T"
| "msg_type T Okay_Message = it_ok T"
| "msg_type T Status_Check = it_status T"
| "msg_type T (Other_Message i) = i"

section \<open>The peers\<close>

definition broker_peer :: string where "broker_peer = ''botbroker''"
definition sentnl_peer :: string where "sentnl_peer = ''sentinel''"
definition kai_peer :: string where "kai_peer = ''kai''"

definition ipc_peers :: "string list" where
  "ipc_peers = [broker_peer, sentnl_peer, kai_peer]"

definition to_info_type :: "string \<Rightarrow> string \<Rightarrow> string" where
  "to_info_type plat type = plat @ '':'' @ type"

definition find_peer :: "string \<Rightarrow> bool \<Rightarrow> string" where
  "find_peer input get_default =
     (case find (str_contains (ToLower input)) ipc_peers of
        Some peer \<Rightarrow> peer
      | None \<Rightarrow> if get_default then ipc_peers ! 0 else [])"

section \<open>From an event's arguments to a message\<close>

definition deserialize_platform :: "string list \<Rightarrow> (ipc_msg option \<times> string) res" where
  "deserialize_platform args =
     bind (vec_at args 0) (\<lambda>platform. bind (vec_at args 1) (\<lambda>i. bind (vec_at args 2) (\<lambda>user.
     bind (vec_at args 4) (\<lambda>content. bind (vec_at args 5) (\<lambda>url. bind (vec_at args 6) (\<lambda>repost.
     bind (vec_at args 9) (\<lambda>c. bind (stoi c) (\<lambda>cmd. bind (vec_at args 8) (\<lambda>a. bind (vec_at args 3) (\<lambda>time.
       Inr (Some (Platform_Message platform i user content url (repost = ''y'') cmd a time), platform)))))))))))"

definition deserialize_ipc :: "ipc_types \<Rightarrow> kproto \<Rightarrow> string list \<Rightarrow> (ipc_msg option \<times> string) res" where
  "deserialize_ipc T kp args =
     bind (vec_front args) (\<lambda>name. bind (map_at (kp_values kp) name) (\<lambda>v.
     let message_type = uint (word_of_int v :: 8 word) in
     if message_type = it_kiq T then
       bind (vec_at args 9) (\<lambda>a. bind (vec_at args 1) (\<lambda>platform. Inr (Some (Kiq_Message a (Some platform)), platform)))
     else if message_type = it_platform T then
       bind (vec_at args 1) (\<lambda>platform. bind (vec_at args 2) (\<lambda>i. bind (vec_at args 3) (\<lambda>user.
       bind (vec_at args 5) (\<lambda>content. bind (vec_at args 6) (\<lambda>url. bind (vec_at args 7) (\<lambda>repost.
       bind (vec_at args 10) (\<lambda>c. bind (stoi c) (\<lambda>cmd. bind (vec_at args 9) (\<lambda>a. bind (vec_at args 4) (\<lambda>time.
         Inr (Some (Platform_Message platform i user content url (repost = ''y'') cmd a time), platform)))))))))))
     else if message_type = it_info T then
       bind (vec_at args 1) (\<lambda>platform. bind (vec_at args 4) (\<lambda>info. bind (vec_at args 3) (\<lambda>type. bind (vec_at args 2) (\<lambda>i.
         Inr (Some (Platform_Info platform info type i), platform)))))
     else Inr (None, [])))"

section \<open>State\<close>

datatype daemon_call = D_Add string | D_Validate string | D_Reset | D_Timeout string

record ipc_client =
  ic_addr :: string
  ic_peer :: string
  ic_name :: string
  ic_hb :: int

record ipc =
  iq_queue :: "(string \<times> ipc_msg) list"
  iq_clients :: "(string \<times> ipc_client) list"
  iq_workers :: "string list"
  iq_daemon :: "daemon_call list"
  iq_timeouts :: int
  iq_sleeping :: "string list"              \<comment> \<open>peers a detached thread will observe again\<close>
  iq_connected :: "(string \<times> string) list"  \<comment> \<open>name of the socket, address\<close>
  iq_sent :: "(string \<times> ipc_msg) list"       \<comment> \<open>name of the socket, message\<close>

record ipc_env =
  ie_types :: ipc_types
  ie_addresses :: "string \<Rightarrow> string"                        \<comment> \<open>of the configuration\<close>
  ie_has :: "daemon_call list \<Rightarrow> string \<Rightarrow> bool"
  ie_validate :: "daemon_call list \<Rightarrow> string \<Rightarrow> bool"
  ie_keepalive :: "int \<Rightarrow> bool"                            \<comment> \<open>\<open>IsKeepAlive\<close>\<close>
  ie_deserialize :: "string list \<Rightarrow> ipc_msg option"         \<comment> \<open>\<open>DeserializeIPCMessage\<close>\<close>
  ie_kiq_platform :: string                              \<comment> \<open>of a \<open>kiq_message\<close> made without one\<close>

type_synonym 'a ipc_act = "(ipc, 'a) act"

definition daemon_do :: "daemon_call \<Rightarrow> unit ipc_act" where
  "daemon_do c = modify (\<lambda>s. s\<lparr>iq_daemon := iq_daemon s @ [c]\<rparr>)"

definition has_observer :: "ipc_env \<Rightarrow> string \<Rightarrow> ipc \<Rightarrow> bool" where
  "has_observer E peer s = ie_has E (iq_daemon s) peer"

definition send_ipc :: "string \<Rightarrow> ipc_msg \<Rightarrow> unit ipc_act" where
  "send_ipc name m = modify (\<lambda>s. s\<lparr>iq_sent := iq_sent s @ [(name, m)]\<rparr>)"

section \<open>What the manager is asked to send\<close>

definition out_event :: "ipc_types \<Rightarrow> kproto \<Rightarrow> int \<Rightarrow> string list \<Rightarrow> (string \<times> ipc_msg) option res" where
  "out_event T kp event args =
     (if event = EV_PLATFORM_POST_REQUESTED then
        bind (deserialize_platform args) (\<lambda>(m, _). Inr (map_option (Pair broker_peer) m))
      else if event = EV_PLATFORM_EVENT then
        bind (deserialize_ipc T kp args) (\<lambda>(m, platform). Inr (map_option (Pair (find_peer platform True)) m))
      else if event = SYS_IPC_REQUEST then
        bind (vec_front args) (\<lambda>a. let peer = find_peer a True in
          Inr (if peer \<noteq> [] then Some (peer, Kiq_Message a None) else None))
      else if event = SYS_PLATFORM_INFO_REQUEST then
        bind (vec_front args) (\<lambda>platform. let peer = find_peer platform False in
          if peer \<noteq> [] then
            bind (vec_at args 1) (\<lambda>info. bind (vec_at args 2) (\<lambda>type.
              Inr (Some (peer, Platform_Info platform info (to_info_type platform type) []))))
          else Inr None)
      else Inr None)"

definition mgr_ReceiveEvent :: "ipc_env \<Rightarrow> kproto \<Rightarrow> int \<Rightarrow> string list \<Rightarrow> bool ipc_act" where
  "mgr_ReceiveEvent E kp event args =
     seq (of_res (out_event (ie_types E) kp event args)) (\<lambda>out. case out of
       None \<Rightarrow> ret False
     | Some (peer, m) \<Rightarrow>
         seq (of_res (map_at (kp_names kp) (msg_type (ie_types E) m))) (\<lambda>_.
         seq (modify (\<lambda>s. s\<lparr>iq_queue := iq_queue s @ [(peer, m)]\<rparr>)) (\<lambda>_. ret True)))"

section \<open>Clients\<close>

definition client_connect :: "string \<Rightarrow> string \<Rightarrow> unit ipc_act" where
  "client_connect name addr = modify (\<lambda>s. s\<lparr>iq_connected := iq_connected s @ [(name, addr)]\<rparr>)"

definition new_client :: "ipc_env \<Rightarrow> string \<Rightarrow> ipc_client" where
  "new_client E peer = \<lparr>ic_addr = ie_addresses E peer, ic_peer = peer, ic_name = peer @ ''__worker'', ic_hb = 0\<rparr>"

definition add_observer :: "string \<Rightarrow> unit ipc_act" where
  "add_observer peer = seq (daemon_do (D_Add peer)) (\<lambda>_. daemon_do (D_Validate peer))"

text \<open>\<open>emplace\<close> keeps the client that is there and makes the new one all the same.\<close>

definition start_client :: "ipc_env \<Rightarrow> string \<Rightarrow> unit ipc_act" where
  "start_client E peer =
     (let c = new_client E peer in
      seq (client_connect (ic_name c) (ic_addr c)) (\<lambda>_.
      seq (modify (\<lambda>s. s\<lparr>iq_clients := (if peer \<in> fst ` set (iq_clients s) then iq_clients s
                                        else iq_clients s @ [(peer, c)])\<rparr>)) (\<lambda>_.
      seq get_state (\<lambda>s. seq (of_res (map_at (map_of (iq_clients s)) peer)) (\<lambda>h.
      seq (send_ipc (ic_name h) Status_Check) (\<lambda>_. add_observer peer)))))) "

definition mgr_start :: "ipc_env \<Rightarrow> unit ipc_act" where
  "mgr_start E =
     seq (modify (\<lambda>s. s\<lparr>iq_workers := iq_workers s @ [''Worker 1'']\<rparr>)) (\<lambda>_.
     seq (each (start_client E) ipc_peers) (\<lambda>_. daemon_do D_Reset))"

definition on_heartbeat :: "ipc_env \<Rightarrow> string \<Rightarrow> unit ipc_act" where
  "on_heartbeat E peer = seq get_state (\<lambda>s.
     seq (if has_observer E peer s then ret () else add_observer peer) (\<lambda>_. daemon_do (D_Validate peer)))"

definition mgr_reconnect :: "ipc_env \<Rightarrow> unit ipc_act" where
  "mgr_reconnect E = seq (modify (\<lambda>s. s\<lparr>iq_clients := [], iq_workers := []\<rparr>)) (\<lambda>_. mgr_start E)"

section \<open>A turn of the main thread\<close>

definition run_limit :: nat where "run_limit = 10"

definition send_front :: "ipc_env \<Rightarrow> unit ipc_act" where
  "send_front E = seq get_state (\<lambda>s. case iq_queue s of
     [] \<Rightarrow> ret ()
   | (peer, m) # rest \<Rightarrow>
       if has_observer E peer s then
         seq (of_res (map_at (map_of (iq_clients s)) peer)) (\<lambda>c.
         seq (send_ipc (ic_name c) m) (\<lambda>_. modify (\<lambda>s. s\<lparr>iq_queue := rest\<rparr>)))
       else ret ())"

text \<open>\<open>while (!m_queue.empty() && ++i < limit)\<close>; \<open>n\<close> is \<open>limit - i - 1\<close>.\<close>

fun run_loop :: "ipc_env \<Rightarrow> nat \<Rightarrow> unit ipc_act" where
  "run_loop E 0 = ret ()"
| "run_loop E (Suc n) = seq get_state (\<lambda>s.
     if iq_queue s = [] then ret () else seq (send_front E) (\<lambda>_. run_loop E n))"

definition mgr_run :: "ipc_env \<Rightarrow> bool \<Rightarrow> unit ipc_act" where
  "mgr_run E must_reconnect =
     (if must_reconnect then mgr_reconnect E else run_loop E (run_limit - 1))"

section \<open>What the manager keeps\<close>

lemma find_peer_known: "find_peer a b \<in> set ipc_peers \<or> find_peer a b = [] \<and> \<not> b"
proof (cases "find (str_contains (ToLower a)) ipc_peers")
  case None
  then show ?thesis by (simp add: find_peer_def ipc_peers_def)
next
  case (Some p)
  then have "p \<in> set ipc_peers" by (metis find_Some_iff nth_mem)
  with Some show ?thesis by (simp add: find_peer_def)
qed

lemma no_empty_peer [simp]: "[] \<notin> set ipc_peers"
  by (simp add: ipc_peers_def broker_peer_def sentnl_peer_def kai_peer_def)

lemma find_peer_default [simp]: "find_peer a True \<in> set ipc_peers" "find_peer a True \<noteq> []"
  using find_peer_known [of a True] by (metis no_empty_peer)+

text \<open>
  Each message waits for one of the three peers, and each of these has its client.
\<close>

definition ipc_ok :: "ipc \<Rightarrow> bool" where
  "ipc_ok s \<longleftrightarrow> fst ` set (iq_queue s) \<subseteq> set ipc_peers \<and> map fst (iq_clients s) = ipc_peers \<and>
     (\<forall>(p, c) \<in> set (iq_clients s). ic_peer c = p \<and> ic_name c = p @ ''__worker'')"

lemma out_event_peer: "out_event T kp event args = Inr (Some (peer, m)) \<Longrightarrow> peer \<in> set ipc_peers"
proof (cases "event = EV_PLATFORM_POST_REQUESTED")
  case False
  assume out: "out_event T kp event args = Inr (Some (peer, m))"
  then have "peer = [] \<or> (\<exists>a b. peer = find_peer a b \<and> peer \<noteq> []) \<or> (\<exists>a. peer = find_peer a True)"
    using False by (auto simp: out_event_def bind_eq_Inr Let_def split: if_splits)
  moreover have "peer \<noteq> []"
    using False out by (auto simp: out_event_def bind_eq_Inr Let_def split: if_splits)
  ultimately show ?thesis using find_peer_known by (metis find_peer_default(1))
qed (auto simp: out_event_def bind_eq_Inr ipc_peers_def)

lemma ipc_client_at:
  assumes "ipc_ok s" and "peer \<in> set ipc_peers"
  obtains c where "map_at (map_of (iq_clients s)) peer = Inr c" "ic_name c = peer @ ''__worker''" "ic_peer c = peer"
proof -
  have "peer \<in> fst ` set (iq_clients s)" using assms by (metis ipc_ok_def set_map)
  then obtain c where "map_of (iq_clients s) peer = Some c" by (metis domD dom_map_of_conv_image_fst)
  moreover from this have "ic_name c = peer @ ''__worker''" "ic_peer c = peer"
    using assms(1) map_of_SomeD [of "iq_clients s" peer c] by (auto simp: ipc_ok_def)
  ultimately show ?thesis by (intro that) simp_all
qed

lemma mgr_ReceiveEvent_cases:
  "snd (mgr_ReceiveEvent E kp event args s) = s \<or>
   (\<exists>peer m. out_event (ie_types E) kp event args = Inr (Some (peer, m)) \<and>
      mgr_ReceiveEvent E kp event args s = (Inr True, s\<lparr>iq_queue := iq_queue s @ [(peer, m)]\<rparr>))"
  by (auto simp: mgr_ReceiveEvent_def seq_def split: sum.splits option.splits)

lemma ipc_ok_Receive: "ipc_ok s \<Longrightarrow> ipc_ok (snd (mgr_ReceiveEvent E kp event args s))"
proof (cases "snd (mgr_ReceiveEvent E kp event args s) = s")
  case False
  assume ok: "ipc_ok s"
  from False mgr_ReceiveEvent_cases [of E kp event args s] obtain peer m
    where "out_event (ie_types E) kp event args = Inr (Some (peer, m))"
      and s': "snd (mgr_ReceiveEvent E kp event args s) = s\<lparr>iq_queue := iq_queue s @ [(peer, m)]\<rparr>" by auto
  then have "peer \<in> set ipc_peers" by (intro out_event_peer)
  with ok show ?thesis by (simp add: s' ipc_ok_def)
qed simp

lemma send_front_sends:
  assumes "ipc_ok s" and "iq_queue s = (peer, m) # rest" and "has_observer E peer s"
  shows "send_front E s = (Inr (), s\<lparr>iq_queue := rest, iq_sent := iq_sent s @ [(peer @ ''__worker'', m)]\<rparr>)"
proof -
  have "peer \<in> set ipc_peers" using assms(1,2) by (simp add: ipc_ok_def)
  from ipc_client_at [OF assms(1) this] obtain c
    where "map_at (map_of (iq_clients s)) peer = Inr c" "ic_name c = peer @ ''__worker''" by blast
  then show ?thesis using assms(2,3) by (simp add: send_front_def get_state_def send_ipc_def)
qed

lemma send_front_waits:
  "iq_queue s = (peer, m) # rest \<Longrightarrow> \<not> has_observer E peer s \<Longrightarrow> send_front E s = (Inr (), s)"
  by (simp add: send_front_def get_state_def)

lemma run_loop_blocked:
  "iq_queue s = (peer, m) # rest \<Longrightarrow> \<not> has_observer E peer s \<Longrightarrow> run_loop E n s = (Inr (), s)"
  by (induction n) (simp_all add: get_state_def send_front_waits)

definition sent_as :: "string \<times> ipc_msg \<Rightarrow> string \<times> ipc_msg" where
  "sent_as e = (fst e @ ''__worker'', snd e)"

definition ready :: "ipc_env \<Rightarrow> nat \<Rightarrow> ipc \<Rightarrow> nat" where
  "ready E n s = length (takeWhile (\<lambda>e. has_observer E (fst e) s) (take n (iq_queue s)))"

lemma run_loop_sends:
  assumes "ipc_ok s"
  shows "run_loop E n s = (Inr (), s\<lparr>iq_queue := drop (ready E n s) (iq_queue s),
    iq_sent := iq_sent s @ map sent_as (take (ready E n s) (iq_queue s))\<rparr>)"
  using assms
proof (induction n arbitrary: s)
  case (Suc n)
  show ?case
  proof (cases "iq_queue s")
    case (Cons e rest)
    obtain peer m where e: "e = (peer, m)" by force
    show ?thesis
    proof (cases "has_observer E peer s")
      case True
      let ?s = "s\<lparr>iq_queue := rest, iq_sent := iq_sent s @ [(peer @ ''__worker'', m)]\<rparr>"
      have ok: "ipc_ok ?s" using Suc.prems Cons by (auto simp: ipc_ok_def)
      have r: "ready E (Suc n) s = Suc (ready E n ?s)"
        using True Cons e by (simp add: ready_def has_observer_def)
      show ?thesis
        using Suc.IH [OF ok] send_front_sends [OF Suc.prems Cons [unfolded e] True] Cons e r
        by (simp add: get_state_def sent_as_def)
    next
      case False
      then have "ready E (Suc n) s = 0" using Cons e by (simp add: ready_def)
      with False show ?thesis using run_loop_blocked [OF Cons [unfolded e] False, of "Suc n"] by simp
    qed
  qed (simp add: get_state_def ready_def)
qed (simp add: ready_def)

definition client_of :: "ipc_env \<Rightarrow> string \<Rightarrow> string \<times> ipc_client" where
  "client_of E peer = (peer, new_client E peer)"

definition started :: "ipc_env \<Rightarrow> string list \<Rightarrow> ipc \<Rightarrow> ipc" where
  "started E ps s = s\<lparr>iq_clients := iq_clients s @ map (client_of E) ps,
     iq_connected := iq_connected s @ map (\<lambda>p. (p @ ''__worker'', ie_addresses E p)) ps,
     iq_sent := iq_sent s @ map (\<lambda>p. (p @ ''__worker'', Status_Check)) ps,
     iq_daemon := iq_daemon s @ concat (map (\<lambda>p. [D_Add p, D_Validate p]) ps)\<rparr>"

lemma start_client_new:
  "peer \<notin> fst ` set (iq_clients s) \<Longrightarrow> start_client E peer s = (Inr (), started E [peer] s)"
  using map_of_eq_None_iff [of "iq_clients s" peer]
  by (simp add: start_client_def client_connect_def send_ipc_def add_observer_def daemon_do_def get_state_def
      started_def client_of_def new_client_def Let_def map_add_def)

lemma each_start_client:
  "distinct ps \<Longrightarrow> set ps \<inter> fst ` set (iq_clients s) = {} \<Longrightarrow> each (start_client E) ps s = (Inr (), started E ps s)"
proof (induction ps arbitrary: s)
  case (Cons p ps)
  have 1: "start_client E p s = (Inr (), started E [p] s)"
    using Cons.prems by (intro start_client_new) auto
  have "each (start_client E) ps (started E [p] s) = (Inr (), started E ps (started E [p] s))"
    using Cons.prems by (intro Cons.IH) (auto simp: started_def client_of_def)
  with 1 show ?case by (simp add: started_def)
qed (simp add: started_def)

lemma distinct_peers: "distinct ipc_peers"
  by (simp add: ipc_peers_def broker_peer_def sentnl_peer_def kai_peer_def)

lemma start_makes_clients:
  assumes "iq_clients s = []"
  shows "mgr_start E s = (Inr (), (started E ipc_peers (s\<lparr>iq_workers := iq_workers s @ [''Worker 1'']\<rparr>))
    \<lparr>iq_daemon := iq_daemon s @ concat (map (\<lambda>p. [D_Add p, D_Validate p]) ipc_peers) @ [D_Reset]\<rparr>)"
  using each_start_client [OF distinct_peers, of "s\<lparr>iq_workers := iq_workers s @ [''Worker 1'']\<rparr>" E] assms
  by (simp add: mgr_start_def daemon_do_def started_def)

lemma reconnect_makes_clients:
  "\<exists>s'. mgr_reconnect E s = (Inr (), s') \<and> iq_queue s' = iq_queue s \<and> iq_clients s' = map (client_of E) ipc_peers \<and>
     iq_workers s' = [''Worker 1''] \<and> iq_timeouts s' = iq_timeouts s \<and>
     iq_sent s' = iq_sent s @ map (\<lambda>p. (p @ ''__worker'', Status_Check)) ipc_peers"
  using start_makes_clients [of "s\<lparr>iq_clients := [], iq_workers := []\<rparr>" E]
  by (simp add: mgr_reconnect_def started_def)

lemma ipc_ok_clients:
  "fst ` set (iq_queue s) \<subseteq> set ipc_peers \<Longrightarrow> iq_clients s = map (client_of E) ipc_peers \<Longrightarrow> ipc_ok s"
  by (simp add: ipc_ok_def client_of_def new_client_def comp_def)

lemma ipc_ok_reconnect: "ipc_ok s \<Longrightarrow> ipc_ok (snd (mgr_reconnect E s))"
  using reconnect_makes_clients [of E s] ipc_ok_clients [of "snd (mgr_reconnect E s)" E]
  by (elim exE conjE) (simp add: ipc_ok_def)

lemma ipc_ok_mgr_run: "ipc_ok s \<Longrightarrow> ipc_ok (snd (mgr_run E b s))"
proof (cases b)
  case False
  assume ok: "ipc_ok s"
  have "fst ` set (drop n (iq_queue s)) \<subseteq> set ipc_peers" for n
    using ok set_drop_subset [of n "iq_queue s"] by (auto simp: ipc_ok_def)
  with ok False show ?thesis by (simp add: mgr_run_def run_loop_sends [OF ok]) (simp add: ipc_ok_def)
qed (simp add: mgr_run_def ipc_ok_reconnect)

lemma mgr_run_returns: "ipc_ok s \<Longrightarrow> fst (mgr_run E b s) = Inr ()"
  using run_loop_sends [of s E "run_limit - 1"] reconnect_makes_clients [of E s] by (auto simp: mgr_run_def)

section \<open>The manager as a machine\<close>

datatype mgr_op = Op_Receive int "string list" | Op_Heartbeat string | Op_Observe string | Op_Run bool

fun mgr_step :: "ipc_env \<Rightarrow> kproto \<Rightarrow> mgr_op \<Rightarrow> ipc \<Rightarrow> ipc" where
  "mgr_step E kp (Op_Receive event args) s = snd (mgr_ReceiveEvent E kp event args s)"
| "mgr_step E kp (Op_Heartbeat peer) s = snd (on_heartbeat E peer s)"
| "mgr_step E kp (Op_Observe peer) s = snd (add_observer peer s)"
| "mgr_step E kp (Op_Run b) s = snd (mgr_run E b s)"

lemma add_observer_eq: "add_observer peer s = (Inr (), s\<lparr>iq_daemon := iq_daemon s @ [D_Add peer, D_Validate peer]\<rparr>)"
  by (simp add: add_observer_def daemon_do_def)

lemma on_heartbeat_eq: "on_heartbeat E peer s = (Inr (), s\<lparr>iq_daemon := iq_daemon s @
    (if has_observer E peer s then [D_Validate peer] else [D_Add peer, D_Validate peer, D_Validate peer])\<rparr>)"
  by (simp add: on_heartbeat_def add_observer_eq daemon_do_def get_state_def)

lemma mgr_step_ok: "ipc_ok s \<Longrightarrow> ipc_ok (mgr_step E kp op s)"
  by (cases op) (simp_all add: ipc_ok_Receive ipc_ok_mgr_run, simp_all add: add_observer_eq on_heartbeat_eq ipc_ok_def)

interpretation ipc_system: invariant_system "mgr_step E kp" ipc_ok for E kp
  by unfold_locales (rule mgr_step_ok)

definition empty_ipc :: ipc where
  "empty_ipc = \<lparr>iq_queue = [], iq_clients = [], iq_workers = [], iq_daemon = [], iq_timeouts = 0, iq_sleeping = [],
     iq_connected = [], iq_sent = []\<rparr>"

definition new_manager :: "ipc_env \<Rightarrow> unit res \<times> ipc" where
  "new_manager E = mgr_start E empty_ipc"

lemma ipc_ok_start: "ipc_ok (snd (new_manager E))"
  using start_makes_clients [of empty_ipc E]
  by (auto simp: new_manager_def empty_ipc_def started_def intro!: ipc_ok_clients [of _ E])

lemma blocked_step:
  assumes "iq_queue s = (peer, m) # rest" and "\<not> has_observer E peer s"
    and "op = Op_Run False \<or> (\<exists>event args. op = Op_Receive event args)"
  shows "\<exists>more. mgr_step E kp op s = s\<lparr>iq_queue := (peer, m) # rest @ more\<rparr>"
  using assms(3)
proof (elim disjE exE)
  assume "op = Op_Run False"
  then have "mgr_step E kp op s = s" using run_loop_blocked [OF assms(1,2)] by (simp add: mgr_run_def)
  then show ?thesis using assms(1) by (intro exI [of _ "[]"]) simp
next
  fix event args assume op: "op = Op_Receive event args"
  have "\<exists>more. mgr_step E kp op s = s\<lparr>iq_queue := iq_queue s @ more\<rparr>"
    using mgr_ReceiveEvent_cases [of E kp event args s] unfolding op
    by (elim disjE exE conjE) (auto intro: exI [of _ "[]"])
  then show ?thesis using assms(1) by simp
qed

section \<open>Properties\<close>

text \<open>
  C7: one turn of the main thread sends the messages at the front of the queue, in their order, each
  to its own client, up to the first whose peer is not observed and at most nine of them; it never
  fails, and nothing else of the manager changes.
\<close>

theorem turn_sends_ready:
  assumes "ipc_ok s"
    and "n = length (takeWhile (\<lambda>(peer, _). has_observer E peer s) (take 9 (iq_queue s)))"
  shows "mgr_run E False s = (Inr (), s\<lparr>iq_queue := drop n (iq_queue s),
     iq_sent := iq_sent s @ map (\<lambda>(peer, m). (peer @ ''__worker'', m)) (take n (iq_queue s))\<rparr>)"
proof -
  have "ready E 9 s = n"
    using assms(2) by (simp add: ready_def case_prod_unfold)
  moreover have "sent_as = (\<lambda>(peer, m). (peer @ ''__worker'', m))"
    by (simp add: fun_eq_iff sent_as_def case_prod_unfold)
  ultimately show ?thesis
    using run_loop_sends [OF assms(1), of E 9] by (simp add: mgr_run_def run_limit_def)
qed

text \<open>The sample's daemon watches a peer that was added to it and has not timed out since.\<close>

fun watched :: "daemon_call list \<Rightarrow> string \<Rightarrow> bool" where
  "watched [] p = False"
| "watched (D_Add q # cs) p = (if p = q \<and> D_Timeout p \<notin> set cs then True else watched cs p)"
| "watched (_ # cs) p = watched cs p"

definition sample_types :: ipc_types where
  "sample_types = \<lparr>it_platform = 1, it_request = 2, it_info = 3, it_error = 4, it_kiq = 5, it_keepalive = 6, it_ok = 7,
     it_status = 8\<rparr>"

definition sample_ipc_env :: ipc_env where
  "sample_ipc_env = \<lparr>ie_types = sample_types, ie_addresses = (\<lambda>p. ''tcp://'' @ p), ie_has = watched, ie_validate = watched,
     ie_keepalive = (\<lambda>i. i = 6), ie_deserialize = (\<lambda>_. None), ie_kiq_platform = []\<rparr>"

definition started_ipc :: "(string \<times> ipc_msg) list \<Rightarrow> ipc" where
  "started_ipc q = (snd (new_manager sample_ipc_env))\<lparr>iq_queue := q\<rparr>"

lemma started_ipc_ok: "fst ` set q \<subseteq> set ipc_peers \<Longrightarrow> ipc_ok (started_ipc q)"
  using ipc_ok_start [of sample_ipc_env] by (simp add: started_ipc_def ipc_ok_def)

lemma started_ipc_eq: "started_ipc q = (started sample_ipc_env ipc_peers (empty_ipc\<lparr>iq_workers := [''Worker 1'']\<rparr>))
    \<lparr>iq_daemon := concat (map (\<lambda>p. [D_Add p, D_Validate p]) ipc_peers) @ [D_Reset], iq_queue := q\<rparr>"
  using start_makes_clients [of empty_ipc sample_ipc_env] by (simp add: started_ipc_def new_manager_def empty_ipc_def)

lemma started_ipc_watched: "has_observer sample_ipc_env ''kai'' (started_ipc q)"
  by (simp add: has_observer_def started_ipc_eq started_def sample_ipc_env_def ipc_peers_def kai_peer_def
      broker_peer_def sentnl_peer_def)

theorem turn_sends_ready_witness:
  "iq_queue (snd (mgr_run sample_ipc_env False (started_ipc [(''kai'', Kiq_Message ''a'' None), (''kai'', Keepalive)]))) = []"
proof -
  let ?q = "[(''kai'', Kiq_Message ''a'' None), (''kai'', Keepalive)]"
  have "ipc_ok (started_ipc ?q)" by (rule started_ipc_ok) (simp add: ipc_peers_def kai_peer_def)
  moreover have "iq_queue (started_ipc ?q) = ?q" by (simp add: started_ipc_def)
  ultimately show ?thesis
    using turn_sends_ready [of "started_ipc ?q" 2 sample_ipc_env] started_ipc_watched [of ?q] by simp
qed

text \<open>
  As long as the peer of the message at the front is not observed, no turn sends anything and
  whatever is asked of the manager meanwhile waits behind it, the messages to peers that are there too.
\<close>

theorem unobserved_front_blocks:
  assumes "iq_queue s = (peer, m) # rest" and "\<not> has_observer E peer s"
    and "\<forall>op \<in> set ops. op = Op_Run False \<or> (\<exists>event args. op = Op_Receive event args)"
  shows "\<exists>more. fold (mgr_step E kp) ops s = s\<lparr>iq_queue := (peer, m) # rest @ more\<rparr>"
  using assms
proof (induction ops arbitrary: s rest)
  case (Cons op ops)
  obtain more where s1: "mgr_step E kp op s = s\<lparr>iq_queue := (peer, m) # rest @ more\<rparr>"
    using blocked_step [OF Cons.prems(1,2), of op kp] Cons.prems(3) by (meson list.set_intros(1))
  then have "\<exists>more'. fold (mgr_step E kp) ops (mgr_step E kp op s) =
      (mgr_step E kp op s)\<lparr>iq_queue := (peer, m) # (rest @ more) @ more'\<rparr>"
    using Cons.prems(2,3) by (intro Cons.IH) (simp_all add: has_observer_def)
  with s1 show ?case by auto
qed (auto intro: exI [of _ "[]"])

definition silent_ipc :: ipc where
  "silent_ipc = empty_ipc\<lparr>iq_queue := [(''kai'', Keepalive), (''botbroker'', Keepalive)],
     iq_daemon := [D_Add ''kai'', D_Add ''botbroker'', D_Timeout ''kai'']\<rparr>"

theorem unobserved_front_blocks_witness:
  "iq_sent (fold (mgr_step sample_ipc_env idle_kproto) [Op_Run False, Op_Run False] silent_ipc) = []"
proof -
  have "\<not> has_observer sample_ipc_env ''kai'' silent_ipc" "iq_sent silent_ipc = []"
    "iq_queue silent_ipc = (''kai'', Keepalive) # [(''botbroker'', Keepalive)]"
    by (simp_all add: silent_ipc_def has_observer_def sample_ipc_env_def empty_ipc_def)
  then show ?thesis
    using unobserved_front_blocks [of silent_ipc "''kai''" Keepalive _ sample_ipc_env "[Op_Run False, Op_Run False]" idle_kproto]
    by auto
qed

text \<open>
  Whatever was asked of the manager since it was started, in any order, each message that waits
  is one to a peer that has its client, so that no turn of the main thread fails.
\<close>

theorem manager_turns_never_fail:
  "ipc_ok (fold (mgr_step E kp) ops (snd (new_manager E))) \<and>
   fst (mgr_run E b (fold (mgr_step E kp) ops (snd (new_manager E)))) = Inr ()"
  using ipc_system.good_fold [OF ipc_ok_start] mgr_run_returns by blast

end
