(* ===== verification/ServerState.thy ===== *)
theory ServerState
  imports Controller Sessions IpcQueue
begin

text \<open>
  The state of the server and what it sends: the first part of \<open>server/kserver.cpp\<close>, and the class
  \<open>FileManager\<close> of \<open>kserver.hpp\<close>. The state extends that of the controller.

  Sockets, the packets of the library kiqoder and jwt-cpp are arguments: the packets of a text or a
  file and the bytes that were read to make them, the state of a handler that joins packets, and
  the claims of a token. What goes to a socket and the descriptors that are shut down are logs; the
  IPC manager's state is a member, as it is of the class.

  Shown: a broadcast reaches the active sessions, each once, as long as the session maps are
  linked; ending a session changes that session's state and nothing else of the map.
\<close>

section \<open>Parameters and state\<close>

record received_file =
  rf_timestamp :: int
  rf_fd :: int
  rf_bytes :: string

type_synonym outbound_file = "int \<times> file_meta"

record ('db, 'h) kserver = "'db controller" +
  sv_sessions :: session_map
  sv_received :: "received_file list"
  sv_fm_outbound :: "outbound_file list"
  sv_fm_sending :: bool
  sv_fm_sending_fd :: int
  sv_outbound :: "outbound_file list"
  sv_file_handlers :: "(int \<times> 'h) list"
  sv_message_handlers :: "(int \<times> 'h) list"
  sv_connections :: "int list"
  sv_file_pending :: bool
  sv_file_pending_fd :: int
  sv_file_sending :: bool
  sv_file_sending_fd :: int
  sv_errors :: "32 word"
  sv_sent :: "(int \<times> string) list"
  sv_shut :: "int list"
  sv_fds :: "(int \<times> bool) list"        \<comment> \<open>\<open>m_fds\<close> of the socket listener\<close>
  sv_ipc :: ipc

record ('db, 'h) server_env =
  se_x :: "'db libs"
  se_hooks :: hooks
  se_jwt :: "string \<Rightarrow> (string \<times> int) option"
  se_text_packets :: "string \<Rightarrow> string list \<times> nat"
  se_file_packets :: "fsys \<Rightarrow> string \<Rightarrow> string list \<times> nat"
  se_new_handler :: "bool \<Rightarrow> int \<Rightarrow> 'h"              \<comment> \<open>keeps the header; id\<close>
  se_feed :: "'h \<Rightarrow> string \<Rightarrow> string list \<times> 'h"    \<comment> \<open>what is complete with these bytes\<close>
  se_verify :: "string \<Rightarrow> bool"                    \<comment> \<open>the flatbuffer library\<close>
  se_fb_ig :: "string \<Rightarrow> string list"
  se_fb_generic :: "string \<Rightarrow> string list"
  se_fb_text :: "string \<Rightarrow> string"
  se_ipc :: ipc_env

type_synonym ('db, 'h) server_act = "(('db, 'h) kserver, unit) act"

abbreviation jw :: "('db, 'h) server_env \<Rightarrow> jwriter" where "jw L \<equiv> x_jwrite (se_x L)"
abbreviation jp :: "('db, 'h) server_env \<Rightarrow> jparser" where "jp L \<equiv> x_jparse (se_x L)"

section \<open>Sending\<close>

definition change_sessions :: "(session_map \<Rightarrow> session_map res) \<Rightarrow> ('db, 'h) server_act" where
  "change_sessions f = seq get_state (\<lambda>s. seq (of_res (f (sv_sessions s))) (\<lambda>m.
     modify (\<lambda>s. s\<lparr>sv_sessions := m\<rparr>)))"

definition put_packets :: "int \<Rightarrow> string list \<Rightarrow> ('db, 'h) server_act" where
  "put_packets fd ps = modify (\<lambda>s. s\<lparr>sv_sent := sv_sent s @ map (Pair fd) ps\<rparr>)"

definition count_tx :: "int \<Rightarrow> nat \<Rightarrow> ('db, 'h) server_act" where
  "count_tx fd n = change_sessions (sm_change fd (\<lambda>k. k\<lparr>ks_tx := ks_tx k + of_nat n\<rparr>))"

definition count_rx :: "int \<Rightarrow> nat \<Rightarrow> ('db, 'h) server_act" where
  "count_rx fd n = change_sessions (sm_change fd (\<lambda>k. k\<lparr>ks_rx := ks_rx k + of_nat n\<rparr>))"

definition SendMessage :: "('db, 'h) server_env \<Rightarrow> int \<Rightarrow> string \<Rightarrow> ('db, 'h) server_act" where
  "SendMessage L fd message = (let (ps, n) = se_text_packets L message in
     seq (put_packets fd ps) (\<lambda>_. count_tx fd n))"

definition SendFile :: "('db, 'h) server_env \<Rightarrow> int \<Rightarrow> string \<Rightarrow> ('db, 'h) server_act" where
  "SendFile L fd filename = seq get_fs (\<lambda>fs. let (ps, n) = se_file_packets L fs filename in
     seq (put_packets fd ps) (\<lambda>_. seq (count_tx fd n) (\<lambda>_.
       modify (\<lambda>s. s\<lparr>sv_file_sending := False\<rparr>))))"

text \<open>
  A session on the descriptor that stands for all clients would broadcast again, without end.
\<close>

definition send_active :: "('db, 'h) server_env \<Rightarrow> string \<Rightarrow> ksession \<Rightarrow> ('db, 'h) server_act" where
  "send_active L message k = seq get_state (\<lambda>s.
     if \<not> session_active (w_now s) k then ret ()
     else if ks_fd k = ALL_CLIENTS then raise Diverges
     else SendMessage L (ks_fd k) message)"

definition Broadcast :: "('db, 'h) server_env \<Rightarrow> string \<Rightarrow> string list \<Rightarrow> ('db, 'h) server_act" where
  "Broadcast L event argv = seq get_state (\<lambda>s.
     each (\<lambda>e. send_active L (CreateEvent (jw L) event argv) (snd (snd e))) (sm_sessions (sv_sessions s)))"

definition SendEvent :: "('db, 'h) server_env \<Rightarrow> int \<Rightarrow> string \<Rightarrow> string list \<Rightarrow> ('db, 'h) server_act" where
  "SendEvent L fd event argv =
     (if fd = ALL_CLIENTS then Broadcast L event argv else SendMessage L fd (CreateEvent (jw L) event argv))"

section \<open>Files\<close>

definition SetFilePending :: "int \<Rightarrow> ('db, 'h) server_act" where
  "SetFilePending fd = modify (\<lambda>s. s\<lparr>sv_file_pending := True, sv_file_pending_fd := fd\<rparr>)"

definition SetFileNotPending :: "('db, 'h) server_act" where
  "SetFileNotPending = modify (\<lambda>s. s\<lparr>sv_file_pending := False, sv_file_pending_fd := - 1\<rparr>)"

definition HandlingFile :: "int \<Rightarrow> ('db, 'h) kserver \<Rightarrow> bool" where
  "HandlingFile fd s \<longleftrightarrow> sv_file_pending s \<and> sv_file_pending_fd s = fd"

definition FindReceived :: "int \<Rightarrow> string \<Rightarrow> ('db, 'h) kserver \<Rightarrow> received_file option" where
  "FindReceived fd time s = find (\<lambda>f. rf_fd f = fd \<and> int_to_string (rf_timestamp f) = time) (sv_received s)"

definition Add_received :: "received_file \<Rightarrow> ('db, 'h) server_act" where
  "Add_received f = modify (\<lambda>s. s\<lparr>sv_received := sv_received s @ [f]\<rparr>)"

definition EraseReceived :: "int \<Rightarrow> string \<Rightarrow> ('db, 'h) server_act" where
  "EraseReceived fd time = modify (\<lambda>s. case FindReceived fd time s of
     None \<Rightarrow> s | Some f \<Rightarrow> s\<lparr>sv_received := remove1 f (sv_received s)\<rparr>)"

definition EnqueueOutbound :: "int \<Rightarrow> string list \<Rightarrow> ('db, 'h) server_act" where
  "EnqueueOutbound fd files =
     seq (modify (\<lambda>s. s\<lparr>sv_fm_sending := True, sv_fm_sending_fd := fd\<rparr>)) (\<lambda>_.
     seq (of_res (PayloadToMetaData files)) (\<lambda>ms.
       modify (\<lambda>s. s\<lparr>sv_fm_outbound := sv_fm_outbound s @ map (Pair fd) ms\<rparr>)))"

definition OutboundNext :: "(('db, 'h) kserver, outbound_file) act" where
  "OutboundNext = seq get_state (\<lambda>s. of_res (vec_front (sv_fm_outbound s)))"

definition Dequeue :: "(('db, 'h) kserver, outbound_file) act" where
  "Dequeue = seq OutboundNext (\<lambda>f. seq (modify (\<lambda>s. s\<lparr>sv_fm_outbound := tl (sv_fm_outbound s)\<rparr>)) (\<lambda>_. ret f))"

text \<open>The server's own queue is filled by \<open>EnqueueFiles\<close> and emptied by \<open>OnClientExit\<close>; nothing sends from it.\<close>

definition EnqueueFiles :: "int \<Rightarrow> string list \<Rightarrow> ('db, 'h) server_act" where
  "EnqueueFiles fd files =
     seq (modify (\<lambda>s. s\<lparr>sv_file_sending := True, sv_file_sending_fd := fd\<rparr>)) (\<lambda>_.
     seq (of_res (PayloadToMetaData files)) (\<lambda>ms.
       modify (\<lambda>s. s\<lparr>sv_outbound := sv_outbound s @ map (Pair fd) ms\<rparr>)))"

definition OnFileHandled :: "('db, 'h) server_env \<Rightarrow> int \<Rightarrow> string \<Rightarrow> ('db, 'h) server_act" where
  "OnFileHandled L fd bytes = seq get_state (\<lambda>s.
     if sv_file_pending_fd s \<noteq> fd then ret ()
     else
       seq (Add_received \<lparr>rf_timestamp = w_now s, rf_fd = fd, rf_bytes = bytes\<rparr>) (\<lambda>_.
       seq (SendEvent L fd ''File Transfer Complete'' [int_to_string (w_now s)]) (\<lambda>_.
         SetFileNotPending)))"

text \<open>
  The handler joins the packets and gives each file that is complete to its callback. Its state is
  stored before the callbacks run.
\<close>

definition ReceiveFileData :: "('db, 'h) server_env \<Rightarrow> int \<Rightarrow> string \<Rightarrow> ('db, 'h) server_act" where
  "ReceiveFileData L fd bytes = seq get_state (\<lambda>s.
     let h = (case map_of (sv_file_handlers s) fd of None \<Rightarrow> se_new_handler L False fd | Some h \<Rightarrow> h);
         (files, h') = se_feed L h bytes
     in
       seq (modify (\<lambda>s. s\<lparr>sv_file_handlers := AList.update fd h' (sv_file_handlers s)\<rparr>)) (\<lambda>_.
       seq (each (OnFileHandled L fd) files) (\<lambda>_.
         count_rx fd (length bytes))))"

section \<open>The end of a session\<close>

definition revoke :: "int \<Rightarrow> (int \<times> bool) list \<Rightarrow> bool \<times> (int \<times> bool) list" where
  "revoke fd fds = (if fd \<in> fst ` set fds then (True, AList.update fd False fds) else (False, fds))"

definition shut_fd :: "int \<Rightarrow> ('db, 'h) kserver \<Rightarrow> ('db, 'h) kserver" where
  "shut_fd fd s = s\<lparr>sv_shut := sv_shut s @ [fd], sv_fds := snd (revoke fd (sv_fds s))\<rparr>"

definition EndSession :: "int \<Rightarrow> int \<Rightarrow> ('db, 'h) server_act" where
  "EndSession fd status = seq get_state (\<lambda>s.
     seq (if sm_has (sv_sessions s) fd
          then seq (change_sessions (sm_change fd (\<lambda>k. k\<lparr>ks_status := status\<rparr>))) (\<lambda>_.
                 if HandlingFile fd s then SetFileNotPending else ret ())
          else ret ()) (\<lambda>_.
       modify (shut_fd fd)))"

definition CloseConnections :: "('db, 'h) server_act" where
  "CloseConnections = seq get_state (\<lambda>s. each (\<lambda>fd. EndSession fd SESSION_INACTIVE) (sv_connections s))"

definition EraseFileHandler :: "int \<Rightarrow> ('db, 'h) server_act" where
  "EraseFileHandler fd = modify (\<lambda>s. s\<lparr>sv_file_handlers := AList.delete fd (sv_file_handlers s)\<rparr>)"

definition EraseMessageHandler :: "int \<Rightarrow> ('db, 'h) server_act" where
  "EraseMessageHandler fd = modify (\<lambda>s. s\<lparr>sv_message_handlers := AList.delete fd (sv_message_handlers s)\<rparr>)"

definition OnClientExit :: "int \<Rightarrow> ('db, 'h) server_act" where
  "OnClientExit fd =
     seq (EraseMessageHandler fd) (\<lambda>_. seq (EraseFileHandler fd) (\<lambda>_.
       modify (\<lambda>s. s\<lparr>sv_outbound := filter (\<lambda>f. fst f \<noteq> fd) (sv_outbound s)\<rparr>)))"

definition onConnectionClose :: "int \<Rightarrow> ('db, 'h) server_act" where
  "onConnectionClose fd = seq (EndSession fd SESSION_INACTIVE) (\<lambda>_. OnClientExit fd)"

text \<open>\<open>GetSession\<close> evaluates the session it finds and drops it.\<close>

definition GetSession :: "int \<Rightarrow> (('db, 'h) kserver, ksession) act" where
  "GetSession fd = seq get_state (\<lambda>s. ret (if sm_has (sv_sessions s) fd then blank_session else blank_session))"

text \<open>The walk over the map: a session that has expired is ended and erased.\<close>

definition validate_client :: "string \<Rightarrow> ('db, 'h) server_act" where
  "validate_client name = seq get_state (\<lambda>s.
     case map_of (sm_sessions (sv_sessions s)) name of
       None \<Rightarrow> ret ()
     | Some (n, k) \<Rightarrow>
         seq (change_sessions (\<lambda>m. Inr (change_node n (session_verify (w_now s)) m))) (\<lambda>_.
         if session_expired (w_now s) k
         then seq (EndSession (ks_fd k) SESSION_INACTIVE) (\<lambda>_. change_sessions (\<lambda>m. Inr (sm_erase name m)))
         else ret ()))"

definition ValidateClients :: "('db, 'h) server_act" where
  "ValidateClients = seq get_state (\<lambda>s. each validate_client (map fst (sm_sessions (sv_sessions s))))"

section \<open>Status\<close>

definition status_word :: "int \<Rightarrow> string" where
  "status_word i = (if i = 1 then ''ACTIVE'' else if i = 2 then ''INACTIVE'' else ''INVALID'')"

definition box_line :: "char \<Rightarrow> char \<Rightarrow> string" where
  "box_line l r = [CHR 0xE2, CHR 0x94, l] @ concat (replicate 46 [CHR 0xE2, CHR 0x94, CHR 0x80]) @
     [CHR 0xE2, CHR 0x94, r, newline]"

definition session_info :: "int \<Rightarrow> ksession \<Rightarrow> string" where
  "session_info now k = box_line (CHR 0x8C) (CHR 0x90) @
     '' User:   '' @ u_name (ks_user k) @ [newline] @ '' FD:     '' @ int_to_string (ks_fd k) @ [newline] @
     '' Status: '' @ status_word (ks_status k) @ [newline] @ '' ID:     '' @ ks_id k @ [newline] @
     '' TX:     '' @ nat_to_string (unat (ks_tx k)) @ [newline] @
     '' RX:     '' @ nat_to_string (unat (ks_rx k)) @ [newline] @
     '' Ping:   '' @ nat_to_string (unat (waiting_time now k)) @ '' ms'' @ [newline] @
     box_line (CHR 0x94) (CHR 0x98)"

definition status_sum :: "(ksession \<Rightarrow> 32 word) \<Rightarrow> session_map \<Rightarrow> 64 word" where
  "status_sum f m = sum_list (map (\<lambda>e. ucast (f (snd (snd e)))) (sm_sessions m))"

definition Server_Status :: "nat \<Rightarrow> ('db, 'h) kserver \<Rightarrow> string" where
  "Server_Status workers s =
     ''Server Status'' @ [newline] @
     ''Bytes sent: '' @ nat_to_string (unat (status_sum ks_tx (sv_sessions s))) @ [newline] @
     ''Bytes recv: '' @ nat_to_string (unat (status_sum ks_rx (sv_sessions s))) @ [newline] @
     ''Errors: '' @ nat_to_string (unat (sv_errors s)) @ [newline] @
     ''Clients:'' @ [newline] @ concat (map (\<lambda>e. session_info (w_now s) (snd (snd e))) (sm_sessions (sv_sessions s))) @ [newline] @
     ''Thread pool: there are currently '' @ nat_to_string workers @ '' active workers tending to sockets''"

section \<open>Finished processes\<close>

definition OnProcessEvent :: "('db, 'h) server_env \<Rightarrow> string \<Rightarrow> int \<Rightarrow> string \<Rightarrow> int \<Rightarrow> bool \<Rightarrow> ('db, 'h) server_act" where
  "OnProcessEvent L result msk id1 fd error =
     seq (Broadcast L ''Process Result'' ([int_to_string msk, id1, result] @
            (if error then [''Executed process returned an ERROR''] else []))) (\<lambda>_.
     seq (isKIQProcess (se_x L) msk) (\<lambda>kiq.
     if kiq
     then seq (of_res (stoi id1)) (\<lambda>i.
            ProcessSystemEvent (se_x L) (se_hooks L) SYS_PROCESS_COMPLETE [result, int_to_string msk] i)
     else ret ()))"

section \<open>What the operations do\<close>

lemma get_state_simp [simp]: "get_state s = (Inr s, s)"
  by (simp add: get_state_def)

lemma seq_get_state [simp]: "seq get_state f s = f s s"
  by simp

lemma change_sessions_Inr [simp]:
  "f (sv_sessions s) = Inr m \<Longrightarrow> change_sessions f s = (Inr (), s\<lparr>sv_sessions := m\<rparr>)"
  by (simp add: change_sessions_def)

lemma change_sessions_Inl [simp]: "f (sv_sessions s) = Inl e \<Longrightarrow> change_sessions f s = (Inl e, s)"
  by (simp add: change_sessions_def)

text \<open>A message to a session on its own descriptor.\<close>

lemma SendMessage_split:
  assumes "sm_linked (sv_sessions s)" and "sm_sessions (sv_sessions s) = pre @ (name, nd, k) # post"
    and "se_text_packets L message = (ps, n)"
  shows "SendMessage L (ks_fd k) message s = (Inr (), s\<lparr>sv_sent := sv_sent s @ map (Pair (ks_fd k)) ps,
    sv_sessions := (sv_sessions s)\<lparr>sm_sessions := pre @ (name, nd, k\<lparr>ks_tx := ks_tx k + of_nat n\<rparr>) # post\<rparr>\<rparr>)"
  using sm_change_split [OF assms(1,2), of "\<lambda>k. k\<lparr>ks_tx := ks_tx k + of_nat n\<rparr>"]
  by (simp add: SendMessage_def put_packets_def count_tx_def assms(3))

text \<open>A message to a descriptor that has no session is sent, and then the count of its bytes throws.\<close>

lemma SendMessage_no_session:
  assumes "\<not> sm_has (sv_sessions s) fd" and "se_text_packets L message = (ps, n)"
  shows "SendMessage L fd message s =
    (Inl (RuntimeError ''SessionMap::at()''), s\<lparr>sv_sent := sv_sent s @ map (Pair fd) ps\<rparr>)"
  using assms by (simp add: SendMessage_def put_packets_def count_tx_def sm_change_def sm_has_def)

text \<open>What is left of an awaited file when the session of \<open>fd\<close> ends.\<close>

definition not_awaited :: "int \<Rightarrow> ('db, 'h) kserver \<Rightarrow> ('db, 'h) kserver" where
  "not_awaited fd s = (if HandlingFile fd s then s\<lparr>sv_file_pending := False, sv_file_pending_fd := - 1\<rparr> else s)"

lemma not_awaited_sel [simp]:
  "sv_shut (not_awaited fd s) = sv_shut s" "sv_sessions (not_awaited fd s) = sv_sessions s"
  "sv_sent (not_awaited fd s) = sv_sent s" "w_now (not_awaited fd s) = w_now s"
  by (simp_all add: not_awaited_def)

lemma shut_fd_sel [simp]:
  "sv_shut (shut_fd fd s) = sv_shut s @ [fd]" "sv_sessions (shut_fd fd s) = sv_sessions s"
  "sv_sent (shut_fd fd s) = sv_sent s" "w_now (shut_fd fd s) = w_now s"
  "sv_fm_outbound (shut_fd fd s) = sv_fm_outbound s" "sv_outbound (shut_fd fd s) = sv_outbound s"
  by (simp_all add: shut_fd_def)

lemma HandlingFile_sessions [simp]: "HandlingFile fd (s\<lparr>sv_sessions := m\<rparr>) = HandlingFile fd s"
  by (simp add: HandlingFile_def)

lemma EndSession_split:
  assumes "sm_linked (sv_sessions s)" and "sm_sessions (sv_sessions s) = pre @ (name, nd, k) # post"
  shows "EndSession (ks_fd k) status s = (Inr (), shut_fd (ks_fd k) (not_awaited (ks_fd k) (s\<lparr>sv_sessions :=
    (sv_sessions s)\<lparr>sm_sessions := pre @ (name, nd, k\<lparr>ks_status := status\<rparr>) # post\<rparr>\<rparr>)))"
proof -
  have has: "sm_has (sv_sessions s) (ks_fd k)"
    using linked_session_ptr [OF assms(1), of "(name, nd, k)"] assms(2) by (simp add: sm_has_def)
  note change = sm_change_split [OF assms, of "\<lambda>k. k\<lparr>ks_status := status\<rparr>"]
  show ?thesis
    by (cases "HandlingFile (ks_fd k) s")
      (simp_all add: EndSession_def has change not_awaited_def SetFileNotPending_def)
qed

lemma EndSession_no_session:
  "\<not> sm_has (sv_sessions s) fd \<Longrightarrow> EndSession fd status s = (Inr (), shut_fd fd s)"
  by (simp add: EndSession_def)

section \<open>Properties\<close>

text \<open>What a broadcast makes of the sessions: the bytes are counted for the active ones.\<close>

definition counted :: "int \<Rightarrow> nat \<Rightarrow> string \<times> session_node \<Rightarrow> string \<times> session_node" where
  "counted now n e = (if session_active now (snd (snd e))
     then (fst e, fst (snd e), (snd (snd e))\<lparr>ks_tx := ks_tx (snd (snd e)) + of_nat n\<rparr>) else e)"

definition receivers :: "int \<Rightarrow> (string \<times> session_node) list \<Rightarrow> int list" where
  "receivers now es = map (\<lambda>e. ks_fd (snd (snd e))) (filter (\<lambda>e. session_active now (snd (snd e))) es)"

lemma counted_linked: "sm_linked m \<Longrightarrow> sm_linked (m\<lparr>sm_sessions := map (counted now n) (sm_sessions m)\<rparr>)"
  by (rule linked_map) (simp_all add: counted_def)

lemma broadcast_rest:
  assumes "sm_linked (sv_sessions s)" and "sm_sessions (sv_sessions s) = pre @ post"
    and packets: "se_text_packets L message = (ps, n)"
    and "\<forall>e \<in> set post. session_active (w_now s) (snd (snd e)) \<longrightarrow> ks_fd (snd (snd e)) \<noteq> ALL_CLIENTS"
  shows "each (\<lambda>e. send_active L message (snd (snd e))) post s =
    (Inr (), s\<lparr>sv_sent := sv_sent s @ concat (map (\<lambda>fd. map (Pair fd) ps) (receivers (w_now s) post)),
       sv_sessions := (sv_sessions s)\<lparr>sm_sessions := pre @ map (counted (w_now s) n) post\<rparr>\<rparr>)"
  using assms(1,2,4)
proof (induction post arbitrary: s pre)
  case Nil
  then show ?case by (simp add: receivers_def)
next
  case (Cons e post)
  obtain name nd k where e: "e = (name, nd, k)" by (cases e) auto
  show ?case
  proof (cases "session_active (w_now s) k")
    case False
    then show ?thesis
      using Cons.IH [of s "pre @ [e]"] Cons.prems by (simp add: e send_active_def receivers_def counted_def)
  next
    case True
    let ?m = "(sv_sessions s)\<lparr>sm_sessions := (pre @ [counted (w_now s) n e]) @ post\<rparr>"
    let ?s = "s\<lparr>sv_sent := sv_sent s @ map (Pair (ks_fd k)) ps, sv_sessions := ?m\<rparr>"
    have sent: "SendMessage L (ks_fd k) message s = (Inr (), ?s)"
      using SendMessage_split [OF Cons.prems(1) _ packets, of pre name nd k post] Cons.prems(2) True
      by (simp add: e counted_def)
    have "sm_linked ?m"
      using change_node_linked [OF Cons.prems(1), of "\<lambda>k. k\<lparr>ks_tx := ks_tx k + of_nat n\<rparr>" nd]
        change_node_split [OF Cons.prems(1), of pre name nd k post] Cons.prems(2) True
      by (simp add: e counted_def)
    with Cons.IH [of ?s "pre @ [counted (w_now s) n e]"] Cons.prems(3) sent True show ?thesis
      by (simp add: e send_active_def receivers_def counted_def)
  qed
qed

text \<open>
  C12: where the two maps of the sessions fit each other, as they do after logins that fit
  (\<open>Sessions.sessions_stay_linked\<close>), and no active session is on the descriptor that stands for all
  clients, an event for all clients goes to the descriptor of every active session and to no other, in
  the order of the map, each packet once; the bytes are counted there, nothing else of the sessions
  changes, and the broadcast does not throw.
\<close>

theorem broadcast_reaches_active:
  assumes "sm_linked (sv_sessions s)"
    and "se_text_packets L (CreateEvent (jw L) event argv) = (ps, n)"
    and "\<forall>e \<in> set (sm_sessions (sv_sessions s)). session_active (w_now s) (snd (snd e)) \<longrightarrow> ks_fd (snd (snd e)) \<noteq> ALL_CLIENTS"
  shows "SendEvent L ALL_CLIENTS event argv s =
    (Inr (), s\<lparr>sv_sent := sv_sent s @ concat (map (\<lambda>fd. map (Pair fd) ps)
         (receivers (w_now s) (sm_sessions (sv_sessions s)))),
       sv_sessions := (sv_sessions s)\<lparr>sm_sessions := map (counted (w_now s) n) (sm_sessions (sv_sessions s))\<rparr>\<rparr>)"
  using broadcast_rest [OF assms(1) _ assms(2), of "[]"] assms(3)
  by (simp add: SendEvent_def Broadcast_def)

definition sample_env :: "(string list, unit) server_env" where
  "sample_env = \<lparr>se_x = log_libs, se_hooks = idle_hooks idle_kproto, se_jwt = (\<lambda>_. None),
     se_text_packets = (\<lambda>t. ([t], length t)), se_file_packets = (\<lambda>fs p. ([read_file fs p], length (read_file fs p))),
     se_new_handler = (\<lambda>_ _. ()), se_feed = (\<lambda>_ b. ([b], ())), se_verify = (\<lambda>_. True),
     se_fb_ig = (\<lambda>b. [b]), se_fb_generic = (\<lambda>b. [b]), se_fb_text = (\<lambda>b. b), se_ipc = sample_ipc_env\<rparr>"

definition server_with :: "session_map \<Rightarrow> (string list, unit) kserver" where
  "server_with m = controller.extend (sample_controller\<lparr>w_now := 110\<rparr>)
     (kserver.fields m [] [] False 0 [] [] [] [] False (- 1) False 0 0 [] [] [] empty_ipc)"

lemma server_with_sel [simp]:
  "sv_sessions (server_with m) = m" "sv_sent (server_with m) = []" "sv_shut (server_with m) = []"
  "sv_file_pending (server_with m) = False" "sv_file_pending_fd (server_with m) = - 1"
  "w_now (server_with m) = 110" "w_fs (server_with m) = sample_fs" "sv_received (server_with m) = []"
  "sv_fm_outbound (server_with m) = []" "w_uuids (server_with m) = 0"
  by (simp_all add: server_with_def controller.defs kserver.defs sample_controller_def)

lemma server_with_linked: "session_run m \<Longrightarrow> sm_linked (sv_sessions (server_with m))"
  by (simp add: session_run_linked)

theorem broadcast_reaches_active_witness:
  "map fst (sv_sent (snd (SendEvent sample_env ALL_CLIENTS ''Platform Update'' [] (server_with one_session)))) = [7]"
  using broadcast_reaches_active [OF server_with_linked [OF one_session_run],
      of sample_env "''Platform Update''" "[]"]
  by (simp add: sample_env_def receivers_def session_sample_simps ALL_CLIENTS_def)

lemma linked_at_split:
  "sm_linked m \<Longrightarrow> sm_sessions m = pre @ (name, n, k) # post \<Longrightarrow> map_of (sm_sessions m) name = Some (n, k)"
  by (rule map_of_is_SomeI [OF sm_linkedD(1)]) simp_all

lemma delete_append: "AList.delete a (xs @ ys) = AList.delete a xs @ AList.delete a ys"
  by (simp add: AList.delete_eq)

lemma delete_split: "distinct (map fst (pre @ e # post)) \<Longrightarrow> AList.delete (fst e) (pre @ e # post) = pre @ post"
  by (cases e) (simp add: delete_append)

lemma sm_erase_split:
  assumes "sm_linked m" and "sm_sessions m = pre @ (name, n, k) # post"
  shows "sm_sessions (sm_erase name m) = pre @ post"
proof -
  have "map_of (sm_sessions m) name = Some (n, k)" by (rule linked_at_split [OF assms])
  then show ?thesis
    using delete_split [of pre "(name, n, k)" post] sm_linkedD(1) [OF assms(1)] assms(2) by (simp add: sm_erase_def)
qed

lemma validate_fresh:
  assumes "sm_linked (sv_sessions s)" and "sm_sessions (sv_sessions s) = pre @ (name, n, k) # post"
    and "\<not> session_expired (w_now s) k"
  shows "validate_client name s = (Inr (), s)"
proof -
  have "map_of (sm_sessions (sv_sessions s)) name = Some (n, k)"
    by (rule linked_at_split [OF assms(1,2)])
  moreover have "change_node n (session_verify (w_now s)) (sv_sessions s) = sv_sessions s"
    unfolding change_node_split [OF assms(1,2)] using assms(3) assms(2) [symmetric] by (simp add: session_verify_def)
  ultimately show ?thesis using assms(3) by (simp add: validate_client_def)
qed

lemma validate_expired:
  assumes lk: "sm_linked (sv_sessions s)" and split: "sm_sessions (sv_sessions s) = pre @ (name, n, k) # post"
    and old: "session_expired (w_now s) k"
  shows "\<exists>s'. validate_client name s = (Inr (), s') \<and> sm_linked (sv_sessions s') \<and>
    sm_sessions (sv_sessions s') = pre @ post \<and> sv_shut s' = sv_shut s @ [ks_fd k] \<and> w_now s' = w_now s"
proof -
  let ?k = "session_verify (w_now s) k"
  let ?m1 = "change_node n (session_verify (w_now s)) (sv_sessions s)"
  let ?m2 = "?m1\<lparr>sm_sessions := pre @ (name, n, ?k\<lparr>ks_status := SESSION_INACTIVE\<rparr>) # post\<rparr>"
  let ?s1 = "s\<lparr>sv_sessions := ?m1\<rparr>"
  have at: "map_of (sm_sessions (sv_sessions s)) name = Some (n, k)"
    by (rule linked_at_split [OF lk split])
  have m1: "sm_sessions ?m1 = pre @ (name, n, ?k) # post" by (simp add: change_node_split [OF lk split])
  have lk1: "sm_linked ?m1" by (rule change_node_linked [OF lk]) (simp add: session_verify_def)
  have fd: "ks_fd ?k = ks_fd k" by (simp add: session_verify_def)
  have e: "EndSession (ks_fd k) SESSION_INACTIVE ?s1 =
      (Inr (), shut_fd (ks_fd k) (not_awaited (ks_fd k) (?s1\<lparr>sv_sessions := ?m2\<rparr>)))"
    using EndSession_split [of ?s1, OF _ _, of pre name n ?k post SESSION_INACTIVE] lk1 m1 fd by simp
  have "?m2 = change_node n (\<lambda>k. k\<lparr>ks_status := SESSION_INACTIVE\<rparr>) ?m1"
    using change_node_split [OF lk1 m1, of "\<lambda>k. k\<lparr>ks_status := SESSION_INACTIVE\<rparr>"] by simp
  then have lk2: "sm_linked ?m2" using change_node_linked [OF lk1, of "\<lambda>k. k\<lparr>ks_status := SESSION_INACTIVE\<rparr>" n] by simp
  have "sm_sessions (sm_erase name ?m2) = pre @ post" using sm_erase_split [OF lk2] by simp
  then show ?thesis
    using at old e erase_linked [OF lk2, of name]
    by (simp add: validate_client_def)
qed

lemma validate_rest:
  assumes "sm_linked (sv_sessions s)" and "sm_sessions (sv_sessions s) = pre @ post"
  shows "\<exists>s'. each validate_client (map fst post) s = (Inr (), s') \<and> sm_linked (sv_sessions s') \<and>
    sm_sessions (sv_sessions s') = pre @ filter (\<lambda>e. \<not> session_expired (w_now s) (snd (snd e))) post \<and>
    sv_shut s' = sv_shut s @ map (\<lambda>e. ks_fd (snd (snd e))) (filter (\<lambda>e. session_expired (w_now s) (snd (snd e))) post)"
  using assms
proof (induction post arbitrary: s pre)
  case Nil
  then show ?case by simp
next
  case (Cons e post)
  obtain name n k where e: "e = (name, n, k)" by (cases e) auto
  show ?case
  proof (cases "session_expired (w_now s) k")
    case False
    then show ?thesis
      using validate_fresh [of s pre name n k post] Cons.IH [of s "pre @ [e]"] Cons.prems by (simp add: e)
  next
    case True
    with validate_expired [of s pre name n k post] Cons.prems obtain s1 where
      "validate_client name s = (Inr (), s1)" "sm_linked (sv_sessions s1)"
      "sm_sessions (sv_sessions s1) = pre @ post" "sv_shut s1 = sv_shut s @ [ks_fd k]" "w_now s1 = w_now s"
      by (auto simp: e)
    with Cons.IH [of s1 pre] True show ?thesis by (auto simp: e)
  qed
qed

text \<open>
  C31: the worker's check of the clients ends and erases the sessions that have not been heard of for
  twenty seconds, shuts their descriptors in the order of the map, and leaves every other session as
  it was; the maps stay linked, so no pointer is left to an erased session.
\<close>

theorem expired_sessions_are_removed:
  assumes "sm_linked (sv_sessions s)"
  shows "\<exists>s'. ValidateClients s = (Inr (), s') \<and> sm_linked (sv_sessions s') \<and>
    sm_sessions (sv_sessions s') = filter (\<lambda>e. \<not> session_expired (w_now s) (snd (snd e))) (sm_sessions (sv_sessions s)) \<and>
    sv_shut s' = sv_shut s @ map (\<lambda>e. ks_fd (snd (snd e)))
      (filter (\<lambda>e. session_expired (w_now s) (snd (snd e))) (sm_sessions (sv_sessions s)))"
  using validate_rest [OF assms, of "[]"] by (simp add: ValidateClients_def)

theorem expired_sessions_are_removed_witness:
  "\<exists>s'. ValidateClients (server_with one_session\<lparr>w_now := 20200\<rparr>) = (Inr (), s') \<and>
     sm_sessions (sv_sessions s') = [] \<and> sv_shut s' = [7]"
proof -
  have "sm_sessions one_session = [(''ann'', 0, session_notify 100 (sample_login ''ann'' 7))]"
    by (simp add: one_session_def sm_init_def empty_sessions_def)
  moreover have "session_expired 20200 (session_notify 100 (sample_login ''ann'' 7))"
    "ks_fd (session_notify 100 (sample_login ''ann'' 7)) = 7"
    by (simp_all add: session_sample_simps)
  ultimately show ?thesis
    using expired_sessions_are_removed [of "server_with one_session\<lparr>w_now := 20200\<rparr>"] session_run_linked [OF one_session_run]
    by auto
qed

end
