(* ===== verification/EventHandler.thy ===== *)
theory EventHandler
  imports ServerState
begin

text \<open>
  The event handler, \<open>server/event_handler.cpp\<close> and \<open>event_handler.hpp\<close>: a table from the numbers of
  the system's events to the functions that serve them. The table is a \<open>std::map\<close> made from a list
  in which one number stands twice; the first of two entries with one key is kept.

  Shown: which number the table serves with which function, and that a status report is announced
  as a new post; a file that was received is saved and taken off the list, and the handler then
  throws unless the event has a fourth argument.
\<close>

type_synonym ('db, 'h) event_fn = "int \<Rightarrow> int \<Rightarrow> string list \<Rightarrow> ('db, 'h) server_act"

section \<open>The handlers\<close>

text \<open>Each has the client, the number of the event and its payload.\<close>

definition on_execution_requested :: "('db, 'h) server_env \<Rightarrow> ('db, 'h) event_fn" where
  "on_execution_requested L fd event payload = SendEvent L fd ''Process Execution Requested'' payload"

definition on_tasks_ready :: "('db, 'h) server_env \<Rightarrow> ('db, 'h) event_fn" where
  "on_tasks_ready L fd event payload = SendEvent L fd ''Scheduled Tasks Ready'' payload"

definition on_tasks_none :: "('db, 'h) server_env \<Rightarrow> ('db, 'h) event_fn" where
  "on_tasks_none L fd event payload = SendEvent L fd ''No tasks ready'' payload"

definition on_scheduler_fetch :: "('db, 'h) server_env \<Rightarrow> ('db, 'h) event_fn" where
  "on_scheduler_fetch L fd event payload = SendEvent L fd ''Scheduled Tasks'' payload"

definition on_scheduler_tokens :: "('db, 'h) server_env \<Rightarrow> ('db, 'h) event_fn" where
  "on_scheduler_tokens L fd event payload = SendEvent L fd ''Schedule Tokens'' payload"

definition on_scheduler_update :: "('db, 'h) server_env \<Rightarrow> ('db, 'h) event_fn" where
  "on_scheduler_update L fd event payload = SendEvent L fd ''Schedule PUT'' payload"

definition on_scheduler_success :: "('db, 'h) server_env \<Rightarrow> ('db, 'h) event_fn" where
  "on_scheduler_success L fd event payload = SendEvent L fd ''Task Scheduled'' payload"

definition on_registrar_success :: "('db, 'h) server_env \<Rightarrow> ('db, 'h) event_fn" where
  "on_registrar_success L fd event payload = SendEvent L fd ''Application was registered'' payload"

definition on_registrar_fail :: "('db, 'h) server_env \<Rightarrow> ('db, 'h) event_fn" where
  "on_registrar_fail L fd event payload = SendEvent L fd ''Failed to register application'' payload"

definition on_task_flags :: "('db, 'h) server_env \<Rightarrow> ('db, 'h) event_fn" where
  "on_task_flags L fd event payload = SendEvent L fd ''Application Flags'' payload"

definition on_application_fetch_success :: "('db, 'h) server_env \<Rightarrow> ('db, 'h) event_fn" where
  "on_application_fetch_success L fd event payload = SendEvent L fd ''Application was found'' payload"

definition on_application_fetch_fail :: "('db, 'h) server_env \<Rightarrow> ('db, 'h) event_fn" where
  "on_application_fetch_fail L fd event payload = SendEvent L fd ''Application was not found'' payload"

definition on_platform_created :: "('db, 'h) server_env \<Rightarrow> ('db, 'h) event_fn" where
  "on_platform_created L fd event payload = SendEvent L fd ''Platform post created'' payload"

definition on_task_data :: "('db, 'h) server_env \<Rightarrow> ('db, 'h) event_fn" where
  "on_task_data L fd event payload = SendEvent L fd ''Task Data'' payload"

definition on_task_data_final :: "('db, 'h) server_env \<Rightarrow> ('db, 'h) event_fn" where
  "on_task_data_final L fd event payload = SendEvent L fd ''Task Data Final'' payload"

definition on_term_hits :: "('db, 'h) server_env \<Rightarrow> ('db, 'h) event_fn" where
  "on_term_hits L fd event payload = SendEvent L fd ''Term Hits'' payload"

definition on_status_report :: "('db, 'h) server_env \<Rightarrow> ('db, 'h) event_fn" where
  "on_status_report L fd event payload = SendEvent L fd ''Status Report'' payload"

definition on_scheduler_fail :: "('db, 'h) server_env \<Rightarrow> ('db, 'h) event_fn" where
  "on_scheduler_fail L fd event payload = ret ()"

definition on_process_complete :: "('db, 'h) server_env \<Rightarrow> ('db, 'h) event_fn" where
  "on_process_complete L fd event payload = ret ()"

definition on_scheduler_request :: "('db, 'h) server_env \<Rightarrow> ('db, 'h) event_fn" where
  "on_scheduler_request L fd event payload = ret ()"

definition on_trigger_add_success :: "('db, 'h) server_env \<Rightarrow> ('db, 'h) event_fn" where
  "on_trigger_add_success L fd event payload = ret ()"

definition on_trigger_add_fail :: "('db, 'h) server_env \<Rightarrow> ('db, 'h) event_fn" where
  "on_trigger_add_fail L fd event payload = ret ()"

definition on_process_research :: "('db, 'h) server_env \<Rightarrow> ('db, 'h) event_fn" where
  "on_process_research L fd event payload = ret ()"

definition on_process_research_result :: "('db, 'h) server_env \<Rightarrow> ('db, 'h) event_fn" where
  "on_process_research_result L fd event payload = ret ()"

definition on_file_update :: "('db, 'h) server_env \<Rightarrow> ('db, 'h) event_fn" where
  "on_file_update L fd event payload =
     arg_at payload 0 (\<lambda>filename. arg_at payload 1 (\<lambda>timestamp.
     seq get_state (\<lambda>s. case FindReceived fd timestamp s of
       None \<Rightarrow> SendEvent L fd ''File Save Failure'' [timestamp]
     | Some f \<Rightarrow>
         seq (put_fs (SaveFile_bytes (w_fs s) (rf_bytes f) filename)) (\<lambda>_.
         seq (EraseReceived fd timestamp) (\<lambda>_.
         arg_at payload 3 (\<lambda>final.
         seq (if final = ''final file'' then EraseFileHandler fd else ret ()) (\<lambda>_.
           SendEvent L fd ''File Save Success'' [timestamp])))))))"

text \<open>\<open>GetIPCMgr()\<close>: an operation of the manager, on the server's state.\<close>

definition on_manager :: "'a ipc_act \<Rightarrow> (('db, 'h) kserver, 'a) act" where
  "on_manager m s = (case m (sv_ipc s) of (r, i) \<Rightarrow> (r, s\<lparr>sv_ipc := i\<rparr>))"

definition ReceiveEvent :: "('db, 'h) server_env \<Rightarrow> int \<Rightarrow> string list \<Rightarrow> ('db, 'h) server_act" where
  "ReceiveEvent L event payload =
     seq (on_manager (mgr_ReceiveEvent (se_ipc L) (hk_kproto (se_hooks L)) event payload)) (\<lambda>_. ret ())"

definition system_event :: "('db, 'h) server_env \<Rightarrow> int \<Rightarrow> string list \<Rightarrow> ('db, 'h) server_act" where
  "system_event L event payload = ProcessSystemEvent (se_x L) (se_hooks L) event payload 0"

definition on_platform_new_post :: "('db, 'h) server_env \<Rightarrow> ('db, 'h) event_fn" where
  "on_platform_new_post L fd event payload =
     seq (system_event L SYS_PLATFORM_NEW_POST payload) (\<lambda>_. SendEvent L fd ''Platform Post'' payload)"

definition on_platform_post_request :: "('db, 'h) server_env \<Rightarrow> ('db, 'h) event_fn" where
  "on_platform_post_request L fd event payload = arg_at payload 7 (\<lambda>how.
     if how = ''bot'' then ReceiveEvent L event payload else system_event L EV_PLATFORM_ERROR payload)"

definition on_platform_error :: "('db, 'h) server_env \<Rightarrow> ('db, 'h) event_fn" where
  "on_platform_error L fd event payload =
     seq (system_event L event payload) (\<lambda>_. arg_at payload 3 (\<lambda>_. Broadcast L ''Platform Error'' payload))"

definition on_platform_request :: "('db, 'h) server_env \<Rightarrow> ('db, 'h) event_fn" where
  "on_platform_request L fd event payload = system_event L event payload"

definition on_platform_event :: "('db, 'h) server_env \<Rightarrow> ('db, 'h) event_fn" where
  "on_platform_event L fd event payload = ReceiveEvent L event payload"

definition on_platform_info :: "('db, 'h) server_env \<Rightarrow> ('db, 'h) event_fn" where
  "on_platform_info L fd event payload = arg_at payload 3 (\<lambda>info_type. arg_at payload 0 (\<lambda>platform.
     seq (SendEvent L fd ''Platform Info'' payload) (\<lambda>_.
     seq (ReceiveEvent L EV_PLATFORM_EVENT payload) (\<lambda>_.
     if info_type = ''agitation analysis''
     then arg_at payload 4 (\<lambda>info. SendMail_subject (x_conf (se_x L) ''email'' ''admin'') info info_type)
     else ret ()))))"

definition on_platform_info_request :: "('db, 'h) server_env \<Rightarrow> ('db, 'h) event_fn" where
  "on_platform_info_request L fd event payload = ReceiveEvent L SYS_PLATFORM_INFO_REQUEST payload"

definition on_platform_fetch_posts :: "('db, 'h) server_env \<Rightarrow> ('db, 'h) event_fn" where
  "on_platform_fetch_posts L fd event payload = Broadcast L ''Platform Posts'' payload"

definition on_platform_update :: "('db, 'h) server_env \<Rightarrow> ('db, 'h) event_fn" where
  "on_platform_update L fd event payload = Broadcast L ''Platform Update'' payload"

definition on_files_send :: "('db, 'h) server_env \<Rightarrow> ('db, 'h) event_fn" where
  "on_files_send L fd event payload = seq (EnqueueOutbound fd payload) (\<lambda>_. SendEvent L fd ''File Upload'' payload)"

definition on_files_send_ack :: "('db, 'h) server_env \<Rightarrow> ('db, 'h) event_fn" where
  "on_files_send_ack L fd event payload = seq OutboundNext (\<lambda>f. SendEvent L (fst f) ''File Upload Meta'' (fm_to_string_v (snd f)))"

definition on_files_send_ready :: "('db, 'h) server_env \<Rightarrow> ('db, 'h) event_fn" where
  "on_files_send_ready L fd event payload = seq Dequeue (\<lambda>f. SendFile L (fst f) (fm_name (snd f)))"

definition on_KIQ_ipc_Message :: "('db, 'h) server_env \<Rightarrow> ('db, 'h) event_fn" where
  "on_KIQ_ipc_Message L fd event payload = ReceiveEvent L SYS_IPC_REQUEST payload"

definition on_ipc_reconnect_request :: "('db, 'h) server_env \<Rightarrow> ('db, 'h) event_fn" where
  "on_ipc_reconnect_request L fd event payload = Request_push RECONNECT_IPC"

section \<open>The table\<close>

definition dispatch_table :: "('db, 'h) server_env \<Rightarrow> (int \<times> ('db, 'h) event_fn) list" where
  "dispatch_table L =
    [(SYS_FILE_UPDATE, on_file_update L),
     (SYS_PROCESS_EXECUTION_REQUESTED, on_execution_requested L),
     (SYS_SCHEDULED_TASKS_READY, on_tasks_ready L),
     (SYS_SCHEDULED_TASKS_NONE, on_tasks_none L),
     (SYS_SCHEDULER_FETCH, on_scheduler_fetch L),
     (SYS_SCHEDULER_FETCH_TOKENS, on_scheduler_tokens L),
     (SYS_SCHEDULER_UPDATE, on_scheduler_update L),
     (SYS_SCHEDULER_SUCCESS, on_scheduler_success L),
     (SYS_SCHEDULER_FAIL, on_scheduler_fail L),
     (SYS_REGISTRAR_SUCCESS, on_registrar_success L),
     (SYS_REGISTRAR_FAIL, on_registrar_fail L),
     (SYS_TASK_FETCH_FLAGS, on_task_flags L),
     (SYS_APPLICATION_FETCH_SUCCESS, on_application_fetch_success L),
     (SYS_APPLICATION_FETCH_FAIL, on_application_fetch_fail L),
     (EV_PLATFORM_CREATED, on_platform_created L),
     (SYS_PLATFORM_NEW_POST, on_platform_new_post L),
     (EV_PLATFORM_POST_REQUESTED, on_platform_post_request L),
     (EV_PLATFORM_ERROR, on_platform_error L),
     (SYS_PLATFORM_REQUEST, on_platform_request L),
     (EV_PLATFORM_EVENT, on_platform_event L),
     (SYS_PLATFORM_INFO, on_platform_info L),
     (SYS_PLATFORM_INFO_REQUEST, on_platform_info_request L),
     (EV_PLATFORM_FETCH_POSTS, on_platform_fetch_posts L),
     (EV_PLATFORM_UPDATE, on_platform_update L),
     (SYS_PROCESS_COMPLETE, on_process_complete L),
     (SYS_SCHEDULER_REQUEST, on_scheduler_request L),
     (SYS_TRIGGER_ADD_SUCCESS, on_trigger_add_success L),
     (SYS_TRIGGER_ADD_FAIL, on_trigger_add_fail L),
     (SYS_FILES_SEND, on_files_send L),
     (SYS_FILES_SEND_ACK, on_files_send_ack L),
     (SYS_FILES_SEND_READY, on_files_send_ready L),
     (SYS_TASK_DATA, on_task_data L),
     (SYS_TASK_DATA_FINAL, on_task_data_final L),
     (SYS_PROCESS_RESEARCH, on_process_research L),
     (SYS_PROCESS_RESEARCH_RESULT, on_process_research_result L),
     (EV_KIQ_IPC_MESSAGE, on_KIQ_ipc_Message L),
     (SYS_TERM_HITS, on_term_hits L),
     (SYS_STATUS_REPORT, on_status_report L),
     (SYS_IPC_RECONNECT_REQUEST, on_ipc_reconnect_request L)]"

text \<open>\<open>m_dispatch_table[event]\<close> of a number that has no entry calls an empty \<open>std::function\<close>.\<close>

definition evt :: "('db, 'h) server_env \<Rightarrow> int \<Rightarrow> int \<Rightarrow> string list \<Rightarrow> ('db, 'h) server_act" where
  "evt L fd event payload = (case map_of (dispatch_table L) event of
     None \<Rightarrow> raise (RuntimeError ''bad_function_call'') | Some f \<Rightarrow> f fd event payload)"

definition server_callbacks :: "('db, 'h) server_env \<Rightarrow> nat \<Rightarrow> ('db, 'h) kserver callbacks" where
  "server_callbacks L workers = \<lparr>cb_event = evt L, cb_process = OnProcessEvent L,
     cb_status = Server_Status workers, cb_validate = ValidateClients\<rparr>"

section \<open>The table as a function\<close>

lemmas event_numbers =
  SYS_FILE_UPDATE_def SYS_PROCESS_EXECUTION_REQUESTED_def SYS_SCHEDULED_TASKS_READY_def
  SYS_SCHEDULED_TASKS_NONE_def SYS_SCHEDULER_FETCH_def SYS_SCHEDULER_FETCH_TOKENS_def SYS_SCHEDULER_UPDATE_def
  SYS_SCHEDULER_SUCCESS_def SYS_SCHEDULER_FAIL_def SYS_REGISTRAR_SUCCESS_def SYS_REGISTRAR_FAIL_def
  SYS_TASK_FETCH_FLAGS_def SYS_APPLICATION_FETCH_SUCCESS_def SYS_APPLICATION_FETCH_FAIL_def
  EV_PLATFORM_CREATED_def SYS_PLATFORM_NEW_POST_def EV_PLATFORM_POST_REQUESTED_def EV_PLATFORM_ERROR_def
  SYS_PLATFORM_REQUEST_def EV_PLATFORM_EVENT_def SYS_PLATFORM_INFO_def SYS_PLATFORM_INFO_REQUEST_def
  EV_PLATFORM_FETCH_POSTS_def EV_PLATFORM_UPDATE_def SYS_PROCESS_COMPLETE_def SYS_SCHEDULER_REQUEST_def
  SYS_TRIGGER_ADD_SUCCESS_def SYS_TRIGGER_ADD_FAIL_def SYS_FILES_SEND_def SYS_FILES_SEND_ACK_def
  SYS_FILES_SEND_READY_def SYS_TASK_DATA_def SYS_TASK_DATA_FINAL_def SYS_PROCESS_RESEARCH_def
  SYS_PROCESS_RESEARCH_RESULT_def EV_KIQ_IPC_MESSAGE_def SYS_TERM_HITS_def SYS_STATUS_REPORT_def
  SYS_IPC_RECONNECT_REQUEST_def

lemma map_of_nth_first:
  "i < length xs \<Longrightarrow> fst (xs ! i) \<notin> fst ` set (take i xs) \<Longrightarrow> map_of xs (fst (xs ! i)) = Some (snd (xs ! i))"
proof (induction xs arbitrary: i)
  case (Cons x xs)
  then show ?case by (cases i) auto
qed simp

definition event_list :: "int list" where
  "event_list = [1, 2, 3, 4, 5, 6, 7, 8, 9, 10, 11, 12, 13, 14, 38, 15, 16, 17, 18, 19, 20, 21,
     22, 23, 24, 25, 26, 27, 28, 29, 30, 31, 32, 33, 34, 35, 36, 38, 39]"

lemma event_list_once: "i < 39 \<Longrightarrow> i \<noteq> 37 \<Longrightarrow> event_list ! i \<notin> set (take i event_list)"
proof -
  have "list_all (\<lambda>i. i = 37 \<or> event_list ! i \<notin> set (take i event_list)) [0..<39]"
    by code_simp
  then show "i < 39 \<Longrightarrow> i \<noteq> 37 \<Longrightarrow> event_list ! i \<notin> set (take i event_list)"
    by (auto simp: list_all_iff)
qed

text \<open>The numbers of the table, in its order: 38 stands in it twice.\<close>

lemma table_numbers: "map fst (dispatch_table L) = event_list"
  by (simp add: dispatch_table_def event_numbers event_list_def)

lemma evt_nth:
  assumes "i < length (dispatch_table L)" and "i \<noteq> 37"
  shows "map_of (dispatch_table L) (fst (dispatch_table L ! i)) = Some (snd (dispatch_table L ! i))"
proof (rule map_of_nth_first [OF assms(1)])
  have "i < 39" using assms(1) by (simp add: dispatch_table_def)
  then have "map fst (dispatch_table L) ! i \<notin> set (take i (map fst (dispatch_table L)))"
    unfolding table_numbers using assms(2) by (rule event_list_once)
  then show "fst (dispatch_table L ! i) \<notin> fst ` set (take i (dispatch_table L))"
    using assms(1) by (simp add: take_map)
qed

lemma evt_numbers:
  "evt L fd SYS_STATUS_REPORT p = on_platform_created L fd SYS_STATUS_REPORT p"
  "evt L fd SYS_FILES_SEND_ACK p = on_files_send_ack L fd SYS_FILES_SEND_ACK p"
  "evt L fd SYS_FILE_UPDATE p = on_file_update L fd SYS_FILE_UPDATE p"
  by (simp_all add: evt_def dispatch_table_def event_numbers)

section \<open>Properties\<close>

text \<open>
  The table serves every number it has with the function that stands beside it, but for the
  status report, whose number is that of a new post: the report reaches the client as the event of
  a new post. A number it does not have calls an empty function, which throws.
\<close>

theorem table_serves_its_entries:
  assumes "i < length (dispatch_table L)" and "i \<noteq> 37"
  shows "evt L fd (fst (dispatch_table L ! i)) payload s = snd (dispatch_table L ! i) fd (fst (dispatch_table L ! i)) payload s \<and>
    evt L fd (fst (dispatch_table L ! 37)) payload s = SendEvent L fd ''Platform post created'' payload s \<and>
    evt L fd 0 payload s = (Inl (RuntimeError ''bad_function_call''), s)"
proof -
  have "map_of (dispatch_table L) 0 = None"
    by (simp only: map_of_eq_None_iff set_map [symmetric] table_numbers) (simp add: event_list_def)
  moreover have "fst (dispatch_table L ! 37) = SYS_STATUS_REPORT"
    by (simp add: dispatch_table_def)
  ultimately show ?thesis
    using evt_nth [OF assms] by (simp add: evt_def [of L fd 0] evt_numbers(1) on_platform_created_def)
      (simp add: evt_def)
qed

theorem table_serves_its_entries_witness:
  "evt sample_env 7 (fst (dispatch_table sample_env ! 14)) [] (server_with one_session) =
     SendEvent sample_env 7 ''Platform post created'' [] (server_with one_session)"
  using table_serves_its_entries [of 14 sample_env 7 "[]" "server_with one_session"]
  by (simp add: dispatch_table_def on_platform_created_def)

text \<open>
  A file that was received is written under its name and taken off the list of received files;
  then the event needs a fourth argument, and without one the handler throws and the client is told
  nothing. With it the client is told, and the handler of the client's packets goes if it is the
  last file.
\<close>

theorem file_update_needs_four:
  assumes "FindReceived fd time s = Some f"
    and "s1 = s\<lparr>w_fs := SaveFile_bytes (w_fs s) (rf_bytes f) name, sv_received := remove1 f (sv_received s)\<rparr>"
  shows "evt L fd SYS_FILE_UPDATE [name, time, uuid] s = (Inl OutOfRange, s1) \<and>
    evt L fd SYS_FILE_UPDATE [name, time, uuid, ''final file''] s =
      SendEvent L fd ''File Save Success'' [time] (s1\<lparr>sv_file_handlers := AList.delete fd (sv_file_handlers s)\<rparr>)"
proof -
  have "FindReceived fd time (s\<lparr>w_fs := v\<rparr>) = Some f" for v using assms(1) by (simp add: FindReceived_def)
  then show ?thesis
    using assms by (simp add: evt_numbers on_file_update_def arg_at_def put_fs_def EraseReceived_def EraseFileHandler_def)
qed

theorem file_update_needs_four_witness:
  "fst (evt sample_env 7 SYS_FILE_UPDATE [''a'', ''5'', ''u1'']
      (server_with one_session\<lparr>sv_received := [\<lparr>rf_timestamp = 5, rf_fd = 7, rf_bytes = ''x''\<rparr>]\<rparr>)) = Inl OutOfRange"
proof -
  have "int_to_string 5 = ''5''" by code_simp
  then have "FindReceived 7 ''5'' (server_with one_session\<lparr>sv_received := [\<lparr>rf_timestamp = 5, rf_fd = 7, rf_bytes = ''x''\<rparr>]\<rparr>)
      = Some \<lparr>rf_timestamp = 5, rf_fd = 7, rf_bytes = ''x''\<rparr>"
    by (simp add: FindReceived_def)
  from file_update_needs_four [OF this refl, of sample_env] show ?thesis by simp
qed

lemma EndSession_queue: "sv_fm_outbound (snd (EndSession fd status s)) = sv_fm_outbound s"
  by (auto simp: EndSession_def change_sessions_def SetFileNotPending_def sm_change_def seq_def bind_def
      split: option.splits sum.splits)

text \<open>
  The end of a connection does not empty the queue of files to send: the next client that asks
  for a file gets no answer, the file's description goes to the descriptor of the one that left.
\<close>

theorem files_of_the_gone_stay_queued:
  assumes "sv_fm_outbound s = (fd, m) # rest" and "s1 = snd (onConnectionClose fd s)"
  shows "sv_fm_outbound s1 = sv_fm_outbound s \<and>
    evt L client SYS_FILES_SEND_ACK [] s1 = SendEvent L fd ''File Upload Meta'' (fm_to_string_v m) s1"
proof -
  have "sv_fm_outbound s1 = sv_fm_outbound s"
  proof (cases "EndSession fd SESSION_INACTIVE s")
    case (Pair r s2)
    then have "sv_fm_outbound s2 = sv_fm_outbound s" using EndSession_queue [of fd SESSION_INACTIVE s] by simp
    then show ?thesis
      using Pair assms(2) by (cases r)
        (simp_all add: onConnectionClose_def OnClientExit_def EraseMessageHandler_def EraseFileHandler_def)
  qed
  then show ?thesis using assms(1) by (simp add: evt_numbers on_files_send_ack_def OutboundNext_def)
qed

theorem files_of_the_gone_stay_queued_witness:
  "\<forall>m. evt sample_env 8 SYS_FILES_SEND_ACK [] (snd (onConnectionClose 7 (server_with one_session\<lparr>sv_fm_outbound := [(7, m)]\<rparr>))) =
    SendEvent sample_env 7 ''File Upload Meta'' (fm_to_string_v m)
      (snd (onConnectionClose 7 (server_with one_session\<lparr>sv_fm_outbound := [(7, m)]\<rparr>)))"
proof
  fix m
  let ?s = "server_with one_session\<lparr>sv_fm_outbound := [(7, m)]\<rparr>"
  show "evt sample_env 8 SYS_FILES_SEND_ACK [] (snd (onConnectionClose 7 ?s)) =
      SendEvent sample_env 7 ''File Upload Meta'' (fm_to_string_v m) (snd (onConnectionClose 7 ?s))"
    using files_of_the_gone_stay_queued [OF _ refl, of ?s 7 m "[]" sample_env 8] by simp
qed

end
