(* ===== verification/Server.thy ===== *)
theory Server
  imports EventHandler
begin

text \<open>
  What the server does with what arrives: \<open>onMessageReceived\<close> and what it calls in
  \<open>server/kserver.cpp\<close>, and \<open>DecodeMessage\<close> of \<open>common/util.cpp\<close>. The controller's requests are
  those of \<open>Controller\<close>, with the server's event handler as its callback, so a request of a client
  is followed down to the database's statements and back to the packets on the sockets.

  Shown: a wrong token ends an active session and nothing else happens; a client with no session
  has its operations carried out unasked; a login with an invalid token leaves no active session; a
  second login keeps its connection; a file that is awaited from one client takes what another
  sends; what \<open>DecodeMessage\<close> makes of a framed text; a task with two files is never scheduled.
\<close>

section \<open>Decoding\<close>

text \<open>
  The first four bytes are the size, the most significant first; the fifth is the kind. What is
  read past the buffer, and an array of negative size, are undefined. The result is a text or the
  arguments of a task.
\<close>

definition byte_val :: "char \<Rightarrow> int" where
  "byte_val c = int (of_char c)"

definition message_size :: "string \<Rightarrow> int" where
  "message_size buf = sint (word_of_int (byte_val (buf ! 0) * 2 ^ 24 + byte_val (buf ! 1) * 2 ^ 16 +
     byte_val (buf ! 2) * 2 ^ 8 + byte_val (buf ! 3)) :: 32 word)"

definition DecodeMessage :: "('db, 'h) server_env \<Rightarrow> string \<Rightarrow> (string + string list) res" where
  "DecodeMessage L buf =
     bind (vec_nth buf 4) (\<lambda>kind.
       if kind = CHR 0xFD then Inr (Inl (int_to_string (byte_val kind)))
       else
         let size = message_size buf in
         if size < 0 \<or> int (length buf) < 5 + size then Inl Undefined
         else
           let content = take (nat size) (drop 5 buf) in
           if \<not> se_verify L content then Inr (Inr [])
           else if kind = CHR 0xFF then Inr (Inr (se_fb_ig L content))
           else if kind = CHR 0xFE then Inr (Inl (se_fb_text L content))
           else if kind = CHR 0xFC then Inr (Inr (se_fb_generic L content))
           else Inr (Inr []))"

definition IsPing :: "string \<Rightarrow> bool" where
  "IsPing data \<longleftrightarrow> data = ''253''"

definition IsStartOperation :: "string \<Rightarrow> bool" where "IsStartOperation data \<longleftrightarrow> data = ''start''"
definition IsStopOperation :: "string \<Rightarrow> bool" where "IsStopOperation data \<longleftrightarrow> data = ''stop''"
definition IsFileUploadOperation :: "string \<Rightarrow> bool" where "IsFileUploadOperation data \<longleftrightarrow> data = ''FileUpload''"

section \<open>Logging in\<close>

definition session_rejected :: "('db, 'h) server_env \<Rightarrow> string" where
  "session_rejected L = CreateSessionEvent (jw L) SESSION_INVALID ''Session rejected''
     [(''status'', int_to_string SESSION_INVALID), (''reason'', ''Invalid token'')]"

definition session_started :: "('db, 'h) server_env \<Rightarrow> string \<Rightarrow> string" where
  "session_started L uuid = CreateSessionEvent (jw L) SESSION_ACTIVE ''Session started''
     [(''status'', int_to_string SESSION_ACTIVE), (''uuid'', uuid)]"

definition InitClient :: "('db, 'h) server_env \<Rightarrow> string \<Rightarrow> int \<Rightarrow> ('db, 'h) server_act" where
  "InitClient L message fd =
     seq (of_res (GetAuth (jp L) message)) (\<lambda>u.
     seq (GenerateUUIDString (se_x L)) (\<lambda>uuid.
     seq get_state (\<lambda>s.
     let (ok, m) = sm_init (w_now s) (u_name u) (new_session u fd uuid) (sv_sessions s) in
     seq (modify (\<lambda>s. s\<lparr>sv_sessions := m\<rparr>)) (\<lambda>_.
     if ok \<and> ValidateToken (se_jwt L) (w_fs s) (x_conf (se_x L) ''security'' ''token_path'') (w_now s) u
     then
       seq (CreateSession (se_x L)) (\<lambda>apps.
       seq (SendMessage L fd (CreateMessage_apps (jw L) ''New Session'' apps)) (\<lambda>_.
         SendMessage L fd (session_started L uuid)))
     else
       seq (SendMessage L fd (session_rejected L)) (\<lambda>_. EndSession fd SESSION_INVALID)))))"

section \<open>Operations\<close>

definition WaitForFile :: "('db, 'h) server_env \<Rightarrow> int \<Rightarrow> ('db, 'h) server_act" where
  "WaitForFile L fd = seq (SetFilePending fd) (\<lambda>_. SendMessage L fd (CreateMessage (jw L) ''File Ready'' []))"

definition ScheduleRequest :: "('db, 'h) server_env \<Rightarrow> nat \<Rightarrow> string list \<Rightarrow> int \<Rightarrow> ('db, 'h) server_act" where
  "ScheduleRequest L n task fd = seq (GenerateUUIDString (se_x L)) (\<lambda>uuid.
     seq (SendEvent L fd ''Processing Schedule Request'' [''Schedule Task'', uuid]) (\<lambda>_.
       handle_operation (se_x L) (server_callbacks L n) ''Schedule'' task fd uuid))"

definition OperationRequest :: "('db, 'h) server_env \<Rightarrow> nat \<Rightarrow> string \<Rightarrow> int \<Rightarrow> ('db, 'h) server_act" where
  "OperationRequest L n message fd = seq (of_res (GetOperation (jp L) message)) (\<lambda>op.
     if IsStartOperation op then catch_all (InitClient L message fd) (ret ())
     else if IsStopOperation op then EndSession fd SESSION_INACTIVE
     else if IsFileUploadOperation op then WaitForFile L fd
     else catch_all (ProcessClientRequest (se_x L) (se_hooks L) (server_callbacks L n) fd message) (ret ()))"

definition SendPong :: "('db, 'h) server_env \<Rightarrow> int \<Rightarrow> ('db, 'h) server_act" where
  "SendPong L fd = catch_all
     (seq get_state (\<lambda>s. seq (change_sessions (sm_change fd (session_notify (w_now s)))) (\<lambda>_.
        SendMessage L fd ''PONG''))) (ret ())"

text \<open>The test of the token: only of a session that is there and active.\<close>

definition bad_token :: "('db, 'h) server_env \<Rightarrow> int \<Rightarrow> string \<Rightarrow> ('db, 'h) kserver \<Rightarrow> bool res" where
  "bad_token L fd message s =
     (if \<not> sm_has (sv_sessions s) fd then Inr False
      else bind (sm_at (sv_sessions s) fd) (\<lambda>k.
        if \<not> session_active (w_now s) k then Inr False
        else bind (GetToken (jp L) message) (\<lambda>token. Inr (token \<noteq> u_token (ks_user k)))))"

definition handle_text :: "('db, 'h) server_env \<Rightarrow> nat \<Rightarrow> int \<Rightarrow> string \<Rightarrow> ('db, 'h) server_act" where
  "handle_text L n fd message =
     (if message = [] then ret ()
      else if IsPing message then SendPong L fd
      else seq get_state (\<lambda>s. seq (of_res (bad_token L fd message s)) (\<lambda>bad.
        if bad then EndSession fd SESSION_INACTIVE
        else seq (of_res (IsOperation (jp L) message)) (\<lambda>op.
          if op then catch_all (OperationRequest L n message fd) (ret ())
          else seq (of_res (IsMessage (jp L) message)) (\<lambda>msg.
            if msg
            then seq (of_res (GetMessage (jp L) message)) (\<lambda>t.
                   SendEvent L fd ''Message Received'' [''Received by KServer'', ''Message'', t])
            else EndSession fd SESSION_INACTIVE)))))"

definition ProcessMessage :: "('db, 'h) server_env \<Rightarrow> nat \<Rightarrow> int \<Rightarrow> string \<Rightarrow> ('db, 'h) server_act" where
  "ProcessMessage L n fd buf = seq (of_res (DecodeMessage L buf)) (\<lambda>d. case d of
     Inl message \<Rightarrow> catch_all (handle_text L n fd message) (ret ())
   | Inr args \<Rightarrow> if args \<noteq> [] then ScheduleRequest L n args fd else ret ())"

definition ReceiveMessage :: "('db, 'h) server_env \<Rightarrow> nat \<Rightarrow> int \<Rightarrow> string \<Rightarrow> ('db, 'h) server_act" where
  "ReceiveMessage L n fd bytes =
     seq (catch_all
       (seq get_state (\<lambda>s.
          let h = (case map_of (sv_message_handlers s) fd of None \<Rightarrow> se_new_handler L True fd | Some h \<Rightarrow> h);
              (messages, h') = se_feed L h bytes
          in
            seq (modify (\<lambda>s. s\<lparr>sv_message_handlers := AList.update fd h' (sv_message_handlers s)\<rparr>)) (\<lambda>_.
              each (ProcessMessage L n fd) messages)))
       (ret ())) (\<lambda>_.
     seq get_state (\<lambda>s. if sm_has (sv_sessions s) fd then count_rx fd (length bytes) else ret ()))"

definition onMessageReceived :: "('db, 'h) server_env \<Rightarrow> nat \<Rightarrow> int \<Rightarrow> string \<Rightarrow> ('db, 'h) server_act" where
  "onMessageReceived L n fd bytes =
     (if bytes = [] then ret ()
      else catch_all
        (seq get_state (\<lambda>s. if sv_file_pending s then ReceiveFileData L fd bytes else ReceiveMessage L n fd bytes))
        (modify (\<lambda>s. s\<lparr>sv_errors := sv_errors s + 1\<rparr>)))"

section \<open>The main thread\<close>

text \<open>
  One turn of \<open>run\<close>: what was read from the control socket, \<open>None\<close> if nothing was; whether the loop
  goes on, and whether the IPC manager is told to connect anew.
\<close>

definition run_turn :: "int option \<Rightarrow> (('db, 'h) kserver, bool \<times> bool) act" where
  "run_turn control =
     (if control = Some 0 then ret (False, False)
      else seq GetRequest (\<lambda>r. ret (True, r = RECONNECT_IPC)))"

section \<open>Properties\<close>

lemma snd_catch_ret: "snd (catch_all m (ret ()) s) = snd (m s)"
  by (auto simp: catch_all_def handle_def split: prod.splits sum.splits)

text \<open>
  C14: where the maps of the sessions fit each other, a message of an active session that is not empty and no ping,
  and in which a token can be read that is not the one the session was opened with, ends the session and
  shuts its descriptor, which is served no more; the file the server waits for from it is waited for no more, and nothing else
  changes: the operation of the message is not carried out.
\<close>

theorem wrong_token_ends_session:
  assumes "sm_linked (sv_sessions s)" and "sm_sessions (sv_sessions s) = pre @ (name, nd, k) # post"
    and "session_active (w_now s) k" and "GetToken (jp L) message = Inr token" and "token \<noteq> u_token (ks_user k)"
    and "message \<noteq> []" and "\<not> IsPing message"
  shows "handle_text L n (ks_fd k) message s = (Inr (), shut_fd (ks_fd k) (not_awaited (ks_fd k) (s\<lparr>sv_sessions := (sv_sessions s)
    \<lparr>sm_sessions := pre @ (name, nd, k\<lparr>ks_status := SESSION_INACTIVE\<rparr>) # post\<rparr>\<rparr>)))"
proof -
  have here: "(name, nd, k) \<in> set (sm_sessions (sv_sessions s))" using assms(2) by simp
  have "sm_at (sv_sessions s) (ks_fd k) = Inr k" "sm_has (sv_sessions s) (ks_fd k)"
    using linked_session_ptr [OF assms(1) here] deref_linked [OF assms(1) here] by (simp_all add: sm_at_def sm_has_def)
  then have "bad_token L (ks_fd k) message s = Inr True"
    using assms(3-5) by (simp add: bad_token_def)
  then show ?thesis
    using assms(6,7) EndSession_split [OF assms(1,2), of SESSION_INACTIVE] by (simp add: handle_text_def)
qed

text \<open>The sample's library reads a text as a document with the members below.\<close>

definition reading_env :: "(string \<times> string) list \<Rightarrow> (string list, unit) server_env" where
  "reading_env kvs = sample_env\<lparr>se_x := log_libs\<lparr>x_jparse := (\<lambda>_. Some (JObject (map (\<lambda>(k, v). (k, JString v)) kvs)))\<rparr>\<rparr>"

lemma reading_env_sel [simp]:
  "jp (reading_env kvs) = (\<lambda>_. Some (JObject (map (\<lambda>(k, v). (k, JString v)) kvs)))"
  "se_x (reading_env kvs) = log_libs\<lparr>x_jparse := (\<lambda>_. Some (JObject (map (\<lambda>(k, v). (k, JString v)) kvs)))\<rparr>"
  "se_jwt (reading_env kvs) = se_jwt sample_env" "se_text_packets (reading_env kvs) = (\<lambda>t. ([t], length t))"
  "se_hooks (reading_env kvs) = idle_hooks idle_kproto"
  by (simp_all add: reading_env_def sample_env_def)

lemma one_session_sessions:
  "sm_sessions one_session = [] @ (''ann'', 0, session_notify 100 (sample_login ''ann'' 7)) # []"
  by (simp add: one_session_def sm_init_def empty_sessions_def)

lemma sample_login_sel [simp]:
  "ks_fd (session_notify now (sample_login name fd)) = fd" "u_token (ks_user (session_notify now (sample_login name fd))) = ''t''"
  "u_name (ks_user (session_notify now (sample_login name fd))) = name" "ks_fd (sample_login name fd) = fd"
  "session_active 110 (session_notify 100 (sample_login name fd))"
  by (simp_all add: session_sample_simps)

theorem wrong_token_ends_session_witness:
  "sv_shut (snd (handle_text (reading_env [(''token'', ''other'')]) 0 7 ''x'' (server_with one_session))) = [7]"
proof -
  have "GetToken (jp (reading_env [(''token'', ''other'')])) ''x'' = Inr ''other''"
    by (simp add: GetToken_def text_member_def)
  from wrong_token_ends_session [OF server_with_linked [OF one_session_run] _ _ this, of "[]" "''ann''" 0
      "session_notify 100 (sample_login ''ann'' 7)" "[]" 0]
  show ?thesis by (simp add: one_session_sessions IsPing_def)
qed

text \<open>
  What comes from a descriptor that has no session is not asked for a token: a request goes to
  the controller as it is, and only that a failure is caught differs from the controller's answer.
\<close>

theorem no_session_no_token:
  assumes "\<not> sm_has (sv_sessions s) fd" and "message \<noteq> []" and "\<not> IsPing message"
    and "IsOperation (jp L) message = Inr True" and "GetOperation (jp L) message = Inr op"
    and "op \<notin> {''start'', ''stop'', ''FileUpload''}"
  shows "snd (handle_text L n fd message s) =
    snd (ProcessClientRequest (se_x L) (se_hooks L) (server_callbacks L n) fd message s)"
proof -
  have "handle_text L n fd message s = catch_all (OperationRequest L n message fd) (ret ()) s"
    using assms by (simp add: handle_text_def bad_token_def)
  moreover have "OperationRequest L n message fd s =
      catch_all (ProcessClientRequest (se_x L) (se_hooks L) (server_callbacks L n) fd message) (ret ()) s"
    using assms by (simp add: OperationRequest_def IsStartOperation_def IsStopOperation_def IsFileUploadOperation_def)
  ultimately show ?thesis by (simp add: snd_catch_ret)
qed

theorem no_session_no_token_witness:
  "snd (handle_text (reading_env [(''type'', ''operation''), (''command'', ''go'')]) 0 8 ''x'' (server_with one_session)) =
   snd (ProcessClientRequest (se_x (reading_env [(''type'', ''operation''), (''command'', ''go'')])) (idle_hooks idle_kproto)
     (server_callbacks (reading_env [(''type'', ''operation''), (''command'', ''go'')]) 0) 8 ''x'' (server_with one_session))"
proof -
  let ?L = "reading_env [(''type'', ''operation''), (''command'', ''go'')]"
  have "GetOperation (jp ?L) ''x'' = Inr ''go''" "IsOperation (jp ?L) ''x'' = Inr True"
    by (simp_all add: GetOperation_def IsOperation_def text_member_def)
  moreover have "\<not> sm_has one_session 8" by (simp add: session_sample_simps)
  ultimately show ?thesis
    using no_session_no_token [of "server_with one_session" 8 "''x''" ?L "''go''" 0] by (simp add: IsPing_def)
qed

lemma sm_init_refused:
  assumes "map_of (sm_sessions m) name = Some (n, k)" and "logged_in now m (ks_user again)"
  shows "sm_init now name again m = (False, m\<lparr>sm_sessions := AList.delete name (sm_sessions m)\<rparr>)"
  using assms by (simp add: sm_init_def)

lemma fitting_login:
  assumes "sm_linked m" and "login_fits now name k m"
  obtains m' n where "sm_init now name k m = (True, m')" and "sm_linked m'"
    and "(name, n, session_notify now k) \<in> set (sm_sessions m')"
proof -
  obtain ok m' where i: "sm_init now name k m = (ok, m')" by force
  have ok: "ok" using i assms(2) by (auto simp: login_fits_def sm_init_def split: option.splits prod.splits)
  have "map_of (sm_sessions m') name \<noteq> None \<and> snd (the (map_of (sm_sessions m') name)) = session_notify now k"
    using i assms(2) by (auto simp: login_fits_def sm_init_def update_conv' map_add_def split: option.splits prod.splits)
  then obtain n where "map_of (sm_sessions m') name = Some (n, session_notify now k)" by auto
  from map_of_SomeD [OF this] show ?thesis
    using that [of m' n] i ok login_linked [OF assms] by simp
qed

text \<open>
  C32: where the maps of the sessions fit each other, a login that can be read and fits them, that is of a user
  without a session on a descriptor without one, or of a user who has a session on the same descriptor and is not logged in,
  and whose token is not valid, is told so and shut. Its session has been made before the token
  was looked at; it stays in the map, with the status of an invalid one, so it is not active.
\<close>

theorem invalid_login_is_rejected:
  assumes "sm_linked (sv_sessions s)" and "GetAuth (jp L) message = Inr u"
    and "login_fits (w_now s) (u_name u) (new_session u fd (x_uuid (se_x L) (w_uuids s))) (sv_sessions s)"
    and "\<not> ValidateToken (se_jwt L) (w_fs s) (x_conf (se_x L) ''security'' ''token_path'') (w_now s) u"
    and "se_text_packets L (session_rejected L) = (ps, n)"
  shows "\<exists>s' k. InitClient L message fd s = (Inr (), s') \<and> sm_at (sv_sessions s') fd = Inr k \<and>
    ks_user k = u \<and> ks_status k = SESSION_INVALID \<and> \<not> session_active (w_now s') k \<and>
    sv_sent s' = sv_sent s @ map (Pair fd) ps \<and> sv_shut s' = sv_shut s @ [fd]"
proof -
  let ?k = "session_notify (w_now s) (new_session u fd (x_uuid (se_x L) (w_uuids s)))"
  let ?k1 = "?k\<lparr>ks_tx := ks_tx ?k + of_nat n\<rparr>"
  obtain m nd where init: "sm_init (w_now s) (u_name u) (new_session u fd (x_uuid (se_x L) (w_uuids s))) (sv_sessions s) = (True, m)"
    and lk: "sm_linked m" and here: "(u_name u, nd, ?k) \<in> set (sm_sessions m)"
    using fitting_login [OF assms(1,3)] .
  obtain pre post where m: "sm_sessions m = pre @ (u_name u, nd, ?k) # post" using split_list [OF here] by blast
  have fd: "ks_fd ?k = fd" by (simp add: session_notify_def new_session_def)
  let ?s = "s\<lparr>w_uuids := Suc (w_uuids s), sv_sessions := m\<rparr>"
  let ?m1 = "m\<lparr>sm_sessions := pre @ (u_name u, nd, ?k1) # post\<rparr>"
  let ?s1 = "?s\<lparr>sv_sent := sv_sent s @ map (Pair fd) ps, sv_sessions := ?m1\<rparr>"
  have sent: "SendMessage L fd (session_rejected L) ?s = (Inr (), ?s1)"
    using SendMessage_split [of ?s pre "u_name u" nd ?k post L "session_rejected L" ps n] lk m fd assms(5) by simp
  have lk1: "sm_linked ?m1"
    using change_node_linked [OF lk, of "\<lambda>k. k\<lparr>ks_tx := ks_tx k + of_nat n\<rparr>" nd] change_node_split [OF lk m] by simp
  let ?m2 = "?m1\<lparr>sm_sessions := pre @ (u_name u, nd, ?k1\<lparr>ks_status := SESSION_INVALID\<rparr>) # post\<rparr>"
  have ended: "EndSession fd SESSION_INVALID ?s1 =
      (Inr (), shut_fd fd (not_awaited fd (?s1\<lparr>sv_sessions := ?m2\<rparr>)))"
    using EndSession_split [of ?s1 pre "u_name u" nd ?k1 post SESSION_INVALID] lk1 fd by simp
  have lk2: "sm_linked ?m2"
    using change_node_linked [OF lk1, of "\<lambda>k. k\<lparr>ks_status := SESSION_INVALID\<rparr>" nd]
      change_node_split [OF lk1, of pre "u_name u" nd ?k1 post "\<lambda>k. k\<lparr>ks_status := SESSION_INVALID\<rparr>"] by simp
  have in2: "(u_name u, nd, ?k1\<lparr>ks_status := SESSION_INVALID\<rparr>) \<in> set (sm_sessions ?m2)" by simp
  have "sm_at ?m2 fd = Inr (?k1\<lparr>ks_status := SESSION_INVALID\<rparr>)"
    using linked_session_ptr [OF lk2 in2] deref_linked [OF lk2 in2] fd by (simp add: sm_at_def)
  moreover have "InitClient L message fd s =
      (Inr (), shut_fd fd (not_awaited fd (?s1\<lparr>sv_sessions := ?m2\<rparr>)))"
    using assms(2,4) init sent ended by (simp add: InitClient_def GenerateUUIDString_def)
  ultimately show ?thesis
    by (simp add: session_active_def SESSION_ACTIVE_def SESSION_INVALID_def session_notify_def new_session_def)
qed

theorem invalid_login_is_rejected_witness:
  "\<exists>s'. InitClient (reading_env [(''user'', ''bob''), (''token'', ''t'')]) ''x'' 8 (server_with one_session) = (Inr (), s') \<and>
     sv_shut s' = [8]"
proof -
  let ?L = "reading_env [(''user'', ''bob''), (''token'', ''t'')]"
  have "GetAuth (jp ?L) ''x'' = Inr \<lparr>u_name = ''bob'', u_token = ''t''\<rparr>"
    by (simp add: GetAuth_def text_member_def)
  moreover have "login_fits 110 ''bob'' (new_session u 8 i) one_session" for u i
    by (simp add: session_sample_simps)
  moreover have "se_jwt ?L = (\<lambda>_. None)" by (simp add: sample_env_def)
  ultimately show ?thesis
    using invalid_login_is_rejected [OF server_with_linked [OF one_session_run], of ?L "''x''" "\<lparr>u_name = ''bob'', u_token = ''t''\<rparr>" 8]
    by (auto simp: ValidateToken_def)
qed

text \<open>
  A user with an active session who logs in from a new connection loses the session that was
  there; the refusal is sent, and counting its bytes throws because the new connection has no session,
  so this connection is not shut.
\<close>

theorem second_login_keeps_connection:
  assumes "GetAuth (jp L) message = Inr u" and "map_of (sm_sessions (sv_sessions s)) (u_name u) = Some (nd, k)"
    and "logged_in (w_now s) (sv_sessions s) u" and "\<not> sm_has (sv_sessions s) fd"
    and "se_text_packets L (session_rejected L) = (ps, n)"
  shows "InitClient L message fd s = (Inl (RuntimeError ''SessionMap::at()''),
    s\<lparr>w_uuids := Suc (w_uuids s), sv_sessions := (sv_sessions s)\<lparr>sm_sessions := AList.delete (u_name u) (sm_sessions (sv_sessions s))\<rparr>,
      sv_sent := sv_sent s @ map (Pair fd) ps\<rparr>)"
proof -
  let ?k = "new_session u fd (x_uuid (se_x L) (w_uuids s))"
  let ?m = "(sv_sessions s)\<lparr>sm_sessions := AList.delete (u_name u) (sm_sessions (sv_sessions s))\<rparr>"
  have "logged_in (w_now s) (sv_sessions s) (ks_user ?k)" using assms(3) by (simp add: new_session_def)
  then have init: "sm_init (w_now s) (u_name u) ?k (sv_sessions s) = (False, ?m)"
    by (rule sm_init_refused [OF assms(2)])
  have "\<not> sm_has ?m fd" using assms(4) by (simp add: sm_has_def)
  then show ?thesis
    using SendMessage_no_session [of "s\<lparr>w_uuids := Suc (w_uuids s), sv_sessions := ?m\<rparr>" fd L "session_rejected L" ps n] init assms(1,5)
    by (simp add: InitClient_def GenerateUUIDString_def)
qed

theorem second_login_keeps_connection_witness:
  "\<exists>s'. InitClient (reading_env [(''user'', ''ann''), (''token'', ''t'')]) ''x'' 8 (server_with one_session) =
     (Inl (RuntimeError ''SessionMap::at()''), s') \<and> sv_shut s' = [] \<and> sm_sessions (sv_sessions s') = []"
proof -
  let ?L = "reading_env [(''user'', ''ann''), (''token'', ''t'')]"
  let ?u = "\<lparr>u_name = ''ann'', u_token = ''t''\<rparr>"
  have "GetAuth (jp ?L) ''x'' = Inr ?u" by (simp add: GetAuth_def text_member_def)
  moreover have "logged_in 110 one_session ?u" "\<not> sm_has one_session 8"
    by (simp_all add: session_sample_simps)
  ultimately show ?thesis
    using second_login_keeps_connection [of ?L "''x''" ?u "server_with one_session" 0 "session_notify 100 (sample_login ''ann'' 7)" 8]
    by (simp add: one_session_sessions)
qed

section \<open>A task with files\<close>

lemma entries_fewer: "length es \<le> length (concat (map entry_text es))"
proof (induction es)
  case (Cons e es)
  obtain ts name ty where "e = (ts, name, ty)" by (cases e) auto
  then show ?case using Cons by (simp add: entry_text_def)
qed simp

lemma generic_prepareTask_files:
  assumes "CreateTaskDirectory fs uuid = (True, fs1)"
    and "argv = [m, concat (map entry_text es), datetime, description, video, header, user, recurring, notify, runtime]"
    and "stoi m = Inr msk" and "stoi recurring = Inr r"
    and "es \<noteq> []" and "\<forall>e \<in> set es. entry_ok e" and "length (concat (map entry_text es)) < 256"
  shows "\<exists>t fs'. generic_prepareTask fs argv uuid (Some empty_task) = Inr (t, Some t, fs') \<and>
    tk_files t = map (\<lambda>e. (fs_exe fs1 @ ''/data/'' @ uuid @ ''/'' @ fst (entry_info e), snd (entry_info e))) es"
proof -
  let ?files = "map (\<lambda>e. (fs_exe fs1 @ ''/data/'' @ uuid @ ''/'' @ fst (entry_info e), snd (entry_info e))) es"
  let ?env = "generic_env header description user runtime True (video = ''1'')"
  have "length es < 256" using entries_fewer [of es] assms(7) by simp
  then have "bind (parseFileInfo (concat (map entry_text es))) (prefix_files fs1 uuid) = Inr ?files"
    using parseFileInfo_entries [OF assms(5-7)] by (simp add: prefix_files_def)
  moreover have "concat (map entry_text es) \<noteq> []" using entries_fewer [of es] assms(5)
    by (metis le_zero_eq length_0_conv)
  moreover obtain name fs2 where "SaveEnvFile fs1 ?env uuid = (name, fs2)" by force
  ultimately show ?thesis
    unfolding generic_prepareTask_def assms(1,2) by (simp add: vec_at_def assms(3,4) Let_def del: map_map)
qed

text \<open>
  C34: a task with two files or more is never scheduled once its first file has been received: the
  event of the first file lacks the mark of the last one, which its handler asks for, so after that
  file is written the exception ends the operation, and no statement is sent for the task.
\<close>

theorem two_files_are_never_scheduled:
  assumes "GetAppInfo (se_x L) msk [] s = (Inr app, s1)" and "app_is_valid app" and "app_name app \<noteq> ''Instagram''"
    and "argv = [m, concat (map entry_text (e # e' # es)), datetime, description, video, header, user, recurring, notify, runtime]"
    and "stoi m = Inr msk" and "stoi recurring = Inr r"
    and "\<forall>e \<in> set (e # e' # es). entry_ok e" and "length (concat (map entry_text (e # e' # es))) < 256"
    and "fst (CreateTaskDirectory (w_fs s1) uuid)" and "FindReceived fd (fst e) s1 = Some f"
    and "s' = snd (handle_operation (se_x L) (server_callbacks L n) ''Schedule'' argv fd uuid s)"
  shows "fst (handle_operation (se_x L) (server_callbacks L n) ''Schedule'' argv fd uuid s) = Inl OutOfRange \<and>
    w_db s' = w_db s1 \<and> sv_sent s' = sv_sent s1 \<and> sv_received s' = remove1 f (sv_received s1)"
proof -
  obtain fs1 where fs1: "CreateTaskDirectory (w_fs s1) uuid = (True, fs1)" using assms(9) by (metis prod.collapse)
  obtain t fs' where t: "generic_prepareTask (w_fs s1) argv uuid (Some empty_task) = Inr (t, Some t, fs')"
    and files: "tk_files t = map (\<lambda>e. (fs_exe fs1 @ ''/data/'' @ uuid @ ''/'' @ fst (entry_info e), snd (entry_info e))) (e # e' # es)"
    using generic_prepareTask_files [OF fs1 assms(4-6) _ assms(7,8)] by blast
  have time: "snd (entry_info e) = fst e" by (cases e) (simp add: entry_info_def)
  let ?s2 = "s1\<lparr>w_fs := fs'\<rparr>"
  let ?name = "fs_exe fs1 @ ''/data/'' @ uuid @ ''/'' @ fst (entry_info e)"
  let ?s3 = "?s2\<lparr>w_fs := SaveFile_bytes fs' (rf_bytes f) ?name, sv_received := remove1 f (sv_received s1)\<rparr>"
  have "FindReceived fd (fst e) ?s2 = Some f" "FindReceived fd (fst e) (s1\<lparr>w_fs := v\<rparr>) = Some f" for v
    using assms(10) by (simp_all add: FindReceived_def)
  then have "evt L fd SYS_FILE_UPDATE [?name, fst e, uuid] ?s2 = (Inl OutOfRange, ?s3)"
    by (simp add: evt_numbers on_file_update_def arg_at_def put_fs_def EraseReceived_def)
  then have "file_events (server_callbacks L n) fd uuid t ?s2 = (Inl OutOfRange, ?s3)"
    unfolding file_events_def files by (simp add: server_callbacks_def time)
  moreover have "vec_at argv 0 = Inr m" "argv \<noteq> []" by (simp_all add: assms(4))
  ultimately have "handle_operation (se_x L) (server_callbacks L n) ''Schedule'' argv fd uuid s = (Inl OutOfRange, ?s3)"
    using assms(1-3,5) t by (simp add: handle_operation_def get_fs_def put_fs_def Let_def)
  then show ?thesis using assms(11) by simp
qed

definition app_env :: "(string list, unit) server_env" where
  "app_env = sample_env\<lparr>se_x := log_libs\<lparr>x_exec :=
     (\<lambda>q db. (Inr [[Some ''7'', Some ''/bin/app'', Some [], Some ''post'', Some ''t'', Some ''16'']], db @ [q]))\<rparr>\<rparr>"

theorem two_files_are_never_scheduled_witness:
  "\<exists>e. fst (handle_operation (se_x app_env) (server_callbacks app_env 0) ''Schedule''
     [''16'', concat (map entry_text [(''1580057341'', ''cat.jpg'', ''image''), (''1580057342'', ''b.mp4'', ''video'')]),
      ''1600000000'', ''d'', ''0'', ''h'', ''bob'', ''0'', ''0'', []] 7 ''u1''
     (server_with one_session\<lparr>sv_received := [\<lparr>rf_timestamp = 1580057341, rf_fd = 7, rf_bytes = ''x''\<rparr>]\<rparr>)) = Inl e"
proof -
  let ?s = "server_with one_session\<lparr>sv_received := [\<lparr>rf_timestamp = 1580057341, rf_fd = 7, rf_bytes = ''x''\<rparr>]\<rparr>"
  let ?app = "\<lparr>app_id = ''7'', app_name = ''post'', app_path = ''/bin/app'', app_data = [], app_mask = ''16'', app_is_kiq = True\<rparr>"
  have n16: "int_to_string 16 = ''16''" by code_simp
  have flt: "QueryFilter_Add [] [''mask'', ''16''] = Inr [(''mask'', ''16'')]" by code_simp
  have "fst (GetAppInfo (se_x app_env) 16 [] ?s) = Inr ?app"
    by (simp add: GetAppInfo_def kdb_select_def kdb_try_def handle_def query_rows_def seq_def pq_exec_def
        app_env_def log_libs_def row_map_def cell_def c_str_def n16 flt)
  moreover obtain db where "snd (GetAppInfo (se_x app_env) 16 [] ?s) = ?s\<lparr>w_db := db\<rparr>"
    using keeps_GetAppInfo [of "se_x app_env" 16 "[]"] unfolding keeps_def only_db_def by blast
  ultimately have app: "GetAppInfo (se_x app_env) 16 [] ?s = (Inr ?app, ?s\<lparr>w_db := db\<rparr>)"
    by (simp add: prod_eq_iff)
  have dir: "CreateTaskDirectory sample_fs ''u1'' = (True, sample_fs\<lparr>fs_dirs := (fs_cwd sample_fs @ ''/data/'' @ ''u1'') # fs_dirs sample_fs\<rparr>)"
    by (rule CreateTaskDirectory_fresh) (simp_all add: task_fs_def fresh_uuid_def sample_fs_def)
  have stoi: "stoi ''16'' = Inr 16" "stoi ''0'' = Inr 0" by code_simp+
  have time: "int_to_string 1580057341 = ''1580057341''"
    by (simp add: int_to_string_def nat_digits.simps digit_char_def char_of_def bit_Suc_0_iff)
  have ok: "\<forall>e \<in> set [(''1580057341'', ''cat.jpg'', ''image''), (''1580057342'', ''b.mp4'', ''video'')]. entry_ok e"
    "length (concat (map entry_text [(''1580057341'', ''cat.jpg'', ''image''), (''1580057342'', ''b.mp4'', ''video'')])) < 256"
    by (simp_all add: entry_ok_def entry_text_def)
  have made: "fst (CreateTaskDirectory (w_fs (?s\<lparr>w_db := db\<rparr>)) ''u1'')" using dir by simp
  have found: "FindReceived 7 (fst (''1580057341'', ''cat.jpg'', ''image'')) (?s\<lparr>w_db := db\<rparr>) =
      Some \<lparr>rf_timestamp = 1580057341, rf_fd = 7, rf_bytes = ''x''\<rparr>"
    by (simp add: FindReceived_def time)
  have valid: "app_is_valid ?app" "app_name ?app \<noteq> ''Instagram''" by (simp_all add: app_is_valid_def)
  show ?thesis
    by (rule exI, rule conjunct1, rule two_files_are_never_scheduled [OF app valid refl stoi ok made found refl])
qed

section \<open>An awaited file\<close>

text \<open>What may change when the bytes of a file come in from another client than the one awaited.\<close>

definition only_received :: "('db, 'h) kserver \<Rightarrow> ('db, 'h) kserver \<Rightarrow> bool" where
  "only_received s s' \<longleftrightarrow> (\<exists>hs m e. s' = s\<lparr>sv_file_handlers := hs, sv_sessions := m, sv_errors := e\<rparr>)"

lemma only_received_order [simp]: "reflp only_received" "transp only_received"
proof -
  show "reflp (only_received :: ('db, 'h) kserver \<Rightarrow> _)"
  proof (rule reflpI)
    fix s :: "('db, 'h) kserver"
    have "s = s\<lparr>sv_file_handlers := sv_file_handlers s, sv_sessions := sv_sessions s, sv_errors := sv_errors s\<rparr>" by simp
    then show "only_received s s" unfolding only_received_def by blast
  qed
  show "transp (only_received :: ('db, 'h) kserver \<Rightarrow> _)"
    by (rule transpI) (force simp: only_received_def)
qed

lemma change_sessions_received: "only_received s (snd (change_sessions f s))"
proof (cases "f (sv_sessions s)")
  case Inl
  then show ?thesis using reflpD [OF only_received_order(1)] by simp
next
  case (Inr m)
  then have "snd (change_sessions f s) = s\<lparr>sv_file_handlers := sv_file_handlers s, sv_sessions := m, sv_errors := sv_errors s\<rparr>"
    by simp
  then show ?thesis unfolding only_received_def by blast
qed

lemma each_not_awaited: "sv_file_pending_fd s \<noteq> fd \<Longrightarrow> each (OnFileHandled L fd) files s = (Inr (), s)"
  by (induction files) (simp_all add: OnFileHandled_def)

text \<open>
  While the server waits for a file of one client, what any other client sends is taken for
  bytes of a file and lost: it is fed to that client's own file handler, it may be counted, and
  nothing else of the state changes; no message is handled, nothing is sent, no file is kept, and the
  server goes on waiting.
\<close>

theorem awaited_file_takes_messages:
  assumes "sv_file_pending s" and "sv_file_pending_fd s \<noteq> fd"
  shows "\<exists>hs m e. snd (onMessageReceived L n fd bytes s) = s\<lparr>sv_file_handlers := hs, sv_sessions := m, sv_errors := e\<rparr>"
proof -
  obtain files h' where feed: "se_feed L (case map_of (sv_file_handlers s) fd of None \<Rightarrow> se_new_handler L False fd | Some h \<Rightarrow> h) bytes
      = (files, h')" by force
  let ?s1 = "s\<lparr>sv_file_handlers := AList.update fd h' (sv_file_handlers s)\<rparr>"
  have "ReceiveFileData L fd bytes s = count_rx fd (length bytes) ?s1"
    using assms(2) feed each_not_awaited [of ?s1 fd L files] by (simp add: ReceiveFileData_def)
  moreover have "only_received s ?s1"
    unfolding only_received_def by (rule exI, rule exI [of _ "sv_sessions s"], rule exI [of _ "sv_errors s"]) simp
  moreover have "only_received ?s1 (snd (count_rx fd (length bytes) ?s1))"
    unfolding count_rx_def by (rule change_sessions_received)
  ultimately have data: "only_received s (snd (ReceiveFileData L fd bytes s))"
    using transpD [OF only_received_order(2)] by metis
  let ?go = "seq get_state (\<lambda>s. if sv_file_pending s then ReceiveFileData L fd bytes else ReceiveMessage L n fd bytes)"
  have go: "?go s = ReceiveFileData L fd bytes s" using assms(1) by simp
  have err: "only_received s' (s'\<lparr>sv_errors := sv_errors s' + 1\<rparr>)" for s' :: "('a, 'b) kserver"
    unfolding only_received_def by (rule exI [of _ "sv_file_handlers s'"], rule exI [of _ "sv_sessions s'"], rule exI) simp
  have "only_received s (snd (onMessageReceived L n fd bytes s))"
  proof (cases "bytes = []")
    case True
    then show ?thesis using reflpD [OF only_received_order(1)] by (simp add: onMessageReceived_def)
  next
    case False
    obtain r s' where run: "ReceiveFileData L fd bytes s = (r, s')" by force
    then have "only_received s s'" using data by simp
    moreover have "only_received s' (snd (onMessageReceived L n fd bytes s))"
      using False go run err [of s'] reflpD [OF only_received_order(1), of s']
      by (cases r) (simp_all add: onMessageReceived_def catch_all_def handle_def)
    ultimately show ?thesis by (rule transpD [OF only_received_order(2)])
  qed
  then show ?thesis unfolding only_received_def .
qed

theorem awaited_file_takes_messages_witness:
  "sv_sent (snd (onMessageReceived sample_env 0 7 ''x'' (server_with one_session\<lparr>sv_file_pending := True, sv_file_pending_fd := 9\<rparr>))) = []"
  using awaited_file_takes_messages [of "server_with one_session\<lparr>sv_file_pending := True, sv_file_pending_fd := 9\<rparr>" 7 sample_env 0 "''x''"]
  by auto

section \<open>Framed texts\<close>

text \<open>The size of a text in four bytes, the kind, the text.\<close>

definition frame :: "char \<Rightarrow> string \<Rightarrow> string" where
  "frame kind text = map (\<lambda>i. char_of (length text div 256 ^ i)) [3, 2, 1, 0] @ kind # text"

lemma byte_val_char_of: "byte_val (char_of (n :: nat)) = int (n mod 256)"
  by (simp add: byte_val_def)

lemma bytes_sum:
  "c * 256 + r2 = b \<Longrightarrow> b * 256 + r1 = a \<Longrightarrow> a * 256 + r0 = n \<Longrightarrow> c * 2 ^ 24 + r2 * 2 ^ 16 + r1 * 2 ^ 8 + r0 = (n :: nat)"
  by simp

lemma nat_bytes:
  assumes "(n :: nat) < 2 ^ 32"
  shows "(n div 256 ^ 3 mod 256) * 2 ^ 24 + (n div 256 ^ 2 mod 256) * 2 ^ 16 + (n div 256 mod 256) * 2 ^ 8 + n mod 256 = n"
proof -
  have "n div 256 ^ 3 mod 256 = n div 256 div 256 div 256" "n div 256 ^ 2 = n div 256 div 256"
    using assms by (simp_all add: div_mult2_eq [symmetric])
  then show ?thesis
    using bytes_sum [OF div_mult_mod_eq [of "n div 256 div 256" 256] div_mult_mod_eq [of "n div 256" 256] div_mult_mod_eq [of n 256]]
    by (simp only:)
qed

lemma sint_small: "k < 2 ^ 31 \<Longrightarrow> sint (word_of_nat k :: 32 word) = int k"
proof -
  assume "k < 2 ^ 31"
  then have "sint (word_of_int (int k) :: 32 word) = int k"
    unfolding sint_sbintrunc' by (simp add: signed_take_bit_int_eq_self)
  then show ?thesis by simp
qed

lemma frame_size:
  assumes "length text < 2 ^ 31"
  shows "message_size (frame kind text @ rest) = int (length text)"
proof -
  have "length text < 2 ^ 32" using assms by simp
  from arg_cong [OF nat_bytes [OF this], of int] show ?thesis
    using assms by (simp add: message_size_def frame_def byte_val_char_of sint_small)
qed

lemma message_size_take: "4 \<le> m \<Longrightarrow> message_size (take m buf) = message_size buf"
  by (simp add: message_size_def)

text \<open>
  Of a framed text, whatever follows it in the buffer, \<open>DecodeMessage\<close> reads exactly the text and
  gives it to the reader of its kind; of a buffer that ends before the text does, it reads past the
  end, as the size it was sent is not compared with what is there.
\<close>

theorem framed_text_is_decoded:
  assumes "length text < 2 ^ 31" and "kind \<in> {CHR 0xFF, CHR 0xFE, CHR 0xFC}" and "se_verify L text" and "m < length text"
  shows "DecodeMessage L (frame kind text @ rest) =
      (if kind = CHR 0xFE then Inr (Inl (se_fb_text L text))
       else Inr (Inr (if kind = CHR 0xFF then se_fb_ig L text else se_fb_generic L text))) \<and>
    DecodeMessage L (take (5 + m) (frame kind text @ rest)) = Inl Undefined"
proof -
  let ?buf = "frame kind text @ rest"
  have kind: "vec_nth ?buf 4 = Inr kind" "vec_nth (take (5 + m) ?buf) 4 = Inr kind"
    by (simp_all add: frame_def nth_append)
  have size: "message_size ?buf = int (length text)" by (rule frame_size [OF assms(1)])
  moreover have "message_size (take (5 + m) ?buf) = message_size ?buf" by (rule message_size_take) simp
  moreover have "take (length text) (drop 5 ?buf) = text" "length ?buf = 5 + length text + length rest"
    by (simp_all add: frame_def)
  ultimately show ?thesis
    using assms(2-4) kind by (auto simp: DecodeMessage_def Let_def simp del: take_append)
qed

theorem framed_text_is_decoded_witness:
  "DecodeMessage sample_env (frame (CHR 0xFE) ''hello'' @ ''more'') = Inr (Inl ''hello'') \<and>
   DecodeMessage sample_env (take (5 + 2) (frame (CHR 0xFE) ''hello'' @ ''more'')) = Inl Undefined"
  using framed_text_is_decoded [of "''hello''" "CHR 0xFE" sample_env 2 "''more''"] by (simp add: sample_env_def)

section \<open>A request for the status\<close>

text \<open>
  A client's request for the status is answered, under any state, with the event of a new post:
  its text is the report, and no event of a status is ever sent.
\<close>

theorem status_comes_as_post:
  "client_request x h (server_callbacks L n) fd args KIQ_STATUS s =
     SendEvent L fd ''Platform post created'' [Controller_Status (server_callbacks L n) (platform_status s) s] s"
  by (simp add: client_request_def server_callbacks_def evt_numbers on_platform_created_def)

end
