(* ===== verification/IpcManager.thy ===== *)
theory IpcManager
  imports Server
begin

text \<open>
  What comes from other processes: the dispatch of \<open>system/process/ipc/manager.hpp\<close>, the callback
  of the daemon in \<open>add_observer\<close> of \<open>manager.cpp\<close>, the handler of a peer (\<open>client.cpp\<close>), the thread that
  receives (\<open>worker.cpp\<close>), and the turn of the main thread with the manager's \<open>run\<close>.

  A message is taken from the frames of one read of the socket; the classes that make it of them are in
  the submodule kproto. What a thread reads is its list of inputs.

  Shown: a received post loses its time and command, and its arguments are taken for its method;
  information on a platform is passed on to the peer that stands for it; a scheduled message waits
  with its own fields; the hundred and first timeout makes the main thread connect anew, and no message
  is lost by it; a message of a type the table does not have ends the thread that receives.
\<close>

section \<open>Payloads\<close>

fun received_payload :: "ipc_env \<Rightarrow> kproto \<Rightarrow> ipc_msg \<Rightarrow> string list res" where
  "received_payload E kp (Platform_Message platform i user content urls repost cmd args time) =
     Inr [platform, i, user, [], content, urls, bool_to_string repost, args]"
| "received_payload E kp (Platform_Request platform i user content args) = Inr [platform, i, user, content, args]"
| "received_payload E kp (Platform_Info platform info type i) =
     bind (map_at (kp_names kp) (it_info (ie_types E))) (\<lambda>name. Inr [name, platform, i, type, info])"
| "received_payload E kp (Platform_Error name i user error) = Inr [name, i, user, error, []]"
| "received_payload E kp (Kiq_Message payload platform) =
     Inr [payload, case platform of None \<Rightarrow> ie_kiq_platform E | Some p \<Rightarrow> p]"
| "received_payload E kp _ = Inr []"

section \<open>Dispatch\<close>

definition raise_event :: "('db, 'h) server_env \<Rightarrow> int \<Rightarrow> ipc_msg \<Rightarrow> ('db, 'h) server_act" where
  "raise_event L event m =
     seq (of_res (received_payload (se_ipc L) (hk_kproto (se_hooks L)) m)) (\<lambda>payload. evt L ALL_CLIENTS event payload)"

definition ipc_table :: "('db, 'h) server_env \<Rightarrow> (int \<times> (ipc_msg \<Rightarrow> ('db, 'h) server_act)) list" where
  "ipc_table L = (let T = ie_types (se_ipc L) in
     [(it_platform T, raise_event L SYS_PLATFORM_NEW_POST),
      (it_request T, raise_event L SYS_PLATFORM_REQUEST),
      (it_info T, raise_event L SYS_PLATFORM_INFO),
      (it_error T, raise_event L EV_PLATFORM_ERROR),
      (it_kiq T, raise_event L EV_KIQ_IPC_MESSAGE),
      (it_keepalive T, \<lambda>_. on_manager (daemon_do D_Reset)),
      (it_ok T, \<lambda>_. ret ()),
      (it_status T, \<lambda>_. ret ())])"

definition log_message :: "('db, 'h) server_env \<Rightarrow> ipc_msg \<Rightarrow> ('db, 'h) server_act" where
  "log_message L m = (let type = msg_type (ie_types (se_ipc L)) m in
     if type = it_keepalive (ie_types (se_ipc L)) then ret ()
     else seq (of_res (map_at (kp_names (hk_kproto (se_hooks L))) type)) (\<lambda>_. ret ()))"

definition mgr_process_message :: "('db, 'h) server_env \<Rightarrow> ipc_msg \<Rightarrow> ('db, 'h) server_act" where
  "mgr_process_message L m = seq (log_message L m) (\<lambda>_.
     case map_of (ipc_table L) (msg_type (ie_types (se_ipc L)) m) of
       None \<Rightarrow> raise (RuntimeError ''bad_function_call'') | Some f \<Rightarrow> f m)"

section \<open>The handler of a peer\<close>

definition count_heartbeat :: "string \<Rightarrow> unit ipc_act" where
  "count_heartbeat peer = modify (\<lambda>s. s\<lparr>iq_clients :=
     map (\<lambda>(p, c). (p, if p = peer then c\<lparr>ic_hb := ic_hb c + 1\<rparr> else c)) (iq_clients s)\<rparr>)"

definition client_process_message :: "('db, 'h) server_env \<Rightarrow> ipc_client \<Rightarrow> ipc_msg \<Rightarrow> ('db, 'h) server_act" where
  "client_process_message L c m =
     (let type = msg_type (ie_types (se_ipc L)) m in
      if type = it_keepalive (ie_types (se_ipc L)) then
        on_manager (seq (on_heartbeat (se_ipc L) (ic_peer c)) (\<lambda>_. count_heartbeat (ic_peer c)))
      else if type = it_status (ie_types (se_ipc L)) then
        on_manager (seq (send_ipc (ic_name c) Okay_Message) (\<lambda>_. client_connect (ic_name c) (ic_addr c)))
      else mgr_process_message L m)"

text \<open>The thread that sends the heartbeats, one turn of it.\<close>

definition client_beat :: "ipc_client \<Rightarrow> unit ipc_act" where
  "client_beat c = send_ipc (ic_name c) Keepalive"

definition client_reconnect :: "ipc_client \<Rightarrow> unit ipc_act" where
  "client_reconnect c = client_connect (ic_name c) (ic_addr c)"

section \<open>A peer that is not heard of\<close>

definition heartbeat_timeout :: "('db, 'h) server_env \<Rightarrow> string \<Rightarrow> ('db, 'h) server_act" where
  "heartbeat_timeout L peer =
     seq (on_manager (daemon_do (D_Timeout peer))) (\<lambda>_. seq get_state (\<lambda>s.
     case map_of (iq_clients (sv_ipc s)) peer of
       None \<Rightarrow> ret ()
     | Some c \<Rightarrow>
         seq (on_manager (client_reconnect c)) (\<lambda>_.
         seq (on_manager (modify (\<lambda>i. i\<lparr>iq_timeouts := iq_timeouts i + 1\<rparr>))) (\<lambda>_. seq get_state (\<lambda>s.
         seq (if iq_timeouts (sv_ipc s) > 100 \<and> length (iq_clients (sv_ipc s)) > 1 then
                seq (evt L ALL_CLIENTS SYS_IPC_RECONNECT_REQUEST []) (\<lambda>_.
                  on_manager (modify (\<lambda>i. i\<lparr>iq_timeouts := 0\<rparr>)))
              else ret ()) (\<lambda>_.
         on_manager (modify (\<lambda>i. i\<lparr>iq_sleeping := iq_sleeping i @ [peer]\<rparr>))))))))"

text \<open>The detached thread, after its five seconds.\<close>

definition observe_again :: "string \<Rightarrow> ('db, 'h) server_act" where
  "observe_again peer = seq get_state (\<lambda>s.
     if peer \<in> set (iq_sleeping (sv_ipc s)) then
       on_manager (seq (modify (\<lambda>i. i\<lparr>iq_sleeping := remove1 peer (iq_sleeping i)\<rparr>)) (\<lambda>_. add_observer peer))
     else ret ())"

section \<open>The thread that receives\<close>

definition BACKEND_ADDRESS :: string where "BACKEND_ADDRESS = ''inproc://backend''"

record worker_input =
  wi_identity :: string
  wi_parts :: "(string option \<times> bool) list"  \<comment> \<open>a frame, if it was received, and whether there are more\<close>
  wi_reconnect :: bool                       \<comment> \<open>the flags when \<open>recv\<close> has returned\<close>
  wi_active :: bool

fun gather :: "(string option \<times> bool) list \<Rightarrow> string list option" where
  "gather [] = None"
| "gather ((None, _) # _) = None"
| "gather ((Some part, again) # rest) = (if again then map_option ((#) part) (gather rest) else Some [part])"

definition worker_recv :: "('db, 'h) server_env \<Rightarrow> string \<Rightarrow> worker_input \<Rightarrow> ('db, 'h) server_act" where
  "worker_recv L name inp =
     (if wi_identity inp = [] then ret ()
      else case gather (wi_parts inp) of None \<Rightarrow> ret ()
      | Some frames \<Rightarrow> (case ie_deserialize (se_ipc L) frames of None \<Rightarrow> ret ()
        | Some m \<Rightarrow>
            seq (if ie_keepalive (se_ipc L) (msg_type (ie_types (se_ipc L)) m) then ret ()
                 else on_manager (send_ipc name Okay_Message)) (\<lambda>_. seq get_state (\<lambda>s.
            case map_of (iq_clients (sv_ipc s)) (wi_identity inp) of
              None \<Rightarrow> ret () | Some c \<Rightarrow> client_process_message L c m))))"

definition worker_connect :: "string \<Rightarrow> ('db, 'h) server_act" where
  "worker_connect name = on_manager (client_connect name BACKEND_ADDRESS)"

text \<open>The loop of \<open>IPCWorker::run\<close> as far as the inputs go; an exception ends the thread.\<close>

fun worker_loop :: "('db, 'h) server_env \<Rightarrow> string \<Rightarrow> worker_input list \<Rightarrow> ('db, 'h) server_act" where
  "worker_loop L name [] = ret ()"
| "worker_loop L name (i # rest) =
     seq (worker_recv L name i) (\<lambda>_.
       if wi_reconnect i then seq (worker_connect name) (\<lambda>_. worker_loop L name rest)
       else if wi_active i then worker_loop L name rest
       else ret ())"

definition worker_run :: "('db, 'h) server_env \<Rightarrow> string \<Rightarrow> worker_input list \<Rightarrow> ('db, 'h) server_act" where
  "worker_run L name inputs = seq (worker_connect name) (\<lambda>_. worker_loop L name inputs)"

section \<open>The turn of the main thread\<close>

text \<open>Whether the loop goes on; what is thrown is logged and the loop goes on.\<close>

definition server_turn :: "('db, 'h) server_env \<Rightarrow> int option \<Rightarrow> (('db, 'h) kserver, bool) act" where
  "server_turn L control =
     catch_all (seq (run_turn control) (\<lambda>(go, must_reconnect).
       if go then seq (on_manager (mgr_run (se_ipc L) must_reconnect)) (\<lambda>_. ret True) else ret False)) (ret True)"

section \<open>What leaves the manager's state alone\<close>

definition same_ipc :: "('db, 'h) kserver \<Rightarrow> ('db, 'h) kserver \<Rightarrow> bool" where
  "same_ipc s s' \<longleftrightarrow> sv_ipc s' = sv_ipc s"

lemma reflp_same_ipc [simp]: "reflp same_ipc"
  by (simp add: reflp_def same_ipc_def)

lemma transp_same_ipc [simp]: "transp same_ipc"
  by (auto simp: transp_def same_ipc_def)

lemmas same_ipc_rules = keeps_seq [OF transp_same_ipc] keeps_pure [OF reflp_same_ipc] keeps_get_state [OF reflp_same_ipc]
  keeps_each [OF reflp_same_ipc transp_same_ipc] keeps_if

lemma keeps_ipc_sessions: "keeps same_ipc (change_sessions f)"
  unfolding change_sessions_def by (intro same_ipc_rules keeps_modify) (simp add: same_ipc_def)

lemma keeps_ipc_message: "keeps same_ipc (SendMessage L fd m)"
  unfolding SendMessage_def put_packets_def count_tx_def case_prod_unfold Let_def
  by (intro same_ipc_rules keeps_ipc_sessions keeps_modify) (simp add: same_ipc_def)

lemma keeps_ipc_event: "keeps same_ipc (SendEvent L fd event argv)"
  unfolding SendEvent_def Broadcast_def send_active_def
  by (intro same_ipc_rules keeps_ipc_message)

lemma on_manager_eq: "m (sv_ipc s) = (r, i) \<Longrightarrow> on_manager m s = (r, s\<lparr>sv_ipc := i\<rparr>)"
  by (simp add: on_manager_def)

lemma ReceiveEvent_queues:
  assumes "out_event (ie_types (se_ipc L)) (hk_kproto (se_hooks L)) event payload = Inr (Some (peer, m))"
    and "kp_names (hk_kproto (se_hooks L)) (msg_type (ie_types (se_ipc L)) m) = Some n"
  shows "ReceiveEvent L event payload s = (Inr (), s\<lparr>sv_ipc := (sv_ipc s)\<lparr>iq_queue := iq_queue (sv_ipc s) @ [(peer, m)]\<rparr>\<rparr>)"
  using assms by (simp add: ReceiveEvent_def on_manager_def mgr_ReceiveEvent_def)

lemma ReceiveEvent_nothing:
  "out_event (ie_types (se_ipc L)) (hk_kproto (se_hooks L)) event payload = Inr None \<Longrightarrow> ReceiveEvent L event payload s = (Inr (), s)"
  by (simp add: ReceiveEvent_def on_manager_def mgr_ReceiveEvent_def seq_def)

section \<open>Properties\<close>

text \<open>
  C22: a post another process reports is read back from its payload with another meaning: its time
  is taken to be now, its command is lost, its arguments become the post's method, and the post has none.
\<close>

theorem reported_post_is_shifted:
  "bind (received_payload E kp (Platform_Message platform i user content urls repost cmd args time)) (FromPayload uuid now) =
    Inr \<lparr>pp_pid = [], pp_o_pid = NO_ORIGIN_PLATFORM_EXISTS, pp_id = (if i = [] then uuid else i), pp_user = user,
      pp_time = int_to_string now, pp_content = content, pp_urls = urls, pp_repost = bool_to_string repost,
      pp_name = platform, pp_args = [], pp_method = args, pp_cmd = ''0'', pp_status = [], pp_retry = False\<rparr>"
  by (simp add: FromPayload_def)

lemma evt_entry: "map_of (dispatch_table L) event = Some f \<Longrightarrow> evt L fd event payload = f fd event payload"
  by (simp add: evt_def)

lemma ipc_events:
  "evt L fd EV_PLATFORM_EVENT = on_platform_event L fd EV_PLATFORM_EVENT"
  "evt L fd SYS_PLATFORM_INFO = on_platform_info L fd SYS_PLATFORM_INFO"
  "evt L fd SYS_IPC_RECONNECT_REQUEST = on_ipc_reconnect_request L fd SYS_IPC_RECONNECT_REQUEST"
  "evt L fd EV_KIQ_IPC_MESSAGE = on_KIQ_ipc_Message L fd EV_KIQ_IPC_MESSAGE"
  by (simp_all add: fun_eq_iff evt_def dispatch_table_def event_numbers)

lemma code_word8: "0 \<le> i \<Longrightarrow> i < 256 \<Longrightarrow> uint (word_of_int i :: 8 word) = i"
  by (simp add: uint_word_of_int)

text \<open>The numbers of the types are different and fit a byte.\<close>

definition types_ok :: "ipc_types \<Rightarrow> bool" where
  "types_ok T \<longleftrightarrow> distinct [it_platform T, it_request T, it_info T, it_error T, it_kiq T, it_keepalive T, it_ok T, it_status T] \<and>
     {it_platform T, it_request T, it_info T, it_error T, it_kiq T, it_keepalive T, it_ok T, it_status T} \<subseteq> {0..<256}"

lemma types_bytes:
  assumes "types_ok T"
  shows "uint (word_of_int (it_platform T) :: 8 word) = it_platform T" "uint (word_of_int (it_info T) :: 8 word) = it_info T"
    "uint (word_of_int (it_kiq T) :: 8 word) = it_kiq T"
  using assms by (simp_all add: types_ok_def code_word8)

lemma types_differ:
  assumes "types_ok T"
  shows "it_info T \<noteq> it_platform T" "it_info T \<noteq> it_request T" "it_info T \<noteq> it_kiq T" "it_info T \<noteq> it_keepalive T"
    "it_kiq T \<noteq> it_platform T" "it_platform T \<noteq> it_kiq T"
  using assms by (auto simp: types_ok_def)

text \<open>
  Information on a platform that comes from a process is broadcast to the sessions and then waits
  for the peer the platform's name stands for, or for the broker, with the fields it came with.
\<close>

theorem platform_info_is_passed_on:
  assumes "ie_types (se_ipc L) = T" and "hk_kproto (se_hooks L) = kp"
    and "kp_names kp (it_info T) = Some name" and "kp_values kp name = Some (it_info T)" and "types_ok T"
    and "SendEvent L ALL_CLIENTS ''Platform Info'' [name, platform, i, type, info] s = (Inr (), s1)"
    and "type \<noteq> ''agitation analysis''"
  shows "mgr_process_message L (Platform_Info platform info type i) s = (Inr (), s1\<lparr>sv_ipc := (sv_ipc s)
    \<lparr>iq_queue := iq_queue (sv_ipc s) @ [(find_peer platform True, Platform_Info platform info type i)]\<rparr>\<rparr>)"
proof -
  have same: "sv_ipc s1 = sv_ipc s"
    using keepsD [OF keeps_ipc_event assms(6)] by (simp add: same_ipc_def)
  let ?q = "iq_queue (sv_ipc s) @ [(find_peer platform True, Platform_Info platform info type i)]"
  let ?P = "[name, platform, i, type, info]"
  have "deserialize_ipc T kp ?P = Inr (Some (Platform_Info platform info type i), platform)"
    using assms(4) types_differ [OF assms(5)] types_bytes [OF assms(5)] by (simp add: deserialize_ipc_def Let_def)
  then have "out_event T kp EV_PLATFORM_EVENT ?P = Inr (Some (find_peer platform True, Platform_Info platform info type i))"
    by (simp add: out_event_def event_numbers)
  then have rec: "ReceiveEvent L EV_PLATFORM_EVENT ?P s1 = (Inr (), s1\<lparr>sv_ipc := (sv_ipc s)\<lparr>iq_queue := ?q\<rparr>\<rparr>)"
    using ReceiveEvent_queues [of L EV_PLATFORM_EVENT ?P "find_peer platform True" "Platform_Info platform info type i" name s1]
      assms(1-3) same by simp
  have "map_of (ipc_table L) (it_info T) = Some (raise_event L SYS_PLATFORM_INFO)"
    using types_differ [OF assms(5)] by (simp add: ipc_table_def assms(1) Let_def)
  then have "mgr_process_message L (Platform_Info platform info type i) s = raise_event L SYS_PLATFORM_INFO (Platform_Info platform info type i) s"
    using types_differ(4) [OF assms(5)] assms(1-3) by (simp add: mgr_process_message_def log_message_def Let_def)
  also have "\<dots> = on_platform_info L ALL_CLIENTS SYS_PLATFORM_INFO ?P s"
    using assms(1-3) by (simp add: raise_event_def ipc_events)
  also have "\<dots> = (Inr (), s1\<lparr>sv_ipc := (sv_ipc s)\<lparr>iq_queue := ?q\<rparr>\<rparr>)"
    using assms(6,7) rec by (simp add: on_platform_info_def arg_at_def)
  finally show ?thesis .
qed

definition sample_kproto :: kproto where
  "sample_kproto = idle_kproto\<lparr>kp_values := [''post'' \<mapsto> 1, ''info'' \<mapsto> 3, ''kiq'' \<mapsto> 5],
     kp_names := [1 \<mapsto> ''post'', 3 \<mapsto> ''info'', 5 \<mapsto> ''kiq'', 9 \<mapsto> ''other''], kp_cmd_code := (\<lambda>_. 4)\<rparr>"

definition ipc_sample_env :: "(string list, unit) server_env" where
  "ipc_sample_env = sample_env\<lparr>se_hooks := idle_hooks sample_kproto\<rparr>"

lemma ipc_sample_env_sel [simp]:
  "se_ipc ipc_sample_env = sample_ipc_env" "hk_kproto (se_hooks ipc_sample_env) = sample_kproto"
  "kp_values sample_kproto = [''post'' \<mapsto> 1, ''info'' \<mapsto> 3, ''kiq'' \<mapsto> 5]"
  "kp_names sample_kproto = [1 \<mapsto> ''post'', 3 \<mapsto> ''info'', 5 \<mapsto> ''kiq'', 9 \<mapsto> ''other'']"
  "kp_cmd_code sample_kproto c = 4"
  by (simp_all add: ipc_sample_env_def sample_env_def idle_hooks_def sample_kproto_def)

lemma sample_types_sel [simp]:
  "ie_types sample_ipc_env = sample_types" "it_platform sample_types = 1" "it_request sample_types = 2"
  "it_info sample_types = 3" "it_error sample_types = 4" "it_kiq sample_types = 5" "it_keepalive sample_types = 6"
  "it_ok sample_types = 7" "it_status sample_types = 8" "types_ok sample_types"
  by (simp_all add: sample_ipc_env_def sample_types_def types_ok_def)

lemma server_with_ipc [simp]: "sv_ipc (server_with m) = empty_ipc" "iq_queue empty_ipc = []" "ct_requests (server_with m) = []"
  by (simp_all add: server_with_def controller.defs kserver.defs sample_controller_def empty_ipc_def)

theorem platform_info_is_passed_on_witness:
  "iq_queue (sv_ipc (snd (mgr_process_message ipc_sample_env (Platform_Info ''KAI'' ''text'' ''poll'' ''7'') (server_with empty_sessions)))) =
    [(''kai'', Platform_Info ''KAI'' ''text'' ''poll'' ''7'')]"
proof -
  have "SendEvent ipc_sample_env ALL_CLIENTS ''Platform Info'' [''info'', ''KAI'', ''7'', ''poll'', ''text''] (server_with empty_sessions) =
      (Inr (), server_with empty_sessions)"
    by (simp add: SendEvent_def Broadcast_def empty_sessions_def)
  moreover have "find_peer ''KAI'' True = ''kai''" by code_simp
  ultimately show ?thesis
    using platform_info_is_passed_on [of ipc_sample_env sample_types sample_kproto "''info''" "''KAI''" "''7''" "''poll''" "''text''"]
    by simp
qed

text \<open>
  C6: what a scheduled message, of a type, a platform, a text and a command that can be read, hands to the event handler waits for the peer its
  platform stands for, as a message of the kind the low byte of its type's number says: with the arguments made for it and the
  platform, if the type is the one for \<open>kiq\<close>; as a message with its platform, its text, its command and the id, the user, the time
  and the arguments made for it, if it is the one for a platform; as information on the platform, with the time as the information, the user
  as its type and the id, if it is the one for information. A message of any other type waits for no one, and nothing changes. Taken is
  that the numbers of the types differ and are known by name, and that the number of the command is one of 32 bits.
\<close>

theorem scheduled_message_waits:
  assumes "ie_types (se_ipc L) = T" and "hk_kproto (se_hooks L) = kp" and "types_ok T"
    and "\<forall>t \<in> {it_kiq T, it_platform T, it_info T}. kp_names kp t \<noteq> None"
    and "platform_payload x kp msg w = (Inr payload, w')"
    and "im_type_name kp msg = Inr name" and "kp_values kp name = Some v"
    and "im_platform msg = Inr platform" and "im_data msg = Inr data" and "im_command msg = Inr command"
    and "int32_min \<le> kp_cmd_code kp command" and "kp_cmd_code kp command \<le> int32_max"
  shows "\<exists>uuid user time. let code = kp_cmd_code kp command; ty = uint (word_of_int v :: 8 word);
      args = CreateOperation (x_jwrite x) ''bot'' [command, data, x_conf x ''platform'' ''default_user'',
        if im_option msg = [] then x_conf x ''process'' ''tg_dest'' else im_option msg];
      out = (if ty = it_kiq T then Some (Kiq_Message args (Some platform))
        else if ty = it_platform T then Some (Platform_Message platform uuid user data [] False code args time)
        else if ty = it_info T then Some (Platform_Info platform time user uuid)
        else None)
    in payload = [name, platform, uuid, user, time, data, [], ''false'', ''bot'', args, int_to_string code] \<and>
      evt L fd EV_PLATFORM_EVENT payload s = (Inr (), case out of None \<Rightarrow> s
        | Some m \<Rightarrow> s\<lparr>sv_ipc := (sv_ipc s)\<lparr>iq_queue := iq_queue (sv_ipc s) @ [(find_peer platform True, m)]\<rparr>\<rparr>)"
proof -
  let ?code = "kp_cmd_code kp command" and ?ty = "uint (word_of_int v :: 8 word)"
  let ?args = "CreateOperation (x_jwrite x) ''bot'' [command, data, x_conf x ''platform'' ''default_user'',
        if im_option msg = [] then x_conf x ''process'' ''tg_dest'' else im_option msg]"
  obtain uuid user time where p: "payload = [name, platform, uuid, user, time, data, [], ''false'', ''bot'', ?args, int_to_string ?code]"
    using assms(5,6,8-10) by (auto simp: platform_payload_def seq_def Let_def split: prod.splits sum.splits)
  let ?out = "if ?ty = it_kiq T then Some (Kiq_Message ?args (Some platform))
        else if ?ty = it_platform T then Some (Platform_Message platform uuid user data [] False ?code ?args time)
        else if ?ty = it_info T then Some (Platform_Info platform time user uuid) else None"
  have out: "out_event T kp EV_PLATFORM_EVENT payload = Inr (map_option (Pair (find_peer platform True)) ?out)"
    using assms(7,11,12) types_differ [OF assms(3)]
    by (simp add: p out_event_def event_numbers deserialize_ipc_def Let_def)
  have "evt L fd EV_PLATFORM_EVENT payload s = (Inr (), case ?out of None \<Rightarrow> s
        | Some m \<Rightarrow> s\<lparr>sv_ipc := (sv_ipc s)\<lparr>iq_queue := iq_queue (sv_ipc s) @ [(find_peer platform True, m)]\<rparr>\<rparr>)"
  proof (cases ?out)
    case None
    then show ?thesis using out assms(1,2) by (simp add: ipc_events on_platform_event_def ReceiveEvent_nothing)
  next
    case (Some m)
    then have "msg_type T m \<in> {it_kiq T, it_platform T, it_info T}" by (auto split: if_splits)
    with assms(4) obtain n where "kp_names kp (msg_type T m) = Some n" by blast
    then show ?thesis
      using out Some ReceiveEvent_queues [of L EV_PLATFORM_EVENT payload "find_peer platform True" m n s] assms(1,2)
      by (simp add: ipc_events on_platform_event_def)
  qed
  with p show ?thesis unfolding Let_def by blast
qed

definition due_message :: "8 word \<Rightarrow> ipc_message" where
  "due_message t = \<lparr>im_type = t, im_args = [[], ''KAI'', ''hello'', ''send'', ''50'', [], [], [], ''u1'']\<rparr>"

lemma due_fields:
  "im_type_name sample_kproto (due_message 1) = Inr ''post''" "im_type_name sample_kproto (due_message 3) = Inr ''info''"
  "im_platform (due_message t) = Inr ''KAI''" "im_data (due_message t) = Inr ''hello''" "im_command (due_message t) = Inr ''send''"
  by (simp_all add: due_message_def im_type_name_def im_platform_def im_data_def im_command_def)

lemma due_payload:
  assumes "t = 1 \<or> t = 3"
  shows "\<exists>payload w'. platform_payload idle_libs sample_kproto (due_message t) sample_scheduler = (Inr payload, w')"
  using assms due_fields
  by (auto simp: platform_payload_def due_message_def im_p_uuid_def im_arg_def im_time_def vec_at_def seq_def
        GetPlatformUser_def GetPlatformID_def GetUser_def first_at_def Let_def c_str_def im_type_name_def im_platform_def im_data_def im_command_def)

theorem scheduled_message_waits_witness:
  "(\<exists>payload w' user. platform_payload idle_libs sample_kproto (due_message 1) sample_scheduler = (Inr payload, w') \<and>
     iq_queue (sv_ipc (snd (evt ipc_sample_env 5 EV_PLATFORM_EVENT payload (server_with empty_sessions)))) =
       [(''kai'', Platform_Message ''KAI'' (payload ! 2) user ''hello'' [] False 4 (payload ! 9) (payload ! 4))]) \<and>
   (\<exists>payload w' user. platform_payload idle_libs sample_kproto (due_message 3) sample_scheduler = (Inr payload, w') \<and>
     iq_queue (sv_ipc (snd (evt ipc_sample_env 5 EV_PLATFORM_EVENT payload (server_with empty_sessions)))) =
       [(''kai'', Platform_Info ''KAI'' (payload ! 4) user (payload ! 2))])"
proof -
  have peer: "find_peer ''KAI'' True = ''kai''" by code_simp
  obtain p1 w1 where p1: "platform_payload idle_libs sample_kproto (due_message 1) sample_scheduler = (Inr p1, w1)"
    using due_payload by blast
  obtain p3 w3 where p3: "platform_payload idle_libs sample_kproto (due_message 3) sample_scheduler = (Inr p3, w3)"
    using due_payload by blast
  have known: "\<forall>t \<in> {it_kiq sample_types, it_platform sample_types, it_info sample_types}. kp_names sample_kproto t \<noteq> None"
    by (simp add: sample_types_def)
  have code: "int32_min \<le> kp_cmd_code sample_kproto ''send''" "kp_cmd_code sample_kproto ''send'' \<le> int32_max"
    by (simp_all add: int32_min_def int32_max_def)
  have v: "kp_values sample_kproto ''post'' = Some 1" "kp_values sample_kproto ''info'' = Some 3" by simp_all
  have e: "ie_types (se_ipc ipc_sample_env) = sample_types" and ok: "types_ok sample_types" by simp_all
  note waits = scheduled_message_waits [OF e ipc_sample_env_sel(2) ok known _ _ _ due_fields(3-5) code,
      where fd = 5 and s = "server_with empty_sessions", unfolded Let_def peer]
  have "\<exists>user. iq_queue (sv_ipc (snd (evt ipc_sample_env 5 EV_PLATFORM_EVENT p1 (server_with empty_sessions)))) =
       [(''kai'', Platform_Message ''KAI'' (p1 ! 2) user ''hello'' [] False 4 (p1 ! 9) (p1 ! 4))]"
    using waits [OF p1 due_fields(1) v(1)] by (elim exE conjE) simp
  moreover have "\<exists>user. iq_queue (sv_ipc (snd (evt ipc_sample_env 5 EV_PLATFORM_EVENT p3 (server_with empty_sessions)))) =
       [(''kai'', Platform_Info ''KAI'' (p3 ! 4) user (p3 ! 2))]"
    using waits [OF p3 due_fields(2) v(2)] by (elim exE conjE) simp
  ultimately show ?thesis using p1 p3 by blast
qed

lemma timeout_counts:
  assumes "ipc_ok (sv_ipc s)" and "peer \<in> set ipc_peers" and "iq_timeouts (sv_ipc s) < 100"
  shows "\<exists>s'. heartbeat_timeout L peer s = (Inr (), s') \<and> ct_requests s' = ct_requests s \<and> ipc_ok (sv_ipc s') \<and>
    iq_timeouts (sv_ipc s') = iq_timeouts (sv_ipc s) + 1 \<and> iq_queue (sv_ipc s') = iq_queue (sv_ipc s)"
proof -
  obtain c where "map_of (iq_clients (sv_ipc s)) peer = Some c"
    using ipc_client_at [OF assms(1,2)] by (metis map_at_Inr)
  then show ?thesis using assms(1,3)
    by (simp add: heartbeat_timeout_def on_manager_def daemon_do_def client_reconnect_def client_connect_def ipc_ok_def)
qed

lemma timeout_requests:
  assumes "ipc_ok (sv_ipc s)" and "peer \<in> set ipc_peers" and "iq_timeouts (sv_ipc s) = 100"
  shows "\<exists>s'. heartbeat_timeout L peer s = (Inr (), s') \<and> ct_requests s' = ct_requests s @ [RECONNECT_IPC] \<and>
    ipc_ok (sv_ipc s') \<and> iq_timeouts (sv_ipc s') = 0 \<and> iq_queue (sv_ipc s') = iq_queue (sv_ipc s)"
proof -
  obtain c where "map_of (iq_clients (sv_ipc s)) peer = Some c"
    using ipc_client_at [OF assms(1,2)] by (metis map_at_Inr)
  moreover have "length (iq_clients (sv_ipc s)) = 3"
    using assms(1) by (metis ipc_ok_def length_map ipc_peers_def length_Cons list.size(3) numeral_3_eq_3)
  ultimately show ?thesis using assms(1,3)
    by (simp add: heartbeat_timeout_def on_manager_def daemon_do_def client_reconnect_def client_connect_def ipc_ok_def
        ipc_events on_ipc_reconnect_request_def Request_push_def)
qed

lemma timeouts_count:
  assumes "ipc_ok (sv_ipc s)" and "set peers \<subseteq> set ipc_peers" and "iq_timeouts (sv_ipc s) + int (length peers) \<le> 100"
  shows "\<exists>s'. each (heartbeat_timeout L) peers s = (Inr (), s') \<and> ct_requests s' = ct_requests s \<and> ipc_ok (sv_ipc s') \<and>
    iq_timeouts (sv_ipc s') = iq_timeouts (sv_ipc s) + int (length peers) \<and> iq_queue (sv_ipc s') = iq_queue (sv_ipc s)"
  using assms
proof (induction peers arbitrary: s)
  case (Cons p peers)
  obtain s1 where s1: "heartbeat_timeout L p s = (Inr (), s1)" "ct_requests s1 = ct_requests s" "ipc_ok (sv_ipc s1)"
    "iq_timeouts (sv_ipc s1) = iq_timeouts (sv_ipc s) + 1" "iq_queue (sv_ipc s1) = iq_queue (sv_ipc s)"
    using timeout_counts [of s p L] Cons.prems by auto
  with Cons.IH [of s1] Cons.prems(2,3) show ?case by auto
qed simp

text \<open>
  C16: at the hundred and first timeout, of whichever peers, the main thread is asked to connect anew; its
  next turn makes the three clients again, and the messages that waited before it wait after it.
\<close>

theorem timeouts_reconnect:
  assumes "ipc_ok (sv_ipc s)" and "iq_timeouts (sv_ipc s) = 0" and "ct_requests s = []"
    and "set peers \<subseteq> set ipc_peers" and "length peers = 101"
  shows "\<exists>s' s''. each (heartbeat_timeout L) peers s = (Inr (), s') \<and> ct_requests s' = [RECONNECT_IPC] \<and>
    server_turn L None s' = (Inr True, s'') \<and> ct_requests s'' = [] \<and> iq_timeouts (sv_ipc s'') = 0 \<and>
    iq_queue (sv_ipc s'') = iq_queue (sv_ipc s) \<and>
    iq_clients (sv_ipc s'') = map (\<lambda>p. (p, new_client (se_ipc L) p)) ipc_peers"
proof -
  obtain ps p where peers: "peers = ps @ [p]" "length ps = 100"
    using assms(5) by (cases peers rule: rev_exhaust) auto
  obtain s1 where s1: "each (heartbeat_timeout L) ps s = (Inr (), s1)" "ct_requests s1 = []" "ipc_ok (sv_ipc s1)"
    "iq_timeouts (sv_ipc s1) = 100" "iq_queue (sv_ipc s1) = iq_queue (sv_ipc s)"
    using timeouts_count [of s ps L] assms peers by auto
  obtain s2 where s2: "heartbeat_timeout L p s1 = (Inr (), s2)" "ct_requests s2 = [RECONNECT_IPC]" "ipc_ok (sv_ipc s2)"
    "iq_timeouts (sv_ipc s2) = 0" "iq_queue (sv_ipc s2) = iq_queue (sv_ipc s)"
    using timeout_requests [of s1 p L] s1 assms(4) peers by auto
  have 1: "each (heartbeat_timeout L) peers s = (Inr (), s2)"
    using s1(1) s2(1) peers(1) by (simp add: each_append seq_def)
  obtain i where i: "mgr_reconnect (se_ipc L) (sv_ipc s2) = (Inr (), i)" "iq_queue i = iq_queue (sv_ipc s)"
    "iq_clients i = map (client_of (se_ipc L)) ipc_peers" "iq_timeouts i = 0"
    using reconnect_makes_clients [of "se_ipc L" "sv_ipc s2"] s2(4,5) by auto
  have "server_turn L None s2 = (Inr True, s2\<lparr>ct_requests := [], sv_ipc := i\<rparr>)"
    using s2(2) i(1) by (simp add: server_turn_def run_turn_def GetRequest_def mgr_run_def on_manager_def)
  with 1 s2(2) i show ?thesis by (simp add: client_of_def [abs_def])
qed

theorem timeouts_reconnect_witness:
  "\<exists>s'. each (heartbeat_timeout ipc_sample_env) (replicate 101 ''kai'')
     ((server_with empty_sessions)\<lparr>sv_ipc := started_ipc []\<rparr>) = (Inr (), s') \<and> ct_requests s' = [RECONNECT_IPC]"
proof -
  have "ipc_ok (started_ipc [])" by (rule started_ipc_ok) simp
  moreover have "iq_timeouts (started_ipc []) = 0" by (simp add: started_ipc_eq started_def empty_ipc_def)
  ultimately show ?thesis
    using timeouts_reconnect [of "(server_with empty_sessions)\<lparr>sv_ipc := started_ipc []\<rparr>" "replicate 101 ''kai''" ipc_sample_env]
    by (auto simp: ipc_peers_def kai_peer_def)
qed

lemma table_misses:
  assumes "t \<notin> {it_platform T, it_request T, it_info T, it_error T, it_kiq T, it_keepalive T, it_ok T, it_status T}"
    and "ie_types (se_ipc L) = T"
  shows "map_of (ipc_table L) t = None"
  using assms by (simp add: ipc_table_def Let_def)

text \<open>
  C35: a message of a type the table does not have is answered as received, and then ends the thread that
  receives: what comes after it is not read, from whichever peer it comes.
\<close>

theorem unknown_message_ends_receiver:
  assumes "ie_types (se_ipc L) = T"
    and "t \<notin> {it_platform T, it_request T, it_info T, it_error T, it_kiq T, it_keepalive T, it_ok T, it_status T}"
    and "ipc_ok (sv_ipc s)" and "wi_identity inp \<in> set ipc_peers" and "gather (wi_parts inp) = Some frames"
    and "ie_deserialize (se_ipc L) frames = Some (Other_Message t)" and "\<not> ie_keepalive (se_ipc L) t"
    and "kp_names (hk_kproto (se_hooks L)) t = Some n"
  shows "worker_loop L name (inp # rest) s = (Inl (RuntimeError ''bad_function_call''),
    s\<lparr>sv_ipc := (sv_ipc s)\<lparr>iq_sent := iq_sent (sv_ipc s) @ [(name, Okay_Message)]\<rparr>\<rparr>)"
proof -
  obtain c where c: "map_of (iq_clients (sv_ipc s)) (wi_identity inp) = Some c"
    using ipc_client_at [OF assms(3,4)] by (metis map_at_Inr)
  have "wi_identity inp \<noteq> []" using assms(4) no_empty_peer by metis
  moreover have "mgr_process_message L (Other_Message t) s' = (Inl (RuntimeError ''bad_function_call''), s')" for s'
    using table_misses [OF assms(2,1)] assms(1,2,8) by (simp add: mgr_process_message_def log_message_def Let_def)
  moreover have "client_process_message L c (Other_Message t) = mgr_process_message L (Other_Message t)"
    using assms(1,2) by (simp add: client_process_message_def Let_def)
  ultimately show ?thesis
    using c assms(1,5-7) by (simp add: worker_recv_def on_manager_def send_ipc_def)
qed

definition odd_env :: "(string list, unit) server_env" where
  "odd_env = ipc_sample_env\<lparr>se_ipc := sample_ipc_env\<lparr>ie_deserialize := (\<lambda>_. Some (Other_Message 9))\<rparr>\<rparr>"

definition kai_input :: worker_input where
  "kai_input = \<lparr>wi_identity = ''kai'', wi_parts = [(Some ''x'', False)], wi_reconnect = False, wi_active = True\<rparr>"

theorem unknown_message_ends_receiver_witness:
  "fst (worker_loop odd_env ''w'' [kai_input] ((server_with empty_sessions)\<lparr>sv_ipc := started_ipc []\<rparr>)) =
    Inl (RuntimeError ''bad_function_call'')"
proof -
  have "ipc_ok (started_ipc [])" by (rule started_ipc_ok) simp
  moreover have "\<not> ie_keepalive sample_ipc_env 9" by (simp add: sample_ipc_env_def)
  ultimately have "worker_loop odd_env ''w'' [kai_input] ((server_with empty_sessions)\<lparr>sv_ipc := started_ipc []\<rparr>) =
      (Inl (RuntimeError ''bad_function_call''), (server_with empty_sessions)\<lparr>sv_ipc := (started_ipc [])
        \<lparr>iq_sent := iq_sent (started_ipc []) @ [(''w'', Okay_Message)]\<rparr>\<rparr>)"
    using unknown_message_ends_receiver [of odd_env sample_types 9 "(server_with empty_sessions)\<lparr>sv_ipc := started_ipc []\<rparr>"
        kai_input "[''x'']" "''other''" "''w''" "[]"]
    by (simp add: ipc_peers_def kai_peer_def odd_env_def kai_input_def)
  then show ?thesis by simp
qed

end
