(* ===== verification/TaskQueue.thy ===== *)
theory TaskQueue
  imports Prelude "HOL-Library.Multiset"
begin

text \<open>
  The pool of threads that serves the connections: \<open>task/task_queue.hpp\<close> and \<open>src/task_queue.cpp\<close>.

  A thread is where it is in \<open>workerLoop\<close>. What is done under the mutex is one step; the counter of
  active workers is read and written outside of it, in two steps each. The tasks that were pushed, taken
  and completed are logged. A task that throws ends the process; which do is an argument.

  Shown: tasks are taken in the order they were pushed, each once, by one thread; when all threads
  are busy nothing is taken; after the destructor has begun nothing is taken any more, so that what
  waits then is lost; the counter can be wrong for good; the threads are made unless there are to be
  more than 255, when the loop that makes them never ends.
\<close>

section \<open>State\<close>

datatype 'a worker =
    Waiting                       \<comment> \<open>at the head of the loop, or at the condition\<close>
  | Took 'a                       \<comment> \<open>has taken \<open>fn\<close> and left the lock\<close>
  | Counting_up 'a "64 word"      \<comment> \<open>has read \<open>m_active_workers\<close>\<close>
  | Working 'a
  | Worked
  | Counting_down "64 word"
  | Ended

record 'a pool =
  tq_queue :: "'a list"
  tq_accepting :: bool
  tq_active :: bool
  tq_workers :: "'a worker list"
  tq_count :: "64 word"
  tq_crashed :: bool
  tq_pushed :: "'a list"
  tq_taken :: "'a list"
  tq_done :: "'a list"

section \<open>Operations\<close>

definition num_threads :: "nat \<Rightarrow> nat" where
  "num_threads hardware_concurrency =
     (let m_num_threads = hardware_concurrency div 2 in if m_num_threads < 2 then 2 else m_num_threads)"

text \<open>\<open>for (uint8_t i = 0; i < m_num_threads; i++)\<close>: how many threads there are when it ends.\<close>

partial_function (option) deploy_loop :: "8 word \<Rightarrow> nat \<Rightarrow> nat \<Rightarrow> nat option" where
  "deploy_loop i n threads = (if unat i < n then deploy_loop (i + 1) n (Suc threads) else Some threads)"

definition deployWorkers :: "nat \<Rightarrow> nat option" where
  "deployWorkers n = deploy_loop 0 n 0"

definition initialize_pool :: "nat \<Rightarrow> nat option" where
  "initialize_pool hardware_concurrency = deployWorkers (num_threads hardware_concurrency)"

text \<open>\<open>accepting_tasks\<close> has no initial value; \<open>b\<close> is what is there.\<close>

definition new_pool :: "bool \<Rightarrow> nat \<Rightarrow> 'a pool" where
  "new_pool b n = \<lparr>tq_queue = [], tq_accepting = b, tq_active = True, tq_workers = replicate n Waiting, tq_count = 0,
     tq_crashed = False, tq_pushed = [], tq_taken = [], tq_done = []\<rparr>"

definition pushToQueue :: "'a \<Rightarrow> 'a pool \<Rightarrow> 'a pool" where
  "pushToQueue fn s = s\<lparr>tq_queue := tq_queue s @ [fn], tq_pushed := tq_pushed s @ [fn]\<rparr>"

definition deployed :: "'a pool \<Rightarrow> 'a pool" where
  "deployed s = s\<lparr>tq_accepting := False\<rparr>"

definition close_pool :: "'a pool \<Rightarrow> 'a pool" where
  "close_pool s = s\<lparr>tq_active := False\<rparr>"

definition pool_size :: "'a pool \<Rightarrow> 64 word" where
  "pool_size s = tq_count s"

text \<open>The condition, the checks after it and the taking are under one lock.\<close>

definition take_work :: "'a pool \<Rightarrow> ('a worker \<times> 'a pool) option" where
  "take_work s =
     (if \<not> tq_active s then Some (Ended, s)
      else if \<not> (\<not> tq_accepting s \<or> tq_queue s \<noteq> []) then None
      else case tq_queue s of
        [] \<Rightarrow> Some (Waiting, s\<lparr>tq_accepting := True\<rparr>)
      | fn # rest \<Rightarrow> Some (Took fn, s\<lparr>tq_queue := rest, tq_accepting := True, tq_taken := tq_taken s @ [fn]\<rparr>))"

fun worker_step :: "('a \<Rightarrow> bool) \<Rightarrow> 'a worker \<Rightarrow> 'a pool \<Rightarrow> ('a worker \<times> 'a pool) option" where
  "worker_step throws Waiting s = take_work s"
| "worker_step throws (Took fn) s = Some (Counting_up fn (tq_count s), s)"
| "worker_step throws (Counting_up fn n) s = Some (Working fn, s\<lparr>tq_count := n + 1\<rparr>)"
| "worker_step throws (Working fn) s =
     Some (if throws fn then (Working fn, s\<lparr>tq_crashed := True\<rparr>) else (Worked, s\<lparr>tq_done := tq_done s @ [fn]\<rparr>))"
| "worker_step throws Worked s = Some (Counting_down (tq_count s), s)"
| "worker_step throws (Counting_down n) s = Some (Waiting, s\<lparr>tq_count := n - 1\<rparr>)"
| "worker_step throws Ended s = None"

definition run_worker :: "('a \<Rightarrow> bool) \<Rightarrow> nat \<Rightarrow> 'a pool \<Rightarrow> 'a pool option" where
  "run_worker throws i s =
     (if i < length (tq_workers s) \<and> \<not> tq_crashed s then
        (case worker_step throws (tq_workers s ! i) s of None \<Rightarrow> None
         | Some (w, s') \<Rightarrow> Some (s'\<lparr>tq_workers := (tq_workers s)[i := w]\<rparr>))
      else None)"

section \<open>Runs\<close>

text \<open>Who makes the step: another thread that pushes, the owner, or a worker.\<close>

datatype 'a mover = Push 'a | Deployed | Close | Worker nat

inductive pool_step :: "('a \<Rightarrow> bool) \<Rightarrow> 'a pool \<Rightarrow> 'a mover \<Rightarrow> 'a pool \<Rightarrow> bool" for throws where
  push: "\<not> tq_crashed s \<Longrightarrow> pool_step throws s (Push fn) (pushToQueue fn s)"
| deploy: "\<not> tq_crashed s \<Longrightarrow> pool_step throws s Deployed (deployed s)"
| close: "\<not> tq_crashed s \<Longrightarrow> pool_step throws s Close (close_pool s)"
| work: "run_worker throws i s = Some s' \<Longrightarrow> pool_step throws s (Worker i) s'"

inductive pool_run :: "('a \<Rightarrow> bool) \<Rightarrow> 'a pool \<Rightarrow> 'a mover list \<Rightarrow> 'a pool \<Rightarrow> bool" for throws where
  stay: "pool_run throws s [] s"
| move: "pool_step throws s m s1 \<Longrightarrow> pool_run throws s1 ms s2 \<Longrightarrow> pool_run throws s (m # ms) s2"

declare pool_step.intros [intro] pool_run.intros [intro]

inductive_cases pool_stepE: "pool_step throws s m s'"
inductive_cases pool_work: "pool_step throws s (Worker i) s'"
inductive_simps pool_run_simps [simp]: "pool_run throws s [] s'" "pool_run throws s (m # ms) s'"
inductive_simps pool_step_simps: "pool_step throws s (Push fn) s'" "pool_step throws s Deployed s'"
  "pool_step throws s Close s'" "pool_step throws s (Worker i) s'"

text \<open>The task a thread has in hand.\<close>

fun in_hand :: "'a worker \<Rightarrow> 'a list" where
  "in_hand (Took fn) = [fn]"
| "in_hand (Counting_up fn _) = [fn]"
| "in_hand (Working fn) = [fn]"
| "in_hand _ = []"

section \<open>What every run keeps\<close>

definition held :: "'a pool \<Rightarrow> 'a multiset" where
  "held s = \<Sum>\<^sub># (mset (map (mset \<circ> in_hand) (tq_workers s)))"

definition pool_ok :: "'a pool \<Rightarrow> bool" where
  "pool_ok s \<longleftrightarrow> tq_pushed s = tq_taken s @ tq_queue s \<and> mset (tq_taken s) = held s + mset (tq_done s)"

lemma held_concat: "held s = mset (concat (map in_hand (tq_workers s)))"
proof -
  have "mset (concat (map in_hand ws)) = \<Sum>\<^sub># (mset (map (mset \<circ> in_hand) ws))" for ws :: "'a worker list"
    by (induction ws) simp_all
  then show ?thesis by (simp add: held_def)
qed

lemma held_update:
  "i < length ws \<Longrightarrow> \<Sum>\<^sub># (mset (map (mset \<circ> in_hand) (ws[i := w]))) + mset (in_hand (ws ! i)) =
     \<Sum>\<^sub># (mset (map (mset \<circ> in_hand) ws)) + mset (in_hand w)"
proof (induction ws arbitrary: i)
  case (Cons v ws)
  then show ?case by (cases i) (auto simp: ac_simps)
qed simp

text \<open>What the step of one thread does to the logs, in terms of what it has in hand.\<close>

lemma worker_step_logs:
  assumes "worker_step throws w s = Some (w', s')"
  shows "tq_workers s' = tq_workers s \<and> tq_pushed s' = tq_pushed s \<and> tq_active s' = tq_active s \<and>
    (\<exists>new. tq_taken s' = tq_taken s @ new \<and> tq_queue s = new @ tq_queue s' \<and>
      (\<exists>fin. tq_done s' = tq_done s @ fin \<and> mset (in_hand w) + mset new = mset (in_hand w') + mset fin))"
  using assms
  by (cases w) (auto simp: take_work_def split: if_splits list.splits)

lemma run_worker_ok:
  assumes "pool_ok s" and "run_worker throws i s = Some s'"
  shows "pool_ok s'"
proof -
  obtain w s1 where w: "i < length (tq_workers s)" "worker_step throws (tq_workers s ! i) s = Some (w, s1)"
    and s': "s' = s1\<lparr>tq_workers := (tq_workers s)[i := w]\<rparr>"
    using assms(2) by (auto simp: run_worker_def split: if_splits option.splits)
  obtain new fin where l: "tq_taken s1 = tq_taken s @ new" "tq_queue s = new @ tq_queue s1" "tq_done s1 = tq_done s @ fin"
    "mset (in_hand (tq_workers s ! i)) + mset new = mset (in_hand w) + mset fin" "tq_pushed s1 = tq_pushed s"
    using worker_step_logs [OF w(2)] by blast
  have "held s' + mset (in_hand (tq_workers s ! i)) = held s + mset (in_hand w)"
    using held_update [OF w(1), of w] by (simp add: held_def s')
  then have "held s + mset new = held s' + mset fin"
    using l(4) by (smt (verit) add.assoc add.commute add_left_cancel)
  then show ?thesis
    using assms(1) l by (simp add: pool_ok_def s' held_def)
qed

lemma pool_step_ok: "pool_ok s \<Longrightarrow> pool_step throws s m s' \<Longrightarrow> pool_ok s'"
proof (erule pool_stepE)
  show "pool_ok s \<Longrightarrow> run_worker throws i s = Some s' \<Longrightarrow> pool_ok s'" for i by (rule run_worker_ok)
qed (simp_all add: pushToQueue_def deployed_def close_pool_def pool_ok_def held_def)

lemma pool_run_ok: "pool_run throws s ms s' \<Longrightarrow> pool_ok s \<Longrightarrow> pool_ok s'"
  by (induction rule: pool_run.induct) (auto intro: pool_step_ok)

lemma held_new: "\<Sum>\<^sub># (mset (map (mset \<circ> in_hand) (replicate n Waiting))) = {#}"
  by (induction n) simp_all

lemma pool_ok_new: "pool_ok (new_pool b n)"
  by (simp add: pool_ok_def new_pool_def held_def held_new)

section \<open>Properties\<close>

text \<open>
  C8: whatever the threads and those that push do, the tasks are taken in the order they were pushed,
  none twice and none skipped; each that was taken is in the hand of one thread or completed, once.
\<close>

theorem tasks_are_taken_in_order:
  assumes "pool_run throws (new_pool b n) ms s"
  shows "tq_pushed s = tq_taken s @ tq_queue s \<and>
    mset (tq_taken s) = mset (concat (map in_hand (tq_workers s))) + mset (tq_done s)"
  using pool_run_ok [OF assms pool_ok_new] by (simp add: pool_ok_def held_concat)

theorem tasks_are_taken_in_order_witness:
  "\<exists>s. pool_run (\<lambda>_. False) (new_pool True 1) [Push 7, Worker 0] (s :: nat pool) \<and> tq_pushed s = tq_taken s @ tq_queue s"
proof -
  have "pool_run (\<lambda>_. False) (new_pool True 1) [Push 7, Worker 0] \<lparr>tq_queue = [], tq_accepting = True, tq_active = True,
      tq_workers = [Took (7 :: nat)], tq_count = 0, tq_crashed = False, tq_pushed = [7], tq_taken = [7], tq_done = []\<rparr>"
    by (simp add: pool_step_simps new_pool_def pushToQueue_def run_worker_def take_work_def)
  with tasks_are_taken_in_order [OF this] show ?thesis by blast
qed

text \<open>
  Once the destructor has begun, nothing is taken from the queue: what waits in it then is never run.
\<close>

theorem closed_pool_takes_nothing:
  assumes "pool_run throws s ms s'" and "\<not> tq_active s"
  shows "tq_taken s' = tq_taken s \<and> (\<exists>more. tq_queue s' = tq_queue s @ more)"
  using assms
proof (induction rule: pool_run.induct)
  case (move s m s1 ms s2)
  have "\<not> tq_active s1 \<and> tq_taken s1 = tq_taken s \<and> (\<exists>more. tq_queue s1 = tq_queue s @ more)"
    using move.hyps(1) move.prems
  proof (cases rule: pool_step.cases)
    case (work i)
    then show ?thesis using move.prems
      by (cases "tq_workers s ! i") (auto simp: run_worker_def take_work_def split: if_splits)
  qed (auto simp: pushToQueue_def deployed_def close_pool_def)
  with move.IH show ?case by auto
qed auto

theorem closed_pool_takes_nothing_witness:
  "\<exists>s. pool_run (\<lambda>_. False) (close_pool (pushToQueue 7 (new_pool True 1))) [Worker 0] (s :: nat pool) \<and> tq_taken s = []"
proof -
  let ?s = "close_pool (pushToQueue 7 (new_pool True 1)) :: nat pool"
  have "pool_run (\<lambda>_. False) ?s [Worker 0] (?s\<lparr>tq_workers := [Ended]\<rparr>)" "\<not> tq_active ?s" "tq_taken ?s = []"
    by (simp_all add: pool_step_simps new_pool_def pushToQueue_def close_pool_def run_worker_def take_work_def)
  with closed_pool_takes_nothing [OF this(1,2)] show ?thesis by auto
qed

lemma pool_step_workers: "pool_step throws s m s' \<Longrightarrow> length (tq_workers s') = length (tq_workers s)"
  by (erule pool_stepE) (auto simp: pushToQueue_def deployed_def close_pool_def run_worker_def split: if_splits option.splits)

lemma pool_run_workers: "pool_run throws s ms s' \<Longrightarrow> length (tq_workers s') = length (tq_workers s)"
  by (induction rule: pool_run.induct) (simp_all add: pool_step_workers)

lemma in_hand_le: "length (concat (map in_hand ws)) \<le> length ws"
proof (induction ws)
  case (Cons w ws)
  then show ?case by (cases w) simp_all
qed simp

text \<open>
  A thread serves a connection until it ends, and there are as many threads as were made: no more
  connections than these are in service at any moment, and who comes when they all are waits.
\<close>

theorem served_at_once_bounded:
  assumes "pool_run throws (new_pool b (num_threads hc)) ms s"
  shows "length (tq_taken s) \<le> length (tq_done s) + max 2 (hc div 2)"
proof -
  have "size (mset (tq_taken s)) = size (held s) + size (mset (tq_done s))"
    using pool_run_ok [OF assms pool_ok_new] by (simp add: pool_ok_def)
  moreover have "length (tq_workers s) = max 2 (hc div 2)"
    using pool_run_workers [OF assms] by (simp add: new_pool_def num_threads_def Let_def max_def)
  ultimately show ?thesis using in_hand_le [of "tq_workers s"] by (simp add: held_concat flip: length_concat)
qed

lemma two_waiting: "replicate 2 Waiting = [Waiting, Waiting :: 'a worker]"
  by (simp add: numeral_2_eq_2)

theorem served_at_once_bounded_witness:
  "\<exists>s. pool_run (\<lambda>_. False) (new_pool True (num_threads 1)) [Push CHR ''a'', Worker 0, Worker 0] (s :: char pool) \<and>
     length (tq_taken s) \<le> 2"
proof -
  let ?t = "\<lparr>tq_queue = [], tq_accepting = True, tq_active = True, tq_workers = [Counting_up CHR ''a'' 0, Waiting], tq_count = 0,
     tq_crashed = False, tq_pushed = [CHR ''a''], tq_taken = [CHR ''a''], tq_done = []\<rparr>"
  have run: "pool_run (\<lambda>_. False) (new_pool True (num_threads 1)) [Push CHR ''a'', Worker 0, Worker 0] ?t"
    by (simp add: pool_step_simps new_pool_def num_threads_def pushToQueue_def run_worker_def take_work_def two_waiting)
  show ?thesis
    by (rule exI [of _ ?t], rule conjI [OF run]) (use served_at_once_bounded [OF run] in simp)
qed

section \<open>The counter and the number of threads\<close>

text \<open>
  Two tasks whose threads read the counter before either writes it, on the way up and then one after the
  other on the way down.
\<close>

definition lost_update :: "'a \<Rightarrow> 'a mover list" where
  "lost_update fn = [Push fn, Push fn, Worker 0, Worker 1, Worker 0, Worker 1, Worker 0, Worker 1, Worker 0, Worker 1,
     Worker 0, Worker 0, Worker 1, Worker 1]"

text \<open>
  The counter of the threads at work is not kept right by the threads: there is a run of two after which
  neither has work, nothing waits, and the status says that all but one of 2 to the 64 are at work.
\<close>

theorem counter_can_be_wrong:
  "\<exists>s. pool_run (\<lambda>_. False) (new_pool b 2) (lost_update fn) s \<and>
     tq_workers s = [Waiting, Waiting] \<and> tq_queue s = [] \<and> tq_done s = [fn, fn] \<and> pool_size s = - 1"
proof -
  show ?thesis
    by (simp add: two_waiting lost_update_def pool_step_simps new_pool_def pushToQueue_def run_worker_def take_work_def pool_size_def)
qed

lemma deploy_loop_ends:
  "n \<le> 255 \<Longrightarrow> unat i \<le> n \<Longrightarrow> deploy_loop i n k = Some (k + (n - unat i))"
proof (induction "n - unat i" arbitrary: i k)
  case 0
  then show ?case by (simp add: deploy_loop.simps [of i])
next
  case (Suc d)
  then have less: "unat i < n" by simp
  with Suc.prems(1) have "i \<noteq> - 1" by (auto simp: unsigned_minus_1_eq_mask mask_eq_exp_minus_1)
  then have "unat (i + 1) = Suc (unat i)" by (metis add.commute add_eq_0_iff2 unatSuc)
  with Suc less show ?case by (simp add: deploy_loop.simps [of i])
qed

lemma deploy_loop_endless:
  assumes "deploy_loop i n k = Some r"
  shows "n \<le> 255"
  using assms
proof (rule deploy_loop.raw_induct [rotated])
  fix loop :: "8 word \<Rightarrow> nat \<Rightarrow> nat \<Rightarrow> nat option" and i n k r
  assume rec: "\<And>i n k r. loop i n k = Some r \<Longrightarrow> n \<le> 255"
    and run: "(if unat i < n then loop (i + 1) n (Suc k) else Some k) = Some r"
  show "n \<le> 255"
  proof (cases "unat i < n")
    case False
    then show ?thesis using unsigned_less [of i, where ?'a = nat] by simp
  qed (use rec run in auto)
qed

lemma threads_deployed: "deployWorkers n = (if n \<le> 255 then Some n else None)"
proof (cases "n \<le> 255")
  case True
  then show ?thesis using deploy_loop_ends [OF True, of 0 0] by (simp add: deployWorkers_def)
next
  case False
  then have "deployWorkers n \<noteq> Some r" for r using deploy_loop_endless [of 0 n 0 r] by (auto simp: deployWorkers_def)
  with False show ?thesis by (simp add: not_Some_eq [symmetric] del: not_Some_eq)
qed

text \<open>
  Making the pool ends, with half as many threads as the machine runs at once and at least two, if that half is at
  most 255, and never ends if it is more: the counter of the loop is a byte.
\<close>

theorem pool_made_iff:
  "initialize_pool hc = (if hc div 2 \<le> 255 then Some (max 2 (hc div 2)) else None)"
  by (simp add: initialize_pool_def threads_deployed num_threads_def Let_def max_def)

end
