(* ===== verification/SocketListener.thy ===== *)
theory SocketListener
  imports Server TaskQueue
begin

text \<open>
  The listener the server is built on: \<open>interface/socket_listener.hpp\<close> and \<open>src/socket_listener.cpp\<close>.

  What the system answers (\<open>socket\<close>, \<open>bind\<close>, \<open>listen\<close>, \<open>send\<close>, \<open>recv\<close>) is an argument; the map \<open>m_fds\<close> of
  the descriptors that are served is a member of the server's state, because the end of a session
  writes it. The handler of a connection is the task of a thread of the pool (\<open>TaskQueue\<close>).

  Shown: the address and the port are read back from the arguments that give them, but a program whose
  path contains \<open>ip\<close> takes part of its path for its address; what is sent is sent in full
  when no call fails, and after a call that fails a byte is sent twice or memory outside the text is
  read; a handler that looks again reads nothing of a connection whose session has ended, and nothing either of a new
  connection if it runs before the listener has noted its descriptor.
\<close>

section \<open>Arguments\<close>

record listener_args =
  la_ip :: string
  la_port :: int

definition IS_ARGUMENT :: "string \<Rightarrow> string \<Rightarrow> bool" where
  "IS_ARGUMENT s arg \<longleftrightarrow> find_str arg s \<noteq> None"

fun parse_arguments :: "string list \<Rightarrow> listener_args \<Rightarrow> listener_args res" where
  "parse_arguments [] a = Inr a"
| "parse_arguments (argument # rest) a =
     (if IS_ARGUMENT argument ''ip'' then
        bind (substr_from argument 5) (\<lambda>ip. parse_arguments rest (a\<lparr>la_ip := ip\<rparr>))
      else if IS_ARGUMENT argument ''port'' then
        bind (substr_from argument 7) (\<lambda>p. bind (stoi p) (\<lambda>port. parse_arguments rest (a\<lparr>la_port := port\<rparr>)))
      else parse_arguments rest a)"

definition new_listener :: "string list \<Rightarrow> listener_args res" where
  "new_listener args = parse_arguments args \<lparr>la_ip = ''0.0.0.0'', la_port = 9009\<rparr>"

text \<open>\<open>htons(m_port)\<close>: the port that is bound.\<close>

definition bound_port :: "listener_args \<Rightarrow> 16 word" where
  "bound_port a = word_of_int (la_port a)"

definition SOCKET_ERROR :: int where "SOCKET_ERROR = - 1"
definition WAIT_SOCKET_FAILURE :: int where "WAIT_SOCKET_FAILURE = - 1"

definition createSocket :: "int \<Rightarrow> int \<Rightarrow> int \<Rightarrow> int" where
  "createSocket socket_fd bind_result listen_result =
     (if socket_fd \<noteq> SOCKET_ERROR \<and> bind_result \<noteq> SOCKET_ERROR \<and> listen_result \<noteq> SOCKET_ERROR
      then socket_fd else WAIT_SOCKET_FAILURE)"

section \<open>Sending\<close>

text \<open>
  The bytes that leave, \<open>None\<close> while it still sends after the calls whose results are given. What is passed
  to the system at a negative offset lies before the text.
\<close>

function socket_send :: "string \<Rightarrow> int \<Rightarrow> int list \<Rightarrow> string option res" where
  "socket_send data bytes_sent rs =
     (if int (length data) \<le> bytes_sent then Inr (Some [])
      else if bytes_sent < 0 then Inl Undefined
      else case rs of [] \<Rightarrow> Inr None
      | r # rest \<Rightarrow> bind (socket_send data (bytes_sent + r) rest) (\<lambda>out.
          Inr (map_option ((@) (take (nat r) (drop (nat bytes_sent) data))) out)))"
  by pat_completeness auto
termination by (relation "measure (\<lambda>(_, _, rs). length rs)") auto

declare socket_send.simps [simp del]

definition sendMessage :: "string option \<Rightarrow> int list \<Rightarrow> string option res" where
  "sendMessage buffer rs = (case buffer of None \<Rightarrow> Inr (Some []) | Some data \<Rightarrow> socket_send (c_str data) 0 rs)"

definition sendMessage_sized :: "string \<Rightarrow> int list \<Rightarrow> string option res" where
  "sendMessage_sized buffer rs = socket_send buffer 0 rs"

section \<open>A connection\<close>

datatype recv_result = Received string | Timed_out | Disconnected

text \<open>\<open>m_fds[fd]\<close> makes an entry where there is none.\<close>

definition fd_served :: "int \<Rightarrow> (('db, 'h) kserver, bool) act" where
  "fd_served fd s = (case map_of (sv_fds s) fd of
     Some b \<Rightarrow> (Inr b, s) | None \<Rightarrow> (Inr False, s\<lparr>sv_fds := AList.update fd False (sv_fds s)\<rparr>))"

text \<open>
  What the handler does with a result of \<open>recv\<close>, whether or not the descriptor is still served by then; the answer is whether
  it leaves its loop.
\<close>

definition recv_done :: "('db, 'h) server_env \<Rightarrow> nat \<Rightarrow> int \<Rightarrow> recv_result \<Rightarrow> (('db, 'h) kserver, bool) act" where
  "recv_done L n fd r = (case r of
     Received bytes \<Rightarrow> seq (onMessageReceived L n fd bytes) (\<lambda>_. ret False)
   | Timed_out \<Rightarrow> ret False
   | Disconnected \<Rightarrow> seq (onConnectionClose fd) (\<lambda>_. ret True))"

text \<open>
  The handler from the head of its loop, where it looks whether the descriptor is served and then waits in \<open>recv\<close>;
  the answer is whether it has closed the descriptor, or waits for more.
\<close>

fun handleClientSocket :: "('db, 'h) server_env \<Rightarrow> nat \<Rightarrow> int \<Rightarrow> recv_result list \<Rightarrow> (('db, 'h) kserver, bool) act" where
  "handleClientSocket L n fd [] = seq (fd_served fd) (\<lambda>b. ret (\<not> b))"
| "handleClientSocket L n fd (r # rest) = seq (fd_served fd) (\<lambda>b.
     if \<not> b then ret True
     else seq (recv_done L n fd r) (\<lambda>left. if left then ret True else handleClientSocket L n fd rest))"

text \<open>
  A handler that has looked already and waits in \<open>recv\<close>: while it waits other threads go on, and what it gets it takes without
  looking again.
\<close>

fun handler_waiting :: "('db, 'h) server_env \<Rightarrow> nat \<Rightarrow> int \<Rightarrow> recv_result list \<Rightarrow> (('db, 'h) kserver, bool) act" where
  "handler_waiting L n fd [] = ret False"
| "handler_waiting L n fd (r # rest) =
     seq (recv_done L n fd r) (\<lambda>left. if left then ret True else handleClientSocket L n fd rest)"

lemma handler_looks_and_waits:
  "handleClientSocket L n fd rs = seq (fd_served fd) (\<lambda>b. if \<not> b then ret True else handler_waiting L n fd rs)"
  by (cases rs) (auto simp: fun_eq_iff seq_def split: prod.splits sum.splits)

text \<open>
  What the listening thread does with a connection: the handler is pushed, and then the descriptor noted.
\<close>

definition note_client :: "int \<Rightarrow> ('db, 'h) server_act" where
  "note_client fd = modify (\<lambda>s. s\<lparr>sv_fds := AList.update fd True (sv_fds s)\<rparr>)"

definition accept_client :: "int \<Rightarrow> int pool \<Rightarrow> ('db, 'h) kserver \<Rightarrow> int pool \<times> ('db, 'h) kserver" where
  "accept_client fd pool s = (pushToQueue fd pool, snd (note_client fd s))"

text \<open>The loop of \<open>run\<close> over the descriptors that \<open>createSocket\<close> and \<open>accept\<close> give.\<close>

fun listener_run :: "bool \<Rightarrow> (int \<times> int) list \<Rightarrow> int pool \<Rightarrow> ('db, 'h) kserver \<Rightarrow> bool \<times> int pool \<times> ('db, 'h) kserver" where
  "listener_run test_mode [] pool s = (True, pool, s)"
| "listener_run test_mode ((listening, client) # rest) pool s =
     (if listening = SOCKET_ERROR then (False, pool, s)
      else if client \<noteq> SOCKET_ERROR then
        (let (pool', s') = accept_client client pool s in
         if test_mode then (False, pool', s') else listener_run test_mode rest pool' s')
      else listener_run test_mode rest pool s)"

section \<open>Properties\<close>

lemma find_str_absent: "c \<notin> set s \<Longrightarrow> find_str (c # cs) s = None"
  by (induction s) simp_all

lemma no_digit_letter: "CHR ''i'' \<notin> set (int_to_string i)"
proof
  assume "CHR ''i'' \<in> set (int_to_string i)"
  then show False using int_to_string_chars [of "CHR ''i''" i] by (simp add: is_digit_def)
qed

lemma port_argument: "IS_ARGUMENT (''--port='' @ int_to_string i) ''port''" "\<not> IS_ARGUMENT (''--port='' @ int_to_string i) ''ip''"
proof -
  show "\<not> IS_ARGUMENT (''--port='' @ int_to_string i) ''ip''"
    unfolding IS_ARGUMENT_def using no_digit_letter [of i] by (subst find_str_absent) auto
qed (simp add: IS_ARGUMENT_def)

lemma parse_port:
  assumes "int32_min \<le> i" and "i \<le> int32_max" and "p = ''--port='' @ int_to_string i"
  shows "parse_arguments (p # rest) a = parse_arguments rest (a\<lparr>la_port := i\<rparr>)"
proof -
  have "substr_from p 7 = Inr (int_to_string i)" by (simp add: assms(3))
  moreover have "IS_ARGUMENT p ''port''" "\<not> IS_ARGUMENT p ''ip''" using port_argument [of i] assms(3) by blast+
  ultimately show ?thesis using assms(1,2) by simp
qed

lemma parse_ip: "s = ''--ip='' @ addr \<Longrightarrow> parse_arguments (s # rest) a = parse_arguments rest (a\<lparr>la_ip := addr\<rparr>)"
proof -
  assume s: "s = ''--ip='' @ addr"
  have "substr_from s 5 = Inr addr" "IS_ARGUMENT s ''ip''" by (simp_all add: s IS_ARGUMENT_def)
  then show ?thesis by simp
qed

lemma parse_name:
  "IS_ARGUMENT prog ''ip'' \<Longrightarrow> 5 \<le> length prog \<Longrightarrow>
    parse_arguments (prog # rest) a = parse_arguments rest (a\<lparr>la_ip := drop 5 prog\<rparr>)"
  "\<not> IS_ARGUMENT prog ''ip'' \<Longrightarrow> \<not> IS_ARGUMENT prog ''port'' \<Longrightarrow> parse_arguments (prog # rest) a = parse_arguments rest a"
  by simp_all

text \<open>
  The address and the port that arguments give are read back; but the name of the program is read as an
  argument too: one in which \<open>ip\<close> occurs anywhere is taken for the address, less its first five letters.
\<close>

theorem listener_arguments:
  assumes "int32_min \<le> i" and "i \<le> int32_max"
  shows "(if IS_ARGUMENT prog ''ip'' then 5 \<le> length prog \<longrightarrow>
        new_listener [prog, ''--port='' @ int_to_string i] = Inr \<lparr>la_ip = drop 5 prog, la_port = i\<rparr>
      else \<not> IS_ARGUMENT prog ''port'' \<longrightarrow>
        new_listener [prog, ''--ip='' @ addr, ''--port='' @ int_to_string i] = Inr \<lparr>la_ip = addr, la_port = i\<rparr>)"
proof (cases "IS_ARGUMENT prog ''ip''")
  case True
  then show ?thesis
    unfolding new_listener_def if_P [OF True] using parse_name(1) [OF True]
    by (intro impI) (simp only: parse_port [OF assms refl] parse_arguments.simps(1), simp)
next
  case False
  then show ?thesis
    unfolding new_listener_def if_not_P [OF False] using parse_name(2) [OF False]
    by (intro impI) (simp only: simp_thms parse_ip [OF refl] parse_port [OF assms refl] parse_arguments.simps(1), simp)
qed

theorem listener_arguments_witness:
  "new_listener [''/home/philip/kserver'', ''--port=9009''] = Inr \<lparr>la_ip = ''/philip/kserver'', la_port = 9009\<rparr>"
proof -
  let ?prog = "''/home/philip/kserver''"
  have ip: "IS_ARGUMENT ?prog ''ip''" by code_simp
  have i: "int32_min \<le> 9009" "9009 \<le> int32_max" by (simp_all add: int32_min_def int32_max_def)
  have port: "''--port='' @ int_to_string 9009 = ''--port=9009''"
    by (simp add: int_to_string_def nat_digits.simps digit_char_def char_of_def bit_Suc_0_iff)
  have rest: "drop 5 ?prog = ''/philip/kserver''" by simp
  have "5 \<le> length ?prog \<longrightarrow> new_listener [?prog, ''--port='' @ int_to_string 9009] = Inr \<lparr>la_ip = drop 5 ?prog, la_port = 9009\<rparr>"
    using listener_arguments [OF i, of ?prog] unfolding if_P [OF ip] .
  then have "5 \<le> length ?prog \<longrightarrow> new_listener [?prog, ''--port=9009''] = Inr \<lparr>la_ip = ''/philip/kserver'', la_port = 9009\<rparr>"
    unfolding port rest .
  moreover have "5 \<le> length ?prog" by simp
  ultimately show ?thesis by (rule mp)
qed

text \<open>
  When each call of \<open>send\<close> takes at least one byte of those it is given, what leaves is the text, each
  byte once and in order, and the loop ends.
\<close>

theorem sent_in_full:
  assumes "\<forall>r \<in> set rs. 0 < r" and "sum_list rs = int (length data)"
  shows "sendMessage_sized data rs = Inr (Some data)"
proof -
  have "socket_send data k rs = Inr (Some (drop (nat k) data))"
    if "0 \<le> k" "\<forall>r \<in> set rs. 0 < r" "k + sum_list rs = int (length data)" for k
    using that
  proof (induction rs arbitrary: k)
    case Nil
    then show ?case by (simp add: socket_send.simps)
  next
    case (Cons r rs)
    have "0 \<le> sum_list rs" using Cons.prems(2) by (intro sum_list_nonneg) auto
    then have k: "k < int (length data)" using Cons.prems by auto
    have "socket_send data (k + r) rs = Inr (Some (drop (nat (k + r)) data))"
      using Cons.prems by (intro Cons.IH) auto
    moreover have "take (nat r) (drop (nat k) data) @ drop (nat (k + r)) data = drop (nat k) data"
      using Cons.prems by (subst nat_add_distrib) (auto, metis append_take_drop_id drop_drop add.commute)
    ultimately show ?case using k Cons.prems(1) by (subst socket_send.simps) simp
  qed
  from this [of 0] assms show ?thesis by (simp add: sendMessage_sized_def)
qed

theorem sent_in_full_witness:
  "sendMessage_sized ''hello'' [2, 3] = Inr (Some ''hello'')"
  by (rule sent_in_full) simp_all

text \<open>
  A call of \<open>send\<close> that fails takes a byte back: if some of the text had left, its last byte leaves a
  second time, and if none had, the next call reads before the text.
\<close>

theorem failed_send_goes_back:
  assumes "0 < k" and "k < int (length data)" and "0 < length data"
  shows "sendMessage_sized data [k, - 1, int (length data) - k + 1] =
      Inr (Some (take (nat k) data @ drop (nat (k - 1)) data)) \<and>
    sendMessage_sized data (- 1 # rest) = Inl Undefined"
proof
  have "socket_send data (int (length data)) [] = Inr (Some [])" by (simp add: socket_send.simps)
  moreover have "take (nat (int (length data) - k + 1)) (drop (nat (k - 1)) data) = drop (nat (k - 1)) data"
    using assms by simp
  ultimately show "sendMessage_sized data [k, - 1, int (length data) - k + 1] =
      Inr (Some (take (nat k) data @ drop (nat (k - 1)) data))"
    using assms by (simp add: sendMessage_sized_def socket_send.simps [of data 0] socket_send.simps [of data k]
        socket_send.simps [of data "k - 1"])
next
  show "sendMessage_sized data (- 1 # rest) = Inl Undefined"
    using assms(3) by (simp add: sendMessage_sized_def socket_send.simps [of data 0] socket_send.simps [of data "- 1"])
qed

theorem failed_send_goes_back_witness:
  "sendMessage_sized ''hello'' [2, - 1, 4] = Inr (Some ''heello'')"
  using failed_send_goes_back [of 2 "''hello''"] by simp

lemma not_served_closes:
  assumes "map_of (sv_fds s) fd \<noteq> Some True"
  shows "handleClientSocket L n fd rs s = (Inr True, s\<lparr>sv_fds := AList.update fd False (sv_fds s)\<rparr>)"
proof (cases "map_of (sv_fds s) fd")
  case None
  then show ?thesis by (cases rs) (simp_all add: fd_served_def seq_def)
next
  case (Some v)
  with assms have v: "map_of (sv_fds s) fd = Some False" by simp
  then have "AList.update fd False (sv_fds s) = sv_fds s" by (rule AList.update_triv)
  with v show ?thesis by (cases rs) (simp_all add: fd_served_def seq_def)
qed

lemma EndSession_shuts:
  assumes "EndSession fd status s = (Inr (), s')"
  shows "sv_shut s' = sv_shut s @ [fd]"
proof -
  obtain r s1 where s1: "(if sm_has (sv_sessions s) fd
          then seq (change_sessions (sm_change fd (\<lambda>k. k\<lparr>ks_status := status\<rparr>))) (\<lambda>_.
                 if HandlingFile fd s then SetFileNotPending else ret ())
          else ret ()) s = (r, s1)" by force
  have "sv_shut s1 = sv_shut s"
    using s1 by (auto simp: change_sessions_def SetFileNotPending_def seq_def split: if_splits sum.splits prod.splits)
  moreover have "s' = shut_fd fd s1"
    using assms s1 by (cases r) (simp_all add: EndSession_def seq_def)
  ultimately show ?thesis by simp
qed

text \<open>
  The handler is pushed before the descriptor is noted. If its thread comes first, a connection with a new
  descriptor, or one that ended before, is closed without a byte of it being read; once noted, it is read.
\<close>

theorem early_handler_drops_client:
  assumes "map_of (sv_fds s) fd \<noteq> Some True"
  shows "\<exists>fds. handleClientSocket L n fd rs s = (Inr True, s\<lparr>sv_fds := fds\<rparr>) \<and> map_of fds fd = Some False \<and>
    handleClientSocket L n fd (Received b # rs) (snd (note_client fd s)) =
      seq (onMessageReceived L n fd b) (\<lambda>_. handleClientSocket L n fd rs) (snd (note_client fd s))"
proof (intro exI conjI)
  show "handleClientSocket L n fd rs s = (Inr True, s\<lparr>sv_fds := AList.update fd False (sv_fds s)\<rparr>)"
    by (rule not_served_closes [OF assms])
qed (auto simp: update_conv fd_served_def seq_def note_client_def recv_done_def split: prod.splits sum.splits)

theorem early_handler_drops_client_witness:
  "fst (handleClientSocket sample_env 0 8 [Received ''x''] (server_with one_session)) = Inr True"
proof -
  have "map_of (sv_fds (server_with one_session)) 8 \<noteq> Some True"
    by (simp add: server_with_def controller.defs kserver.defs)
  from early_handler_drops_client [OF this, of sample_env 0 "[Received ''x'']" "''x''"] show ?thesis by (auto simp del: handleClientSocket.simps)
qed

end
