(* ===== verification/Config.thy ===== *)
theory Config
  imports JsonTools EnvFiles
begin

text \<open>
  The configuration: the reader of INI files (\<open>config/INIReader.h\<close>), the functions over it
  (\<open>config/config_parser.cpp\<close>) and the command line (\<open>config_parser.hpp\<close>).

  A file is its text. \<open>GetInteger\<close>, \<open>GetReal\<close> and \<open>GetFloat\<close> are not used by the program and not modelled.

  Shown: the pairs of a well-formed file are read back; a line that cannot be read makes the program
  take another file for the whole of it; without any file it does not start; \<open>--loglevel\<close> alone ends
  the program before it starts.
\<close>

section \<open>The scanner\<close>

definition INI_MAX_LINE :: nat where "INI_MAX_LINE = 200"
definition MAX_SECTION :: nat where "MAX_SECTION = 50"
definition MAX_NAME :: nat where "MAX_NAME = 50"

definition rstrip :: "string \<Rightarrow> string" where
  "rstrip s = rev (dropWhile is_space (rev s))"

definition lskip :: "string \<Rightarrow> string" where
  "lskip s = dropWhile is_space s"

text \<open>What comes before the character, or comment, that is found, and the rest from it on.\<close>

fun scan :: "bool \<Rightarrow> string \<Rightarrow> string \<Rightarrow> string \<times> string" where
  "scan was_space chars [] = ([], [])"
| "scan was_space chars (c # s) =
     (if c \<in> set chars \<or> (was_space \<and> c = CHR '';'') then ([], c # s)
      else apfst ((#) c) (scan (is_space c) chars s))"

definition find_chars_or_comment :: "string \<Rightarrow> string \<Rightarrow> string \<times> string" where
  "find_chars_or_comment s chars = scan False chars s"

definition strncpy0 :: "string \<Rightarrow> nat \<Rightarrow> string" where
  "strncpy0 src n = take (n - 1) src"

section \<open>The reader\<close>

record ini_reader =
  ir_error :: int
  ir_values :: "string \<rightharpoonup> string"
  ir_sections :: "string set"

definition MakeKey :: "string \<Rightarrow> string \<Rightarrow> string" where
  "MakeKey sec name = ToLower (sec @ ''='' @ name)"

definition ValueHandler :: "string \<Rightarrow> string \<Rightarrow> string \<Rightarrow> ini_reader \<Rightarrow> ini_reader" where
  "ValueHandler sec name val r =
     (let key = MakeKey sec name; old = (case ir_values r key of None \<Rightarrow> [] | Some v \<Rightarrow> v) in
      r\<lparr>ir_values := (ir_values r)(key \<mapsto> (if length old > 0 then old @ [newline] else old) @ val),
        ir_sections := insert sec (ir_sections r)\<rparr>)"

definition Get :: "ini_reader \<Rightarrow> string \<Rightarrow> string \<Rightarrow> string \<Rightarrow> string" where
  "Get r sec name dflt = (case ir_values r (MakeKey sec name) of None \<Rightarrow> dflt | Some v \<Rightarrow> v)"

definition GetBoolean :: "ini_reader \<Rightarrow> string \<Rightarrow> string \<Rightarrow> bool \<Rightarrow> bool" where
  "GetBoolean r sec name dflt =
     (let valstr = ToLower (Get r sec name []) in
      if valstr \<in> {''true'', ''yes'', ''on'', ''1''} then True
      else if valstr \<in> {''false'', ''no'', ''off'', ''0''} then False
      else dflt)"

section \<open>A line\<close>

record ini_state =
  is_section :: string
  is_prev_name :: string
  is_error :: int
  is_reader :: ini_reader

definition has_bom :: "nat \<Rightarrow> string \<Rightarrow> bool" where
  "has_bom lineno line \<longleftrightarrow> lineno = 1 \<and> take 3 line = [CHR 0xEF, CHR 0xBB, CHR 0xBF]"

definition line_error :: "nat \<Rightarrow> ini_state \<Rightarrow> ini_state" where
  "line_error lineno st = (if is_error st = 0 then st\<lparr>is_error := int lineno\<rparr> else st)"

definition handle_value :: "string \<Rightarrow> string \<Rightarrow> ini_state \<Rightarrow> ini_state" where
  "handle_value name val st = st\<lparr>is_reader := ValueHandler (is_section st) name val (is_reader st)\<rparr>"

definition parse_line :: "nat \<Rightarrow> string \<Rightarrow> ini_state \<Rightarrow> ini_state" where
  "parse_line lineno line st =
     (let text = rstrip (if has_bom lineno line then drop 3 line else line);
          start = lskip text;
          moved = has_bom lineno line \<or> length start < length text
      in case start of
           [] \<Rightarrow> st
         | c # rest \<Rightarrow>
             if c = CHR '';'' \<or> c = CHR ''#'' then st
             else if is_prev_name st \<noteq> [] \<and> moved then
               handle_value (is_prev_name st) (rstrip (fst (find_chars_or_comment start []))) st
             else if c = CHR ''['' then
               (case find_chars_or_comment rest '']'' of (name, found) \<Rightarrow>
                  if take 1 found = '']'' then st\<lparr>is_section := strncpy0 name MAX_SECTION, is_prev_name := []\<rparr>
                  else line_error lineno st)
             else
               (case find_chars_or_comment start ''=:'' of (name, found) \<Rightarrow>
                  if take 1 found = ''='' \<or> take 1 found = '':'' then
                    (let val = rstrip (fst (find_chars_or_comment (lskip (drop 1 found)) []))
                     in handle_value (rstrip name) val (st\<lparr>is_prev_name := strncpy0 (rstrip name) MAX_NAME\<rparr>))
                  else line_error lineno st))"

section \<open>A file\<close>

text \<open>\<open>fgets\<close>: through the next end of line, but at most 199 characters; what follows a NUL is not seen.\<close>

definition fgets :: "string \<Rightarrow> string \<times> string" where
  "fgets s =
     (let n = (case find_char newline s of None \<Rightarrow> INI_MAX_LINE - 1 | Some i \<Rightarrow> min (INI_MAX_LINE - 1) (Suc i))
      in (take n s, drop n s))"

function file_lines :: "string \<Rightarrow> string list" where
  "file_lines s = (if s = [] then [] else case fgets s of (l, rest) \<Rightarrow> c_str l # file_lines rest)"
  by pat_completeness auto
termination
proof (relation "measure length")
  fix s l rest :: string
  assume "s \<noteq> []" and "(l, rest) = fgets s"
  then show "(rest, s) \<in> measure length"
    by (auto simp: fgets_def INI_MAX_LINE_def Let_def split: option.splits)
qed simp

declare file_lines.simps [simp del]

fun parse_lines :: "nat \<Rightarrow> string list \<Rightarrow> ini_state \<Rightarrow> ini_state" where
  "parse_lines lineno [] st = st"
| "parse_lines lineno (l # ls) st = parse_lines (Suc lineno) ls (parse_line (Suc lineno) l st)"

definition empty_reader :: ini_reader where
  "empty_reader = \<lparr>ir_error = 0, ir_values = Map.empty, ir_sections = {}\<rparr>"

definition ini_parse_stream :: "string \<Rightarrow> ini_state" where
  "ini_parse_stream text =
     parse_lines 0 (file_lines text) \<lparr>is_section = [], is_prev_name = [], is_error = 0, is_reader = empty_reader\<rparr>"

text \<open>\<open>INIReader(filename)\<close>; \<open>None\<close> is a file that cannot be opened.\<close>

definition INIReader :: "string option \<Rightarrow> ini_reader" where
  "INIReader file = (case file of
     None \<Rightarrow> empty_reader\<lparr>ir_error := - 1\<rparr>
   | Some text \<Rightarrow> (let st = ini_parse_stream text in (is_reader st)\<lparr>ir_error := is_error st\<rparr>))"

section \<open>The configuration of the program\<close>

definition config_init :: "(string \<Rightarrow> string option) \<Rightarrow> ini_reader res" where
  "config_init files =
     (let r1 = INIReader (files ''config/config.ini'');
          r2 = (if ir_error r1 \<noteq> 0 then INIReader (files ''config/default.config.ini'') else r1);
          r3 = (if ir_error r2 \<noteq> 0 then INIReader (files ''../config/default.config.ini'') else r2)
      in if ir_error r3 \<noteq> 0 then Inl InvalidArgument else Inr r3)"

definition RequiredConfig :: "string \<Rightarrow> string" where
  "RequiredConfig arg = ''CONFIG REQUIRED: '' @ arg"

definition query :: "ini_reader \<Rightarrow> string \<Rightarrow> string \<Rightarrow> string" where
  "query r sec name = Get r sec name []"

definition System_admin :: "ini_reader \<Rightarrow> string" where
  "System_admin r = Get r ''system'' ''admin'' ''admin''"
definition Logging_level :: "ini_reader \<Rightarrow> string" where
  "Logging_level r = Get r ''logging'' ''level'' ''info''"
definition Logging_path :: "ini_reader \<Rightarrow> string" where
  "Logging_path r = Get r ''logging'' ''path'' (RequiredConfig ''[logging] path'')"
definition Logging_timestamp :: "ini_reader \<Rightarrow> string" where
  "Logging_timestamp r = Get r ''logging'' ''timestamp'' ''true''"
definition Database_pass :: "ini_reader \<Rightarrow> string" where
  "Database_pass r = Get r ''database'' ''password'' (RequiredConfig ''[database] password'')"
definition Database_name :: "ini_reader \<Rightarrow> string" where
  "Database_name r = Get r ''database'' ''name'' (RequiredConfig ''[database] name'')"
definition Database_user :: "ini_reader \<Rightarrow> string" where
  "Database_user r = Get r ''database'' ''user'' (RequiredConfig ''[database] user'')"
definition Database_port :: "ini_reader \<Rightarrow> string" where
  "Database_port r = Get r ''database'' ''port'' (RequiredConfig ''[database] port'')"
definition Database_host :: "ini_reader \<Rightarrow> string" where
  "Database_host r = Get r ''database'' ''host'' (RequiredConfig ''[database] host'')"
definition Process_executor :: "ini_reader \<Rightarrow> string" where
  "Process_executor r = Get r ''process'' ''executor'' (RequiredConfig ''[process] executor'')"
definition Process_ipc_port :: "ini_reader \<Rightarrow> string" where
  "Process_ipc_port r = Get r ''process'' ''ipc_port'' ''28473''"
definition Process_tg_dest :: "ini_reader \<Rightarrow> string" where
  "Process_tg_dest r = Get r ''process'' ''tg_dest'' ''-1''"
definition Process_broker_address :: "ini_reader \<Rightarrow> string" where
  "Process_broker_address r = Get r ''process'' ''broker_address'' (RequiredConfig ''[process] broker_address'')"
definition Process_sentnl_address :: "ini_reader \<Rightarrow> string" where
  "Process_sentnl_address r = Get r ''process'' ''sentnl_address'' (RequiredConfig ''[process] sentnl_address'')"
definition Process_kai_address :: "ini_reader \<Rightarrow> string" where
  "Process_kai_address r = Get r ''process'' ''kai_address'' (RequiredConfig ''[process] broker_address'')"
definition Email_notification :: "ini_reader \<Rightarrow> string" where
  "Email_notification r = Get r ''email'' ''notification'' (RequiredConfig ''[email] notification'')"
definition Email_admin :: "ini_reader \<Rightarrow> string" where
  "Email_admin r = Get r ''email'' ''admin'' (RequiredConfig ''[email] admin'')"
definition Email_command :: "ini_reader \<Rightarrow> string" where
  "Email_command r = Get r ''email'' ''command'' (RequiredConfig ''[email] command'')"
definition Platform_affiliate_content :: "ini_reader \<Rightarrow> string \<Rightarrow> string" where
  "Platform_affiliate_content r type =
     (let key = ''affiliate_'' @ type in Get r ''platform'' key (RequiredConfig (''[platform] '' @ key)))"
definition Platform_default_user :: "ini_reader \<Rightarrow> string" where
  "Platform_default_user r = Get r ''platform'' ''default_user'' []"
definition ML_keural_path :: "ini_reader \<Rightarrow> string" where
  "ML_keural_path r = Get r ''machine_learning'' ''keural_path'' (RequiredConfig ''[machine_learning] input_path'')"
definition Security_token_path :: "ini_reader \<Rightarrow> string" where
  "Security_token_path r = Get r ''security'' ''token_path'' []"
definition Security_private_key :: "ini_reader \<Rightarrow> string" where
  "Security_private_key r = Get r ''security'' ''private_key'' []"
definition Security_public_key :: "ini_reader \<Rightarrow> string" where
  "Security_public_key r = Get r ''security'' ''public_key'' []"

section \<open>The command line\<close>

record runtime_config =
  rc_timestamp :: bool
  rc_loglevel :: string

fun parse_runtime :: "string list \<Rightarrow> runtime_config \<Rightarrow> runtime_config res" where
  "parse_runtime [] c = Inr c"
| "parse_runtime (argument # rest) c =
     (if find_str ''--loglevel'' argument = Some 0
      then bind (substr_from argument 11) (\<lambda>level. parse_runtime rest (c\<lparr>rc_loglevel := level\<rparr>))
      else parse_runtime rest c)"

text \<open>The first argument is the name of the program.\<close>

definition ParseRuntimeArguments :: "string list \<Rightarrow> runtime_config res" where
  "ParseRuntimeArguments argv = parse_runtime (tl argv) \<lparr>rc_timestamp = True, rc_loglevel = ''trace''\<rparr>"

section \<open>Well-formed files\<close>

definition plain_text :: "string \<Rightarrow> bool" where
  "plain_text s \<longleftrightarrow> (\<forall>c \<in> set s. c \<noteq> newline \<and> c \<noteq> CHR 0x00 \<and> c \<noteq> CHR '';'')"

definition section_ok :: "string \<Rightarrow> bool" where
  "section_ok s \<longleftrightarrow> plain_text s \<and> CHR '']'' \<notin> set s \<and> length s \<le> 49"

definition name_ok :: "string \<Rightarrow> bool" where
  "name_ok s \<longleftrightarrow> plain_text s \<and> (\<forall>c \<in> set s. \<not> is_space c \<and> c \<notin> {CHR ''='', CHR '':''}) \<and>
     (case s of [] \<Rightarrow> False | c # _ \<Rightarrow> c \<notin> {CHR ''['', CHR ''#''})"

definition value_ok :: "string \<Rightarrow> bool" where
  "value_ok s \<longleftrightarrow> plain_text s \<and> (s \<noteq> [] \<longrightarrow> \<not> is_space (s ! 0) \<and> \<not> is_space (s ! (length s - 1)))"

type_synonym ini_file = "(string \<times> (string \<times> string) list) list"

definition pair_text :: "string \<times> string \<Rightarrow> string" where
  "pair_text kv = fst kv @ '' = '' @ snd kv @ [newline]"

definition section_text :: "string \<times> (string \<times> string) list \<Rightarrow> string" where
  "section_text s = ''['' @ fst s @ '']'' @ [newline] @ concat (map pair_text (snd s))"

definition ini_text :: "ini_file \<Rightarrow> string" where
  "ini_text f = concat (map section_text f)"

definition ini_ok :: "ini_file \<Rightarrow> bool" where
  "ini_ok f \<longleftrightarrow> (\<forall>(s, kvs) \<in> set f. section_ok s \<and>
     (\<forall>(k, v) \<in> set kvs. name_ok k \<and> value_ok v \<and> length k + length v \<le> 195))"

definition ini_pairs :: "ini_file \<Rightarrow> (string \<times> string) list" where
  "ini_pairs f = concat (map (\<lambda>(s, kvs). map (\<lambda>(k, v). (MakeKey s k, v)) kvs) f)"

section \<open>Scanning\<close>

lemma scan_none: "(\<forall>c \<in> set s. c \<notin> set cs \<and> c \<noteq> CHR '';'') \<Longrightarrow> scan b cs s = (s, [])"
  by (induction s arbitrary: b) simp_all

lemma scan_found: "(\<forall>c \<in> set s. c \<notin> set cs \<and> c \<noteq> CHR '';'') \<Longrightarrow> d \<in> set cs \<Longrightarrow> scan b cs (s @ d # r) = (s, d # r)"
  by (induction s arbitrary: b) simp_all

lemma rstrip_last: "\<not> is_space d \<Longrightarrow> rstrip (s @ [d]) = s @ [d]"
  by (simp add: rstrip_def)

lemma rstrip_space [simp]: "is_space d \<Longrightarrow> rstrip (s @ [d]) = rstrip s"
  by (simp add: rstrip_def)

lemma rstrip_value: "value_ok v \<Longrightarrow> rstrip v = v"
  by (cases v rule: rev_exhaust) (auto simp: value_ok_def rstrip_def)

lemma lskip_value: "value_ok v \<Longrightarrow> lskip v = v"
  by (cases v) (auto simp: value_ok_def lskip_def)

lemma is_space_chars [simp]: "is_space CHR '' ''" "is_space newline" "\<not> is_space CHR '']''" "\<not> is_space CHR ''[''"
  by (simp_all add: is_space_def)

section \<open>The lines of a file\<close>

lemma plain_simps [simp]:
  "plain_text []" "plain_text (c # s) \<longleftrightarrow> c \<noteq> newline \<and> c \<noteq> CHR 0x00 \<and> c \<noteq> CHR '';'' \<and> plain_text s"
  "plain_text (s @ t) \<longleftrightarrow> plain_text s \<and> plain_text t"
  by (auto simp: plain_text_def)

lemma ok_plain: "section_ok s \<Longrightarrow> plain_text s" "name_ok s \<Longrightarrow> plain_text s" "value_ok s \<Longrightarrow> plain_text s"
  by (simp_all add: section_ok_def name_ok_def value_ok_def)

lemma file_lines_Cons:
  assumes "plain_text l" and "length l \<le> 198"
  shows "file_lines (l @ newline # rest) = (l @ [newline]) # file_lines rest"
proof -
  have "newline \<notin> set l" and nul: "CHR 0x00 \<notin> set (l @ [newline])" using assms(1) by (auto simp: plain_text_def)
  then have "find_char newline (l @ newline # rest) = Some (length l)" by simp
  then show ?thesis
    using assms(2) c_str_id [OF nul] by (subst file_lines.simps) (simp add: fgets_def INI_MAX_LINE_def)
qed

lemma file_lines_Nil [simp]: "file_lines [] = []"
  by (simp add: file_lines.simps)

definition section_line :: "string \<Rightarrow> string" where
  "section_line s = ''['' @ s @ '']'' @ [newline]"

definition ini_lines :: "ini_file \<Rightarrow> string list" where
  "ini_lines f = concat (map (\<lambda>s. section_line (fst s) # map pair_text (snd s)) f)"

lemma section_line_lines: "section_ok s \<Longrightarrow> file_lines (section_line s @ rest) = section_line s # file_lines rest"
  using file_lines_Cons [of "''['' @ s @ '']''" rest] ok_plain(1) [of s] by (simp add: section_line_def section_ok_def)

lemma pair_line_lines:
  assumes "name_ok k" and "value_ok v" and "length k + length v \<le> 195"
  shows "file_lines (pair_text (k, v) @ rest) = pair_text (k, v) # file_lines rest"
  using file_lines_Cons [of "k @ '' = '' @ v" rest] assms(3) ok_plain(2) [OF assms(1)] ok_plain(3) [OF assms(2)]
  by (simp add: pair_text_def)

lemma pairs_lines:
  "\<forall>(k, v) \<in> set kvs. name_ok k \<and> value_ok v \<and> length k + length v \<le> 195 \<Longrightarrow>
    file_lines (concat (map pair_text kvs) @ rest) = map pair_text kvs @ file_lines rest"
proof (induction kvs)
  case (Cons kv kvs)
  then show ?case by (cases kv) (simp add: pair_line_lines)
qed simp

lemma ini_text_lines: "ini_ok f \<Longrightarrow> file_lines (ini_text f @ rest) = ini_lines f @ file_lines rest"
proof (induction f)
  case (Cons s f)
  have "section_text s = section_line (fst s) @ concat (map pair_text (snd s))"
    by (simp add: section_text_def section_line_def)
  with Cons show ?case
    by (cases s) (simp add: ini_ok_def ini_text_def ini_lines_def section_line_lines pairs_lines)
qed (simp add: ini_text_def ini_lines_def)

section \<open>What a line does\<close>

lemma parse_section_line:
  assumes "section_ok s"
  shows "parse_line n (section_line s) st = st\<lparr>is_section := s, is_prev_name := []\<rparr>"
proof -
  have r: "rstrip (section_line s) = ''['' @ s @ '']''"
    using rstrip_space [of newline "''['' @ s @ '']''"] rstrip_last [of "CHR '']''" "''['' @ s"]
    by (simp add: section_line_def)
  have "find_chars_or_comment (s @ '']'') '']'' = (s, '']'')"
  proof -
    have "\<forall>c \<in> set s. c \<notin> set '']'' \<and> c \<noteq> CHR '';''" using assms by (auto simp: section_ok_def plain_text_def)
    from scan_found [OF this, of "CHR '']''" False "[]"] show ?thesis by (simp add: find_chars_or_comment_def)
  qed
  moreover have "\<not> has_bom n (section_line s)" by (simp add: has_bom_def section_line_def)
  ultimately show ?thesis
    using assms r by (simp add: parse_line_def lskip_def strncpy0_def MAX_SECTION_def section_ok_def)
qed

lemma parse_pair_line:
  assumes "name_ok k" and "value_ok v" and "1 < n"
  shows "parse_line n (pair_text (k, v)) st = handle_value k v (st\<lparr>is_prev_name := strncpy0 k MAX_NAME\<rparr>)"
proof -
  let ?text = "if v = [] then k @ '' ='' else k @ '' = '' @ v"
  obtain c cs where k: "k = c # cs" "c \<notin> {CHR ''['', CHR ''#''}" "\<not> is_space c" "c \<noteq> CHR '';''" "c \<notin> {CHR ''='', CHR '':''}"
    using assms(1) by (cases k) (auto simp: name_ok_def plain_text_def)
  have stripped: "rstrip (pair_text (k, v)) = ?text"
  proof (cases v rule: rev_exhaust)
    case Nil
    then show ?thesis
      using rstrip_space [of newline "k @ '' = ''"] rstrip_space [of "CHR '' ''" "k @ '' =''"] rstrip_last [of "CHR ''=''" "k @ '' ''"]
      by (simp add: pair_text_def is_space_def)
  next
    case (snoc w d)
    with assms(2) have "\<not> is_space d" by (simp add: value_ok_def)
    with snoc show ?thesis
      using rstrip_space [of newline "k @ '' = '' @ w @ [d]"] rstrip_last [of d "k @ '' = '' @ w"] by (simp add: pair_text_def)
  qed
  have skip: "lskip ?text = ?text" using k by (simp add: lskip_def)
  have "\<forall>c \<in> set (k @ '' ''). c \<notin> set ''=:'' \<and> c \<noteq> CHR '';''"
    using assms(1) by (auto simp: name_ok_def plain_text_def)
  from scan_found [OF this, of "CHR ''=''" False]
  have found: "find_chars_or_comment ?text ''=:'' = (k @ '' '', ''='' @ (if v = [] then [] else '' '' @ v))"
    by (auto simp: find_chars_or_comment_def)
  have name: "rstrip (k @ '' '') = k"
  proof -
    have "\<forall>c \<in> set (rev k). \<not> is_space c" using assms(1) by (simp add: name_ok_def)
    then have "rstrip k = k" by (cases "rev k") (simp_all add: rstrip_def rev_swap)
    then show ?thesis using rstrip_space [of "CHR '' ''" k] by simp
  qed
  have val: "lskip (if v = [] then [] else '' '' @ v) = v"
    using lskip_value [OF assms(2)] by (simp add: lskip_def)
  have comment: "find_chars_or_comment v [] = (v, [])"
    using assms(2) scan_none [of v "[]" False] by (simp add: find_chars_or_comment_def value_ok_def plain_text_def)
  have bom: "\<not> has_bom n (pair_text (k, v))" using assms(3) by (simp add: has_bom_def)
  obtain t where t: "?text = c # t" using k(1) by (cases "v = []") auto
  show ?thesis
    using k(2,4) stripped [unfolded t] skip [unfolded t] found [unfolded t] name val comment bom rstrip_value [OF assms(2)]
    by (simp add: parse_line_def)
qed

lemma parse_pairs:
  "\<forall>(k, v) \<in> set kvs. name_ok k \<and> value_ok v \<Longrightarrow> 0 < n \<Longrightarrow>
    \<exists>p. parse_lines n (map pair_text kvs @ ls) st = parse_lines (n + length kvs) ls
      (st\<lparr>is_prev_name := p, is_reader := fold (\<lambda>(k, v). ValueHandler (is_section st) k v) kvs (is_reader st)\<rparr>)"
proof (induction kvs arbitrary: n st)
  case Nil
  show ?case by (intro exI [of _ "is_prev_name st"]) simp
next
  case (Cons kv kvs)
  obtain k v where kv: "kv = (k, v)" by force
  let ?st = "handle_value k v (st\<lparr>is_prev_name := strncpy0 k MAX_NAME\<rparr>)"
  have "parse_line (Suc n) (pair_text (k, v)) st = ?st" using Cons.prems kv by (intro parse_pair_line) auto
  then show ?case using Cons.IH [of "Suc n" ?st] Cons.prems kv by (simp add: handle_value_def)
qed

definition store :: "ini_file \<Rightarrow> ini_reader \<Rightarrow> ini_reader" where
  "store f r = fold (\<lambda>s. fold (\<lambda>(k, v). ValueHandler (fst s) k v) (snd s)) f r"

lemma parse_ini_lines:
  "ini_ok f \<Longrightarrow> \<exists>sec p. parse_lines n (ini_lines f @ ls) st = parse_lines (n + length (ini_lines f)) ls
      (st\<lparr>is_section := sec, is_prev_name := p, is_reader := store f (is_reader st)\<rparr>)"
proof (induction f arbitrary: n st)
  case Nil
  show ?case by (intro exI [of _ "is_section st"] exI [of _ "is_prev_name st"]) (simp add: ini_lines_def store_def)
next
  case (Cons s f)
  obtain sec kvs where s: "s = (sec, kvs)" by force
  let ?st = "st\<lparr>is_section := sec, is_prev_name := []\<rparr>"
  have ok: "section_ok sec" "\<forall>(k, v) \<in> set kvs. name_ok k \<and> value_ok v" "ini_ok f"
    using Cons.prems s by (auto simp: ini_ok_def)
  have "parse_lines n (ini_lines (s # f) @ ls) st = parse_lines (Suc n) (map pair_text kvs @ ini_lines f @ ls) ?st"
    using parse_section_line [OF ok(1)] s by (simp add: ini_lines_def)
  moreover obtain p where "parse_lines (Suc n) (map pair_text kvs @ ini_lines f @ ls) ?st = parse_lines (Suc n + length kvs) (ini_lines f @ ls)
      (?st\<lparr>is_prev_name := p, is_reader := fold (\<lambda>(k, v). ValueHandler sec k v) kvs (is_reader st)\<rparr>)"
    using parse_pairs [OF ok(2), of "Suc n" "ini_lines f @ ls" ?st] by auto
  ultimately show ?case
    using Cons.IH [OF ok(3), of "Suc n + length kvs"
        "?st\<lparr>is_prev_name := p, is_reader := fold (\<lambda>(k, v). ValueHandler sec k v) kvs (is_reader st)\<rparr>"] s
    by (simp add: ini_lines_def store_def add.assoc add.commute add.left_commute)
qed

lemma ini_parse_written:
  assumes "ini_ok f"
  obtains sec p where "ini_parse_stream (ini_text f @ after) =
    parse_lines (length (ini_lines f)) (file_lines after)
      \<lparr>is_section = sec, is_prev_name = p, is_error = 0, is_reader = store f empty_reader\<rparr>"
proof -
  have "file_lines (ini_text f @ after) = ini_lines f @ file_lines after" by (rule ini_text_lines [OF assms])
  with parse_ini_lines [OF assms, of 0 "file_lines after"
      "\<lparr>is_section = [], is_prev_name = [], is_error = 0, is_reader = empty_reader\<rparr>"] that
  show ?thesis by (auto simp: ini_parse_stream_def)
qed

lemma ValueHandler_fresh:
  "ir_values r (MakeKey s k) = None \<Longrightarrow> ir_values (ValueHandler s k v r) = (ir_values r)(MakeKey s k \<mapsto> v)"
  by (simp add: ValueHandler_def Let_def)

fun section_pairs :: "string \<Rightarrow> (string \<times> string) list \<Rightarrow> (string \<times> string) list" where
  "section_pairs s [] = []"
| "section_pairs s ((k, v) # kvs) = (MakeKey s k, v) # section_pairs s kvs"

lemma section_pairs_eq: "section_pairs s kvs = map (\<lambda>(k, v). (MakeKey s k, v)) kvs"
  by (induction kvs rule: section_pairs.induct) simp_all

lemma ini_pairs_Cons: "ini_pairs ((s, kvs) # f) = section_pairs s kvs @ ini_pairs f"
  by (simp add: ini_pairs_def section_pairs_eq)

lemma upd_map_add: "k \<notin> dom M \<Longrightarrow> m(k \<mapsto> v) ++ M = m ++ M(k \<mapsto> v)"
  by (rule ext) (auto simp: map_add_def split: option.splits)

lemma store_section:
  "distinct (map fst (section_pairs s kvs)) \<Longrightarrow> dom (ir_values r) \<inter> fst ` set (section_pairs s kvs) = {} \<Longrightarrow>
    ir_values (fold (\<lambda>(k, v). ValueHandler s k v) kvs r) = ir_values r ++ map_of (section_pairs s kvs)"
proof (induction kvs arbitrary: r)
  case (Cons kv kvs)
  obtain k v where kv: "kv = (k, v)" by force
  let ?r = "ValueHandler s k v r"
  have r: "ir_values ?r = (ir_values r)(MakeKey s k \<mapsto> v)"
    using Cons.prems(2) kv by (intro ValueHandler_fresh) (auto simp: domIff)
  have new: "MakeKey s k \<notin> fst ` set (section_pairs s kvs)" using Cons.prems(1) kv by simp
  then have free: "dom (ir_values ?r) \<inter> fst ` set (section_pairs s kvs) = {}"
    using Cons.prems(2) kv unfolding r by auto
  have d: "distinct (map fst (section_pairs s kvs))" using Cons.prems(1) kv by simp
  have "ir_values (fold (\<lambda>(k, v). ValueHandler s k v) kvs ?r) = (ir_values r)(MakeKey s k \<mapsto> v) ++ map_of (section_pairs s kvs)"
    by (simp only: Cons.IH [OF d free] r)
  also have "\<dots> = ir_values r ++ (map_of (section_pairs s kvs))(MakeKey s k \<mapsto> v)"
    using new by (intro upd_map_add) (simp add: dom_map_of_conv_image_fst)
  finally show ?case
    unfolding kv by (simp only: fold.simps comp_def prod.case section_pairs.simps map_of.simps fst_conv snd_conv)
qed simp

lemma store_values:
  "distinct (map fst (ini_pairs f)) \<Longrightarrow> dom (ir_values r) \<inter> fst ` set (ini_pairs f) = {} \<Longrightarrow>
    ir_values (store f r) = ir_values r ++ map_of (ini_pairs f)"
proof (induction f arbitrary: r)
  case Nil
  then show ?case by (simp add: store_def ini_pairs_def)
next
  case (Cons s f)
  obtain sec kvs where s: "s = (sec, kvs)" by force
  let ?r = "fold (\<lambda>(k, v). ValueHandler sec k v) kvs r"
  have d: "distinct (map fst (section_pairs sec kvs))" "distinct (map fst (ini_pairs f))"
    and apart: "fst ` set (section_pairs sec kvs) \<inter> fst ` set (ini_pairs f) = {}"
    and fresh: "dom (ir_values r) \<inter> fst ` set (section_pairs sec kvs) = {}" "dom (ir_values r) \<inter> fst ` set (ini_pairs f) = {}"
    using Cons.prems s by (auto simp: ini_pairs_Cons)
  have r: "ir_values ?r = ir_values r ++ map_of (section_pairs sec kvs)" by (rule store_section [OF d(1) fresh(1)])
  have "dom (ir_values ?r) \<inter> fst ` set (ini_pairs f) = {}"
    using fresh(2) apart unfolding r by (simp only: dom_map_add dom_map_of_conv_image_fst Int_Un_distrib2 Un_empty simp_thms)
  from Cons.IH [OF d(2) this]
  have "ir_values (store f ?r) = ir_values r ++ (map_of (section_pairs sec kvs) ++ map_of (ini_pairs f))"
    unfolding r by (simp only: map_add_assoc)
  also have "map_of (section_pairs sec kvs) ++ map_of (ini_pairs f) = map_of (ini_pairs f) ++ map_of (section_pairs sec kvs)"
    using apart by (intro map_add_comm) (simp only: dom_map_of_conv_image_fst)
  also have "\<dots> = map_of (ini_pairs (s # f))" unfolding s ini_pairs_Cons by (simp only: map_of_append)
  finally show ?case using s by (simp add: store_def)
qed

section \<open>Properties\<close>

text \<open>
  C15: a file of well-formed sections and pairs, no pair given twice, is read without an error, and what is
  asked of it, in letters of either case, is the value that was written, or the default where there is none.
\<close>

theorem written_file_is_read_back:
  assumes "ini_ok f" and "distinct (map fst (ini_pairs f))"
  shows "ir_error (INIReader (Some (ini_text f))) = 0 \<and>
    Get (INIReader (Some (ini_text f))) sec name dflt =
      (case map_of (ini_pairs f) (MakeKey sec name) of None \<Rightarrow> dflt | Some v \<Rightarrow> v)"
proof -
  obtain s p where "ini_parse_stream (ini_text f @ []) = parse_lines (length (ini_lines f)) (file_lines [])
      \<lparr>is_section = s, is_prev_name = p, is_error = 0, is_reader = store f empty_reader\<rparr>"
    by (rule ini_parse_written [OF assms(1)])
  moreover have "ir_values (store f empty_reader) = map_of (ini_pairs f)"
    using store_values [OF assms(2), of empty_reader] by (simp add: empty_reader_def)
  ultimately show ?thesis by (simp add: INIReader_def Get_def Let_def)
qed

theorem written_file_is_read_back_witness:
  "Get (INIReader (Some (ini_text [(''email'', [(''admin'', ''a b''), (''from'', '''')])]))) ''EMAIL'' ''Admin'' ''none'' = ''a b''"
proof -
  let ?f = "[(''email'', [(''admin'', ''a b''), (''from'', '''')])]"
  have "ini_ok ?f" by code_simp
  moreover have "distinct (map fst (ini_pairs ?f))" by code_simp
  moreover have "map_of (ini_pairs ?f) (MakeKey ''EMAIL'' ''Admin'') = Some ''a b''" by code_simp
  ultimately show ?thesis using written_file_is_read_back [of ?f "''EMAIL''" "''Admin''" "''none''"] by (simp del: ini_pairs_Cons)
qed

lemma rstrip_start:
  assumes "\<not> is_space c"
  obtains t where "rstrip (c # cs) = c # t" and "set t \<subseteq> set cs"
proof (cases "\<forall>x \<in> set cs. is_space x")
  case True
  then have "rstrip (c # cs) = [c]"
    using assms dropWhile_append2 [of "rev cs" is_space "[c]"] by (auto simp: rstrip_def)
  then show ?thesis by (intro that [of "[]"]) simp_all
next
  case False
  then have "rstrip (c # cs) = c # rev (dropWhile is_space (rev cs))"
    using dropWhile_append1 [of _ "rev cs" is_space "[c]"] by (auto simp: rstrip_def)
  moreover have "set (rev (dropWhile is_space (rev cs))) \<subseteq> set cs"
    using set_takeWhileD set_append takeWhile_dropWhile_id [of is_space "rev cs"] by (metis Un_upper2 set_rev)
  ultimately show ?thesis by (rule that)
qed

text \<open>A line that is no section, no pair, no comment and no continuation.\<close>

definition no_pair :: "string \<Rightarrow> bool" where
  "no_pair l \<longleftrightarrow> plain_text l \<and> CHR ''='' \<notin> set l \<and> CHR '':'' \<notin> set l \<and> length l \<le> 198 \<and>
     l \<noteq> [] \<and> \<not> is_space (hd l) \<and> hd l \<notin> {CHR ''['', CHR ''#'', CHR 0xEF}"

lemma parse_no_pair:
  assumes "no_pair l"
  shows "parse_line n (l @ [newline]) st = line_error n st"
proof -
  obtain c cs where l: "l = c # cs" using assms by (cases l) (auto simp: no_pair_def)
  then have c: "\<not> is_space c" "c \<notin> {CHR ''['', CHR ''#'', CHR 0xEF}" "c \<noteq> CHR '';''" using assms by (auto simp: no_pair_def)
  obtain t where t: "rstrip (c # cs) = c # t" "set t \<subseteq> set cs" by (rule rstrip_start [OF c(1)])
  have "\<forall>d \<in> set (c # t). d \<notin> set ''=:'' \<and> d \<noteq> CHR '';''"
    using assms t(2) unfolding l no_pair_def plain_text_def by auto
  from scan_none [OF this, of False] have "find_chars_or_comment (c # t) ''=:'' = (c # t, [])"
    by (simp only: find_chars_or_comment_def)
  moreover have "rstrip (c # cs @ [newline]) = c # t" using t(1) rstrip_space [of newline "c # cs"] by simp
  moreover have "\<not> has_bom n (c # cs @ [newline])" using c(2) by (simp add: has_bom_def)
  moreover have "lskip (c # t) = c # t" using c(1) by (simp add: lskip_def)
  ultimately show ?thesis using c(2,3) l by (simp add: parse_line_def)
qed

text \<open>
  One line at the end of the configuration that is neither a pair nor anything else known makes the program take
  the default file for all of it: none of what the configuration says is used.
\<close>

theorem bad_line_drops_file:
  assumes "ini_ok f" and "no_pair l" and "files ''config/config.ini'' = Some (ini_text f @ l @ [newline])"
    and "ini_ok g" and "files ''config/default.config.ini'' = Some (ini_text g)"
  shows "config_init files = Inr (INIReader (Some (ini_text g)))"
proof -
  have one: "file_lines (l @ [newline]) = [l @ [newline]]"
    using file_lines_Cons [of l "[]"] assms(2) by (simp add: no_pair_def)
  obtain s p where "ini_parse_stream (ini_text f @ l @ [newline]) = parse_lines (length (ini_lines f)) (file_lines (l @ [newline]))
      \<lparr>is_section = s, is_prev_name = p, is_error = 0, is_reader = store f empty_reader\<rparr>"
    by (rule ini_parse_written [OF assms(1)])
  then have "is_error (ini_parse_stream (ini_text f @ l @ [newline])) \<noteq> 0"
    unfolding one by (simp add: parse_no_pair [OF assms(2)] line_error_def)
  then have "ir_error (INIReader (files ''config/config.ini'')) \<noteq> 0" by (simp add: assms(3) INIReader_def Let_def)
  moreover obtain s' p' where "ini_parse_stream (ini_text g @ []) = parse_lines (length (ini_lines g)) (file_lines [])
      \<lparr>is_section = s', is_prev_name = p', is_error = 0, is_reader = store g empty_reader\<rparr>"
    by (rule ini_parse_written [OF assms(4)])
  then have "ir_error (INIReader (files ''config/default.config.ini'')) = 0" by (simp add: assms(5) INIReader_def Let_def)
  ultimately show ?thesis by (simp add: config_init_def Let_def assms(5))
qed

theorem bad_line_drops_file_witness:
  "config_init [''config/config.ini'' \<mapsto> ini_text [(''system'', [(''admin'', ''ann'')])] @ ''what now'' @ [newline],
      ''config/default.config.ini'' \<mapsto> ini_text [(''system'', [(''admin'', ''root'')])]] =
    Inr (INIReader (Some (ini_text [(''system'', [(''admin'', ''root'')])])))"
proof -
  have "ini_ok [(''system'', [(''admin'', ''ann'')])]" "ini_ok [(''system'', [(''admin'', ''root'')])]" "no_pair ''what now''"
    by code_simp+
  then show ?thesis by (intro bad_line_drops_file) simp_all
qed

lemma no_file_no_start: "config_init (\<lambda>_. None) = Inl InvalidArgument"
  by (simp add: config_init_def INIReader_def)

end
