(* ===== verification/Entry.thy ===== *)
theory Entry
  imports Config SocketListener
begin

text \<open>
  The entry point, \<open>src/main.cpp\<close>: the command line is read before the block whose exceptions are caught.
  The server after its construction, \<open>init\<close> and \<open>run\<close>, is an argument.

  Shown: a command line that the log level cannot be read of ends the process by an exception, one that
  the port cannot be read of with the code 1.
\<close>

definition ERROR :: int where "ERROR = 1"

definition kserver_main :: "(runtime_config \<Rightarrow> listener_args \<Rightarrow> unit res) \<Rightarrow> string list \<Rightarrow> int res" where
  "kserver_main server argv =
     bind (ParseRuntimeArguments argv) (\<lambda>config.
     case bind (new_listener argv) (server config) of
       Inr _ \<Rightarrow> Inr 0
     | Inl e \<Rightarrow> if is_exception e then Inr ERROR else Inl e)"

lemma loglevel_alone: "ParseRuntimeArguments [prog, ''--loglevel''] = Inl OutOfRange"
  by (simp add: ParseRuntimeArguments_def substr_from_def)

lemma loglevel_given:
  "ParseRuntimeArguments [prog, ''--loglevel='' @ level] = Inr \<lparr>rc_timestamp = True, rc_loglevel = level\<rparr>"
  by (simp add: ParseRuntimeArguments_def)

text \<open>
  \<open>--loglevel\<close> without a value throws before anything is caught, whatever the server would do; with a value
  the server is run with it, and the code is 1 if the server throws and 0 if it returns.
\<close>

theorem main_results:
  "kserver_main server [prog, ''--loglevel''] = Inl OutOfRange \<and>
   kserver_main server [prog, ''--loglevel='' @ level] =
     (case bind (new_listener [prog, ''--loglevel='' @ level]) (server \<lparr>rc_timestamp = True, rc_loglevel = level\<rparr>) of
        Inr _ \<Rightarrow> Inr 0 | Inl e \<Rightarrow> if is_exception e then Inr 1 else Inl e)"
  unfolding kserver_main_def loglevel_alone loglevel_given ERROR_def by simp

end
