(* ===== verification/Utf8.thy ===== *)
theory Utf8
  imports JsonTools
begin

text \<open>
  UTF-8 as the JSON library decodes and encodes it, \<open>codec/rapidjson/encodings.h\<close>: a table gives the class
  of a byte, the class of the first byte says of which classes the others must be. A character is a
  byte, and code points are numbers of at most 26 bits while they are put together, so that they are
  natural numbers here.

  The lemmas say that the two are inverse to each other: \<open>utf8_decode_encode\<close>, and \<open>utf8_decode_True\<close> for
  texts that are decoded, which are the one encoding of a code point that is no surrogate.
\<close>

unbundle bit_operations_syntax

abbreviation byte :: "char \<Rightarrow> nat" where
  "byte c \<equiv> of_char c"

abbreviation NUL :: char where
  "NUL \<equiv> CHR 0x00"

section \<open>Decoding and encoding\<close>

definition utf8_range :: "nat \<Rightarrow> nat" where
  "utf8_range c =
     (if c < 0x80 then 0
      else if c < 0x90 then 0x10
      else if c < 0xA0 then 0x40
      else if c < 0xC0 then 0x20
      else if c < 0xC2 then 8
      else if c < 0xE0 then 2
      else if c = 0xE0 then 10
      else if c < 0xED then 3
      else if c = 0xED then 4
      else if c < 0xF0 then 3
      else if c = 0xF0 then 11
      else if c < 0xF4 then 6
      else if c = 0xF4 then 5
      else 8)"

text \<open>\<open>Take\<close> at the end of a text gives its NUL; what is behind that can only be part of a failure.\<close>

fun take_char :: "string \<Rightarrow> char \<times> string" where
  "take_char [] = (NUL, [])"
| "take_char (c # s) = (c, s)"

text \<open>The classes the bytes after the first must be of.\<close>

definition utf8_masks :: "nat \<Rightarrow> nat list option" where
  "utf8_masks type =
     (if type = 2 then Some [0x70]
      else if type = 3 then Some [0x70, 0x70]
      else if type = 4 then Some [0x50, 0x70]
      else if type = 5 then Some [0x10, 0x70, 0x70]
      else if type = 6 then Some [0x70, 0x70, 0x70]
      else if type = 10 then Some [0x20, 0x70]
      else if type = 11 then Some [0x60, 0x70, 0x70]
      else None)"

fun utf8_tail :: "nat list \<Rightarrow> bool \<Rightarrow> nat \<Rightarrow> string \<Rightarrow> bool \<times> nat \<times> string" where
  "utf8_tail [] result codepoint s = (result, codepoint, s)"
| "utf8_tail (m # ms) result codepoint s =
     (case take_char s of (c, s') \<Rightarrow>
        utf8_tail ms (result \<and> utf8_range (byte c) AND m \<noteq> 0) (push_bit 6 codepoint OR (byte c AND 0x3F)) s')"

definition utf8_decode :: "string \<Rightarrow> bool \<times> nat \<times> string" where
  "utf8_decode s =
     (case take_char s of (c, s') \<Rightarrow>
        if byte c < 0x80 then (True, byte c, s')
        else let type = utf8_range (byte c);
                 codepoint = (if type \<ge> 32 then 0 else drop_bit type 0xFF AND byte c) in
          case utf8_masks type of
            None \<Rightarrow> (False, codepoint, s')
          | Some ms \<Rightarrow> utf8_tail ms True codepoint s')"

definition utf8_encode :: "nat \<Rightarrow> string" where
  "utf8_encode cp =
     (if cp \<le> 0x7F then [char_of cp]
      else if cp \<le> 0x7FF then
        [char_of (0xC0 OR drop_bit 6 cp AND 0xFF), char_of (0x80 OR cp AND 0x3F)]
      else if cp \<le> 0xFFFF then
        [char_of (0xE0 OR drop_bit 12 cp AND 0xFF), char_of (0x80 OR drop_bit 6 cp AND 0x3F),
         char_of (0x80 OR cp AND 0x3F)]
      else
        [char_of (0xF0 OR drop_bit 18 cp AND 0xFF), char_of (0x80 OR drop_bit 12 cp AND 0x3F),
         char_of (0x80 OR drop_bit 6 cp AND 0x3F), char_of (0x80 OR cp AND 0x3F)])"

text \<open>The code points that are characters: no halves of surrogate pairs.\<close>

definition scalar :: "nat \<Rightarrow> bool" where
  "scalar cp \<longleftrightarrow> cp \<le> 0x10FFFF \<and> \<not> (0xD800 \<le> cp \<and> cp \<le> 0xDFFF)"

lemma or_eq_add: "b < 2 ^ k \<Longrightarrow> push_bit k a OR b = push_bit k a + (b :: nat)"
  by (rule disjunctive_add [symmetric]) (metis bit_push_bit_iff bit_take_bit_iff linorder_not_le take_bit_nat_eq_self)

lemma and_mask_mod:
  "(x :: nat) AND 63 = x mod 64" "x AND 255 = x mod 256" "x AND 15 = x mod 16" "x AND 1023 = x mod 1024"
  using take_bit_eq_mask [of 6 x] take_bit_eq_mask [of 8 x] take_bit_eq_mask [of 4 x] take_bit_eq_mask [of 10 x]
  by (simp_all add: mask_eq_exp_minus_1 take_bit_eq_mod)

lemma or_bytes:
  "b < 64 \<Longrightarrow> 128 OR b = 128 + (b :: nat)" "b < 32 \<Longrightarrow> 192 OR b = 192 + b"
  "b < 16 \<Longrightarrow> 224 OR b = 224 + b" "b < 8 \<Longrightarrow> 240 OR b = 240 + b"
  using or_eq_add [of b 6 2] or_eq_add [of b 5 6] or_eq_add [of b 4 14] or_eq_add [of b 3 30]
  by (simp_all add: push_bit_eq_mult)

lemma shift_or: "b < 64 \<Longrightarrow> push_bit 6 a OR b = 64 * a + (b :: nat)"
  using or_eq_add [of b 6 a] by (simp add: push_bit_eq_mult)

lemmas bits_nat = and_mask_mod or_bytes shift_or drop_bit_eq_div

lemma utf8_encode_simps:
  "cp < 0x80 \<Longrightarrow> utf8_encode cp = [char_of cp]"
  "0x80 \<le> cp \<Longrightarrow> cp < 0x800 \<Longrightarrow> utf8_encode cp = [char_of (192 + cp div 64), char_of (128 + cp mod 64)]"
  "0x800 \<le> cp \<Longrightarrow> cp < 0x10000 \<Longrightarrow>
     utf8_encode cp = [char_of (224 + cp div 4096), char_of (128 + cp div 64 mod 64), char_of (128 + cp mod 64)]"
  "0x10000 \<le> cp \<Longrightarrow> cp < 0x110000 \<Longrightarrow>
     utf8_encode cp = [char_of (240 + cp div 262144), char_of (128 + cp div 4096 mod 64),
       char_of (128 + cp div 64 mod 64), char_of (128 + cp mod 64)]"
  by (simp_all add: utf8_encode_def bits_nat)

lemma utf8_range_tail: "b < 64 \<Longrightarrow> utf8_range (128 + b) = (if b < 16 then 0x10 else if b < 32 then 0x40 else 0x20)"
  by (simp add: utf8_range_def)

lemma and_class:
  "(16 :: nat) AND 112 = 16" "(64 :: nat) AND 112 = 64" "(32 :: nat) AND 112 = 32"
  "(16 :: nat) AND 80 = 16" "(64 :: nat) AND 80 = 64" "(32 :: nat) AND 80 = 0"
  "(16 :: nat) AND 16 = 16" "(64 :: nat) AND 16 = 0" "(32 :: nat) AND 16 = 0"
  "(16 :: nat) AND 32 = 0" "(64 :: nat) AND 32 = 0" "(32 :: nat) AND 32 = 32"
  "(16 :: nat) AND 96 = 0" "(64 :: nat) AND 96 = 64" "(32 :: nat) AND 96 = 32"
  by code_simp+

lemma mod_skip:
  "b < 64 \<Longrightarrow> (128 + b) mod 64 = (b :: nat)" "b < 64 \<Longrightarrow> (192 + b) mod 64 = b"
  "b < 32 \<Longrightarrow> (224 + b) mod 32 = b" "b < 16 \<Longrightarrow> (224 + b) mod 16 = b" "b < 8 \<Longrightarrow> (240 + b) mod 8 = b"
  "b < 4 \<Longrightarrow> (240 + b) mod 4 = b"
  using mod_mult_self1 [of b 2 64] mod_mult_self1 [of b 3 64] mod_mult_self1 [of b 7 32] mod_mult_self1 [of b 14 16]
    mod_mult_self1 [of b 30 8] mod_mult_self1 [of b 60 4]
  by (simp_all add: add.commute)

lemma and_mask_first: "63 AND (x :: nat) = x mod 64" "31 AND x = x mod 32" "15 AND x = x mod 16"
    "7 AND x = x mod 8" "3 AND x = x mod 4"
  using take_bit_eq_mask [of 6 x] take_bit_eq_mask [of 5 x] take_bit_eq_mask [of 4 x] take_bit_eq_mask [of 3 x]
    take_bit_eq_mask [of 2 x]
  by (simp_all add: mask_eq_exp_minus_1 take_bit_eq_mod and.commute)

lemma utf8_tail_step:
  assumes "b < 64"
  shows "utf8_tail (m # ms) r cp (char_of (128 + b) # s) =
    utf8_tail ms (r \<and> (if b < 16 then 0x10 else if b < 32 then 0x40 else 0x20) AND m \<noteq> 0) (64 * cp + b) s"
  using assms by (simp add: utf8_range_tail shift_or and_mask_mod mod_skip)

lemma regroup:
  "64 * (cp div 64) + cp mod 64 = (cp :: nat)"
  "64 * (cp div 4096) + cp div 64 mod 64 = cp div 64"
  "64 * (cp div 262144) + cp div 4096 mod 64 = cp div 4096"
  using mult_div_mod_eq [of 64 "cp div 64"] mult_div_mod_eq [of 64 "cp div 4096"] by (simp_all add: div_mult2_eq [symmetric])

lemma under_64: "64 * (cp div 64) \<le> (cp :: nat)" "cp < 64 * (cp div 64) + 64"
  using regroup(1) [of cp] mod_less_divisor [of 64 cp] by linarith+

lemma utf8_decode_two:
  assumes "2 \<le> q" "q < 32" "b < 64"
  shows "utf8_decode (char_of (192 + q) # char_of (128 + b) # r) = (True, 64 * q + b, r)"
proof -
  have "utf8_range (192 + q) = 2" using assms by (simp add: utf8_range_def)
  then show ?thesis using assms
    by (simp add: utf8_decode_def utf8_masks_def utf8_tail_step and_class drop_bit_eq_div and_mask_first mod_skip
        del: utf8_tail.simps(2))
qed

lemma utf8_decode_three:
  assumes "q < 16" "a < 64" "b < 64" "q = 0 \<longrightarrow> 32 \<le> a" "q = 13 \<longrightarrow> a < 32"
  shows "utf8_decode (char_of (224 + q) # char_of (128 + a) # char_of (128 + b) # r) = (True, 64 * (64 * q + a) + b, r)"
proof -
  have "utf8_range (224 + q) = (if q = 0 then 10 else if q = 13 then 4 else 3)"
    using assms by (simp add: utf8_range_def)
  then show ?thesis using assms
    by (auto simp add: utf8_decode_def utf8_masks_def utf8_tail_step and_class drop_bit_eq_div and_mask_first mod_skip
        simp del: utf8_tail.simps(2))
qed

lemma utf8_decode_four:
  assumes "q < 5" "a < 64" "b < 64" "c < 64" "q = 0 \<longrightarrow> 16 \<le> a" "q = 4 \<longrightarrow> a < 16"
  shows "utf8_decode (char_of (240 + q) # char_of (128 + a) # char_of (128 + b) # char_of (128 + c) # r) =
    (True, 64 * (64 * (64 * q + a) + b) + c, r)"
proof -
  have "utf8_range (240 + q) = (if q = 0 then 11 else if q = 4 then 5 else 6)"
    using assms by (simp add: utf8_range_def)
  then show ?thesis using assms
    by (auto simp add: utf8_decode_def utf8_masks_def utf8_tail_step and_class drop_bit_eq_div and_mask_first mod_skip
        simp del: utf8_tail.simps(2))
qed

lemma utf8_decode_encode:
  assumes "scalar cp"
  shows "utf8_decode (utf8_encode cp @ r) = (True, cp, r)"
proof -
  consider "cp < 0x80" | "0x80 \<le> cp" "cp < 0x800" | "0x800 \<le> cp" "cp < 0x10000" | "0x10000 \<le> cp" "cp < 0x110000"
    using assms by (fastforce simp: scalar_def)
  then show ?thesis
  proof cases
    case 1
    then show ?thesis by (simp add: utf8_encode_simps utf8_decode_def)
  next
    case 2
    then have "2 \<le> cp div 64" "cp div 64 < 32" by auto
    with 2 show ?thesis
      by (simp add: utf8_encode_simps utf8_decode_two regroup)
  next
    case 3
    have "cp div 4096 = 13 \<longrightarrow> cp div 64 mod 64 < 32" "cp div 4096 = 0 \<longrightarrow> 32 \<le> cp div 64 mod 64"
      using assms 3 under_64 [of cp] regroup(2) [of cp] unfolding scalar_def by linarith+
    with 3 show ?thesis
      by (simp add: utf8_encode_simps utf8_decode_three regroup)
  next
    case 4
    have "cp div 262144 = 0 \<longrightarrow> 16 \<le> cp div 4096 mod 64" "cp div 262144 = 4 \<longrightarrow> cp div 4096 mod 64 < 16" "cp div 262144 < 5"
      using 4 under_64 [of cp] under_64 [of "cp div 64"] regroup(2) [of cp] regroup(3) [of cp]
      by (simp_all add: div_mult2_eq [symmetric]) linarith+
    with 4 show ?thesis
      by (simp add: utf8_encode_simps utf8_decode_four regroup)
  qed
qed

text \<open>The other way: what is decoded is the one encoding of its code point, which is no surrogate.\<close>

lemma utf8_tail_False: "utf8_tail ms False cp s = (ok, x, r) \<Longrightarrow> \<not> ok"
  by (induction ms arbitrary: cp s) (auto split: prod.splits)

definition tail_class :: "nat \<Rightarrow> nat" where
  "tail_class b = (if b < 16 then 0x10 else if b < 32 then 0x40 else 0x20)"

lemma byte_tail:
  assumes "utf8_range (byte c) AND m \<noteq> 0" and "m \<in> {0x70, 0x50, 0x10, 0x20, 0x60}"
  obtains b where "c = char_of (128 + b)" and "b < 64" and "tail_class b AND m \<noteq> 0"
proof -
  have "\<not> byte c < 128" "byte c < 192"
    using assms by (auto simp: utf8_range_def split: if_splits)
  moreover from this have "c = char_of (128 + (byte c - 128))" by simp
  moreover have "tail_class (byte c - 128) = utf8_range (byte c)"
    using calculation(1,2) by (auto simp: utf8_range_def tail_class_def)
  ultimately show ?thesis using assms(1) that [of "byte c - 128"] by simp
qed

lemma utf8_tail_True:
  assumes "utf8_tail (m # ms) True cp s = (True, x, r)" and "m \<in> {0x70, 0x50, 0x10, 0x20, 0x60}"
  obtains b s' where "s = char_of (128 + b) # s'" and "b < 64" and "tail_class b AND m \<noteq> 0"
    and "utf8_tail ms True (64 * cp + b) s' = (True, x, r)"
proof (cases s)
  case Nil
  with assms(1) have "utf8_tail ms False (push_bit 6 cp) [] = (True, x, r)" by (simp add: utf8_range_def)
  then show ?thesis using utf8_tail_False by blast
next
  case (Cons c s')
  have "utf8_range (byte c) AND m \<noteq> 0"
    using assms(1) Cons by (cases "utf8_range (byte c) AND m \<noteq> 0") (auto dest: utf8_tail_False)
  with assms(2) obtain b where b: "c = char_of (128 + b)" "b < 64" "tail_class b AND m \<noteq> 0"
    by (metis byte_tail)
  then have "utf8_tail ms True (64 * cp + b) s' = (True, x, r)"
    using assms(1) Cons utf8_tail_step [of b m ms True cp s'] by (simp add: tail_class_def)
  with b Cons that show ?thesis by blast
qed

lemma div_64:
  "b < 64 \<Longrightarrow> (64 * a + b) div 64 = (a :: nat)" "b < 64 \<Longrightarrow> (64 * a + b) mod 64 = b"
  by simp_all

lemma encode_two:
  assumes "2 \<le> q" "q < 32" "b < 64"
  shows "utf8_encode (64 * q + b) = [char_of (192 + q), char_of (128 + b)]" and "scalar (64 * q + b)"
  using assms by (simp_all add: utf8_encode_simps scalar_def)

lemma encode_three:
  assumes "q < 16" "a < 64" "b < 64" "q = 0 \<longrightarrow> 32 \<le> a" "q = 13 \<longrightarrow> a < 32"
  shows "utf8_encode (64 * (64 * q + a) + b) = [char_of (224 + q), char_of (128 + a), char_of (128 + b)]"
    and "scalar (64 * (64 * q + a) + b)"
proof -
  let ?cp = "64 * (64 * q + a) + b"
  have "0x800 \<le> ?cp" "?cp < 0x10000" using assms by (cases "q = 0"; simp)+
  moreover have "?cp div 64 = 64 * q + a" "?cp mod 64 = b" using div_64 [OF assms(3)] by blast+
  moreover from this have "?cp div 4096 = q" using assms div_mult2_eq [of ?cp 64 64] by simp
  moreover have "(64 * q + a) mod 64 = a" using assms by simp
  ultimately show "utf8_encode ?cp = [char_of (224 + q), char_of (128 + a), char_of (128 + b)]"
    using assms by (simp add: utf8_encode_simps)
  show "scalar ?cp" using assms by (cases "q < 13"; cases "q = 13"; simp add: scalar_def)
qed

lemma encode_four:
  assumes "q < 5" "a < 64" "b < 64" "c < 64" "q = 0 \<longrightarrow> 16 \<le> a" "q = 4 \<longrightarrow> a < 16"
  shows "utf8_encode (64 * (64 * (64 * q + a) + b) + c) =
      [char_of (240 + q), char_of (128 + a), char_of (128 + b), char_of (128 + c)]"
    and "scalar (64 * (64 * (64 * q + a) + b) + c)"
proof -
  let ?cp = "64 * (64 * (64 * q + a) + b) + c"
  have "0x10000 \<le> ?cp" "?cp < 0x110000" using assms by (cases "q = 0"; cases "q = 4"; simp)+
  moreover have "?cp div 64 = 64 * (64 * q + a) + b" "?cp mod 64 = c" using div_64 [OF assms(4)] by blast+
  moreover from this have "?cp div 4096 = 64 * q + a" using assms div_mult2_eq [of ?cp 64 64] by simp
  moreover have "(64 * q + a) mod 64 = a" "(64 * (64 * q + a) + b) mod 64 = b"
    using div_64 [OF assms(2)] div_64 [OF assms(3)] by blast+
  moreover from this have "?cp div 262144 = q" using assms div_mult2_eq [of ?cp 4096 64] by simp
  ultimately show "utf8_encode ?cp = [char_of (240 + q), char_of (128 + a), char_of (128 + b), char_of (128 + c)]"
    and "scalar ?cp"
    using assms by (simp_all add: utf8_encode_simps scalar_def)
qed

lemma first_bytes:
  assumes "utf8_masks (utf8_range c) = Some ms"
  obtains q where "c = 192 + q" "2 \<le> q" "q < 32" "ms = [0x70]" "drop_bit (utf8_range c) 0xFF AND c = q"
  | q where "c = 224 + q" "q < 16" "ms = [if q = 0 then 0x20 else if q = 13 then 0x50 else 0x70, 0x70]"
      "drop_bit (utf8_range c) 0xFF AND c = q"
  | q where "c = 240 + q" "q < 5" "ms = [if q = 0 then 0x60 else if q = 4 then 0x10 else 0x70, 0x70, 0x70]"
      "drop_bit (utf8_range c) 0xFF AND c = q"
proof -
  have "c \<ge> 194" "c < 245" using assms by (auto simp: utf8_range_def utf8_masks_def split: if_splits)
  then consider "c < 224" | "224 \<le> c" "c < 240" | "240 \<le> c" by linarith
  then show ?thesis
  proof cases
    case 1
    with \<open>c \<ge> 194\<close> assms that(1) [of "c - 192"] show ?thesis
      by (simp add: utf8_range_def utf8_masks_def drop_bit_eq_div and_mask_first) (use mod_skip(2) [of "c - 192"] in simp)
  next
    case 2
    with assms that(2) [of "c - 224"] show ?thesis
      using mod_skip(3) [of "c - 224"] mod_skip(4) [of "c - 224"]
      by (auto simp: utf8_range_def utf8_masks_def drop_bit_eq_div and_mask_first split: if_splits)
  next
    case 3
    with \<open>c < 245\<close> assms that(3) [of "c - 240"] show ?thesis
      using mod_skip(5) [of "c - 240"] mod_skip(6) [of "c - 240"]
      by (auto simp: utf8_range_def utf8_masks_def drop_bit_eq_div and_mask_first split: if_splits)
  qed
qed

lemma utf8_decode_True:
  assumes "utf8_decode (c # s) = (True, cp, r)"
  shows "c # s = utf8_encode cp @ r \<and> scalar cp"
proof (cases "byte c < 0x80")
  case True
  with assms show ?thesis by (auto simp: utf8_decode_def utf8_encode_simps scalar_def)
next
  case False
  with assms obtain ms where ms: "utf8_masks (utf8_range (byte c)) = Some ms"
    and s: "utf8_tail ms True (if utf8_range (byte c) \<ge> 32 then 0 else drop_bit (utf8_range (byte c)) 0xFF AND byte c) s
      = (True, cp, r)"
    by (auto simp: utf8_decode_def Let_def split: option.splits)
  have "utf8_range (byte c) < 32"
    using ms by (auto simp: utf8_masks_def split: if_splits)
  with s have s: "utf8_tail ms True (drop_bit (utf8_range (byte c)) 0xFF AND byte c) s = (True, cp, r)" by simp
  from ms show ?thesis
  proof (cases rule: first_bytes)
    case (1 q)
    have "utf8_tail [0x70] True q s = (True, cp, r)"
      using s by (simp only: 1(4,5))
    then obtain b where "s = char_of (128 + b) # r" "b < 64" "cp = 64 * q + b"
      by (rule utf8_tail_True) auto
    with 1 show ?thesis using encode_two [of q b] by (metis append_Cons append_Nil char_of_char)
  next
    case (2 q)
    have "utf8_tail [if q = 0 then 0x20 else if q = 13 then 0x50 else 0x70, 0x70] True q s = (True, cp, r)"
      using s by (simp only: 2(3,4))
    then obtain a s1 where a: "s = char_of (128 + a) # s1" "a < 64"
        "tail_class a AND (if q = 0 then 0x20 else if q = 13 then 0x50 else 0x70) \<noteq> 0"
        "utf8_tail [0x70] True (64 * q + a) s1 = (True, cp, r)"
      by (rule utf8_tail_True) (auto split: if_splits)
    from a(4) obtain b where b: "s1 = char_of (128 + b) # r" "b < 64" "cp = 64 * (64 * q + a) + b"
      by (rule utf8_tail_True) auto
    note a = a(1-3) b
    have "q = 0 \<longrightarrow> 32 \<le> a" "q = 13 \<longrightarrow> a < 32"
      using a(3) by (auto simp: tail_class_def and_class split: if_splits)
    moreover have "c = char_of (224 + q)"
      using 2(1) by (metis char_of_char)
    ultimately show ?thesis using encode_three [OF 2(2) a(2,5)] a by simp
  next
    case (3 q)
    have "utf8_tail [if q = 0 then 0x60 else if q = 4 then 0x10 else 0x70, 0x70, 0x70] True q s = (True, cp, r)"
      using s by (simp only: 3(3,4))
    then obtain a s1 where a: "s = char_of (128 + a) # s1" "a < 64"
        "tail_class a AND (if q = 0 then 0x60 else if q = 4 then 0x10 else 0x70) \<noteq> 0"
        "utf8_tail [0x70, 0x70] True (64 * q + a) s1 = (True, cp, r)"
      by (rule utf8_tail_True) (auto split: if_splits)
    from a(4) obtain b s2 where b: "s1 = char_of (128 + b) # s2" "b < 64"
        "utf8_tail [0x70] True (64 * (64 * q + a) + b) s2 = (True, cp, r)"
      by (rule utf8_tail_True) auto
    from b(3) obtain d where d: "s2 = char_of (128 + d) # r" "d < 64" "cp = 64 * (64 * (64 * q + a) + b) + d"
      by (rule utf8_tail_True) auto
    have "q = 0 \<longrightarrow> 16 \<le> a" "q = 4 \<longrightarrow> a < 16"
      using a(3) by (auto simp: tail_class_def and_class split: if_splits)
    moreover have "c = char_of (240 + q)"
      using 3(1) by (metis char_of_char)
    ultimately show ?thesis using encode_four [OF 3(2) a(2) b(2) d(2)] a(1) b(1) d by simp
  qed
qed

end
