(* ===== verification/JsonText.thy ===== *)
theory JsonText
  imports Utf8
begin

text \<open>
  The writer of JSON text, as the program uses it: \<open>codec/rapidjson/internal/itoa.h\<close> and \<open>codec/rapidjson/writer.h\<close> for
  \<open>Writer<StringBuffer, UTF8<>, ASCII<>>\<close>, which writes whatever is no ASCII as an escape.

  A character is a byte. The writer is a machine that is given events (\<open>jevent\<close>: the calls of a
  handler) and keeps the text, the open levels and whether there is a root; \<open>accept\<close> lists the events of
  a document, and \<open>rj_write\<close> is the text of a document. The result of \<open>String\<close> is ignored, as in
  \<open>common/util.cpp\<close>.
\<close>

section \<open>Numbers\<close>

definition digits_lut :: string where
  "digits_lut = concat (map (\<lambda>n. [char_of (48 + n div 10), char_of (48 + n mod 10)]) [0..<100])"

definition lut :: "32 word \<Rightarrow> char" where
  "lut i = digits_lut ! unat i"

definition u32toa :: "32 word \<Rightarrow> string" where
  "u32toa v =
     (if v < 10000 then
        let d1 = push_bit 1 (v div 100); d2 = push_bit 1 (v mod 100) in
        (if v \<ge> 1000 then [lut d1] else []) @ (if v \<ge> 100 then [lut (d1 + 1)] else []) @
        (if v \<ge> 10 then [lut d2] else []) @ [lut (d2 + 1)]
      else if v < 100000000 then
        let b = v div 10000; c = v mod 10000;
            d1 = push_bit 1 (b div 100); d2 = push_bit 1 (b mod 100);
            d3 = push_bit 1 (c div 100); d4 = push_bit 1 (c mod 100) in
        (if v \<ge> 10000000 then [lut d1] else []) @ (if v \<ge> 1000000 then [lut (d1 + 1)] else []) @
        (if v \<ge> 100000 then [lut d2] else []) @ [lut (d2 + 1)] @
        [lut d3, lut (d3 + 1), lut d4, lut (d4 + 1)]
      else
        let a = v div 100000000; w = v mod 100000000;
            b = w div 10000; c = w mod 10000;
            d1 = push_bit 1 (b div 100); d2 = push_bit 1 (b mod 100);
            d3 = push_bit 1 (c div 100); d4 = push_bit 1 (c mod 100) in
        (if a \<ge> 10 then [lut (push_bit 1 a), lut (push_bit 1 a + 1)] else [char_of (48 + unat a)]) @
        [lut d1, lut (d1 + 1), lut d2, lut (d2 + 1), lut d3, lut (d3 + 1), lut d4, lut (d4 + 1)])"

definition i32toa :: "32 word \<Rightarrow> string" where
  "i32toa v = (if sint v < 0 then CHR ''-'' # u32toa (NOT v + 1) else u32toa v)"

lemma nth_concat_pairs:
  "d < n \<Longrightarrow> concat (map (\<lambda>i. [f i, g i]) [0..<n]) ! (2 * d) = f d"
  "d < n \<Longrightarrow> concat (map (\<lambda>i. [f i, g i]) [0..<n]) ! Suc (2 * d) = g d"
proof (induction n)
  case (Suc n)
  have len: "length (concat (map (\<lambda>i. [f i, g i]) [0..<n])) = 2 * n" by (induction n) simp_all
  {
    case 1 then show ?case using Suc.IH(1) len by (cases "d = n") (simp_all add: nth_append)
  next
    case 2 then show ?case using Suc.IH(2) len by (cases "d = n") (simp_all add: nth_append)
  }
qed simp_all

lemma lut_digits:
  assumes "unat x < 100"
  shows "lut (x * 2) = digit_char (unat x div 10)" and "lut (x * 2 + 1) = digit_char (unat x mod 10)"
proof -
  have "unat (x * 2) = 2 * unat x" "unat (x * 2 + 1) = Suc (2 * unat x)"
    using assms by (simp_all add: unat_word_ariths)
  then show "lut (x * 2) = digit_char (unat x div 10)" "lut (x * 2 + 1) = digit_char (unat x mod 10)"
    using nth_concat_pairs [OF assms] by (simp_all add: lut_def digits_lut_def digit_char_def)
qed

definition two_digits :: "nat \<Rightarrow> string" where
  "two_digits n = [digit_char (n div 10), digit_char (n mod 10)]"

lemma nat_digits_two: "100 \<le> n \<Longrightarrow> nat_digits n = nat_digits (n div 100) @ two_digits (n mod 100)"
proof -
  assume "100 \<le> n"
  then have "nat_digits n = (nat_digits (n div 10 div 10) @ [digit_char (n div 10 mod 10)]) @ [digit_char (n mod 10)]"
    by (subst nat_digits.simps, subst nat_digits.simps) auto
  moreover have "n mod 100 = 10 * (n div 10 mod 10) + n mod 10"
    using mod_mult2_eq [of n 10 10] by simp
  ultimately show ?thesis by (simp add: two_digits_def div_mult2_eq [symmetric])
qed

lemma short_digits:
  assumes "n < 10000"
  shows "nat_digits n =
    (if n \<ge> 1000 then [digit_char (n div 100 div 10)] else []) @ (if n \<ge> 100 then [digit_char (n div 100 mod 10)] else []) @
    (if n \<ge> 10 then [digit_char (n mod 100 div 10)] else []) @ [digit_char (n mod 100 mod 10)]"
proof -
  have one: "nat_digits m = (if m \<ge> 10 then [digit_char (m div 10)] else []) @ [digit_char (m mod 10)]" if "m < 100" for m
    using that by (subst nat_digits.simps, subst nat_digits.simps) auto
  show ?thesis
  proof (cases "n < 100")
    case True
    then show ?thesis using one [of n] by simp
  next
    case False
    then show ?thesis
      using nat_digits_two [of n] one [of "n div 100"] assms by (auto simp: two_digits_def)
  qed
qed

lemma nat_digits_four:
  "10000 \<le> n \<Longrightarrow> nat_digits n = nat_digits (n div 10000) @ two_digits (n mod 10000 div 100) @ two_digits (n mod 100)"
  using nat_digits_two [of n] nat_digits_two [of "n div 100"] mod_mult2_eq [of n 100 100]
  by (simp add: div_mult2_eq [symmetric])

lemma nat_digits_eight:
  assumes "100000000 \<le> n"
  shows "nat_digits n = nat_digits (n div 100000000) @ two_digits (n mod 100000000 div 10000 div 100) @
    two_digits (n mod 100000000 div 10000 mod 100) @ two_digits (n mod 10000 div 100) @ two_digits (n mod 100)"
proof -
  have "n mod 100000000 = 10000 * (n div 10000 mod 10000) + n mod 10000"
    using mod_mult2_eq [of n 10000 10000] by simp
  then have "n mod 100000000 div 10000 = n div 10000 mod 10000" by simp
  moreover have "n div 10000 mod 10000 mod 100 = n div 10000 mod 100"
    by (simp add: mod_mod_cancel)
  ultimately show ?thesis
    using nat_digits_four [of n] nat_digits_four [of "n div 10000"] assms
      less_eq_div_iff_mult_less_eq [of 10000 10000 n] by (simp add: div_mult2_eq [symmetric])
qed

lemma u32toa_digits: "u32toa v = nat_to_string (unat v)"
proof -
  let ?n = "unat v"
  have le: "v \<ge> k \<longleftrightarrow> ?n \<ge> unat k" "v < k \<longleftrightarrow> ?n < unat k" for k :: "32 word"
    by (simp_all add: word_le_nat_alt word_less_nat_alt)
  have n: "?n < 4294967296" using unsigned_less [of v, where ?'a = nat] by simp
  consider "?n < 10000" | "10000 \<le> ?n" "?n < 100000000" | "100000000 \<le> ?n" by linarith
  then show ?thesis
  proof cases
    case 1
    then show ?thesis
      by (simp add: u32toa_def nat_to_string_def le unat_div unat_mod lut_digits short_digits [OF 1] Let_def)
  next
    case 2
    let ?b = "?n div 10000"
    have b: "?b < 10000" using 2 by auto
    have "?n \<ge> 10000000 \<longleftrightarrow> ?b \<ge> 1000" "?n \<ge> 1000000 \<longleftrightarrow> ?b \<ge> 100" "?n \<ge> 100000 \<longleftrightarrow> ?b \<ge> 10"
      by (simp_all add: less_eq_div_iff_mult_less_eq)
    moreover have "?n mod 10000 mod 100 = ?n mod 100" by (simp add: mod_mod_cancel)
    ultimately show ?thesis using 2 b
      by (simp add: u32toa_def nat_to_string_def le unat_div unat_mod lut_digits nat_digits_four short_digits [OF b]
          two_digits_def Let_def)
  next
    case 3
    let ?a = "?n div 100000000"
    have a: "?a < 100" using n by auto
    have da: "nat_digits ?a = (if ?a \<ge> 10 then two_digits ?a else [digit_char ?a])"
      using a by (subst nat_digits.simps, subst nat_digits.simps) (auto simp: two_digits_def)
    let ?w = "v mod 100000000"
    let ?b = "?n mod 100000000 div 10000" and ?c = "?n mod 10000"
    have w: "unat (v div 100000000) = ?a" "unat (?w div 10000) = ?b" "unat (?w mod 10000) = ?c"
      by (simp_all add: unat_div unat_mod mod_mod_cancel)
    have "?b < 10000" "?c < 10000" using mod_less_divisor [of 100000000 ?n] by simp_all
    then have small: "?b div 100 < 100" "?c div 100 < 100" by auto
    have hi: "lut (x div 100 * 2) = digit_char (unat x div 100 div 10)" "lut (x div 100 * 2 + 1) = digit_char (unat x div 100 mod 10)"
      if "unat x div 100 < 100" for x
      using that lut_digits [of "x div 100"] by (simp_all add: unat_div)
    have lo: "lut (x mod 100 * 2) = digit_char (unat x mod 100 div 10)" "lut (x mod 100 * 2 + 1) = digit_char (unat x mod 100 mod 10)"
      for x
      using lut_digits [of "x mod 100"] by (simp_all add: unat_mod)
    have bc: "?c mod 100 = ?n mod 100" by (simp add: mod_mod_cancel)
    have "u32toa v = (if ?a \<ge> 10 then two_digits ?a else [digit_char ?a]) @ two_digits (?b div 100) @ two_digits (?b mod 100)
        @ two_digits (?c div 100) @ two_digits (?c mod 100)"
      using 3 a small
      by (simp only: u32toa_def Let_def le w push_bit_eq_mult hi lo lut_digits [of "v div 100000000"] two_digits_def) 
        (simp add: word_le_nat_alt w hi lo lut_digits digit_char_def)
    then show ?thesis
      unfolding nat_to_string_def nat_digits_eight [OF 3] da bc .
  qed
qed

lemma unat_word_of_int: "0 \<le> k \<Longrightarrow> k < 2 ^ 32 \<Longrightarrow> unat (word_of_int k :: 32 word) = nat k"
  by (simp only: unat_eq_nat_uint uint_word_of_int) simp

lemma i32toa_digits:
  assumes "int32_min \<le> i" and "i \<le> int32_max"
  shows "i32toa (word_of_int i) = int_to_string i"
proof -
  have s: "sint (word_of_int i :: 32 word) = i"
    using assms by (simp add: signed_of_int int32_min_def int32_max_def signed_take_bit_int_eq_self del: sint_sbintrunc)
  show ?thesis
  proof (cases "i < 0")
    case True
    have "NOT (word_of_int i) + 1 = (word_of_int (- i) :: 32 word)"
      by (simp add: not_eq_complement)
    moreover have "unat (word_of_int (- i) :: 32 word) = nat (- i)"
      using assms True by (intro unat_word_of_int) (simp_all add: int32_min_def)
    ultimately show ?thesis
      using True by (simp add: i32toa_def s u32toa_digits int_to_string_def nat_to_string_def)
  next
    case False
    then have "unat (word_of_int i :: 32 word) = nat i"
      using assms by (intro unat_word_of_int) (simp_all add: int32_max_def)
    with False show ?thesis
      by (simp add: i32toa_def s u32toa_digits int_to_string_def nat_to_string_def)
  qed
qed

section \<open>The text of a string\<close>

definition hex_digit :: "nat \<Rightarrow> char" where
  "hex_digit n = ''0123456789ABCDEF'' ! (n AND 15)"

definition hex4 :: "nat \<Rightarrow> string" where
  "hex4 n = [hex_digit (drop_bit 12 n), hex_digit (drop_bit 8 n), hex_digit (drop_bit 4 n), hex_digit n]"

definition u_prefix :: string where
  "u_prefix = [CHR 0x5C, CHR ''u'']"

definition unicode_escape :: "nat \<Rightarrow> string" where
  "unicode_escape cp =
     u_prefix @
     (if cp \<le> 0xD7FF \<or> (cp \<ge> 0xE000 \<and> cp \<le> 0xFFFF) then hex4 cp
      else let s = cp - 0x10000 in
        hex4 (drop_bit 10 s + 0xD800) @ u_prefix @ hex4 ((s AND 0x3FF) + 0xDC00))"

text \<open>The table of the escapes; \<open>None\<close> is its zero.\<close>

definition write_escape :: "char \<Rightarrow> char option" where
  "write_escape c =
     (let b = byte c in
      if b = 8 then Some CHR ''b'' else if b = 9 then Some CHR ''t'' else if b = 10 then Some CHR ''n''
      else if b = 12 then Some CHR ''f'' else if b = 13 then Some CHR ''r''
      else if b < 0x20 then Some CHR ''u''
      else if b = 0x22 \<or> b = 0x5C then Some c
      else None)"

text \<open>What \<open>WriteString\<close> puts between the quotes, and whether it came to the end.\<close>

lemma utf8_tail_length: "length (snd (snd (utf8_tail ms r cp s))) \<le> length s"
proof (induction ms arbitrary: r cp s)
  case (Cons m ms)
  show ?case
    using Cons.IH [of _ _ "[]"] Cons.IH by (cases s) (simp_all add: le_SucI)
qed simp

lemma utf8_decode_shorter: "utf8_decode (c # s) = (ok, cp, r) \<Longrightarrow> length r \<le> length s"
  using utf8_tail_length [of _ True _ s]
  by (auto simp: utf8_decode_def Let_def split: if_splits option.splits dest: sym) (metis snd_conv)+

function write_chars :: "string \<Rightarrow> bool \<times> string" where
  "write_chars [] = (True, [])"
| "write_chars (c # s) =
     (if byte c \<ge> 0x80 then
        (case utf8_decode (c # s) of (ok, cp, r) \<Rightarrow>
           if ok then apsnd ((@) (unicode_escape cp)) (write_chars r) else (False, []))
      else (case write_escape c of
        Some e \<Rightarrow>
          apsnd ((@) (CHR 0x5C # e # (if e = CHR ''u'' then ''00'' @ [hex_digit (drop_bit 4 (byte c)), hex_digit (byte c)]
                                      else [])))
            (write_chars s)
      | None \<Rightarrow> apsnd ((#) c) (write_chars s)))"
  by pat_completeness auto
termination
  by (relation "measure length") (auto dest!: sym [of "(_, _, _)"] utf8_decode_shorter)

definition write_string :: "string \<Rightarrow> bool \<times> string" where
  "write_string s =
     (case write_chars s of (ok, out) \<Rightarrow> (ok, CHR 0x22 # out @ (if ok then [CHR 0x22] else [])))"

section \<open>The writer\<close>

text \<open>The calls of a handler. A number that is no integer is the text that its digits are.\<close>

datatype jevent =
    E_Null
  | E_Bool bool
  | E_Int int
  | E_Double string
  | E_String string
  | E_StartObject
  | E_Key string
  | E_EndObject nat
  | E_StartArray
  | E_EndArray nat

record json_writer =
  w_out :: string
  w_levels :: "(nat \<times> bool) list"   \<comment> \<open>how many values, and whether in an array; the top first\<close>
  w_root :: bool

definition new_writer :: json_writer where
  "new_writer = \<lparr>w_out = [], w_levels = [], w_root = False\<rparr>"

definition put :: "string \<Rightarrow> (json_writer, unit) act" where
  "put s = modify (\<lambda>w. w\<lparr>w_out := w_out w @ s\<rparr>)"

definition separator :: "nat \<Rightarrow> bool \<Rightarrow> string" where
  "separator count in_array =
     (if count > 0 then (if in_array then '','' else if count mod 2 = 0 then '','' else '':'') else [])"

definition Prefix :: "bool \<Rightarrow> (json_writer, unit) act" where
  "Prefix is_string w =
     (case w_levels w of
        (n, in_array) # ls \<Rightarrow>
          seq (put (separator n in_array)) (\<lambda>_.
            if \<not> in_array \<and> n mod 2 = 0 \<and> \<not> is_string then raise AssertFailed
            else modify (\<lambda>w. w\<lparr>w_levels := (n + 1, in_array) # ls\<rparr>)) w
      | [] \<Rightarrow> if w_root w then (Inl AssertFailed, w) else (Inr (), w\<lparr>w_root := True\<rparr>))"

definition push_level :: "bool \<Rightarrow> (json_writer, unit) act" where
  "push_level in_array = modify (\<lambda>w. w\<lparr>w_levels := (0, in_array) # w_levels w\<rparr>)"

definition pop_level :: "bool \<Rightarrow> (json_writer, unit) act" where
  "pop_level of_array w =
     (case w_levels w of
        [] \<Rightarrow> (Inl AssertFailed, w)
      | (n, in_array) # ls \<Rightarrow>
          if in_array \<noteq> of_array \<or> (\<not> of_array \<and> n mod 2 \<noteq> 0) then (Inl AssertFailed, w)
          else (Inr (), w\<lparr>w_levels := ls\<rparr>))"

fun write_event :: "jevent \<Rightarrow> (json_writer, unit) act" where
  "write_event E_Null = seq (Prefix False) (\<lambda>_. put ''null'')"
| "write_event (E_Bool b) = seq (Prefix False) (\<lambda>_. put (if b then ''true'' else ''false''))"
| "write_event (E_Int i) = seq (Prefix False) (\<lambda>_. put (i32toa (word_of_int i)))"
| "write_event (E_Double digits) = seq (Prefix False) (\<lambda>_. put digits)"
| "write_event (E_String s) = seq (Prefix True) (\<lambda>_. put (snd (write_string s)))"
| "write_event (E_Key s) = seq (Prefix True) (\<lambda>_. put (snd (write_string s)))"
| "write_event E_StartObject = seq (Prefix False) (\<lambda>_. seq (push_level False) (\<lambda>_. put ''{''))"
| "write_event (E_EndObject n) = seq (pop_level False) (\<lambda>_. put ''}'')"
| "write_event E_StartArray = seq (Prefix False) (\<lambda>_. seq (push_level True) (\<lambda>_. put ''[''))"
| "write_event (E_EndArray n) = seq (pop_level True) (\<lambda>_. put '']'')"

fun accept :: "json \<Rightarrow> jevent list" where
  "accept JNull = [E_Null]"
| "accept (JBool b) = [E_Bool b]"
| "accept (JInt i) = [E_Int i]"
| "accept (JReal s) = [E_Double s]"
| "accept (JString s) = [E_String s]"
| "accept (JArray xs) = E_StartArray # concat (map accept xs) @ [E_EndArray (length xs)]"
| "accept (JObject kvs) =
     E_StartObject # concat (map (\<lambda>(k, v). E_Key k # accept v) kvs) @ [E_EndObject (length kvs)]"

definition rj_write :: jwriter where
  "rj_write j = w_out (snd (each write_event (accept j) new_writer))"

section \<open>The text of a document\<close>

text \<open>What the machine comes to: a text for every part, with commas and colons between them.\<close>

fun commas :: "string list \<Rightarrow> string" where
  "commas [] = []"
| "commas [x] = x"
| "commas (x # xs) = x @ CHR '','' # commas xs"

fun json_text :: "json \<Rightarrow> string" where
  "json_text JNull = ''null''"
| "json_text (JBool b) = (if b then ''true'' else ''false'')"
| "json_text (JInt i) = i32toa (word_of_int i)"
| "json_text (JReal s) = s"
| "json_text (JString s) = snd (write_string s)"
| "json_text (JArray xs) = CHR ''['' # commas (map json_text xs) @ '']''"
| "json_text (JObject kvs) =
     CHR ''{'' # commas (map (\<lambda>(k, v). snd (write_string k) @ CHR '':'' # json_text v) kvs) @ ''}''"

text \<open>A writer that may be given a value, or a string; and what it is after the text of one.\<close>

definition may_write :: "bool \<Rightarrow> json_writer \<Rightarrow> bool" where
  "may_write is_string w \<longleftrightarrow>
     (case w_levels w of [] \<Rightarrow> \<not> w_root w | (n, in_array) # _ \<Rightarrow> in_array \<or> n mod 2 = 1 \<or> is_string)"

definition wrote :: "string \<Rightarrow> json_writer \<Rightarrow> json_writer" where
  "wrote s w =
     (case w_levels w of [] \<Rightarrow> w\<lparr>w_out := w_out w @ s, w_root := True\<rparr>
      | (n, in_array) # ls \<Rightarrow> w\<lparr>w_out := w_out w @ separator n in_array @ s, w_levels := (n + 1, in_array) # ls\<rparr>)"

lemma Prefix_wrote [simp]: "may_write b w \<Longrightarrow> Prefix b w = (Inr (), wrote [] w)"
  by (auto simp: may_write_def Prefix_def wrote_def put_def seq_def split: list.splits)

lemma put_wrote [simp]: "put t (wrote s w) = (Inr (), wrote (s @ t) w)"
  by (auto simp: put_def wrote_def split: list.splits)

lemma write_elements:
  assumes "\<And>x w. x \<in> set xs \<Longrightarrow> may_write False w \<Longrightarrow> each write_event (accept x) w = (Inr (), wrote (json_text x) w)"
    and "w_levels w = (n, True) # ls"
  shows "each write_event (concat (map accept xs)) w =
    (Inr (), w\<lparr>w_out := w_out w @ (if xs = [] then [] else separator n True @ commas (map json_text xs)),
               w_levels := (n + length xs, True) # ls\<rparr>)"
  using assms
proof (induction xs arbitrary: w n)
  case (Cons x xs)
  let ?w = "wrote (json_text x) w"
  have x: "each write_event (accept x) w = (Inr (), ?w)"
    using Cons.prems by (simp add: may_write_def)
  have w: "?w = w\<lparr>w_out := w_out w @ separator n True @ json_text x, w_levels := (n + 1, True) # ls\<rparr>"
    using Cons.prems(2) by (simp add: wrote_def)
  have "each write_event (concat (map accept xs)) ?w =
    (Inr (), ?w\<lparr>w_out := w_out ?w @ (if xs = [] then [] else separator (n + 1) True @ commas (map json_text xs)),
               w_levels := (n + 1 + length xs, True) # ls\<rparr>)"
    using Cons.IH [of ?w "n + 1"] Cons.prems w by simp
  with x w show ?case
    by (cases xs) (simp_all add: each_append seq_def separator_def)
qed simp

lemma write_members:
  assumes "\<And>k v w. (k, v) \<in> set kvs \<Longrightarrow> may_write False w \<Longrightarrow>
      each write_event (accept v) w = (Inr (), wrote (json_text v) w)"
    and "w_levels w = (n, False) # ls" and "n mod 2 = 0"
  shows "each write_event (concat (map (\<lambda>(k, v). E_Key k # accept v) kvs)) w =
    (Inr (), w\<lparr>w_out := w_out w @ (if kvs = [] then [] else separator n False @
                 commas (map (\<lambda>(k, v). snd (write_string k) @ CHR '':'' # json_text v) kvs)),
               w_levels := (n + 2 * length kvs, False) # ls\<rparr>)"
  using assms
proof (induction kvs arbitrary: w n)
  case (Cons kv kvs)
  obtain k v where kv: "kv = (k, v)" by (cases kv)
  let ?v = "wrote (snd (write_string k)) w" and ?w = "wrote (json_text v) (wrote (snd (write_string k)) w)"
  have k: "write_event (E_Key k) w = (Inr (), ?v)"
    using Cons.prems(2) by (simp add: seq_def may_write_def)
  have "may_write False ?v"
    using Cons.prems(2,3) by (simp add: wrote_def may_write_def mod_Suc)
  then have v: "each write_event (accept v) ?v = (Inr (), ?w)"
    using Cons.prems(1) kv by auto
  have w: "?w = w\<lparr>w_out := w_out w @ separator n False @ snd (write_string k) @ CHR '':'' # json_text v,
      w_levels := (n + 2, False) # ls\<rparr>"
    using Cons.prems(2,3) by (simp add: wrote_def separator_def mod_Suc)
  have "each write_event (concat (map (\<lambda>(k, v). E_Key k # accept v) kvs)) ?w =
    (Inr (), ?w\<lparr>w_out := w_out ?w @ (if kvs = [] then [] else separator (n + 2) False @
                 commas (map (\<lambda>(k, v). snd (write_string k) @ CHR '':'' # json_text v) kvs)),
               w_levels := (n + 2 + 2 * length kvs, False) # ls\<rparr>)"
    by (rule Cons.IH) (use Cons.prems(1,3) w in auto)
  with k v w Cons.prems(3) show ?case
    by (cases kvs) (simp_all add: kv each_append seq_def separator_def)
qed simp

lemma write_accept:
  "may_write False w \<Longrightarrow> each write_event (accept j) w = (Inr (), wrote (json_text j) w)"
proof (induction j arbitrary: w)
  case (JString s)
  then have "may_write True w" by (auto simp: may_write_def split: list.splits)
  then show ?case by (simp add: seq_def)
next
  case (JArray xs)
  let ?w = "(wrote [] w)\<lparr>w_levels := (0, True) # w_levels (wrote [] w), w_out := w_out (wrote [] w) @ ''[''\<rparr>"
  have "each write_event (concat (map accept xs)) ?w =
    (Inr (), ?w\<lparr>w_out := w_out ?w @ commas (map json_text xs), w_levels := (length xs, True) # w_levels (wrote [] w)\<rparr>)"
    using write_elements [of xs ?w 0] JArray.IH by (cases xs) (simp_all add: separator_def)
  then show ?case using JArray.prems
    by (auto simp: seq_def each_append push_level_def pop_level_def put_def wrote_def split: list.splits)
next
  case (JObject kvs)
  let ?w = "(wrote [] w)\<lparr>w_levels := (0, False) # w_levels (wrote [] w), w_out := w_out (wrote [] w) @ ''{''\<rparr>"
  have "each write_event (concat (map (\<lambda>(k, v). E_Key k # accept v) kvs)) ?w =
    (Inr (), ?w\<lparr>w_out := w_out ?w @ commas (map (\<lambda>(k, v). snd (write_string k) @ CHR '':'' # json_text v) kvs),
                w_levels := (2 * length kvs, False) # w_levels (wrote [] w)\<rparr>)"
    using write_members [of kvs ?w 0] JObject.IH by (cases kvs) (fastforce simp: separator_def)+
  then show ?case using JObject.prems
    by (auto simp: seq_def each_append push_level_def pop_level_def put_def wrote_def split: list.splits)
qed (simp_all add: seq_def)

lemma rj_write_text: "rj_write j = json_text j"
  by (simp add: rj_write_def write_accept may_write_def new_writer_def wrote_def)

end
