(* ===== verification/JsonReader.thy ===== *)
theory JsonReader
  imports JsonText
begin

text \<open>
  The reader of JSON text, \<open>codec/rapidjson/reader.h\<close> with the flags the program uses (none), and the
  document that is built from its events, \<open>codec/rapidjson/document.h\<close>; then what a written text is
  read as, which makes the two an instance of what \<open>JsonTools\<close> asks of the library.

  A text is a list of bytes without NUL; at its end the stream gives a NUL. The parser calls itself for
  what is nested, and the number that is its fuel bounds these calls: \<open>fuel_for\<close> of a text is enough for
  it (\<open>reader_has_enough_fuel\<close>). The value of a number that is no integer is the text of its digits;
  whether that is beyond the largest double is the argument \<open>huge\<close>. The offset of an error is left out.
\<close>

datatype parse_error =
    DocumentEmpty
  | DocumentRootNotSingular
  | ValueInvalid
  | ObjectMissName
  | ObjectMissColon
  | ObjectMissCommaOrCurlyBracket
  | ArrayMissCommaOrSquareBracket
  | StringUnicodeEscapeInvalidHex
  | StringUnicodeSurrogateInvalid
  | StringEscapeInvalid
  | StringMissQuotationMark
  | StringInvalidEncoding
  | NumberTooBig
  | NumberMissFraction
  | NumberMissExponent
  | OutOfFuel          \<comment> \<open>not the library's: the bound of the model\<close>

type_synonym 'a parse = "parse_error + ('a \<times> string)"

definition andthen :: "'a parse \<Rightarrow> ('a \<Rightarrow> string \<Rightarrow> 'b parse) \<Rightarrow> 'b parse" where
  "andthen p f = (case p of Inl e \<Rightarrow> Inl e | Inr (x, s) \<Rightarrow> f x s)"

lemma andthen_simps [simp]:
  "andthen (Inl e) f = Inl e"
  "andthen (Inr (x, s)) f = f x s"
  by (simp_all add: andthen_def)

lemma andthen_Inr: "andthen p f = Inr y \<longleftrightarrow> (\<exists>x s. p = Inr (x, s) \<and> f x s = Inr y)"
  by (auto simp: andthen_def split: sum.splits)

definition peek :: "string \<Rightarrow> char" where
  "peek s = fst (take_char s)"

lemma peek_simps [simp]: "peek [] = NUL" "peek (c # s) = c"
  by (simp_all add: peek_def)

fun skip_ws :: "string \<Rightarrow> string" where
  "skip_ws [] = []"
| "skip_ws (c # s) = (if c \<in> {CHR '' '', CHR 0x0A, CHR 0x0D, CHR 0x09} then skip_ws s else c # s)"

section \<open>Strings\<close>

definition hex_val :: "char \<Rightarrow> nat option" where
  "hex_val c =
     (let b = byte c in
      if 48 \<le> b \<and> b \<le> 57 then Some (b - 48)
      else if 65 \<le> b \<and> b \<le> 70 then Some (b - 55)
      else if 97 \<le> b \<and> b \<le> 102 then Some (b - 87)
      else None)"

fun parse_hex :: "nat \<Rightarrow> nat \<Rightarrow> string \<Rightarrow> nat parse" where
  "parse_hex 0 codepoint s = Inr (codepoint, s)"
| "parse_hex (Suc n) codepoint s =
     (case hex_val (peek s) of
        None \<Rightarrow> Inl StringUnicodeEscapeInvalidHex
      | Some d \<Rightarrow> parse_hex n (push_bit 4 codepoint + d) (tl s))"

definition parse_hex4 :: "string \<Rightarrow> nat parse" where
  "parse_hex4 = parse_hex 4 0"

definition read_escape :: "char \<Rightarrow> char option" where
  "read_escape e =
     (if e = CHR 0x22 then Some e else if e = CHR ''/'' then Some e else if e = CHR 0x5C then Some e
      else if e = CHR ''b'' then Some CHR 0x08 else if e = CHR ''f'' then Some CHR 0x0C
      else if e = CHR ''n'' then Some CHR 0x0A else if e = CHR ''r'' then Some CHR 0x0D
      else if e = CHR ''t'' then Some CHR 0x09 else None)"

text \<open>What follows the four letters of a high surrogate.\<close>

definition parse_low :: "nat \<Rightarrow> string \<Rightarrow> nat parse" where
  "parse_low codepoint s =
     (if take 2 s \<noteq> u_prefix then Inl StringUnicodeSurrogateInvalid
      else andthen (parse_hex4 (drop 2 s)) (\<lambda>codepoint2 r.
        if codepoint2 < 0xDC00 \<or> codepoint2 > 0xDFFF then Inl StringUnicodeSurrogateInvalid
        else Inr ((push_bit 10 (codepoint - 0xD800) OR (codepoint2 - 0xDC00)) + 0x10000, r)))"

definition parse_unicode :: "string \<Rightarrow> nat parse" where
  "parse_unicode s =
     andthen (parse_hex4 s) (\<lambda>codepoint r.
       if codepoint \<ge> 0xD800 \<and> codepoint \<le> 0xDFFF then
         (if codepoint \<le> 0xDBFF then parse_low codepoint r else Inl StringUnicodeSurrogateInvalid)
       else Inr (codepoint, r))"

text \<open>After a backslash.\<close>

definition parse_escape :: "string \<Rightarrow> string parse" where
  "parse_escape s =
     (case read_escape (peek s) of
        Some c \<Rightarrow> Inr ([c], tl s)
      | None \<Rightarrow>
          if peek s = CHR ''u'' then andthen (parse_unicode (tl s)) (\<lambda>cp r. Inr (utf8_encode cp, r))
          else Inl StringEscapeInvalid)"

lemma parse_hex_length: "parse_hex n cp s = Inr (x, r) \<Longrightarrow> length r \<le> length s"
proof (induction n arbitrary: cp s)
  case (Suc n)
  then obtain d where "parse_hex n (push_bit 4 cp + d) (tl s) = Inr (x, r)"
    by (auto split: option.splits)
  with Suc.IH have "length r \<le> length (tl s)" by blast
  then show ?case by simp
qed simp

lemma parse_hex4_length: "parse_hex4 s = Inr (x, r) \<Longrightarrow> length r \<le> length s"
  by (simp add: parse_hex4_def parse_hex_length)

lemma parse_escape_length: "parse_escape s = Inr (x, r) \<Longrightarrow> length r \<le> length s"
  by (fastforce simp: parse_escape_def parse_unicode_def parse_low_def andthen_Inr
      split: option.splits if_splits dest: parse_hex4_length)

text \<open>\<open>ParseStringToStream\<close>, after the quote that opens the string.\<close>

function parse_chars :: "string \<Rightarrow> string parse" where
  "parse_chars [] = Inl StringMissQuotationMark"
| "parse_chars (c # s) =
     (if c = CHR 0x5C then
        (case parse_escape s of Inl e \<Rightarrow> Inl e
         | Inr (out, r) \<Rightarrow> andthen (parse_chars r) (\<lambda>cs t. Inr (out @ cs, t)))
      else if c = CHR 0x22 then Inr ([], s)
      else if byte c < 0x20 then Inl (if c = NUL then StringMissQuotationMark else StringInvalidEncoding)
      else andthen (parse_chars s) (\<lambda>cs t. Inr (c # cs, t)))"
  by pat_completeness auto
termination
  by (relation "measure length") (auto dest!: sym [of "Inr (_, _)"] parse_escape_length)

section \<open>Numbers\<close>

text \<open>
  The digits of an integer while it fits: \<open>big\<close> is a tenth of the largest value, \<open>digit\<close> its last digit.
  The result is the value, the number of digits taken, whether there was one too many, and the rest.
\<close>

fun int_loop :: "nat \<Rightarrow> nat \<Rightarrow> nat \<Rightarrow> nat \<Rightarrow> string \<Rightarrow> nat \<times> nat \<times> bool \<times> string" where
  "int_loop big digit i sig [] = (i, sig, False, [])"
| "int_loop big digit i sig (c # s) =
     (if \<not> is_digit c then (i, sig, False, c # s)
      else if i \<ge> big \<and> (i \<noteq> big \<or> digit_val c > digit) then (i, sig, True, c # s)
      else int_loop big digit (i * 10 + digit_val c) (sig + 1) s)"

text \<open>The digits of the fraction that still go to the 64-bit significand.\<close>

fun frac_fast :: "nat \<Rightarrow> int \<Rightarrow> nat \<Rightarrow> string \<Rightarrow> nat \<times> int \<times> nat \<times> string" where
  "frac_fast i expFrac sig [] = (i, expFrac, sig, [])"
| "frac_fast i expFrac sig (c # s) =
     (if \<not> is_digit c \<or> i > 0x1FFFFFFFFFFFFF then (i, expFrac, sig, c # s)
      else let i' = i * 10 + digit_val c in
        frac_fast i' (expFrac - 1) (if i' \<noteq> 0 then sig + 1 else sig) s)"

text \<open>Those that go to the double; \<open>positive\<close> is whether it is more than zero.\<close>

fun frac_slow :: "bool \<Rightarrow> int \<Rightarrow> nat \<Rightarrow> string \<Rightarrow> int \<times> string" where
  "frac_slow positive expFrac sig [] = (expFrac, [])"
| "frac_slow positive expFrac sig (c # s) =
     (if \<not> is_digit c then (expFrac, c # s)
      else if sig < 17 then
        let p = (positive \<or> digit_val c \<noteq> 0) in
          frac_slow p (expFrac - 1) (if p then sig + 1 else sig) s
      else frac_slow positive expFrac sig s)"

fun exp_loop :: "int \<Rightarrow> int \<Rightarrow> string \<Rightarrow> int \<times> bool \<times> string" where
  "exp_loop maxExp e [] = (e, False, [])"
| "exp_loop maxExp e (c # s) =
     (if \<not> is_digit c then (e, False, c # s)
      else let e' = e * 10 + int (digit_val c) in
        if e' > maxExp then (e', True, s) else exp_loop maxExp e' s)"

definition parse_exp :: "int \<Rightarrow> string \<Rightarrow> int parse" where
  "parse_exp expFrac s =
     (let expMinus = (peek s = CHR ''-'');
          s1 = (if peek s \<in> {CHR ''+'', CHR ''-''} then tl s else s) in
      if \<not> is_digit (peek s1) then Inl NumberMissExponent
      else let e = int (digit_val (peek s1)) in
        if expMinus then
          (case exp_loop ((expFrac + 2147483639) div 10) e (tl s1) of (e', over, r) \<Rightarrow>
             Inr (- e', if over then dropWhile is_digit r else r))
        else
          (case exp_loop (308 - expFrac) e (tl s1) of (e', over, r) \<Rightarrow>
             if over then Inl NumberTooBig else Inr (e', r)))"

definition parse_integer :: "bool \<Rightarrow> string \<Rightarrow> (nat \<times> nat \<times> bool \<times> bool) parse" where
  "parse_integer neg s =
     (if peek s = CHR ''0'' then Inr ((0, 0, False, False), tl s)
      else if \<not> is_digit (peek s) then Inl ValueInvalid
      else case int_loop (if neg then 214748364 else 429496729) (if neg then 8 else 5)
                (digit_val (peek s)) 0 (tl s) of
        (i, sig, False, r) \<Rightarrow> Inr ((i, sig, False, False), r)
      | (i, sig, True, r) \<Rightarrow>
          (case int_loop (if neg then 0x0CCCCCCCCCCCCCCC else 0x1999999999999999) (if neg then 8 else 5) i sig r of
             (i, sig, useDouble, r) \<Rightarrow> Inr ((i, sig, True, useDouble), r)))"

definition parse_fraction :: "nat \<Rightarrow> nat \<Rightarrow> bool \<Rightarrow> string \<Rightarrow> (int \<times> bool) parse" where
  "parse_fraction i sig useDouble s =
     (if peek s \<noteq> CHR ''.'' then Inr ((0, useDouble), s)
      else if \<not> is_digit (peek (tl s)) then Inl NumberMissFraction
      else let (i, expFrac, sig, r) = (if useDouble then (i, 0, sig, tl s) else frac_fast i 0 sig (tl s));
               (expFrac, r) = frac_slow (i \<noteq> 0) expFrac sig r in
        Inr ((expFrac, True), r))"

definition parse_exponent :: "int \<Rightarrow> bool \<Rightarrow> string \<Rightarrow> bool parse" where
  "parse_exponent expFrac useDouble s =
     (if peek s \<in> {CHR ''e'', CHR ''E''} then andthen (parse_exp expFrac (tl s)) (\<lambda>e r. Inr (True, r))
      else Inr (useDouble, s))"

definition parse_number :: "(string \<Rightarrow> bool) \<Rightarrow> string \<Rightarrow> jevent parse" where
  "parse_number huge s =
     (let neg = (peek s = CHR ''-''); s1 = (if neg then tl s else s) in
      andthen (parse_integer neg s1) (\<lambda>(i, sig, use64bit, useDouble) r.
      andthen (parse_fraction i sig useDouble (if useDouble then dropWhile is_digit r else r)) (\<lambda>(expFrac, useDouble) r.
      andthen (parse_exponent expFrac useDouble r) (\<lambda>useDouble r.
        if useDouble then
          let digits = take (length s - length r) s in
          if huge digits then Inl NumberTooBig else Inr (E_Double digits, r)
        else Inr (E_Int (if neg then - int i else int i), r)))))"

section \<open>Values\<close>

fun parse_value :: "(string \<Rightarrow> bool) \<Rightarrow> nat \<Rightarrow> string \<Rightarrow> jevent list parse"
  and parse_members :: "(string \<Rightarrow> bool) \<Rightarrow> nat \<Rightarrow> nat \<Rightarrow> string \<Rightarrow> jevent list parse"
  and parse_elements :: "(string \<Rightarrow> bool) \<Rightarrow> nat \<Rightarrow> nat \<Rightarrow> string \<Rightarrow> jevent list parse" where
  "parse_value huge 0 s = Inl OutOfFuel"
| "parse_value huge (Suc n) s =
     (if peek s = CHR ''n'' then
        if take 4 s = ''null'' then Inr ([E_Null], drop 4 s) else Inl ValueInvalid
      else if peek s = CHR ''t'' then
        if take 4 s = ''true'' then Inr ([E_Bool True], drop 4 s) else Inl ValueInvalid
      else if peek s = CHR ''f'' then
        if take 5 s = ''false'' then Inr ([E_Bool False], drop 5 s) else Inl ValueInvalid
      else if peek s = CHR 0x22 then andthen (parse_chars (tl s)) (\<lambda>t r. Inr ([E_String t], r))
      else if peek s = CHR ''{'' then
        let s1 = skip_ws (tl s) in
        if peek s1 = CHR ''}'' then Inr ([E_StartObject, E_EndObject 0], tl s1)
        else andthen (parse_members huge n 0 s1) (\<lambda>es r. Inr (E_StartObject # es, r))
      else if peek s = CHR ''['' then
        let s1 = skip_ws (tl s) in
        if peek s1 = CHR '']'' then Inr ([E_StartArray, E_EndArray 0], tl s1)
        else andthen (parse_elements huge n 0 s1) (\<lambda>es r. Inr (E_StartArray # es, r))
      else andthen (parse_number huge s) (\<lambda>e r. Inr ([e], r)))"
| "parse_members huge 0 count s = Inl OutOfFuel"
| "parse_members huge (Suc n) count s =
     (if peek s \<noteq> CHR 0x22 then Inl ObjectMissName
      else andthen (parse_chars (tl s)) (\<lambda>k s1. let s2 = skip_ws s1 in
        if peek s2 \<noteq> CHR '':'' then Inl ObjectMissColon
        else andthen (parse_value huge n (skip_ws (tl s2))) (\<lambda>es s3. let s4 = skip_ws s3 in
          if peek s4 = CHR '','' then
            andthen (parse_members huge n (count + 1) (skip_ws (tl s4))) (\<lambda>more r. Inr (E_Key k # es @ more, r))
          else if peek s4 = CHR ''}'' then Inr (E_Key k # es @ [E_EndObject (count + 1)], tl s4)
          else Inl ObjectMissCommaOrCurlyBracket)))"
| "parse_elements huge 0 count s = Inl OutOfFuel"
| "parse_elements huge (Suc n) count s =
     andthen (parse_value huge n s) (\<lambda>es s1. let s2 = skip_ws s1 in
       if peek s2 = CHR '','' then
         andthen (parse_elements huge n (count + 1) (skip_ws (tl s2))) (\<lambda>more r. Inr (es @ more, r))
       else if peek s2 = CHR '']'' then Inr (es @ [E_EndArray (count + 1)], tl s2)
       else Inl ArrayMissCommaOrSquareBracket)"

definition fuel_for :: "string \<Rightarrow> nat" where
  "fuel_for s = 2 * length s + 2"

definition rj_events :: "(string \<Rightarrow> bool) \<Rightarrow> string \<Rightarrow> parse_error + jevent list" where
  "rj_events huge text =
     (let s = skip_ws text in
      if peek s = NUL then Inl DocumentEmpty
      else case parse_value huge (fuel_for s) s of
        Inl e \<Rightarrow> Inl e
      | Inr (es, r) \<Rightarrow> if peek (skip_ws r) \<noteq> NUL then Inl DocumentRootNotSingular else Inr es)"

section \<open>The document\<close>

text \<open>The stack of values that the events build, its top first.\<close>

fun pairs_of :: "json list \<Rightarrow> (string \<times> json) list option" where
  "pairs_of [] = Some []"
| "pairs_of (JString k # v # vs) = map_option ((#) (k, v)) (pairs_of vs)"
| "pairs_of _ = None"

fun doc_event :: "jevent \<Rightarrow> json list \<Rightarrow> json list option" where
  "doc_event E_Null st = Some (JNull # st)"
| "doc_event (E_Bool b) st = Some (JBool b # st)"
| "doc_event (E_Int i) st = Some (JInt i # st)"
| "doc_event (E_Double s) st = Some (JReal s # st)"
| "doc_event (E_String s) st = Some (JString s # st)"
| "doc_event (E_Key s) st = Some (JString s # st)"
| "doc_event E_StartObject st = Some (JObject [] # st)"
| "doc_event E_StartArray st = Some (JArray [] # st)"
| "doc_event (E_EndObject n) st =
     (case (drop (2 * n) st, pairs_of (rev (take (2 * n) st))) of
        (JObject _ # below, Some kvs) \<Rightarrow> Some (JObject kvs # below)
      | _ \<Rightarrow> None)"
| "doc_event (E_EndArray n) st =
     (case drop n st of JArray _ # below \<Rightarrow> Some (JArray (rev (take n st)) # below) | _ \<Rightarrow> None)"

fun doc_events :: "jevent list \<Rightarrow> json list \<Rightarrow> json list option" where
  "doc_events [] st = Some st"
| "doc_events (e # es) st = Option.bind (doc_event e st) (doc_events es)"

definition rj_parse :: "(string \<Rightarrow> bool) \<Rightarrow> jparser" where
  "rj_parse huge text =
     (case rj_events huge (c_str text) of
        Inl e \<Rightarrow> None
      | Inr es \<Rightarrow> (case doc_events es [] of Some [j] \<Rightarrow> Some j | _ \<Rightarrow> None))"

section \<open>Strings are read back\<close>

lemma hex_val_digit [simp]: "hex_val (hex_digit n) = Some (n mod 16)"
proof -
  have "list_all (\<lambda>m. hex_val (''0123456789ABCDEF'' ! m) = Some m) [0..<16]" by code_simp
  then have "hex_val (''0123456789ABCDEF'' ! (n mod 16)) = Some (n mod 16)"
    by (simp only: list_all_iff set_upt) simp
  then show ?thesis by (simp add: hex_digit_def and_mask_mod)
qed

lemma regroup_hex:
  "16 * (n div 16) + n mod 16 = (n :: nat)"
  "16 * (n div 256) + n div 16 mod 16 = n div 16"
  "16 * (n div 4096) + n div 256 mod 16 = n div 256"
  using mult_div_mod_eq [of 16 "n div 16"] mult_div_mod_eq [of 16 "n div 256"] by (simp_all add: div_mult2_eq [symmetric])

lemma parse_hex_step: "parse_hex (Suc k) cp (hex_digit n # s) = parse_hex k (16 * cp + n mod 16) s"
  by (simp add: push_bit_eq_mult mult.commute)

lemma parse_hex4_Suc: "parse_hex4 s = parse_hex (Suc (Suc (Suc (Suc 0)))) 0 s"
  by (simp add: parse_hex4_def eval_nat_numeral)

lemma parse_hex4_written:
  assumes "n < 65536"
  shows "parse_hex4 (hex4 n @ r) = Inr (n, r)"
proof -
  have top: "n div 4096 mod 16 = n div 4096" using assms by simp
  then have "16 * (16 * (16 * (16 * 0 + n div 4096 mod 16) + n div 256 mod 16) + n div 16 mod 16) + n mod 16 = n"
    by (simp only: mult_0_right add_0 regroup_hex)
  then show ?thesis
    by (simp only: hex4_def parse_hex4_Suc append.simps parse_hex_step parse_hex.simps(1)) (simp add: drop_bit_eq_div top)
qed

lemma parse_unicode_written:
  assumes "scalar cp"
  shows "parse_unicode (drop 2 (unicode_escape cp) @ r) = Inr (cp, r)"
proof (cases "cp \<le> 0xFFFF")
  case True
  with assms have "drop 2 (unicode_escape cp) = hex4 cp"
    by (auto simp: unicode_escape_def u_prefix_def scalar_def)
  with True assms show ?thesis
    by (auto simp: parse_unicode_def parse_hex4_written scalar_def)
next
  case False
  let ?s = "cp - 0x10000"
  have s: "?s < 0x100000" using assms False unfolding scalar_def by linarith
  then have lead: "?s div 1024 < 1024" by auto
  have "drop 2 (unicode_escape cp) = hex4 (?s div 1024 + 0xD800) @ u_prefix @ hex4 (?s mod 1024 + 0xDC00)"
    using False by (simp add: unicode_escape_def u_prefix_def Let_def drop_bit_eq_div and_mask_mod)
  moreover have "push_bit 10 (?s div 1024) OR (?s mod 1024) = ?s"
    using or_eq_add [of "?s mod 1024" 10 "?s div 1024"] by (simp add: push_bit_eq_mult)
  ultimately show ?thesis
    using lead False by (simp add: parse_unicode_def parse_low_def parse_hex4_written u_prefix_def)
qed

lemma parse_chars_unicode:
  assumes "scalar cp"
  shows "parse_chars (unicode_escape cp @ r) = andthen (parse_chars r) (\<lambda>cs t. Inr (utf8_encode cp @ cs, t))"
proof -
  have "unicode_escape cp = CHR 0x5C # CHR ''u'' # drop 2 (unicode_escape cp)"
    by (simp add: unicode_escape_def u_prefix_def)
  then have "parse_chars (unicode_escape cp @ r) = parse_chars (CHR 0x5C # CHR ''u'' # drop 2 (unicode_escape cp) @ r)"
    by (metis append_Cons)
  also have "\<dots> = andthen (parse_chars r) (\<lambda>cs t. Inr (utf8_encode cp @ cs, t))"
    using parse_unicode_written [OF assms, of r] by (simp add: parse_escape_def read_escape_def)
  finally show ?thesis .
qed

lemma read_escape_written:
  assumes "write_escape c = Some e" and "e \<noteq> CHR ''u''"
  shows "read_escape e = Some c"
proof -
  have "byte c \<in> {8, 9, 10, 12, 13, 34, 92}"
    using assms by (auto simp: write_escape_def Let_def split: if_splits)
  then have "c \<in> {CHR 0x08, CHR 0x09, CHR 0x0A, CHR 0x0C, CHR 0x0D, CHR 0x22, CHR 0x5C}"
    using of_char_eq_iff [where 'a = nat, of c "CHR 0x08"] of_char_eq_iff [where 'a = nat, of c "CHR 0x09"]
      of_char_eq_iff [where 'a = nat, of c "CHR 0x0A"] of_char_eq_iff [where 'a = nat, of c "CHR 0x0C"]
      of_char_eq_iff [where 'a = nat, of c "CHR 0x0D"] of_char_eq_iff [where 'a = nat, of c "CHR 0x22"]
      of_char_eq_iff [where 'a = nat, of c "CHR 0x5C"] by simp
  then show ?thesis
    using assms(1) by (elim insertE emptyE) (auto simp add: write_escape_def read_escape_def)
qed

lemma parse_chars_escape:
  assumes "write_escape c = Some e"
  shows "parse_chars (CHR 0x5C # e # (if e = CHR ''u'' then ''00'' @ [hex_digit (drop_bit 4 (byte c)), hex_digit (byte c)]
      else []) @ r) = andthen (parse_chars r) (\<lambda>cs t. Inr (c # cs, t))"
proof (cases "e = CHR ''u''")
  case True
  then have c: "byte c < 0x20"
    using assms by (auto simp: write_escape_def Let_def split: if_splits)
  then have "''00'' @ [hex_digit (drop_bit 4 (byte c)), hex_digit (byte c)] = hex4 (byte c)"
    by (simp add: hex4_def drop_bit_eq_div hex_digit_def)
  moreover have "scalar (byte c)" using c by (simp add: scalar_def)
  ultimately show ?thesis
    using parse_chars_unicode [of "byte c" r] c True by (simp add: unicode_escape_def u_prefix_def utf8_encode_def)
next
  case False
  then show ?thesis
    using read_escape_written [OF assms] by (simp add: parse_escape_def)
qed

text \<open>What is written of a string is read as a string, the whole of it if it was written to its end.\<close>

lemma parse_written:
  "\<exists>p. (fst (write_chars s) \<longrightarrow> p = s) \<and>
       (\<forall>r. parse_chars (snd (write_chars s) @ r) = andthen (parse_chars r) (\<lambda>cs t. Inr (p @ cs, t)))"
proof (induction s rule: write_chars.induct)
  case 1
  show ?case by (auto simp: andthen_def split: sum.splits)
next
  case (2 c s)
  have chain: "andthen (andthen q (\<lambda>cs t. Inr (p @ cs, t))) (\<lambda>cs t. Inr (p' @ cs, t)) =
      andthen q (\<lambda>cs t. Inr ((p' @ p) @ cs, t))" for q :: "string parse" and p p'
    by (auto simp: andthen_def split: sum.splits)
  show ?case
  proof (cases "byte c \<ge> 0x80")
    case True
    obtain ok cp r where d: "utf8_decode (c # s) = (ok, cp, r)" by (metis prod_cases3)
    show ?thesis
    proof (cases ok)
      case False
      with True d show ?thesis by (auto simp: andthen_def split: sum.splits)
    next
      case ok: True
      obtain p where p: "fst (write_chars r) \<longrightarrow> p = r"
          "\<forall>t. parse_chars (snd (write_chars r) @ t) = andthen (parse_chars t) (\<lambda>cs t. Inr (p @ cs, t))"
        using 2(1) [OF True d [symmetric] refl ok] by blast
      have "utf8_decode (c # s) = (True, cp, r)" using d ok by simp
      then have cp: "c # s = utf8_encode cp @ r" "scalar cp"
        using utf8_decode_True by blast+
      have w: "write_chars (c # s) = apsnd ((@) (unicode_escape cp)) (write_chars r)"
        using True d ok by simp
      have "\<forall>t. parse_chars (snd (write_chars (c # s)) @ t) =
          andthen (parse_chars t) (\<lambda>cs t. Inr ((utf8_encode cp @ p) @ cs, t))"
        unfolding w by (simp add: parse_chars_unicode [OF cp(2)] p(2) chain del: append_assoc)
          (simp add: parse_chars_unicode [OF cp(2)] p(2) chain)
      moreover have "fst (write_chars (c # s)) \<longrightarrow> utf8_encode cp @ p = c # s"
        unfolding w using p(1) cp(1) by simp
      ultimately show ?thesis by blast
    qed
  next
    case False
    note low = False
    show ?thesis
    proof (cases "write_escape c")
      case None
      then have c: "c \<noteq> CHR 0x5C" "c \<noteq> CHR 0x22" "\<not> byte c < 0x20"
        by (auto simp: write_escape_def Let_def split: if_splits)
      obtain p where p: "fst (write_chars s) \<longrightarrow> p = s"
          "\<forall>t. parse_chars (snd (write_chars s) @ t) = andthen (parse_chars t) (\<lambda>cs t. Inr (p @ cs, t))"
        using 2(2) [OF low None] by blast
      have "\<forall>t. parse_chars (snd (write_chars (c # s)) @ t) = andthen (parse_chars t) (\<lambda>cs t. Inr ((c # p) @ cs, t))"
        using low None c p(2) chain [of _ p "[c]"] by simp
      moreover have "fst (write_chars (c # s)) \<longrightarrow> c # p = c # s" using low None p(1) by simp
      ultimately show ?thesis by blast
    next
      case (Some e)
      obtain p where p: "fst (write_chars s) \<longrightarrow> p = s"
          "\<forall>t. parse_chars (snd (write_chars s) @ t) = andthen (parse_chars t) (\<lambda>cs t. Inr (p @ cs, t))"
        using 2(3) [OF low Some] by blast
      have w: "write_chars (c # s) = apsnd ((@) (CHR 0x5C # e #
          (if e = CHR ''u'' then ''00'' @ [hex_digit (drop_bit 4 (byte c)), hex_digit (byte c)] else []))) (write_chars s)"
        using low Some by simp
      have "\<forall>t. parse_chars (snd (write_chars (c # s)) @ t) = andthen (parse_chars t) (\<lambda>cs t. Inr ((c # p) @ cs, t))"
        unfolding w using parse_chars_escape [OF Some] p(2) chain [of _ p "[c]"] by simp
      moreover have "fst (write_chars (c # s)) \<longrightarrow> c # p = c # s" unfolding w using p(1) by simp
      ultimately show ?thesis by blast
    qed
  qed
qed

section \<open>Integers are read back\<close>

lemma digits_val_le: "a \<le> digits_val a ds"
proof (induction ds arbitrary: a)
  case (Cons d ds)
  have "a \<le> 10 * a + digit_val d" by simp
  with Cons.IH [of "10 * a + digit_val d"] show ?case by simp
qed simp

lemma int_loop_digits:
  assumes "\<forall>c \<in> set ds. is_digit c" and "digits_val i ds \<le> 10 * big + digit" and "digit \<le> 9" and "\<not> is_digit (peek r)"
  shows "int_loop big digit i sig (ds @ r) = (digits_val i ds, sig + length ds, False, r)"
  using assms(1,2)
proof (induction ds arbitrary: i sig)
  case Nil
  then show ?case using assms(4) by (cases r) simp_all
next
  case (Cons d ds)
  have "10 * i + digit_val d \<le> 10 * big + digit"
    using digits_val_le [of "10 * i + digit_val d" ds] Cons.prems(2) by simp
  then have "\<not> (i \<ge> big \<and> (i \<noteq> big \<or> digit_val d > digit))"
    using assms(3) by linarith
  with Cons show ?case by (simp add: mult.commute)
qed

lemma nat_digits_first:
  assumes "0 < n"
  obtains d ds where "nat_digits n = digit_char d # ds" and "0 < d" and "d < 10"
    and "\<forall>c \<in> set ds. is_digit c" and "digits_val d ds = n"
proof -
  have "\<exists>d ds. nat_digits n = digit_char d # ds \<and> 0 < d \<and> d < 10"
    using assms
  proof (induction n rule: nat_digits.induct)
    case (1 n)
    show ?case
    proof (cases "n < 10")
      case True
      with 1(2) show ?thesis by (subst nat_digits.simps) auto
    next
      case False
      then have "0 < n div 10" by simp
      with 1(1) [OF False] obtain d ds where "nat_digits (n div 10) = digit_char d # ds" "0 < d" "d < 10" by blast
      with False show ?thesis by (subst nat_digits.simps) auto
    qed
  qed
  then obtain d ds where d: "nat_digits n = digit_char d # ds" "0 < d" "d < 10" by blast
  have "digits_val d ds = n"
    using digits_val_nat_digits [of n] d by simp
  moreover have "\<forall>c \<in> set ds. is_digit c"
    using nat_digits_are_digits [of _ n] d(1) by simp
  ultimately show ?thesis using d that by blast
qed

lemma char_of_eq: "c = d \<longleftrightarrow> byte c = byte d"
  by (simp add: of_char_eq_iff)

lemma digit_char_zero: "d < 10 \<Longrightarrow> digit_char d = CHR ''0'' \<longleftrightarrow> d = 0" "d < 10 \<Longrightarrow> digit_char d \<noteq> CHR ''-''"
  by (simp_all add: char_of_eq)

text \<open>What ends a number that is an integer.\<close>

definition ends_integer :: "string \<Rightarrow> bool" where
  "ends_integer r \<longleftrightarrow> \<not> is_digit (peek r) \<and> peek r \<noteq> CHR ''.'' \<and> peek r \<noteq> CHR ''e'' \<and> peek r \<noteq> CHR ''E''"

lemma parse_integer_digits:
  assumes "n \<le> (if neg then 2147483648 else 4294967295)" and "ends_integer r"
  shows "\<exists>sig. parse_integer neg (nat_digits n @ r) = Inr ((n, sig, False, False), r)"
proof (cases "n = 0")
  case True
  then have "nat_digits n = [digit_char 0]" by (subst nat_digits.simps) simp
  moreover have "digit_char 0 = CHR ''0''" using digit_char_zero(1) [of 0] by simp
  ultimately show ?thesis using True by (simp add: parse_integer_def)
next
  case False
  then obtain d ds where d: "nat_digits n = digit_char d # ds" "0 < d" "d < 10"
    "\<forall>c \<in> set ds. is_digit c" "digits_val d ds = n" by (metis nat_digits_first gr0I)
  have "int_loop (if neg then 214748364 else 429496729) (if neg then 8 else 5) d 0 (ds @ r) = (n, length ds, False, r)"
    using int_loop_digits [of ds d "if neg then 214748364 else 429496729" "if neg then 8 else 5" r 0] d assms
    by (cases neg) (simp_all add: ends_integer_def)
  with d show ?thesis
    by (simp add: parse_integer_def digit_char_zero)
qed

lemma parse_number_written:
  assumes "int32_min \<le> i" and "i \<le> int32_max" and "ends_integer r"
  shows "parse_number huge (int_to_string i @ r) = Inr (E_Int i, r)"
proof (cases "i < 0")
  case True
  obtain sig where "parse_integer True (nat_digits (nat (- i)) @ r) = Inr ((nat (- i), sig, False, False), r)"
    using parse_integer_digits [of "nat (- i)" True r] assms by (auto simp: int32_min_def nat_le_iff)
  then show ?thesis
    using True assms(3) by (simp add: parse_number_def int_to_string_def parse_fraction_def parse_exponent_def ends_integer_def)
next
  case False
  obtain sig where sig: "parse_integer False (nat_digits (nat i) @ r) = Inr ((nat i, sig, False, False), r)"
    using parse_integer_digits [of "nat i" False r] assms by (auto simp: int32_max_def nat_le_iff)
  have "peek (nat_digits (nat i) @ r) \<noteq> CHR ''-''"
  proof -
    obtain c cs where c: "nat_digits (nat i) = c # cs" by (cases "nat_digits (nat i)") simp_all
    then have "is_digit c" using nat_digits_are_digits [of c "nat i"] by simp
    then show ?thesis using c by (auto simp: is_digit_def)
  qed
  then show ?thesis
    using sig False assms(3)
    by (simp add: parse_number_def int_to_string_def parse_fraction_def parse_exponent_def ends_integer_def)
qed

section \<open>Documents are read back\<close>

text \<open>A text every byte of which is part of a character; the documents of such texts and of 32-bit integers.\<close>

definition utf8_ok :: "string \<Rightarrow> bool" where
  "utf8_ok s \<longleftrightarrow> fst (write_chars s)"

fun json_ok :: "json \<Rightarrow> bool" where
  "json_ok JNull \<longleftrightarrow> True"
| "json_ok (JBool b) \<longleftrightarrow> True"
| "json_ok (JInt i) \<longleftrightarrow> int32_min \<le> i \<and> i \<le> int32_max"
| "json_ok (JReal s) \<longleftrightarrow> False"
| "json_ok (JString s) \<longleftrightarrow> utf8_ok s"
| "json_ok (JArray xs) \<longleftrightarrow> list_all json_ok xs"
| "json_ok (JObject kvs) \<longleftrightarrow> list_all (\<lambda>(k, v). utf8_ok k \<and> json_ok v) kvs"

lemma write_string_ok: "utf8_ok s \<Longrightarrow> snd (write_string s) = CHR 0x22 # snd (write_chars s) @ [CHR 0x22]"
  by (cases "write_chars s") (simp add: utf8_ok_def write_string_def)

lemma parse_string_ok: "utf8_ok s \<Longrightarrow> parse_chars (snd (write_chars s) @ CHR 0x22 # r) = Inr (s, r)"
  using parse_written [of s] by (auto simp: utf8_ok_def)

text \<open>What may follow a value.\<close>

definition closes :: "string \<Rightarrow> bool" where
  "closes r \<longleftrightarrow> r = [] \<or> (\<exists>s. r = CHR '','' # s \<or> r = CHR '']'' # s \<or> r = CHR ''}'' # s)"

lemma closes_simps [simp]: "closes []" "closes (CHR '','' # s)" "closes (CHR '']'' # s)" "closes (CHR ''}'' # s)"
  by (simp_all add: closes_def)

lemma closes_ends: "closes r \<Longrightarrow> ends_integer r"
  by (auto simp: closes_def ends_integer_def is_digit_def)

text \<open>What a value begins with.\<close>

definition starts_value :: "char \<Rightarrow> bool" where
  "starts_value c \<longleftrightarrow> c \<in> set ''ntf{[-'' \<or> c = CHR 0x22 \<or> is_digit c"

lemma starts_value_not:
  "starts_value c \<Longrightarrow> c \<notin> {CHR '' '', CHR 0x0A, CHR 0x0D, CHR 0x09, CHR '']'', CHR ''}'', NUL}"
  by (auto simp: starts_value_def is_digit_def)

lemma int_starts_value: "\<exists>c t. int_to_string i = c # t \<and> (c = CHR ''-'' \<or> is_digit c)"
proof (cases "i < 0")
  case False
  obtain c t where "nat_digits (nat i) = c # t" by (cases "nat_digits (nat i)") simp_all
  with False nat_digits_are_digits [of c "nat i"] show ?thesis by (simp add: int_to_string_def)
qed (simp add: int_to_string_def)

lemma json_text_starts: "json_ok j \<Longrightarrow> \<exists>c t. json_text j = c # t \<and> starts_value c"
proof (cases j)
  case (JInt i)
  assume "json_ok j"
  with JInt int_starts_value [of i] show ?thesis by (auto simp: starts_value_def i32toa_digits)
qed (auto simp: starts_value_def write_string_ok)

lemma skip_ws_value [simp]: "starts_value c \<Longrightarrow> skip_ws (c # s) = c # s"
  using starts_value_not by auto

lemma skip_ws_text: "json_ok j \<Longrightarrow> skip_ws (json_text j @ s) = json_text j @ s"
  by (metis json_text_starts skip_ws_value append_Cons)

lemma commas_Cons: "commas (x # xs) = x @ (if xs = [] then [] else CHR '','' # commas xs)"
  by (cases xs) simp_all

lemma parse_elements_written:
  assumes "\<And>x n r. x \<in> set xs \<Longrightarrow> 2 * length (json_text x) \<le> n \<Longrightarrow> closes r \<Longrightarrow>
      parse_value huge n (json_text x @ r) = Inr (accept x, r)"
    and "list_all json_ok xs" and "xs \<noteq> []" and "2 * length (commas (map json_text xs)) < n"
  shows "parse_elements huge n count (commas (map json_text xs) @ CHR '']'' # r) =
    Inr (concat (map accept xs) @ [E_EndArray (count + length xs)], r)"
  using assms
proof (induction xs arbitrary: n count)
  case (Cons x xs)
  obtain m where m: "n = Suc m" using Cons.prems(4) by (cases n) simp_all
  show ?case
  proof (cases "xs = []")
    case True
    then show ?thesis using Cons.prems m by simp
  next
    case False
    let ?t = "commas (map json_text xs) @ CHR '']'' # r"
    have "parse_value huge m (json_text x @ CHR '','' # ?t) = Inr (accept x, CHR '','' # ?t)"
      using Cons.prems(1) [of x m "CHR '','' # ?t"] Cons.prems(4) m by (simp add: commas_Cons split: if_splits)
    moreover have "skip_ws ?t = ?t"
    proof -
      obtain y ys where y: "xs = y # ys" using False by (cases xs) simp_all
      with Cons.prems(2) show ?thesis by (simp add: commas_Cons skip_ws_text)
    qed
    moreover have "parse_elements huge m (count + 1) ?t =
        Inr (concat (map accept xs) @ [E_EndArray (count + 1 + length xs)], r)"
      using Cons.prems False m by (intro Cons.IH) (auto simp: commas_Cons)
    ultimately show ?thesis using False m by (simp add: commas_Cons)
  qed
qed simp

lemma parse_members_written:
  assumes "\<And>k v n r. (k, v) \<in> set kvs \<Longrightarrow> 2 * length (json_text v) \<le> n \<Longrightarrow> closes r \<Longrightarrow>
      parse_value huge n (json_text v @ r) = Inr (accept v, r)"
    and "list_all (\<lambda>(k, v). utf8_ok k \<and> json_ok v) kvs" and "kvs \<noteq> []"
    and "2 * length (commas (map (\<lambda>(k, v). snd (write_string k) @ CHR '':'' # json_text v) kvs)) < n"
  shows "parse_members huge n count
      (commas (map (\<lambda>(k, v). snd (write_string k) @ CHR '':'' # json_text v) kvs) @ CHR ''}'' # r) =
    Inr (concat (map (\<lambda>(k, v). E_Key k # accept v) kvs) @ [E_EndObject (count + length kvs)], r)"
  using assms
proof (induction kvs arbitrary: n count)
  case (Cons kv kvs)
  obtain k v where kv: "kv = (k, v)" by (cases kv)
  have ok: "utf8_ok k" "json_ok v" using Cons.prems(2) kv by simp_all
  note ws = skip_ws_text [OF ok(2)]
  obtain m where m: "n = Suc m" using Cons.prems(4) by (cases n) simp_all
  have len: "2 * length (json_text v) \<le> m" using Cons.prems(4) m kv by (simp add: commas_Cons)
  have val: "parse_value huge m (json_text v @ s) = Inr (accept v, s)" if "closes s" for s
    using Cons.prems(1) [of k v m s] that len kv by simp
  show ?case
  proof (cases "kvs = []")
    case True
    then show ?thesis
      using val [of "CHR ''}'' # r"] ws m by (simp add: kv write_string_ok [OF ok(1)] parse_string_ok [OF ok(1)])
  next
    case False
    let ?t = "commas (map (\<lambda>(k, v). snd (write_string k) @ CHR '':'' # json_text v) kvs) @ CHR ''}'' # r"
    have "skip_ws ?t = ?t"
    proof -
      obtain k' v' ys where y: "kvs = (k', v') # ys" using False by (cases kvs) auto
      then have "utf8_ok k'" using Cons.prems(2) by simp
      with y show ?thesis by (simp add: commas_Cons write_string_ok)
    qed
    moreover have "parse_members huge m (count + 1) ?t =
        Inr (concat (map (\<lambda>(k, v). E_Key k # accept v) kvs) @ [E_EndObject (count + 1 + length kvs)], r)"
    proof (rule Cons.IH)
      show "2 * length (commas (map (\<lambda>(k, v). snd (write_string k) @ CHR '':'' # json_text v) kvs)) < m"
        using Cons.prems(4) False m kv by (simp add: commas_Cons)
    qed (use Cons.prems False in auto)
    ultimately show ?thesis
      using False m val [of "CHR '','' # ?t"] ws
      by (simp add: kv commas_Cons write_string_ok [OF ok(1)] parse_string_ok [OF ok(1)])
  qed
qed simp

lemma value_starts:
  assumes "starts_value c" and "c \<notin> {CHR ''n'', CHR ''t'', CHR ''f'', CHR 0x22, CHR ''{'', CHR ''[''}"
  shows "c = CHR ''-'' \<or> is_digit c"
  using assms by (auto simp: starts_value_def)

lemma parse_value_written:
  "json_ok j \<Longrightarrow> 2 * length (json_text j) \<le> n \<Longrightarrow> closes r \<Longrightarrow>
     parse_value huge n (json_text j @ r) = Inr (accept j, r)"
proof (induction j arbitrary: n r)
  case (JInt i)
  obtain c t where c: "int_to_string i = c # t" "c = CHR ''-'' \<or> is_digit c"
    using int_starts_value by blast
  then have "c \<notin> {CHR ''n'', CHR ''t'', CHR ''f'', CHR 0x22, CHR ''{'', CHR ''[''}"
    by (auto simp: is_digit_def)
  moreover obtain m where "n = Suc m" using JInt.prems c by (cases n) (simp_all add: i32toa_digits)
  ultimately show ?case
    using JInt.prems parse_number_written [of i r huge] closes_ends [of r] c(1) by (simp add: i32toa_digits)
next
  case (JString s)
  then obtain m where "n = Suc m" by (cases n) (simp_all add: write_string_ok)
  with JString show ?case by (simp add: write_string_ok parse_string_ok)
next
  case (JArray xs)
  then obtain m where m: "n = Suc m" by (cases n) simp_all
  show ?case
  proof (cases xs)
    case Nil
    then show ?thesis using m by simp
  next
    case (Cons y ys)
    let ?t = "commas (map json_text xs) @ CHR '']'' # r"
    have y: "json_ok y" using JArray.prems(1) Cons by simp
    then obtain c t where c: "json_text y = c # t" "starts_value c" using json_text_starts by blast
    have "skip_ws ?t = ?t" using y Cons by (simp add: commas_Cons skip_ws_text)
    moreover have "peek ?t \<noteq> CHR '']''" using Cons c starts_value_not [of c] by (simp add: commas_Cons)
    moreover have "parse_elements huge m 0 ?t = Inr (concat (map accept xs) @ [E_EndArray (0 + length xs)], r)"
      using JArray.IH JArray.prems Cons m by (intro parse_elements_written) (auto simp: list_all_iff)
    ultimately show ?thesis using m by simp
  qed
next
  case (JObject kvs)
  then obtain m where m: "n = Suc m" by (cases n) simp_all
  show ?case
  proof (cases kvs)
    case Nil
    then show ?thesis using m by simp
  next
    case (Cons kv kvs')
    obtain k v where kv: "kv = (k, v)" by (cases kv)
    let ?t = "commas (map (\<lambda>(k, v). snd (write_string k) @ CHR '':'' # json_text v) kvs) @ CHR ''}'' # r"
    have "utf8_ok k" using JObject.prems(1) Cons kv by simp
    then have "skip_ws ?t = ?t" "peek ?t \<noteq> CHR ''}''" using Cons kv by (simp_all add: commas_Cons write_string_ok)
    moreover have "parse_members huge m 0 ?t =
        Inr (concat (map (\<lambda>(k, v). E_Key k # accept v) kvs) @ [E_EndObject (0 + length kvs)], r)"
    proof (rule parse_members_written)
      fix k v n r
      assume "(k, v) \<in> set kvs" "2 * length (json_text v) \<le> n" "closes r"
      moreover from this have "json_ok v" using JObject.prems(1) by (auto simp: list_all_iff)
      ultimately show "parse_value huge n (json_text v @ r) = Inr (accept v, r)"
        using JObject.IH by fastforce
    qed (use JObject.prems Cons m in auto)
    ultimately show ?thesis using m by simp
  qed
next
  case JNull
  then obtain m where "n = Suc m" by (cases n) simp_all
  then show ?case by simp
next
  case (JBool b)
  then obtain m where "n = Suc m" by (cases n) (auto split: if_splits)
  then show ?case by simp
next
  case (JReal s)
  then show ?case by simp
qed

lemma pairs_of_flat: "pairs_of (concat (map (\<lambda>(k, v). [JString k, v]) kvs)) = Some kvs"
  by (induction kvs) auto

lemma doc_accept: "doc_events (accept j @ es) st = doc_events es (j # st)"
proof (induction j arbitrary: es st)
  case (JArray xs)
  have "doc_events (concat (map accept ys) @ es) st = doc_events es (rev ys @ st)" if "set ys \<subseteq> set xs" for ys es st
    using that by (induction ys arbitrary: es st) (simp_all add: JArray.IH)
  from this [of xs] show ?case by simp
next
  case (JObject kvs)
  have "doc_events (concat (map (\<lambda>(k, v). E_Key k # accept v) ys) @ es) st =
      doc_events es (rev (concat (map (\<lambda>(k, v). [JString k, v]) ys)) @ st)" if "set ys \<subseteq> set kvs" for ys es st
    using that
  proof (induction ys arbitrary: es st)
    case (Cons y ys)
    obtain k v where y: "y = (k, v)" by (cases y)
    with Cons.prems have "(k, v) \<in> set kvs" by simp
    then have "doc_events (accept v @ es') st' = doc_events es' (v # st')" for es' st'
      using JObject.IH [of "(k, v)" v] by simp
    with Cons y show ?case by simp
  qed simp
  moreover have "length (concat (map (\<lambda>(k, v). [JString k, v]) kvs)) = 2 * length kvs"
    by (induction kvs) auto
  ultimately show ?case by (simp add: pairs_of_flat)
qed simp_all

text \<open>A text that is written has no NUL.\<close>

lemma hex_digit_not_NUL: "hex_digit n \<noteq> NUL"
proof -
  have "list_all (\<lambda>m. ''0123456789ABCDEF'' ! m \<noteq> NUL) [0..<16]" by code_simp
  then have "''0123456789ABCDEF'' ! (n mod 16) \<noteq> NUL" by (simp only: list_all_iff set_upt) simp
  then show ?thesis by (simp add: hex_digit_def and_mask_mod)
qed

lemma unicode_escape_no_NUL: "NUL \<notin> set (unicode_escape cp)"
  using hex_digit_not_NUL [THEN not_sym] by (simp add: unicode_escape_def u_prefix_def hex4_def Let_def)

lemma write_chars_no_NUL: "NUL \<notin> set (snd (write_chars s))"
proof (induction s rule: write_chars.induct)
  case (2 c s)
  show ?case
  proof (cases "byte c \<ge> 0x80")
    case True
    obtain ok cp r where d: "utf8_decode (c # s) = (ok, cp, r)" by (metis prod_cases3)
    then show ?thesis
      using True 2(1) [OF True d [symmetric] refl] unicode_escape_no_NUL [of cp] by simp
  next
    case False
    show ?thesis
    proof (cases "write_escape c")
      case None
      then have "c \<noteq> NUL" by (auto simp: write_escape_def)
      with False None 2(2) show ?thesis by simp
    next
      case (Some e)
      then have "e \<noteq> NUL" by (auto simp: write_escape_def Let_def split: if_splits)
      with False Some 2(3) hex_digit_not_NUL [THEN not_sym] show ?thesis by simp
    qed
  qed
qed simp

lemma commas_set: "set (commas xs) \<subseteq> {CHR '',''} \<union> \<Union> (set ` set xs)"
  by (induction xs rule: commas.induct) auto

lemma write_string_no_NUL: "NUL \<notin> set (snd (write_string s))"
  using write_chars_no_NUL [of s] by (auto simp: write_string_def split: prod.splits)

lemma json_text_no_NUL: "json_ok j \<Longrightarrow> NUL \<notin> set (json_text j)"
proof (induction j)
  case (JInt i)
  have "\<not> is_digit NUL" by (simp add: is_digit_def)
  then show ?case
    using JInt nat_digits_are_digits [of NUL] by (auto simp: i32toa_digits int_to_string_def)
next
  case (JArray xs)
  then have "NUL \<notin> set (json_text x)" if "x \<in> set xs" for x
    using that by (simp add: list_all_iff)
  then have "NUL \<notin> set (commas (map json_text xs))"
    using commas_set [of "map json_text xs"] by auto
  then show ?case by simp
next
  case (JObject kvs)
  let ?m = "map (\<lambda>(k, v). snd (write_string k) @ CHR '':'' # json_text v) kvs"
  have "NUL \<notin> set (json_text v)" if "(k, v) \<in> set kvs" for k v
    using that JObject by (fastforce simp: list_all_iff)
  then have "NUL \<notin> set (commas ?m)"
    using commas_set [of ?m] write_string_no_NUL by fastforce
  then show ?case by simp
qed (simp_all add: write_string_no_NUL)

lemma rj_parse_written:
  assumes "json_ok j"
  shows "rj_parse huge (json_text j) = Some j"
proof -
  obtain c t where c: "json_text j = c # t" "starts_value c" using json_text_starts [OF assms] by blast
  have "parse_value huge (fuel_for (json_text j)) (json_text j @ []) = Inr (accept j, [])"
    by (rule parse_value_written) (simp_all add: assms fuel_for_def)
  then have "rj_events huge (json_text j) = Inr (accept j)"
    using skip_ws_text [OF assms, of "[]"] c starts_value_not [of c] by (simp add: rj_events_def)
  moreover have "doc_events (accept j) [] = Some [j]"
    using doc_accept [of j "[]" "[]"] by simp
  ultimately show ?thesis
    using json_text_no_NUL [OF assms] by (simp add: rj_parse_def)
qed

section \<open>The reader ends\<close>

lemma andthen_Inl: "andthen p f = Inl e \<longleftrightarrow> p = Inl e \<or> (\<exists>x s. p = Inr (x, s) \<and> f x s = Inl e)"
  by (auto simp: andthen_def split: sum.splits)

lemma parse_chars_length: "parse_chars s = Inr (t, r) \<Longrightarrow> length r < length s"
proof (induction s arbitrary: t r rule: parse_chars.induct)
  case (2 c s)
  show ?case
  proof (cases "c = CHR 0x5C")
    case True
    obtain out r' cs where "parse_escape s = Inr (out, r')" "parse_chars r' = Inr (cs, r)"
      using 2(3) True by (auto simp: andthen_Inr split: sum.splits)
    then show ?thesis using 2(1) [OF True _ refl] parse_escape_length [of s out r'] by fastforce
  next
    case False
    then show ?thesis using 2(2,3) by (fastforce simp: andthen_Inr split: if_splits)
  qed
qed simp

lemma skip_ws_length: "length (skip_ws s) \<le> length s"
  by (induction s) auto

lemma dropWhile_length: "length (dropWhile P s) \<le> length s"
  by (simp add: length_dropWhile_le)

lemma int_loop_length: "int_loop big digit i sig s = (i', sig', over, r) \<Longrightarrow> length r \<le> length s"
  by (induction big digit i sig s rule: int_loop.induct) (auto split: if_splits)

lemma frac_fast_length: "frac_fast i e sig s = (i', e', sig', r) \<Longrightarrow> length r \<le> length s"
  by (induction i e sig s rule: frac_fast.induct) (auto simp: Let_def split: if_splits)

lemma frac_slow_length: "frac_slow p e sig s = (e', r) \<Longrightarrow> length r \<le> length s"
  by (induction p e sig s rule: frac_slow.induct) (auto simp: Let_def split: if_splits)

lemma exp_loop_length: "exp_loop m e s = (e', over, r) \<Longrightarrow> length r \<le> length s"
  by (induction m e s rule: exp_loop.induct) (auto simp: Let_def split: if_splits)

lemma tl_length: "peek s \<noteq> NUL \<Longrightarrow> length (tl s) < length s"
  by (cases s) simp_all

lemma digit_not_NUL: "is_digit c \<Longrightarrow> c \<noteq> NUL"
  by (auto simp: is_digit_def)

lemma parse_integer_length: "parse_integer neg s = Inr (x, r) \<Longrightarrow> length r < length s"
  using tl_length [of s] digit_not_NUL [of "peek s"]
  by (fastforce simp: parse_integer_def split: if_splits prod.splits bool.splits dest!: int_loop_length)

lemma parse_fraction_length: "parse_fraction i sig d s = Inr (x, r) \<Longrightarrow> length r \<le> length s"
  using length_tl [of s]
  by (fastforce simp: parse_fraction_def Let_def split: if_splits prod.splits dest!: frac_fast_length frac_slow_length)

lemma parse_exp_length:
  assumes "parse_exp e s = Inr (x, r)"
  shows "length r \<le> length s"
proof -
  define s1 where "s1 = (if peek s \<in> {CHR ''+'', CHR ''-''} then tl s else s)"
  have s1: "length (tl s1) \<le> length s" by (simp add: s1_def)
  obtain m e' over r' where "exp_loop m (int (digit_val (peek s1))) (tl s1) = (e', over, r')"
    and "r = r' \<or> r = dropWhile is_digit r'"
    using assms unfolding parse_exp_def Let_def s1_def [symmetric]
    by (auto split: if_splits prod.splits)
  then show ?thesis
    using exp_loop_length s1 dropWhile_length [of is_digit r'] by (metis le_trans)
qed

lemma parse_exponent_length: "parse_exponent e d s = Inr (x, r) \<Longrightarrow> length r \<le> length s"
  using parse_exp_length [of e "tl s"] by (fastforce simp: parse_exponent_def andthen_Inr split: if_splits)

lemma parse_number_length:
  assumes "parse_number huge s = Inr (x, r)"
  shows "length r < length s"
proof -
  define s1 where "s1 = (if peek s = CHR ''-'' then tl s else s)"
  have s1: "length s1 \<le> length s" by (simp add: s1_def)
  from assms [unfolded parse_number_def Let_def, folded s1_def]
  obtain x1 r1 where p1: "parse_integer (peek s = CHR ''-'') s1 = Inr (x1, r1)" and step: "(case x1 of (i, sig, use64bit, useDouble) \<Rightarrow>
      andthen (parse_fraction i sig useDouble (if useDouble then dropWhile is_digit r1 else r1)) (\<lambda>(expFrac, useDouble) r.
      andthen (parse_exponent expFrac useDouble r) (\<lambda>useDouble r.
        if useDouble then
          if huge (take (length s - length r) s) then Inl NumberTooBig
          else Inr (E_Double (take (length s - length r) s), r)
        else Inr (E_Int (if peek s = CHR ''-'' then - int i else int i), r)))) = Inr (x, r)"
    unfolding andthen_Inr by fast
  obtain i sig u d where x1: "x1 = (i, sig, u, d)" by (cases x1)
  from step [unfolded x1 prod.case]
  obtain y r2 where p2: "parse_fraction i sig d (if d then dropWhile is_digit r1 else r1) = Inr (y, r2)"
    and step: "(case y of (expFrac, useDouble) \<Rightarrow>
      andthen (parse_exponent expFrac useDouble r2) (\<lambda>useDouble r.
        if useDouble then
          if huge (take (length s - length r) s) then Inl NumberTooBig
          else Inr (E_Double (take (length s - length r) s), r)
        else Inr (E_Int (if peek s = CHR ''-'' then - int i else int i), r))) = Inr (x, r)"
    unfolding andthen_Inr by fast
  obtain e' d' where y: "y = (e', d')" by (cases y)
  from step [unfolded y prod.case] obtain z r3 where p3: "parse_exponent e' d' r2 = Inr (z, r3)" and "r3 = r"
    unfolding andthen_Inr by (auto split: if_splits)
  with p1 [unfolded x1] p2 p3 
have "length r1 < length s1" "length r2 \<le> length (if d then dropWhile is_digit r1 else r1)" "length r \<le> length r2"
    by (simp_all add: parse_integer_length parse_fraction_length parse_exponent_length)
  then show ?thesis
    using s1 dropWhile_length [of is_digit r1] by (auto split: if_splits)
qed

lemma skip_tl_length: "peek s \<noteq> NUL \<Longrightarrow> length (skip_ws (tl s)) < length s"
  using skip_ws_length [of "tl s"] tl_length [of s] by simp

lemma skip_skip_length: "peek (skip_ws s) \<noteq> NUL \<Longrightarrow> length (skip_ws (tl (skip_ws s))) < length s"
  using skip_tl_length [of "skip_ws s"] skip_ws_length [of s] by simp

lemma tl_skip_length: "peek (skip_ws s) \<noteq> NUL \<Longrightarrow> length (tl (skip_ws s)) < length s"
  using tl_length [of "skip_ws s"] skip_ws_length [of s] by simp

lemma parse_value_length:
  "parse_value huge n s = Inr (es, r) \<Longrightarrow> length r < length s"
  "parse_members huge n count s = Inr (es, r) \<Longrightarrow> length r < length s"
  "parse_elements huge n count s = Inr (es, r) \<Longrightarrow> length r < length s"
proof (induction n arbitrary: s es r count)
  case (Suc n)
  {
    case 1
    have "length (drop 4 s) < length s" "length (drop 5 s) < length s" if "peek s \<noteq> NUL"
      using that by (cases s; simp)+
    then show ?case
      using 1 skip_tl_length [of s] tl_skip_length [of "tl s"] tl_length [of s]
      by (fastforce simp: Let_def andthen_Inr split: if_splits
          dest: parse_chars_length parse_number_length Suc.IH)
  next
    case 2
    then obtain k s1 es1 s3 where a: "peek s = CHR 0x22" "parse_chars (tl s) = Inr (k, s1)" "peek (skip_ws s1) = CHR '':''"
        "parse_value huge n (skip_ws (tl (skip_ws s1))) = Inr (es1, s3)"
      and b: "peek (skip_ws s3) = CHR '','' \<and> (\<exists>more. parse_members huge n (count + 1) (skip_ws (tl (skip_ws s3))) = Inr (more, r)) \<or>
        peek (skip_ws s3) = CHR ''}'' \<and> r = tl (skip_ws s3)"
      by (auto simp: Let_def andthen_Inr split: if_splits)
    have "length s3 < length s"
      using parse_chars_length [OF a(2)] tl_length [of s] skip_skip_length [of s1] Suc.IH(1) [OF a(4)] a(1,3) by simp
    with b show ?case
      using skip_skip_length [of s3] tl_skip_length [of s3] Suc.IH(2) by fastforce
  next
    case 3
    then obtain es1 s1 where a: "parse_value huge n s = Inr (es1, s1)"
      and b: "peek (skip_ws s1) = CHR '','' \<and> (\<exists>more. parse_elements huge n (count + 1) (skip_ws (tl (skip_ws s1))) = Inr (more, r)) \<or>
        peek (skip_ws s1) = CHR '']'' \<and> r = tl (skip_ws s1)"
      by (auto simp: Let_def andthen_Inr split: if_splits)
    then show ?case
      using skip_skip_length [of s1] tl_skip_length [of s1] Suc.IH(1) [OF a] Suc.IH(3) by fastforce
  }
qed simp_all

lemma parse_chars_fuel: "parse_chars s \<noteq> Inl OutOfFuel"
proof (induction s rule: parse_chars.induct)
  case (2 c s)
  have hex: "parse_hex n x u \<noteq> Inl OutOfFuel" for n x u
    by (induction n arbitrary: x u) (auto split: option.splits)
  have esc: "parse_escape s \<noteq> Inl OutOfFuel"
    using hex by (auto simp: parse_escape_def parse_unicode_def parse_low_def parse_hex4_def andthen_Inl split: option.splits)
  show ?case
    using 2 esc by (auto simp: andthen_Inl split: sum.splits)
qed simp

lemma parse_number_fuel: "parse_number huge s \<noteq> Inl OutOfFuel"
proof -
  have a: "parse_integer neg u \<noteq> Inl OutOfFuel" for neg u
    by (auto simp: parse_integer_def split: if_splits prod.splits bool.splits)
  have b: "parse_fraction i sig d u \<noteq> Inl OutOfFuel" for i sig d u
    by (auto simp: parse_fraction_def Let_def split: if_splits prod.splits)
  have "parse_exp e u \<noteq> Inl OutOfFuel" for e u
    by (auto simp: parse_exp_def Let_def split: if_splits prod.splits)
  then have c: "parse_exponent e d u \<noteq> Inl OutOfFuel" for e d u
    by (auto simp: parse_exponent_def andthen_Inl)
  show ?thesis
    using a b c by (auto simp: parse_number_def Let_def andthen_Inl split: prod.splits if_splits)
qed

lemma parse_value_fuel:
  "2 * length s < n \<Longrightarrow> parse_value huge n s \<noteq> Inl OutOfFuel"
  "2 * length s < n \<Longrightarrow> parse_members huge n count s \<noteq> Inl OutOfFuel"
  "2 * length s + 1 < n \<Longrightarrow> parse_elements huge n count s \<noteq> Inl OutOfFuel"
proof (induction n arbitrary: s count)
  case (Suc n)
  {
    case 1
    have "parse_members huge n 0 (skip_ws (tl s)) \<noteq> Inl OutOfFuel" "parse_elements huge n 0 (skip_ws (tl s)) \<noteq> Inl OutOfFuel"
      if "peek s \<noteq> NUL"
      using 1 skip_tl_length [OF that] by (simp_all add: Suc.IH)
    then show ?case
      using parse_chars_fuel [of "tl s"] parse_number_fuel [of huge s] by (auto simp: Let_def andthen_Inl)
  next
    case 2
    have v: "parse_value huge n (skip_ws (tl (skip_ws s1))) \<noteq> Inl OutOfFuel"
      if "peek s = CHR 0x22" "parse_chars (tl s) = Inr (k, s1)" "peek (skip_ws s1) = CHR '':''" for k s1
      using 2 parse_chars_length [OF that(2)] tl_length [of s] skip_skip_length [of s1] that by (intro Suc.IH(1)) simp
    have m: "parse_members huge n (count + 1) (skip_ws (tl (skip_ws s3))) \<noteq> Inl OutOfFuel"
      if "peek s = CHR 0x22" "parse_chars (tl s) = Inr (k, s1)" "peek (skip_ws s1) = CHR '':''"
        "parse_value huge n (skip_ws (tl (skip_ws s1))) = Inr (es, s3)" "peek (skip_ws s3) = CHR '',''" for k s1 es s3
      using 2 parse_chars_length [OF that(2)] tl_length [of s] skip_skip_length [of s1] parse_value_length(1) [OF that(4)]
        skip_skip_length [of s3] that by (intro Suc.IH(2)) simp
    show ?case
      using v m parse_chars_fuel [of "tl s"] by (auto simp: Let_def andthen_Inl)
  next
    case 3
    have "parse_value huge n s \<noteq> Inl OutOfFuel" using 3 by (intro Suc.IH(1)) simp
    moreover have "parse_elements huge n (count + 1) (skip_ws (tl (skip_ws s1))) \<noteq> Inl OutOfFuel"
      if "parse_value huge n s = Inr (es, s1)" "peek (skip_ws s1) = CHR '',''" for es s1
      using 3 parse_value_length(1) [OF that(1)] skip_skip_length [of s1] that by (intro Suc.IH(3)) simp
    ultimately show ?case by (auto simp: Let_def andthen_Inl)
  }
qed simp_all

section \<open>What is read is one document\<close>

lemma parse_number_event: "parse_number huge s = Inr (e, r) \<Longrightarrow> \<exists>j. accept j = [e]"
proof -
  assume "parse_number huge s = Inr (e, r)"
  then have "(\<exists>d. e = E_Double d) \<or> (\<exists>i. e = E_Int i)"
    by (auto simp: parse_number_def Let_def andthen_Inr split: if_splits prod.splits)
  then show ?thesis using accept.simps(3,4) by metis
qed

lemma parse_value_accept:
  "parse_value huge n s = Inr (es, r) \<Longrightarrow> \<exists>j. es = accept j"
  "parse_members huge n count s = Inr (es, r) \<Longrightarrow>
     \<exists>kvs. es = concat (map (\<lambda>(k, v). E_Key k # accept v) kvs) @ [E_EndObject (count + length kvs)]"
  "parse_elements huge n count s = Inr (es, r) \<Longrightarrow> \<exists>xs. es = concat (map accept xs) @ [E_EndArray (count + length xs)]"
proof (induction n arbitrary: s es r count)
  case (Suc n)
  {
    case 1
    have "[E_Null] = accept JNull" "[E_Bool b] = accept (JBool b)" "[E_String t] = accept (JString t)"
        "[E_StartObject, E_EndObject 0] = accept (JObject [])" "[E_StartArray, E_EndArray 0] = accept (JArray [])" for b t
      by simp_all
    moreover have "\<exists>j. E_StartObject # es' = accept j" if "parse_members huge n 0 u = Inr (es', r')" for u es' r'
    proof -
      from Suc.IH(2) [OF that] obtain kvs where "E_StartObject # es' = accept (JObject kvs)" by auto
      then show ?thesis by blast
    qed
    moreover have "\<exists>j. E_StartArray # es' = accept j" if "parse_elements huge n 0 u = Inr (es', r')" for u es' r'
    proof -
      from Suc.IH(3) [OF that] obtain xs where "E_StartArray # es' = accept (JArray xs)" by auto
      then show ?thesis by blast
    qed
    moreover have "\<exists>j. [e] = accept j" if "parse_number huge s = Inr (e, r')" for e r'
      using parse_number_event [OF that] by metis
    moreover have "es = [E_Null] \<or> (\<exists>b. es = [E_Bool b]) \<or> (\<exists>t. es = [E_String t]) \<or> es = [E_StartObject, E_EndObject 0] \<or>
        es = [E_StartArray, E_EndArray 0] \<or>
        (\<exists>es' u. parse_members huge n 0 u = Inr (es', r) \<and> es = E_StartObject # es') \<or>
        (\<exists>es' u. parse_elements huge n 0 u = Inr (es', r) \<and> es = E_StartArray # es') \<or>
        (\<exists>e. parse_number huge s = Inr (e, r) \<and> es = [e])"
      using 1 by (auto simp: Let_def andthen_Inr split: if_splits)
    ultimately show ?case by blast
  next
    case 2
    then obtain k s1 es1 s3 where a: "parse_value huge n (skip_ws (tl (skip_ws s1))) = Inr (es1, s3)"
      and b: "(\<exists>more. parse_members huge n (count + 1) (skip_ws (tl (skip_ws s3))) = Inr (more, r) \<and> es = E_Key k # es1 @ more) \<or>
        es = E_Key k # es1 @ [E_EndObject (count + 1)]"
      by (auto simp: Let_def andthen_Inr split: if_splits) blast
    obtain v where v: "es1 = accept v" using Suc.IH(1) [OF a] by blast
    from b show ?case
    proof
      assume "es = E_Key k # es1 @ [E_EndObject (count + 1)]"
      then have "es = concat (map (\<lambda>(k, v). E_Key k # accept v) [(k, v)]) @ [E_EndObject (count + length [(k, v)])]"
        using v by simp
      then show ?thesis by blast
    next
      assume "\<exists>more. parse_members huge n (count + 1) (skip_ws (tl (skip_ws s3))) = Inr (more, r) \<and> es = E_Key k # es1 @ more"
      then obtain kvs where "es = E_Key k # es1 @ concat (map (\<lambda>(k, v). E_Key k # accept v) kvs) @
          [E_EndObject (count + 1 + length kvs)]"
        using Suc.IH(2) by blast
      then have "es = concat (map (\<lambda>(k, v). E_Key k # accept v) ((k, v) # kvs)) @ [E_EndObject (count + length ((k, v) # kvs))]"
        using v by simp
      then show ?thesis by blast
    qed
  next
    case 3
    then obtain es1 s1 where a: "parse_value huge n s = Inr (es1, s1)"
      and b: "(\<exists>more. parse_elements huge n (count + 1) (skip_ws (tl (skip_ws s1))) = Inr (more, r) \<and> es = es1 @ more) \<or>
        es = es1 @ [E_EndArray (count + 1)]"
      by (auto simp: Let_def andthen_Inr split: if_splits)
    obtain v where v: "es1 = accept v" using Suc.IH(1) [OF a] by blast
    from b show ?case
    proof
      assume "es = es1 @ [E_EndArray (count + 1)]"
      then have "es = concat (map accept [v]) @ [E_EndArray (count + length [v])]" using v by simp
      then show ?thesis by blast
    next
      assume "\<exists>more. parse_elements huge n (count + 1) (skip_ws (tl (skip_ws s1))) = Inr (more, r) \<and> es = es1 @ more"
      then obtain xs where "es = es1 @ concat (map accept xs) @ [E_EndArray (count + 1 + length xs)]"
        using Suc.IH(3) by blast
      then have "es = concat (map accept (v # xs)) @ [E_EndArray (count + length (v # xs))]" using v by simp
      then show ?thesis by blast
    qed
  }
qed simp_all

lemma rj_events_cases:
  "(\<exists>e. rj_events huge s = Inl e \<and> e \<noteq> OutOfFuel) \<or> (\<exists>j. rj_events huge s = Inr (accept j) \<and> doc_events (accept j) [] = Some [j])"
proof (cases "rj_events huge s")
  case (Inl e)
  then have "e \<noteq> OutOfFuel"
    using parse_value_fuel(1) [of "skip_ws s" "fuel_for (skip_ws s)" huge]
    by (auto simp: rj_events_def Let_def fuel_for_def split: if_splits sum.splits)
  with Inl show ?thesis by blast
next
  case (Inr es)
  then obtain r where "parse_value huge (fuel_for (skip_ws s)) (skip_ws s) = Inr (es, r)"
    by (auto simp: rj_events_def Let_def split: if_splits sum.splits)
  then obtain j where "es = accept j" using parse_value_accept(1) by blast
  with Inr doc_accept [of j "[]" "[]"] show ?thesis by auto
qed

end
