(* ===== verification/JsonLibrary.thy ===== *)
theory JsonLibrary
  imports JsonReader
begin

text \<open>
  The reader and the writer of JSON text together, and with the messages of the program: the pair is an
  instance of what \<open>JsonTools\<close> asks of the library, for texts whose bytes are UTF-8; a text with a byte
  that is not makes a message that nobody can read.
\<close>

lemma rapidjson_reads_back: "json_ok j \<Longrightarrow> reads_back rj_write (rj_parse huge) j"
  using json_text_starts [of j] json_text_no_NUL [of j] rj_parse_written [of j]
  by (auto simp: reads_back_def rj_write_text)

definition read_document :: "(string \<Rightarrow> bool) \<Rightarrow> string \<Rightarrow> json res" where
  "read_document huge s = (case rj_parse huge s of None \<Rightarrow> Inl InvalidArgument | Some j \<Rightarrow> Inr j)"

interpretation json_codec: wire_codec rj_write "read_document huge" json_ok for huge
  by unfold_locales (simp add: read_document_def rj_write_text rj_parse_written)

lemma utf8_ok_encode:
  assumes "scalar cp" and "utf8_ok s"
  shows "utf8_ok (utf8_encode cp @ s)"
proof -
  obtain c cs where c: "utf8_encode cp = c # cs" by (cases "utf8_encode cp") (simp_all add: utf8_encode_def split: if_splits)
  show ?thesis
  proof (cases "byte c \<ge> 0x80")
    case True
    then show ?thesis
      using utf8_decode_encode [OF assms(1), of s] assms(2) c by (simp add: utf8_ok_def)
  next
    case False
    then have "utf8_decode (c # cs @ s) = (True, byte c, cs @ s)" by (simp add: utf8_decode_def)
    then have "cs = []" using utf8_decode_encode [OF assms(1), of s] c by simp
    then show ?thesis using False c assms(2) by (auto simp: utf8_ok_def split: option.splits)
  qed
qed

section \<open>Messages with a broken text\<close>

text \<open>What needs no escape.\<close>

definition plain_text :: "string \<Rightarrow> bool" where
  "plain_text s \<longleftrightarrow> (\<forall>c \<in> set s. 0x20 \<le> byte c \<and> byte c < 0x80 \<and> byte c \<noteq> 0x22 \<and> byte c \<noteq> 0x5C)"

lemma write_plain: "plain_text s \<Longrightarrow> write_chars s = (True, s)"
  by (induction s) (auto simp: plain_text_def write_escape_def)

lemma plain_ok: "plain_text s \<Longrightarrow> utf8_ok s"
  by (simp add: utf8_ok_def write_plain)

lemma plain_string: "plain_text s \<Longrightarrow> snd (write_string s) = CHR 0x22 # s @ [CHR 0x22]"
  by (simp add: write_string_def write_plain)

lemma plain_names:
  "plain_text ''type''" "plain_text ''custom''" "plain_text ''message''" "plain_text ''args''"
  "plain_text ''command''" "plain_text ''operation''"
  by code_simp+

lemma parse_member_string:
  assumes "utf8_ok k" and "utf8_ok v"
  shows "parse_members huge (Suc (Suc n)) count
      (snd (write_string k) @ CHR '':'' # snd (write_string v) @ CHR '','' # CHR 0x22 # t) =
    andthen (parse_members huge (Suc n) (count + 1) (CHR 0x22 # t)) (\<lambda>more r. Inr (E_Key k # E_String v # more, r))"
  using assms by (simp add: write_string_ok parse_string_ok)

lemma parse_member_open:
  assumes "utf8_ok k" and "c \<notin> {CHR '' '', CHR 0x0A, CHR 0x0D, CHR 0x09, CHR '','', CHR ''}''}"
  shows "parse_members huge (Suc (Suc n)) count
      (snd (write_string k) @ CHR '':'' # CHR 0x22 # snd (write_chars s) @ CHR '','' # CHR 0x22 # c # t) =
    Inl ObjectMissCommaOrCurlyBracket"
proof -
  obtain p where "parse_chars (snd (write_chars s) @ CHR '','' # CHR 0x22 # c # t) = Inr (p @ '','', c # t)"
    using parse_written [of s] by auto
  then show ?thesis
    using assms by (simp add: write_string_ok parse_string_ok)
qed

lemma rj_parse_None: "rj_events huge (c_str s) = Inl e \<Longrightarrow> rj_parse huge s = None"
  by (simp add: rj_parse_def)

lemma broken_message_events:
  assumes "\<not> utf8_ok (c_str data)"
  shows "rj_events huge (CreateMessage rj_write data args) = Inl ObjectMissCommaOrCurlyBracket"
proof -
  let ?rest = "CHR '':'' # snd (write_string (c_str args)) @ ''}''"
  let ?third = "snd (write_string ''message'') @ CHR '':'' # CHR 0x22 # snd (write_chars (c_str data)) @ CHR '','' # CHR 0x22 #
      CHR ''a'' # ''rgs'' @ CHR 0x22 # ?rest"
  let ?text = "CHR ''{'' # snd (write_string ''type'') @ CHR '':'' # snd (write_string ''custom'') @ CHR '','' # ?third"
  have args: "snd (write_string ''args'') = CHR 0x22 # CHR ''a'' # ''rgs'' @ [CHR 0x22]"
    by (simp add: plain_string plain_names)
  have broken: "snd (write_string (c_str data)) = CHR 0x22 # snd (write_chars (c_str data))"
    using assms by (cases "write_chars (c_str data)") (simp add: utf8_ok_def write_string_def)
  have whole: "CreateMessage rj_write data args = ?text"
    by (simp add: CreateMessage_def custom_message_def rj_write_text jstr_def args broken)
  obtain n where n: "fuel_for ?text = Suc (Suc (Suc (Suc n)))"
    by (simp add: fuel_for_def)
  have third: "?third = CHR 0x22 # ''message'' @ CHR 0x22 # CHR '':'' # CHR 0x22 # snd (write_chars (c_str data)) @ CHR '','' #
      CHR 0x22 # CHR ''a'' # ''rgs'' @ CHR 0x22 # ?rest"
    by (simp add: plain_string plain_names)
  have "parse_members huge (Suc (Suc n)) 1 ?third = Inl ObjectMissCommaOrCurlyBracket"
    by (rule parse_member_open) (simp_all add: plain_ok plain_names)
  then have "parse_members huge (Suc (Suc (Suc n))) 0 (tl ?text) = Inl ObjectMissCommaOrCurlyBracket"
    using parse_member_string [of "''type''" "''custom''" huge "Suc n" 0] plain_ok plain_names
    unfolding third by (simp del: parse_members.simps write_chars.simps)
  moreover have "skip_ws (tl ?text) = tl ?text" "peek (tl ?text) \<noteq> CHR ''}''"
    by (simp_all add: plain_string plain_names)
  ultimately show ?thesis
    unfolding whole rj_events_def Let_def
    by (simp add: n [simplified] del: parse_members.simps write_chars.simps)
qed

lemma broken_message_no_NUL: "NUL \<notin> set (CreateMessage rj_write data args)"
  using write_string_no_NUL by (simp add: CreateMessage_def custom_message_def rj_write_text jstr_def)

section \<open>Properties\<close>

text \<open>
  C11: the writer is a machine with a stack of levels, and the reader a parser whose events build a document on
  another: what the one writes of a document the other reads as that document, for every document of integers
  of 32 bits and of texts that are UTF-8, whatever characters are in them; characters beyond ASCII go through
  escapes and surrogate pairs.
\<close>

theorem written_document_is_read_back:
  assumes "json_ok j"
  shows "rj_parse huge (rj_write j) = Some j"
  using rapidjson_reads_back [OF assms, of huge] by (simp add: reads_back_def)

theorem written_document_is_read_back_witness:
  "rj_parse (\<lambda>_. False) (rj_write (JObject [(''n'', JInt (- 7)), (''t'', JArray [JString (utf8_encode 233), JNull])]))
    = Some (JObject [(''n'', JInt (- 7)), (''t'', JArray [JString (utf8_encode 233), JNull])])"
proof (rule written_document_is_read_back)
  have "utf8_ok (utf8_encode 233)" using utf8_ok_encode [of 233 "[]"] by (simp add: scalar_def utf8_ok_def)
  moreover have "utf8_ok ''n''" "utf8_ok ''t''" by (simp_all add: plain_ok plain_text_def)
  ultimately show "json_ok (JObject [(''n'', JInt (- 7)), (''t'', JArray [JString (utf8_encode 233), JNull])])"
    by (simp add: int32_min_def int32_max_def)
qed

text \<open>
  C18: an operation that a client writes with the library, with a command and arguments that are well-formed UTF-8
  without a NUL, is, for the server that reads it with the library, an
  operation with the command and the arguments that were given, and no message.
\<close>

theorem operation_crosses_the_wire:
  assumes "utf8_ok op" and "CHR 0x00 \<notin> set op" and "\<forall>a \<in> set args. utf8_ok a \<and> CHR 0x00 \<notin> set a"
  shows "let s = CreateOperation rj_write op args; jp = rj_parse huge in
    IsOperation jp s = Inr True \<and> GetOperation jp s = Inr op \<and> GetArgs jp s = Inr args \<and>
    GetToken jp s = Inr [] \<and> IsMessage jp s = Inr False"
proof -
  have args: "map c_str args = args" using assms(3) by (simp add: map_idI)
  have "json_ok (operation_doc op args)"
    using assms by (simp add: operation_doc_def jstr_def plain_ok plain_names list_all_iff)
  from operation_readers [OF rapidjson_reads_back [OF this, of huge]] show ?thesis
    using assms(2) args by simp
qed

theorem operation_crosses_the_wire_witness:
  "let s = CreateOperation rj_write ''Start'' [''1'', utf8_encode 0x20AC];
       jp = rj_parse (\<lambda>_. False) in
    IsOperation jp s = Inr True \<and> GetOperation jp s = Inr ''Start'' \<and>
    GetArgs jp s = Inr [''1'', utf8_encode 0x20AC] \<and>
    GetToken jp s = Inr [] \<and> IsMessage jp s = Inr False"
proof (rule operation_crosses_the_wire)
  show "utf8_ok ''Start''" by (simp add: plain_ok plain_text_def)
  have "utf8_ok (utf8_encode 0x20AC)" using utf8_ok_encode [of "0x20AC" "[]"] by (simp add: scalar_def utf8_ok_def)
  moreover have "CHR 0x00 \<notin> set (utf8_encode 0x20AC)" by (simp add: utf8_encode_simps char_of_eq)
  moreover have "utf8_ok ''1''" by (simp add: plain_ok plain_text_def)
  ultimately show "\<forall>a \<in> set [''1'', utf8_encode 0x20AC]. utf8_ok a \<and> CHR 0x00 \<notin> set a"
    by simp
qed simp

text \<open>
  C25: one byte that is no part of a UTF-8 character, in the text of a message: the writer stops in the middle of
  the string and leaves its quote open, the writer's caller does not look at the answer, and what is sent
  cannot be read; it is not even known for a message.
\<close>

theorem broken_text_makes_message_unreadable:
  assumes "\<not> utf8_ok (c_str data)"
  shows "let s = CreateMessage rj_write data args; jp = rj_parse huge in
    rj_events huge s = Inl ObjectMissCommaOrCurlyBracket \<and> IsMessage jp s = Inr False \<and> GetMessage jp s = Inr []"
  using broken_message_events [OF assms, of huge args] broken_message_no_NUL [of data args]
  by (simp add: IsMessage_def GetMessage_def text_member_def rj_parse_None)

theorem broken_text_makes_message_unreadable_witness:
  "let s = CreateMessage rj_write [CHR ''a'', char_of (233 :: nat)] ''x''; jp = rj_parse (\<lambda>_. False) in
    rj_events (\<lambda>_. False) s = Inl ObjectMissCommaOrCurlyBracket \<and> IsMessage jp s = Inr False \<and> GetMessage jp s = Inr []"
proof (rule broken_text_makes_message_unreadable)
  show "\<not> utf8_ok (c_str [CHR ''a'', char_of (233 :: nat)])"
    by (simp add: c_str_def char_of_eq utf8_ok_def utf8_decode_def utf8_range_def utf8_masks_def write_escape_def)
qed

text \<open>
  C24: the decoder takes just the UTF-8 that is well formed: a text begins with the code point \<open>cp\<close> for it if
  and only if it begins with the one encoding of \<open>cp\<close>, and \<open>cp\<close> is a character; no longer encoding, no half of a
  surrogate pair and nothing above the last code point is let through.
\<close>

theorem decoder_takes_well_formed:
  "utf8_decode (c # s) = (True, cp, r) \<longleftrightarrow> c # s = utf8_encode cp @ r \<and> scalar cp"
  using utf8_decode_True [of c s cp r] utf8_decode_encode [of cp r] by metis

text \<open>
  C20: the reader ends on every text, with the calls its fuel allows: it is refused with an error of the library,
  and there is no document, or its events are those of one document, which is what the text is read as; the
  assertion that there is just one value left on the stack holds.
\<close>

theorem every_text_is_read_or_refused:
  "(\<exists>e. rj_events huge (c_str s) = Inl e \<and> e \<noteq> OutOfFuel \<and> rj_parse huge s = None) \<or>
   (\<exists>j. rj_events huge (c_str s) = Inr (accept j) \<and> doc_events (accept j) [] = Some [j] \<and> rj_parse huge s = Some j)"
  using rj_events_cases [of huge "c_str s"] by (auto simp: rj_parse_def)

text \<open>
  The conversion of integers by a table of two digits, with its cases for four, eight and more digits, gives
  the decimal digits of every 32-bit number, and a minus for the negative ones down to the least.
\<close>

theorem table_gives_decimal_digits:
  "u32toa v = nat_to_string (unat v) \<and> (int32_min \<le> i \<and> i \<le> int32_max \<longrightarrow> i32toa (word_of_int i) = int_to_string i)"
  using u32toa_digits i32toa_digits by blast

theorem table_gives_decimal_digits_witness: "i32toa (word_of_int (- 2147483648)) = int_to_string (- 2147483648)"
  using table_gives_decimal_digits [of 0 "- 2147483648"] by (simp add: int32_min_def int32_max_def)

end
