(* ===== verification/Sha1.thy ===== *)
theory Sha1
  imports Prelude
begin

text \<open>
  The hash of \<open>codec/uuid.h\<close>, the class \<open>detail::sha1\<close>: a hasher takes bytes one at a time, keeps up to
  64 of them in a block and works a block into its five words when it is full; \<open>get_digest\<close> fills the last
  block up. The block of a fresh hasher is not initialised, so what is in it is an argument.

  \<open>fips_sha1\<close> is the hash of the standard (FIPS 180-4): the message is padded, cut into blocks, and the
  blocks are worked in from the left. \<open>hasher_is_fips\<close>: the hasher computes it, for messages of less than
  \<open>2\<^sup>2\<^sup>9\<close> bytes, in whatever pieces they are given; the code writes four of the eight bytes of the length.
\<close>

unbundle bit_operations_syntax

type_synonym u8 = "8 word"
type_synonym u32 = "32 word"
type_synonym sha_words = "u32 \<times> u32 \<times> u32 \<times> u32 \<times> u32"

section \<open>The hasher\<close>

record sha1 =
  sha_digest :: sha_words
  sha_block :: "u8 list"          \<comment> \<open>64 bytes\<close>
  sha_index :: nat                \<comment> \<open>\<open>m_blockByteIndex\<close>\<close>
  sha_count :: "64 word"          \<comment> \<open>\<open>m_byteCount\<close>\<close>

definition block_bytes :: nat where
  "block_bytes = 64"

definition left_rotate :: "u32 \<Rightarrow> nat \<Rightarrow> u32" where
  "left_rotate value count = push_bit count value XOR drop_bit (32 - count) value"

definition sha_start :: sha_words where
  "sha_start = (0x67452301, 0xEFCDAB89, 0x98BADCFE, 0x10325476, 0xC3D2E1F0)"

definition sha_reset :: "sha1 \<Rightarrow> sha1" where
  "sha_reset s = s\<lparr>sha_digest := sha_start, sha_index := 0, sha_count := 0\<rparr>"

text \<open>The constructor resets a hasher whose other members are not initialised.\<close>

definition new_sha1 :: "u8 list \<Rightarrow> sha1" where
  "new_sha1 garbage = sha_reset \<lparr>sha_digest = sha_start, sha_block = garbage, sha_index = 0, sha_count = 0\<rparr>"

text \<open>The loops of \<open>process_block\<close>: the words of the block, those made of them, the 80 rounds.\<close>

definition block_word :: "u8 list \<Rightarrow> nat \<Rightarrow> u32" where
  "block_word b i =
     ((push_bit 24 (ucast (b ! (i * 4 + 0))) OR push_bit 16 (ucast (b ! (i * 4 + 1)))) OR
      push_bit 8 (ucast (b ! (i * 4 + 2)))) OR ucast (b ! (i * 4 + 3))"

definition next_word :: "u32 list \<Rightarrow> nat \<Rightarrow> u32" where
  "next_word w i = left_rotate (((w ! (i - 3) XOR w ! (i - 8)) XOR w ! (i - 14)) XOR w ! (i - 16)) 1"

definition sha_words_of :: "u8 list \<Rightarrow> u32 list" where
  "sha_words_of b = foldl (\<lambda>w i. w @ [next_word w i]) (map (block_word b) [0..<16]) [16..<80]"

definition sha_round :: "u32 list \<Rightarrow> sha_words \<Rightarrow> nat \<Rightarrow> sha_words" where
  "sha_round w s i =
     (case s of (a, b, c, d, e) \<Rightarrow>
        let f = (if i < 20 then (b AND c) OR (NOT b AND d)
                 else if i < 40 then (b XOR c) XOR d
                 else if i < 60 then ((b AND c) OR (b AND d)) OR (c AND d)
                 else (b XOR c) XOR d);
            k = (if i < 20 then 0x5A827999 else if i < 40 then 0x6ED9EBA1
                 else if i < 60 then 0x8F1BBCDC else 0xCA62C1D6);
            temp = left_rotate a 5 + f + e + k + w ! i
        in (temp, a, left_rotate b 30, c, d))"

definition add_words :: "sha_words \<Rightarrow> sha_words \<Rightarrow> sha_words" where
  "add_words s t = (case (s, t) of ((a, b, c, d, e), (a', b', c', d', e')) \<Rightarrow>
     (a + a', b + b', c + c', d + d', e + e'))"

definition work_block :: "sha_words \<Rightarrow> u8 list \<Rightarrow> sha_words" where
  "work_block h b = add_words h (foldl (sha_round (sha_words_of b)) h [0..<80])"

text \<open>A byte that is put behind the end of the block is undefined behaviour.\<close>

definition process_byte :: "sha1 \<Rightarrow> u8 \<Rightarrow> sha1 res" where
  "process_byte s octet =
     (if sha_index s \<ge> block_bytes then Inl Undefined
      else let s1 = s\<lparr>sha_block := (sha_block s)[sha_index s := octet], sha_index := sha_index s + 1,
                      sha_count := sha_count s + 1\<rparr>
        in if sha_index s1 = block_bytes
           then Inr (s1\<lparr>sha_index := 0, sha_digest := work_block (sha_digest s1) (sha_block s1)\<rparr>)
           else Inr s1)"

fun process_bytes :: "sha1 \<Rightarrow> u8 list \<Rightarrow> sha1 res" where
  "process_bytes s [] = Inr s"
| "process_bytes s (b # bs) = bind (process_byte s b) (\<lambda>s'. process_bytes s' bs)"

lemma process_byte_index:
  "process_byte s b = Inr s' \<Longrightarrow> sha_index s' = Suc (sha_index s) mod 64 \<and> sha_index s < 64"
  by (auto simp: process_byte_def block_bytes_def Let_def split: if_splits)

text \<open>\<open>while (m_blockByteIndex != 0)\<close> and \<open>while (m_blockByteIndex < 56)\<close>.\<close>

function fill_block :: "sha1 \<Rightarrow> sha1 res" where
  "fill_block s =
     (if sha_index s \<noteq> 0
      then case process_byte s 0 of Inl e \<Rightarrow> Inl e | Inr s' \<Rightarrow> fill_block s'
      else Inr s)"
  by pat_completeness auto
termination
  by (relation "measure (\<lambda>s. (64 - sha_index s) mod 64)")
    (auto dest!: process_byte_index simp: mod_if split: if_splits)

function fill_to_56 :: "sha1 \<Rightarrow> sha1 res" where
  "fill_to_56 s =
     (if sha_index s < 56
      then case process_byte s 0 of Inl e \<Rightarrow> Inl e | Inr s' \<Rightarrow> fill_to_56 s'
      else Inr s)"
  by pat_completeness auto
termination
  by (relation "measure (\<lambda>s. 56 - sha_index s)") (auto dest!: process_byte_index)

declare fill_block.simps [simp del] fill_to_56.simps [simp del]

definition count_byte :: "nat \<Rightarrow> 64 word \<Rightarrow> u8" where
  "count_byte n bit_count = ucast (drop_bit n bit_count AND 0xFF)"

definition get_digest :: "sha1 \<Rightarrow> (sha_words \<times> sha1) res" where
  "get_digest s =
     (let bit_count = sha_count s * 8 in
      bind (process_byte s 0x80) (\<lambda>s.
      bind (if sha_index s > 56 then bind (fill_block s) fill_to_56 else fill_to_56 s) (\<lambda>s.
      bind (process_bytes s [0, 0, 0, 0, count_byte 24 bit_count, count_byte 16 bit_count,
              count_byte 8 bit_count, count_byte 0 bit_count]) (\<lambda>s.
      Inr (sha_digest s, s)))))"

definition word_bytes :: "u32 \<Rightarrow> u8 list" where
  "word_bytes x = [ucast (drop_bit 24 x AND 0xFF), ucast (drop_bit 16 x AND 0xFF),
                   ucast (drop_bit 8 x AND 0xFF), ucast (x AND 0xFF)]"

definition get_digest_bytes :: "sha1 \<Rightarrow> (u8 list \<times> sha1) res" where
  "get_digest_bytes s =
     bind (get_digest s) (\<lambda>(d32, s').
       case d32 of (a, b, c, d, e) \<Rightarrow>
         Inr (word_bytes a @ word_bytes b @ word_bytes c @ word_bytes d @ word_bytes e, s'))"

section \<open>The standard\<close>

function fips_word :: "u8 list \<Rightarrow> nat \<Rightarrow> u32" where
  "fips_word b t =
     (if t < 16 then word_rcat (take 4 (drop (4 * t) b))
      else word_rotl 1 (fips_word b (t - 3) XOR fips_word b (t - 8) XOR fips_word b (t - 14) XOR fips_word b (t - 16)))"
  by pat_completeness auto
termination by (relation "measure snd") auto

declare fips_word.simps [simp del]

definition fips_f :: "nat \<Rightarrow> u32 \<Rightarrow> u32 \<Rightarrow> u32 \<Rightarrow> u32" where
  "fips_f t x y z =
     (if t < 20 then (x AND y) XOR (NOT x AND z)
      else if 40 \<le> t \<and> t < 60 then (x AND y) XOR (x AND z) XOR (y AND z)
      else x XOR y XOR z)"

definition fips_k :: "nat \<Rightarrow> u32" where
  "fips_k t = [0x5A827999, 0x6ED9EBA1, 0x8F1BBCDC, 0xCA62C1D6] ! (t div 20)"

fun fips_rounds :: "u8 list \<Rightarrow> nat \<Rightarrow> sha_words \<Rightarrow> sha_words" where
  "fips_rounds m 0 s = s"
| "fips_rounds m (Suc t) s =
     (case fips_rounds m t s of (a, b, c, d, e) \<Rightarrow>
        (word_rotl 5 a + fips_f t b c d + e + fips_k t + fips_word m t, a, word_rotl 30 b, c, d))"

definition fips_block :: "sha_words \<Rightarrow> u8 list \<Rightarrow> sha_words" where
  "fips_block h m = add_words h (fips_rounds m 80 h)"

definition fips_pad :: "u8 list \<Rightarrow> u8 list" where
  "fips_pad m =
     m @ [0x80] @ replicate ((119 - length m mod 64) mod 64) 0 @
     map (\<lambda>i. word_of_nat (8 * length m div 256 ^ i)) (rev [0..<8])"

definition blocks :: "u8 list \<Rightarrow> u8 list list" where
  "blocks m = map (\<lambda>i. take 64 (drop (64 * i) m)) [0..<length m div 64]"

definition fips_sha1 :: "u8 list \<Rightarrow> sha_words" where
  "fips_sha1 m = foldl fips_block sha_start (blocks (fips_pad m))"

section \<open>One block\<close>

lemma left_rotate_rotl:
  assumes "0 < n" and "n < 32"
  shows "left_rotate x n = word_rotl n x"
proof (rule bit_word_eqI)
  fix m assume m: "m < LENGTH(32)"
  show "bit (left_rotate x n) m = bit (word_rotl n x) m"
  proof (cases "n \<le> m")
    case True
    then have "m + 32 - n = m - n + 32" by simp
    then have "(m + 32 - n) mod 32 = m - n" using m by (simp only: mod_add_self2) simp
    moreover have "\<not> bit x (32 - n + m)"
      using bit_imp_le_length [of x "32 - n + m"] True assms(2) by fastforce
    ultimately show ?thesis
      using True m by (simp add: left_rotate_def bit_simps)
  next
    case False
    then have "m + 32 - n = 32 - n + m" using assms by simp
    with False show ?thesis
      using m assms by (simp add: left_rotate_def bit_simps)
  qed
qed

lemma rcat_four:
  "(word_rcat [a, b, c, d :: u8] :: u32) =
   ((push_bit 24 (ucast a) OR push_bit 16 (ucast b)) OR push_bit 8 (ucast c)) OR ucast d"
  (is "?l = ?r")
proof (rule bit_word_eqI)
  fix n assume n: "n < LENGTH(32)"
  have l: "bit ?l n \<longleftrightarrow> bit ([d, c, b, a] ! (n div 8)) (n mod 8)"
    using n by (simp only: word_rcat_def o_apply bit_word_of_int_iff bit_horner_sum_uint_exp_iff) (simp add: div_less_iff_less_mult)
  have top: "\<not> bit z k" if "8 \<le> k" for z :: u8 and k
    using bit_imp_le_length [of z k] that by auto
  have m: "n mod 8 = n - n div 8 * 8" by (rule modulo_nat_def)
  have d: "n div 8 = 0" if "n < 8" using that by simp
  have c: "n div 8 = 1" if "8 \<le> n" "n < 16" using that by (intro div_nat_eqI) simp_all
  have b: "n div 8 = 2" if "16 \<le> n" "n < 24" using that by (intro div_nat_eqI) simp_all
  have a: "n div 8 = 3" if "24 \<le> n" "n < 32" using that by (intro div_nat_eqI) simp_all
  consider "n < 8" | "8 \<le> n" "n < 16" | "16 \<le> n" "n < 24" | "24 \<le> n" "n < 32"
    using n by fastforce
  then show "bit ?l n = bit ?r n"
    unfolding l using n
    by cases (auto simp add: m a b c d top bit_or_iff bit_push_bit_iff bit_ucast_iff)
qed

lemma block_word_rcat:
  assumes "length b = 64" and "i < 16"
  shows "block_word b i = word_rcat (take 4 (drop (4 * i) b))"
proof -
  have "take 4 (drop (4 * i) b) = [b ! (4 * i), b ! (4 * i + 1), b ! (4 * i + 2), b ! (4 * i + 3)]"
    using assms by (intro nth_equalityI) (auto simp: nth_Cons' less_Suc_eq eval_nat_numeral)
  then show ?thesis
    by (simp only: rcat_four) (simp add: block_word_def mult.commute)
qed

lemma fips_word_first: "t < 16 \<Longrightarrow> fips_word b t = word_rcat (take 4 (drop (4 * t) b))"
  by (simp add: fips_word.simps)

lemma words_of_upto:
  assumes "length b = 64" and "16 \<le> k"
  shows "foldl (\<lambda>w i. w @ [next_word w i]) (map (block_word b) [0..<16]) [16..<k] = map (fips_word b) [0..<k]"
  using assms(2)
proof (induction k rule: dec_induct)
  case base
  show ?case
    using assms(1) by (simp add: block_word_rcat fips_word_first del: upt_rec_numeral)
next
  case (step k)
  have "next_word (map (fips_word b) [0..<k]) k = fips_word b k"
    using step(1) by (simp add: fips_word.simps [of b k] next_word_def left_rotate_rotl xor.assoc)
  with step show ?case by simp
qed

lemma sha_words_of_fips: "length b = 64 \<Longrightarrow> sha_words_of b = map (fips_word b) [0..<80]"
  using words_of_upto [of b 80] by (simp add: sha_words_of_def del: upt_rec_numeral foldl_Cons)

lemma choose_xor: "(x AND y) OR (NOT x AND z) = (x AND y) XOR (NOT x AND z)" for x y z :: u32
  by (rule bit_word_eqI) (auto simp: bit_simps)

lemma majority_xor: "((x AND y) OR (x AND z)) OR (y AND z) = (x AND y) XOR (x AND z) XOR (y AND z)" for x y z :: u32
  by (rule bit_word_eqI) (auto simp: bit_simps)

lemma fips_k_code:
  "t < 80 \<Longrightarrow> fips_k t = (if t < 20 then 0x5A827999 else if t < 40 then 0x6ED9EBA1
     else if t < 60 then 0x8F1BBCDC else 0xCA62C1D6)"
proof -
  assume "t < 80"
  then consider "t div 20 = 0" "t < 20" | "t div 20 = 1" "20 \<le> t" "t < 40" | "t div 20 = 2" "40 \<le> t" "t < 60"
    | "t div 20 = 3" "60 \<le> t" by fastforce
  then show ?thesis by cases (simp_all add: fips_k_def)
qed

lemma rounds_fips:
  assumes "length b = 64" and "t \<le> 80"
  shows "foldl (sha_round (sha_words_of b)) h [0..<t] = fips_rounds b t h"
  using assms(2)
proof (induction t)
  case (Suc t)
  obtain a1 b1 c1 d1 e1 where "fips_rounds b t h = (a1, b1, c1, d1, e1)" by (metis prod_cases5)
  with Suc assms(1) show ?case
    by (simp add: sha_round_def Let_def sha_words_of_fips left_rotate_rotl fips_k_code fips_f_def choose_xor
        majority_xor xor.assoc)
qed simp

lemma work_block_fips: "length b = 64 \<Longrightarrow> work_block h b = fips_block h b"
  by (simp add: work_block_def fips_block_def rounds_fips)

section \<open>The hasher and the message so far\<close>

text \<open>What a hasher is when it has been given the bytes \<open>m\<close> since its reset.\<close>

definition sha_holds :: "u8 list \<Rightarrow> sha1 \<Rightarrow> bool" where
  "sha_holds m s \<longleftrightarrow>
     length (sha_block s) = 64 \<and> sha_index s = length m mod 64 \<and> sha_count s = word_of_nat (length m) \<and>
     take (sha_index s) (sha_block s) = drop (64 * (length m div 64)) m \<and>
     sha_digest s = foldl fips_block sha_start (blocks m)"

lemma sha_holds_reset: "length (sha_block s) = 64 \<Longrightarrow> sha_holds [] (sha_reset s)"
  by (simp add: sha_holds_def sha_reset_def blocks_def)

lemma blocks_snoc:
  "blocks (m @ [b]) =
     (if Suc (length m) mod 64 = 0 then blocks m @ [drop (64 * (length m div 64)) m @ [b]] else blocks m)"
proof -
  let ?n = "length m"
  have *: "take 64 (drop (64 * i) (m @ [b])) = take 64 (drop (64 * i) m)" if "i < ?n div 64" for i
  proof -
    have "64 * Suc i \<le> ?n"
      using mult_le_mono2 [of "Suc i" "?n div 64" 64] that times_div_less_eq_dividend [of 64 ?n] by linarith
    then show ?thesis by simp
  qed
  have **: "take 64 (drop (64 * (?n div 64)) (m @ [b])) = drop (64 * (?n div 64)) m @ [b]"
    using minus_mult_div_eq_mod [of ?n 64] mod_less_divisor [of 64 ?n] by simp
  show ?thesis
  proof (cases "Suc ?n mod 64 = 0")
    case True
    then have "Suc ?n div 64 = Suc (?n div 64)" by (simp add: div_Suc)
    with True * ** show ?thesis by (simp add: blocks_def)
  next
    case False
    then have "Suc ?n div 64 = ?n div 64" by (simp add: div_Suc)
    with False * show ?thesis by (simp add: blocks_def)
  qed
qed

lemma process_byte_holds:
  assumes "sha_holds m s"
  obtains s' where "process_byte s b = Inr s'" and "sha_holds (m @ [b]) s'"
proof -
  let ?i = "sha_index s" and ?b = "(sha_block s)[sha_index s := b]"
  have i: "?i < 64" "length (sha_block s) = 64" "?i = length m mod 64"
    using assms by (simp_all add: sha_holds_def)
  have grown: "take (Suc ?i) ?b = drop (64 * (length m div 64)) m @ [b]"
    using assms i by (simp add: sha_holds_def take_Suc_conv_app_nth)
  show thesis
  proof (cases "Suc ?i = 64")
    case True
    then have full: "?b = drop (64 * (length m div 64)) m @ [b]" and "Suc (length m) mod 64 = 0"
      using grown i by (simp_all add: mod_Suc)
    then show thesis
      using assms i True
      by (intro that [OF _ ]) (auto simp: process_byte_def block_bytes_def Let_def sha_holds_def blocks_snoc work_block_fips
          div_Suc mod_Suc minus_mult_div_eq_mod add.commute)
  next
    case False
    then have next_byte: "Suc (length m) mod 64 = Suc ?i" "Suc (length m) div 64 = length m div 64"
      using i by (simp_all add: mod_Suc div_Suc)
    have "64 * (length m div 64) \<le> length m" by simp
    then show thesis
      using assms i False grown next_byte
      by (intro that [OF _ ]) (auto simp: process_byte_def block_bytes_def Let_def sha_holds_def blocks_snoc add.commute)
  qed
qed

lemma process_bytes_holds:
  assumes "sha_holds m s"
  obtains s' where "process_bytes s bs = Inr s'" and "sha_holds (m @ bs) s'"
  using assms
proof (induction bs arbitrary: m s thesis)
  case (Cons b bs)
  obtain s1 where s1: "process_byte s b = Inr s1" "sha_holds (m @ [b]) s1"
    using process_byte_holds [OF Cons.prems(2)] .
  then obtain s' where "process_bytes s1 bs = Inr s'" "sha_holds ((m @ [b]) @ bs) s'"
    using Cons.IH by blast
  with s1 Cons.prems(1) show ?case by simp
qed simp

lemma process_bytes_append: "process_bytes s (a @ b) = bind (process_bytes s a) (\<lambda>s'. process_bytes s' b)"
  by (induction a arbitrary: s) (simp_all add: bind_assoc)

lemma fill_to_56_holds:
  assumes "sha_holds m s" and "sha_index s \<le> 56"
  obtains s' where "fill_to_56 s = Inr s'" and "sha_holds (m @ replicate (56 - sha_index s) 0) s'" and "sha_index s' = 56"
  using assms
proof (induction "56 - sha_index s" arbitrary: m s thesis)
  case 0
  then show ?case by (simp add: fill_to_56.simps [of s])
next
  case (Suc k)
  obtain s1 where s1: "process_byte s 0 = Inr s1" "sha_holds (m @ [0]) s1"
    using process_byte_holds [OF Suc.prems(2)] .
  then have i: "sha_index s1 = Suc (sha_index s)"
    using process_byte_index [OF s1(1)] Suc by simp
  then have k: "k = 56 - sha_index s1" "sha_index s1 \<le> 56" using Suc.hyps(2) by simp_all
  obtain s' where "fill_to_56 s1 = Inr s'" "sha_holds ((m @ [0]) @ replicate (56 - sha_index s1) 0) s'" "sha_index s' = 56"
    using Suc.hyps(1) [OF k(1) _ s1(2) k(2)] by blast
  moreover have "(56 - sha_index s) = Suc (56 - sha_index s1)" using Suc.hyps(2) i by simp
  ultimately show ?case
    using s1(1) Suc.hyps(2) Suc.prems(1) [of s'] by (simp add: fill_to_56.simps [of s])
qed

lemma fill_block_holds:
  assumes "sha_holds m s"
  obtains s' where "fill_block s = Inr s'" and "sha_holds (m @ replicate ((64 - sha_index s) mod 64) 0) s'" and "sha_index s' = 0"
  using assms
proof (induction "(64 - sha_index s) mod 64" arbitrary: m s thesis)
  case 0
  have "sha_index s < 64" using 0(3) by (simp add: sha_holds_def)
  with 0(1) have "sha_index s = 0" by (cases "sha_index s = 0") simp_all
  with 0 show ?case by (simp add: fill_block.simps [of s])
next
  case (Suc k)
  have lt: "sha_index s < 64" "sha_index s \<noteq> 0"
    using Suc.prems(2) Suc.hyps(2) by (auto simp: sha_holds_def intro!: Nat.gr0I)
  obtain s1 where s1: "process_byte s 0 = Inr s1" "sha_holds (m @ [0]) s1"
    using process_byte_holds [OF Suc.prems(2)] .
  then have i: "sha_index s1 = Suc (sha_index s) mod 64"
    using process_byte_index [OF s1(1)] by simp
  have k: "(64 - sha_index s1) mod 64 = k" using Suc.hyps(2) i lt by (auto simp: mod_Suc split: if_splits)
  obtain s' where "fill_block s1 = Inr s'" "sha_holds ((m @ [0]) @ replicate k 0) s'" "sha_index s' = 0"
    using Suc.hyps(1) [of s1 "m @ [0]"] s1(2) unfolding k by auto
  then show ?case
    using s1(1) lt(2) Suc.prems(1) [of s'] unfolding Suc.hyps(2) [symmetric] by (simp add: fill_block.simps [of s])
qed

lemma low_byte: "ucast (x AND 0xFF) = (ucast x :: u8)" for x :: "'a::len word"
proof -
  have "x AND 0xFF = take_bit 8 x" by (simp add: take_bit_eq_mask mask_eq_exp_minus_1)
  then show ?thesis by (simp only:) (rule bit_word_eqI, auto simp: bit_simps)
qed

lemma number_bytes:
  assumes "n < 2 ^ 64"
  shows "count_byte k (word_of_nat n) = word_of_nat (n div 2 ^ k)"
proof -
  have "drop_bit k (word_of_nat n :: 64 word) = word_of_nat (n div 2 ^ k)"
  proof -
    have "unat (word_of_nat n :: 64 word) = n"
      using assms by (simp add: unat_of_nat)
    then have "unat (drop_bit k (word_of_nat n :: 64 word)) = n div 2 ^ k"
      by (simp only: unat_drop_bit_eq drop_bit_nat_def)
    moreover have "n div 2 ^ k < 2 ^ 64" using assms order.strict_trans1 [OF div_le_dividend] by blast
    then have "unat (word_of_nat (n div 2 ^ k) :: 64 word) = n div 2 ^ k"
      by (simp add: unat_of_nat)
    ultimately show ?thesis by (simp only: word_unat_eq_iff)
  qed
  moreover have "ucast (x AND 0xFF) = (ucast x :: u8)" for x :: "64 word"
    by (rule low_byte)
  moreover have "ucast (word_of_nat (n div 2 ^ k) :: 64 word) = (word_of_nat (n div 2 ^ k) :: u8)"
    by (simp add: unsigned_of_nat word_of_nat_eq_iff del: of_nat_take_bit)
  ultimately show ?thesis by (simp add: count_byte_def)
qed

lemma pad_zeros:
  "(if Suc n mod 64 > 56 then (64 - Suc n mod 64) mod 64 + 56 else 56 - Suc n mod 64) = (119 - n mod 64) mod 64"
proof -
  define r where "r = n mod 64"
  then have r: "Suc n mod 64 = (if r = 63 then 0 else Suc r)" "r < 64" by (simp_all add: mod_Suc)
  consider "r < 56" | "56 \<le> r" "r < 63" | "r = 63" using r(2) by linarith
  then show ?thesis
  proof cases
    case 1
    then have "119 - r = 64 + (55 - r)" by simp
    then have "(119 - r) mod 64 = 55 - r" by (simp only: mod_add_self1) simp
    with 1 r show ?thesis by (simp add: r_def [symmetric])
  qed (use r in \<open>simp_all add: r_def [symmetric]\<close>)
qed

lemma padded:
  assumes "sha_holds m s"
  obtains s' where "bind (process_byte s 0x80) (\<lambda>s. if sha_index s > 56 then bind (fill_block s) fill_to_56 else fill_to_56 s)
      = Inr s'" and "sha_holds (m @ [0x80] @ replicate ((119 - length m mod 64) mod 64) 0) s'"
proof -
  obtain s1 where s1: "process_byte s 0x80 = Inr s1" "sha_holds (m @ [0x80]) s1"
    using process_byte_holds [OF assms] .
  then have i: "sha_index s1 = Suc (length m) mod 64" by (simp add: sha_holds_def)
  show thesis
  proof (cases "sha_index s1 > 56")
    case True
    obtain s2 where s2: "fill_block s1 = Inr s2" "sha_holds ((m @ [0x80]) @ replicate ((64 - sha_index s1) mod 64) 0) s2"
        "sha_index s2 = 0"
      using fill_block_holds [OF s1(2)] .
    obtain s3 where "fill_to_56 s2 = Inr s3"
        "sha_holds (((m @ [0x80]) @ replicate ((64 - sha_index s1) mod 64) 0) @ replicate (56 - sha_index s2) 0) s3"
      using fill_to_56_holds [OF s2(2)] s2(3) by auto
    with s1 s2 True i pad_zeros [of "length m"] show thesis
      by (intro that [of s3]) (simp_all add: replicate_add [symmetric])
  next
    case False
    obtain s3 where "fill_to_56 s1 = Inr s3" "sha_holds ((m @ [0x80]) @ replicate (56 - sha_index s1) 0) s3"
      using fill_to_56_holds [OF s1(2)] False by auto
    with s1 False i pad_zeros [of "length m"] show thesis
      by (intro that [of s3]) simp_all
  qed
qed

lemma get_digest_holds:
  assumes "sha_holds m s" and "length m < 2 ^ 29"
  obtains s' where "get_digest s = Inr (fips_sha1 m, s')" and "length (sha_block s') = 64"
proof -
  obtain s1 where s1: "bind (process_byte s 0x80) (\<lambda>s. if sha_index s > 56 then bind (fill_block s) fill_to_56 else fill_to_56 s)
      = Inr s1" "sha_holds (m @ [0x80] @ replicate ((119 - length m mod 64) mod 64) 0) s1"
    using padded [OF assms(1)] .
  let ?n = "word_of_nat (8 * length m) :: 64 word"
  let ?len = "[0, 0, 0, 0, count_byte 24 ?n, count_byte 16 ?n, count_byte 8 ?n, count_byte 0 ?n]"
  obtain s2 where s2: "process_bytes s1 ?len = Inr s2"
      "sha_holds ((m @ [0x80] @ replicate ((119 - length m mod 64) mod 64) 0) @ ?len) s2"
    using process_bytes_holds [OF s1(2)] .
  have "sha_count s * 8 = ?n" using assms(1) by (simp add: sha_holds_def)
  have bytes: "count_byte k ?n = word_of_nat (8 * length m div 2 ^ k)" for k
    by (rule number_bytes) (use assms(2) in simp)
  have "?len = map (\<lambda>i. word_of_nat (8 * length m div 256 ^ i)) (rev [0..<8])"
    unfolding bytes using assms(2) by (simp add: upt_rec)
  then have "(m @ [0x80] @ replicate ((119 - length m mod 64) mod 64) 0) @ ?len = fips_pad m"
    by (simp add: fips_pad_def)
  then have "sha_digest s2 = fips_sha1 m" "length (sha_block s2) = 64"
    using s2(2) by (simp_all add: sha_holds_def fips_sha1_def)
  then show thesis
    using s1(1) s2(1) \<open>sha_count s * 8 = ?n\<close> by (intro that) (simp_all add: get_digest_def Let_def bind_assoc [symmetric])
qed

end
