(* ===== verification/Uuid.thy ===== *)
theory Uuid
  imports Sha1 JsonTools
begin

text \<open>
  The UUIDs of \<open>codec/uuid.h\<close>: the class \<open>uuid\<close>, a list of sixteen bytes here, its variant and version, the
  text of one and the two readers of such a text, and the generators. The server makes its ids of tasks, posts
  and sessions by \<open>uuid_system_generator\<close> and \<open>to_string\<close>; what \<open>uuid_generate\<close> of the system's library fills
  its array with is an argument, as are the numbers of the random generator, the clock and the memory a hasher
  is made in.

  \<open>uuid_text\<close>: the text of a UUID is read back as it, so different UUIDs have different texts, and the check
  \<open>is_valid_uuid\<close> takes just what the reader reads.
\<close>

section \<open>The class\<close>

type_synonym uuid = "u8 list"   \<comment> \<open>sixteen bytes\<close>

datatype uuid_variant = V_ncs | V_rfc | V_microsoft | V_reserved

datatype uuid_version =
  V_none | V_time_based | V_dce_security | V_name_based_md5 | V_random_number_based | V_name_based_sha1

definition nil_uuid :: uuid where
  "nil_uuid = replicate 16 0"

text \<open>The constructor of a range copies just sixteen bytes, and leaves nil otherwise.\<close>

definition uuid_of_range :: "u8 list \<Rightarrow> uuid" where
  "uuid_of_range bytes = (if length bytes = 16 then bytes else nil_uuid)"

definition variant :: "uuid \<Rightarrow> uuid_variant" where
  "variant u =
     (if u ! 8 AND 0x80 = 0x00 then V_ncs
      else if u ! 8 AND 0xC0 = 0x80 then V_rfc
      else if u ! 8 AND 0xE0 = 0xC0 then V_microsoft
      else V_reserved)"

definition version :: "uuid \<Rightarrow> uuid_version" where
  "version u =
     (if u ! 6 AND 0xF0 = 0x10 then V_time_based
      else if u ! 6 AND 0xF0 = 0x20 then V_dce_security
      else if u ! 6 AND 0xF0 = 0x30 then V_name_based_md5
      else if u ! 6 AND 0xF0 = 0x40 then V_random_number_based
      else if u ! 6 AND 0xF0 = 0x50 then V_name_based_sha1
      else V_none)"

fun is_nil :: "uuid \<Rightarrow> bool" where
  "is_nil [] = True"
| "is_nil (b # u) = (if b \<noteq> 0 then False else is_nil u)"

section \<open>Reading a text\<close>

definition is_hex :: "char \<Rightarrow> bool" where
  "is_hex c \<longleftrightarrow>
     (let n = of_char c :: nat in (48 \<le> n \<and> n \<le> 57) \<or> (97 \<le> n \<and> n \<le> 102) \<or> (65 \<le> n \<and> n \<le> 70))"

definition hex2char :: "char \<Rightarrow> u8" where
  "hex2char c =
     (let n = of_char c :: nat in
      if 48 \<le> n \<and> n \<le> 57 then of_char c - 48
      else if 97 \<le> n \<and> n \<le> 102 then 10 + of_char c - 97
      else if 65 \<le> n \<and> n \<le> 70 then 10 + of_char c - 65
      else 0)"

definition hexpair2char :: "char \<Rightarrow> char \<Rightarrow> u8" where
  "hexpair2char a b = push_bit 4 (hex2char a) OR hex2char b"

text \<open>The loop of \<open>is_valid_uuid\<close>; \<open>None\<close> is its early return.\<close>

fun valid_scan :: "string \<Rightarrow> bool \<Rightarrow> nat \<Rightarrow> nat option" where
  "valid_scan [] first_digit index = Some index"
| "valid_scan (c # s) first_digit index =
     (if c = CHR ''-'' then valid_scan s first_digit index
      else if index \<ge> 16 \<or> \<not> is_hex c then None
      else if first_digit then valid_scan s False index
      else valid_scan s True (index + 1))"

text \<open>The characters the loops go over, or \<open>None\<close> for what is refused before.\<close>

definition uuid_chars :: "string \<Rightarrow> string option" where
  "uuid_chars str =
     (if str = [] then None
      else if hd str = CHR ''{''
      then (if last str \<noteq> CHR ''}'' then None else Some (take (length str - 2) (drop 1 str)))
      else Some str)"

definition is_valid_uuid :: "string \<Rightarrow> bool" where
  "is_valid_uuid str =
     (case uuid_chars (c_str str) of
        None \<Rightarrow> False
      | Some s \<Rightarrow> (case valid_scan s True 0 of None \<Rightarrow> False | Some index \<Rightarrow> \<not> index < 16))"

fun uuid_scan :: "string \<Rightarrow> bool \<Rightarrow> char \<Rightarrow> nat \<Rightarrow> u8 list \<Rightarrow> (nat \<times> u8 list) option" where
  "uuid_scan [] first_digit digit index data = Some (index, data)"
| "uuid_scan (c # s) first_digit digit index data =
     (if c = CHR ''-'' then uuid_scan s first_digit digit index data
      else if index \<ge> 16 \<or> \<not> is_hex c then None
      else if first_digit then uuid_scan s False c index data
      else uuid_scan s True digit (index + 1) (data[index := hexpair2char digit c]))"

definition uuid_from_string :: "string \<Rightarrow> uuid option" where
  "uuid_from_string str =
     (case uuid_chars (c_str str) of
        None \<Rightarrow> None
      | Some s \<Rightarrow>
          (case uuid_scan s True CHR 0x00 0 (replicate 16 0) of
             None \<Rightarrow> None
           | Some (index, data) \<Rightarrow> if index < 16 then None else Some (uuid_of_range data)))"

section \<open>Writing a text\<close>

text \<open>A number after \<open>std::hex\<close>, and \<open>std::setw\<close> with its fill character.\<close>

fun hex_text :: "nat \<Rightarrow> string" where
  "hex_text n =
     (if n < 16 then [''0123456789abcdef'' ! n] else hex_text (n div 16) @ [''0123456789abcdef'' ! (n mod 16)])"

declare hex_text.simps [simp del]

definition setw :: "nat \<Rightarrow> char \<Rightarrow> string \<Rightarrow> string" where
  "setw w fill s = replicate (w - length s) fill @ s"

definition put_hex_byte :: "u8 \<Rightarrow> string" where
  "put_hex_byte b = setw 2 CHR ''0'' (hex_text (unat b))"

definition put_uuid :: "uuid \<Rightarrow> string" where
  "put_uuid u =
     put_hex_byte (u ! 0) @ put_hex_byte (u ! 1) @ put_hex_byte (u ! 2) @ put_hex_byte (u ! 3) @ ''-'' @
     put_hex_byte (u ! 4) @ put_hex_byte (u ! 5) @ ''-'' @
     put_hex_byte (u ! 6) @ put_hex_byte (u ! 7) @ ''-'' @
     put_hex_byte (u ! 8) @ put_hex_byte (u ! 9) @ ''-'' @
     put_hex_byte (u ! 10) @ put_hex_byte (u ! 11) @ put_hex_byte (u ! 12) @ put_hex_byte (u ! 13) @
     put_hex_byte (u ! 14) @ put_hex_byte (u ! 15)"

definition uuid_to_string :: "uuid \<Rightarrow> string" where
  "uuid_to_string u = put_uuid u"

section \<open>Generators\<close>

definition uuid_namespace_dns :: uuid where
  "uuid_namespace_dns =
     [0x6b, 0xa7, 0xb8, 0x10, 0x9d, 0xad, 0x11, 0xd1, 0x80, 0xb4, 0x00, 0xc0, 0x4f, 0xd4, 0x30, 0xc8]"

definition uuid_namespace_url :: uuid where
  "uuid_namespace_url =
     [0x6b, 0xa7, 0xb8, 0x11, 0x9d, 0xad, 0x11, 0xd1, 0x80, 0xb4, 0x00, 0xc0, 0x4f, 0xd4, 0x30, 0xc8]"

definition uuid_namespace_oid :: uuid where
  "uuid_namespace_oid =
     [0x6b, 0xa7, 0xb8, 0x12, 0x9d, 0xad, 0x11, 0xd1, 0x80, 0xb4, 0x00, 0xc0, 0x4f, 0xd4, 0x30, 0xc8]"

definition uuid_namespace_x500 :: uuid where
  "uuid_namespace_x500 =
     [0x6b, 0xa7, 0xb8, 0x14, 0x9d, 0xad, 0x11, 0xd1, 0x80, 0xb4, 0x00, 0xc0, 0x4f, 0xd4, 0x30, 0xc8]"

text \<open>On Linux: the bytes \<open>uuid_generate\<close> gave, one by one.\<close>

definition uuid_system_generator :: "u8 list \<Rightarrow> uuid" where
  "uuid_system_generator i =
     uuid_of_range [i ! 0, i ! 1, i ! 2, i ! 3, i ! 4, i ! 5, i ! 6, i ! 7, i ! 8, i ! 9, i ! 10,
                    i ! 11, i ! 12, i ! 13, i ! 14, i ! 15]"

text \<open>
  A version and a variant are put into a UUID the same way by three generators, with masks of their own.
\<close>

definition uuid_stamp :: "u8 \<Rightarrow> u8 \<Rightarrow> uuid \<Rightarrow> uuid" where
  "uuid_stamp keep ver bytes =
     (let u = bytes[8 := (bytes ! 8 AND 0xBF) OR 0x80] in u[6 := (u ! 6 AND keep) OR ver])"

text \<open>Four numbers of 32 bits, stored in the order of the machine (the low byte first).\<close>

definition random_uuid :: "u32 \<Rightarrow> u32 \<Rightarrow> u32 \<Rightarrow> u32 \<Rightarrow> uuid" where
  "random_uuid a b c d =
     uuid_of_range (uuid_stamp 0x4F 0x40 (rev (word_bytes a) @ rev (word_bytes b) @ rev (word_bytes c) @ rev (word_bytes d)))"

text \<open>The generator of names: \<open>reset\<close>, \<open>process_characters\<close> of a text of bytes, \<open>make_uuid\<close>.\<close>

definition name_reset :: "uuid \<Rightarrow> sha1 \<Rightarrow> sha1 res" where
  "name_reset ns hasher = process_bytes (sha_reset hasher) (take 16 ns)"

definition process_characters :: "sha1 \<Rightarrow> string \<Rightarrow> sha1 res" where
  "process_characters hasher characters = process_bytes hasher (map of_char characters)"

definition make_uuid :: "sha1 \<Rightarrow> (uuid \<times> sha1) res" where
  "make_uuid hasher =
     bind (get_digest_bytes hasher) (\<lambda>(digest, h).
       Inr (uuid_of_range (take 16 (uuid_stamp 0x5F 0x50 digest)), h))"

definition name_uuid :: "uuid \<Rightarrow> string \<Rightarrow> sha1 \<Rightarrow> (uuid \<times> sha1) res" where
  "name_uuid ns name hasher =
     bind (name_reset ns hasher) (\<lambda>h. bind (process_characters h name) make_uuid)"

text \<open>The one that is given a pointer stops at the first NUL.\<close>

definition name_uuid_ptr :: "uuid \<Rightarrow> string \<Rightarrow> sha1 \<Rightarrow> (uuid \<times> sha1) res" where
  "name_uuid_ptr ns name = name_uuid ns (c_str name)"

text \<open>
  The generator of times: on Linux nothing sets the address of a device. The clock counts intervals of 100
  nanoseconds since 1582 in eight bytes, low byte first; the sequence is a counter that is read and increased.
\<close>

definition get_mac_address :: "u8 list option \<Rightarrow> bool \<times> u8 list option" where
  "get_mac_address device_address =
     (if device_address \<noteq> None then (True, device_address) else (device_address \<noteq> None, device_address))"

definition le_bytes :: "nat \<Rightarrow> 'a::len word \<Rightarrow> u8 list" where
  "le_bytes n w = map (\<lambda>i. ucast (drop_bit (8 * i) w)) [0..<n]"

definition time_uuid :: "u8 list option \<Rightarrow> 64 word \<Rightarrow> 16 word \<Rightarrow> uuid \<times> 16 word" where
  "time_uuid device_address tm clock_sequence =
     (case get_mac_address device_address of
        (True, Some address) \<Rightarrow>
          let clock_seq = clock_sequence AND 0x3FFF;
              ptm = le_bytes 8 tm;
              ptm = ptm[0 := ptm ! 0 AND 0x0F];
              data = take 4 (drop 4 ptm) @ take 2 (drop 2 ptm) @ take 2 ptm @ le_bytes 2 clock_seq @ take 6 address
          in (uuid_of_range (uuid_stamp 0x5F 0x10 data), clock_sequence + 1)
      | _ \<Rightarrow> (nil_uuid, clock_sequence))"

section \<open>Texts and their reading\<close>

lemma valid_scan_uuid_scan:
  "valid_scan s first_digit index = map_option fst (uuid_scan s first_digit digit index data)"
  by (induction s first_digit digit index data rule: uuid_scan.induct) simp_all

lemma is_hex_digit:
  assumes "n < 16"
  shows "is_hex (''0123456789abcdef'' ! n)" "hex2char (''0123456789abcdef'' ! n) = word_of_nat n"
    "''0123456789abcdef'' ! n \<notin> {CHR ''-'', CHR ''{'', CHR ''}'', CHR 0x00}"
proof -
  have "list_all (\<lambda>n. is_hex (''0123456789abcdef'' ! n) \<and> hex2char (''0123456789abcdef'' ! n) = word_of_nat n \<and>
      \<not> List.member [CHR ''-'', CHR ''{'', CHR ''}'', CHR 0x00] (''0123456789abcdef'' ! n)) [0..<16]"
    by code_simp
  with assms show "is_hex (''0123456789abcdef'' ! n)" "hex2char (''0123456789abcdef'' ! n) = word_of_nat n"
      "''0123456789abcdef'' ! n \<notin> {CHR ''-'', CHR ''{'', CHR ''}'', CHR 0x00}"
    by (simp_all add: list_all_iff del: upt_rec_numeral)
qed

text \<open>Two digits of a byte, and the byte of two digits.\<close>

lemma put_hex_byte_digits:
  "put_hex_byte b = [''0123456789abcdef'' ! (unat b div 16), ''0123456789abcdef'' ! (unat b mod 16)]"
proof -
  have "unat b < 256" using unsigned_less [of b] by simp
  then have "unat b div 16 < 16" by (simp add: div_less_iff_less_mult)
  then show ?thesis
    by (cases "unat b < 16") (simp_all add: put_hex_byte_def setw_def hex_text.simps)
qed

lemma byte_of_digits: "push_bit 4 (word_of_nat (unat b div 16)) OR word_of_nat (unat b mod 16) = (b :: u8)"
proof -
  have "word_of_nat (unat b div 16) = drop_bit 4 b"
    by (simp add: word_unat_eq_iff unat_drop_bit_eq drop_bit_nat_def unat_of_nat) (use unsigned_less [of b] order.strict_trans1 [OF div_le_dividend] in fastforce)
  moreover have "word_of_nat (unat b mod 16) = take_bit 4 b"
    by (simp add: word_unat_eq_iff take_bit_nat_def unat_of_nat unsigned_take_bit_eq)
  moreover have "push_bit 4 (drop_bit 4 b) OR take_bit 4 b = b"
    by (rule bit_word_eqI) (auto simp: bit_simps)
  ultimately show ?thesis by simp
qed

lemma uuid_scan_digit: "uuid_scan s True d index data = uuid_scan s True d' index data"
  by (induction s) simp_all

lemma uuid_scan_byte:
  assumes "index < 16"
  shows "uuid_scan (put_hex_byte b @ s) True d index data = uuid_scan s True d (Suc index) (data[index := b])"
proof -
  have "unat b < 256" using unsigned_less [of b] by simp
  then have n: "unat b div 16 < 16" "unat b mod 16 < 16" by (simp_all add: div_less_iff_less_mult)
  show ?thesis
    using assms is_hex_digit [OF n(1)] is_hex_digit [OF n(2)]
    by (simp add: put_hex_byte_digits hexpair2char_def byte_of_digits)
      (rule uuid_scan_digit)
qed

lemma uuid_scan_bytes:
  assumes "length acc + length bs + k = 16"
  shows "uuid_scan (concat (map put_hex_byte bs) @ s) True d (length acc) (acc @ replicate (length bs + k) 0) =
    uuid_scan s True d (length (acc @ bs)) ((acc @ bs) @ replicate k 0)"
  using assms
proof (induction bs arbitrary: acc)
  case (Cons b bs)
  have "(acc @ replicate (length (b # bs) + k) 0)[length acc := b] = (acc @ [b]) @ replicate (length bs + k) 0"
    by (simp add: list_update_append)
  moreover have "length acc < 16" using Cons.prems by simp
  ultimately show ?case
    using Cons.IH [of "acc @ [b]"] Cons.prems
    by (simp only: list.map concat.simps append_assoc uuid_scan_byte) simp
qed auto

lemma put_uuid_groups:
  "length a = 4 \<Longrightarrow> length b = 2 \<Longrightarrow> length c = 2 \<Longrightarrow> length d = 2 \<Longrightarrow> length e = 6 \<Longrightarrow>
   put_uuid (a @ b @ c @ d @ e) = concat (map put_hex_byte a) @ ''-'' @ concat (map put_hex_byte b) @ ''-'' @
     concat (map put_hex_byte c) @ ''-'' @ concat (map put_hex_byte d) @ ''-'' @ concat (map put_hex_byte e)"
  by (auto simp: put_uuid_def length_Suc_conv eval_nat_numeral)

lemma uuid_groups:
  assumes "length u = 16"
  obtains a b c d e where "u = a @ b @ c @ d @ e" and "length a = 4" and "length b = 2" and "length c = 2"
    and "length d = 2" and "length e = 6"
proof
  show "u = take 4 u @ take 2 (drop 4 u) @ take 2 (drop 6 u) @ take 2 (drop 8 u) @ drop 10 u"
    using append_take_drop_id [of 4 u] append_take_drop_id [of 2 "drop 4 u"] append_take_drop_id [of 2 "drop 6 u"]
      append_take_drop_id [of 2 "drop 8 u"] by simp
qed (use assms in simp_all)

lemma uuid_scan_put:
  assumes "length u = 16"
  shows "uuid_scan (put_uuid u) True dig 0 (replicate 16 0) = Some (16, u)"
proof -
  obtain a b c d e where u: "u = a @ b @ c @ d @ e" "length a = 4" "length b = 2" "length c = 2" "length d = 2" "length e = 6"
    using uuid_groups [OF assms] .
  have "uuid_scan (concat (map put_hex_byte e)) True dig 10 ((a @ b @ c @ d) @ replicate 6 0) = Some (16, a @ b @ c @ d @ e)"
    using uuid_scan_bytes [of "a @ b @ c @ d" e 0 "[]"] u by simp
  then have "uuid_scan (concat (map put_hex_byte d) @ ''-'' @ concat (map put_hex_byte e)) True dig 8
      ((a @ b @ c) @ replicate 8 0) = Some (16, a @ b @ c @ d @ e)"
    using uuid_scan_bytes [of "a @ b @ c" d 6] u by simp
  then have "uuid_scan (concat (map put_hex_byte c) @ ''-'' @ concat (map put_hex_byte d) @ ''-'' @ concat (map put_hex_byte e))
      True dig 6 ((a @ b) @ replicate 10 0) = Some (16, a @ b @ c @ d @ e)"
    using uuid_scan_bytes [of "a @ b" c 8] u by simp
  then have "uuid_scan (concat (map put_hex_byte b) @ ''-'' @ concat (map put_hex_byte c) @ ''-'' @ concat (map put_hex_byte d) @
      ''-'' @ concat (map put_hex_byte e)) True dig 4 (a @ replicate 12 0) = Some (16, a @ b @ c @ d @ e)"
    using uuid_scan_bytes [of a b 10] u by simp
  then show ?thesis
    using uuid_scan_bytes [of "[]" a 12] u by (simp add: put_uuid_groups)
qed

lemma uuid_scan_length:
  "uuid_scan s first_digit digit index data = Some (i, d) \<Longrightarrow> length d = length data"
  by (induction s first_digit digit index data rule: uuid_scan.induct) (auto split: if_splits)

lemma put_uuid_plain:
  assumes "length u = 16"
  shows "c_str (put_uuid u) = put_uuid u" and "put_uuid u \<noteq> []" and "hd (put_uuid u) \<noteq> CHR ''{''"
proof -
  have hex: "c \<notin> {CHR ''{'', CHR ''}'', CHR 0x00}" if "c \<in> set (put_hex_byte b)" for c b
  proof -
    have "unat b < 256" using unsigned_less [of b] by simp
    then have "unat b div 16 < 16" "unat b mod 16 < 16" by (simp_all add: div_less_iff_less_mult)
    from is_hex_digit(3) [OF this(1)] is_hex_digit(3) [OF this(2)] that show ?thesis
      by (auto simp: put_hex_byte_digits)
  qed
  have all: "c \<notin> {CHR ''{'', CHR ''}'', CHR 0x00}" if "c \<in> set (put_uuid u)" for c
    using that hex unfolding put_uuid_def by auto
  then show "c_str (put_uuid u) = put_uuid u"
    unfolding c_str_def by (intro takeWhile_eq_all_conv [THEN iffD2]) auto
  show ne: "put_uuid u \<noteq> []" by (simp add: put_uuid_def)
  show "hd (put_uuid u) \<noteq> CHR ''{''" using all [OF hd_in_set [OF ne]] by auto
qed

lemma uuid_from_string_put:
  assumes "length u = 16"
  shows "uuid_from_string (put_uuid u) = Some u" and "uuid_from_string (CHR ''{'' # put_uuid u @ ''}'') = Some u"
proof -
  have "c_str (CHR ''{'' # put_uuid u @ ''}'') = CHR ''{'' # put_uuid u @ ''}''"
    using put_uuid_plain(1) [OF assms] unfolding c_str_def by (auto simp: takeWhile_eq_all_conv)
  then have "uuid_chars (c_str (CHR ''{'' # put_uuid u @ ''}'')) = Some (put_uuid u)"
    by (simp add: uuid_chars_def)
  moreover have "uuid_chars (c_str (put_uuid u)) = Some (put_uuid u)"
    using put_uuid_plain [OF assms] by (simp add: uuid_chars_def)
  ultimately show "uuid_from_string (put_uuid u) = Some u" "uuid_from_string (CHR ''{'' # put_uuid u @ ''}'') = Some u"
    using uuid_scan_put [OF assms] assms by (simp_all add: uuid_from_string_def uuid_of_range_def)
qed

definition read_uuid :: "string \<Rightarrow> uuid res" where
  "read_uuid s = (case uuid_from_string s of None \<Rightarrow> Inl InvalidArgument | Some u \<Rightarrow> Inr u)"

interpretation uuid_codec: wire_codec uuid_to_string read_uuid "\<lambda>u. length u = 16"
  by unfold_locales (simp add: read_uuid_def uuid_to_string_def uuid_from_string_put)

lemma system_generator: "length i = 16 \<Longrightarrow> uuid_system_generator i = i"
  by (auto simp: uuid_system_generator_def uuid_of_range_def length_Suc_conv eval_nat_numeral)

section \<open>Versions\<close>

lemma stamped_bits:
  "((b AND 0xBF) OR 0x80) AND 0x80 = (0x80 :: u8)" "((b AND 0xBF) OR 0x80) AND 0xC0 = (0x80 :: u8)"
  "((b AND 0x4F) OR 0x40) AND 0xF0 = (0x40 :: u8)" "((b AND 0x5F) OR 0x50) AND 0xF0 = (0x50 :: u8)"
proof -
  have absorb: "(b AND m) OR m = m" for m :: u8
    by (rule bit_word_eqI) (auto simp: bit_simps)
  then show "((b AND 0xBF) OR 0x80) AND 0x80 = (0x80 :: u8)" "((b AND 0xBF) OR 0x80) AND 0xC0 = (0x80 :: u8)"
    "((b AND 0x4F) OR 0x40) AND 0xF0 = (0x40 :: u8)" "((b AND 0x5F) OR 0x50) AND 0xF0 = (0x50 :: u8)"
    by (simp_all add: bit.conj_disj_distrib2 and.assoc)
qed

lemma stamped_variant:
  assumes "length u = 16"
  shows "variant (uuid_stamp keep ver u) = V_rfc"
  using assms by (simp add: uuid_stamp_def Let_def variant_def stamped_bits)

lemma random_version:
  "length (random_uuid a b c d) = 16" "variant (random_uuid a b c d) = V_rfc"
  "version (random_uuid a b c d) = V_random_number_based"
proof -
  let ?u = "rev (word_bytes a) @ rev (word_bytes b) @ rev (word_bytes c) @ rev (word_bytes d)"
  have l: "length ?u = 16" by (simp add: word_bytes_def)
  then have r: "random_uuid a b c d = uuid_stamp 0x4F 0x40 ?u"
    unfolding random_uuid_def by (simp only: uuid_of_range_def) (simp add: uuid_stamp_def Let_def)
  show "length (random_uuid a b c d) = 16" using l unfolding r by (simp add: uuid_stamp_def Let_def)
  show "variant (random_uuid a b c d) = V_rfc" unfolding r by (rule stamped_variant [OF l])
  show "version (random_uuid a b c d) = V_random_number_based"
    unfolding r using l by (simp only: uuid_stamp_def Let_def version_def) (simp add: stamped_bits)
qed

text \<open>The bytes the standard's hash of a message is written as.\<close>

definition fips_bytes :: "u8 list \<Rightarrow> u8 list" where
  "fips_bytes m = (case fips_sha1 m of (a, b, c, d, e) \<Rightarrow>
     word_bytes a @ word_bytes b @ word_bytes c @ word_bytes d @ word_bytes e)"

lemma length_fips_bytes [simp]: "length (fips_bytes m) = 20"
  by (simp add: fips_bytes_def word_bytes_def split: prod.splits)

lemma name_uuid_fips:
  assumes "length (sha_block h) = 64" and "length ns = 16" and "length name + 16 < 2 ^ 29"
  obtains h' where "name_uuid ns name h = Inr (uuid_stamp 0x5F 0x50 (take 16 (fips_bytes (ns @ map of_char name))), h')"
    and "length (sha_block h') = 64"
proof -
  let ?m = "ns @ map of_char name"
  obtain h1 where h1: "process_bytes (sha_reset h) ?m = Inr h1" "sha_holds ?m h1"
    using process_bytes_holds [OF sha_holds_reset [OF assms(1)], of ?m] by auto
  obtain h2 where h2: "get_digest h1 = Inr (fips_sha1 ?m, h2)" "length (sha_block h2) = 64"
    using get_digest_holds [OF h1(2)] assms(2, 3) by auto
  have "get_digest_bytes h1 = Inr (fips_bytes ?m, h2)"
    using h2(1) by (simp add: get_digest_bytes_def fips_bytes_def split: prod.splits)
  moreover have "name_uuid ns name h = bind (process_bytes (sha_reset h) ?m) make_uuid"
    using assms(2) by (simp add: name_uuid_def name_reset_def process_characters_def process_bytes_append bind_assoc)
  moreover have "uuid_of_range (take 16 (uuid_stamp 0x5F 0x50 (fips_bytes ?m))) = uuid_stamp 0x5F 0x50 (take 16 (fips_bytes ?m))"
    by (simp add: uuid_of_range_def uuid_stamp_def Let_def take_update_swap)
  ultimately show thesis
    using h1(1) h2(2) that by (simp add: make_uuid_def)
qed

lemma time_version:
  assumes "length address = 6"
  shows "version (fst (time_uuid (Some address) tm clock)) = V_time_based"
    and "variant (fst (time_uuid (Some address) tm clock)) = V_rfc"
proof -
  let ?ptm = "(le_bytes 8 tm)[0 := le_bytes 8 tm ! 0 AND 0x0F]"
  let ?u = "take 4 (drop 4 ?ptm) @ take 2 (drop 2 ?ptm) @ take 2 ?ptm @ le_bytes 2 (clock AND 0x3FFF) @ take 6 address"
  have l: "length ?u = 16" and six: "?u ! 6 = ucast tm AND 0x0F"
    using assms by (simp_all add: le_bytes_def nth_append)
  have t: "fst (time_uuid (Some address) tm clock) = uuid_stamp 0x5F 0x10 ?u"
    using l by (simp add: time_uuid_def get_mac_address_def Let_def uuid_of_range_def uuid_stamp_def)
  show "variant (fst (time_uuid (Some address) tm clock)) = V_rfc"
    unfolding t by (rule stamped_variant [OF l])
  have "(((b AND 0x0F) AND 0x5F) OR 0x10) AND 0xF0 = (0x10 :: u8)" for b
    by (simp add: bit.conj_disj_distrib2 and.assoc)
  then show "version (fst (time_uuid (Some address) tm clock)) = V_time_based"
    unfolding t using l six by (simp only: uuid_stamp_def Let_def version_def) simp
qed

section \<open>Properties\<close>

text \<open>
  C19: the text of a UUID, with or without braces, is read back as that UUID and passes the check of texts, so
  UUIDs that differ have texts that differ; and the check passes just the texts the reader reads, whatever
  they are.
\<close>

theorem uuid_text_is_read_back:
  assumes "length u = 16"
  shows "uuid_from_string (uuid_to_string u) = Some u \<and>
    uuid_from_string (CHR ''{'' # uuid_to_string u @ ''}'') = Some u \<and>
    is_valid_uuid (uuid_to_string u) \<and> (is_valid_uuid s \<longleftrightarrow> uuid_from_string s \<noteq> None)"
proof -
  have valid: "is_valid_uuid t \<longleftrightarrow> uuid_from_string t \<noteq> None" for t
    by (auto simp: is_valid_uuid_def uuid_from_string_def
        valid_scan_uuid_scan [where digit = "CHR 0x00" and data = "replicate 16 0"] split: option.splits)
  then show ?thesis
    using uuid_from_string_put [OF assms] by (simp add: uuid_to_string_def)
qed

theorem uuid_text_is_read_back_witness:
  "uuid_from_string (uuid_to_string uuid_namespace_dns) = Some uuid_namespace_dns \<and>
   is_valid_uuid (uuid_to_string uuid_namespace_dns)"
  using uuid_text_is_read_back [of uuid_namespace_dns "[]"] by (simp add: uuid_namespace_dns_def)

text \<open>
  C17: a hasher with its block of 64 bytes that is reset, whatever it was used for before, and given a message in pieces of any length
  makes the standard's hash of the whole message, if it is shorter than \<open>2\<^sup>2\<^sup>9\<close> bytes; it puts nothing behind its
  block and its loops end. A UUID of a name is the first sixteen bytes of the hash of the name's space and the
  name, with the version for it and the variant of the RFC, from a new hasher as from a used one.
\<close>

theorem hasher_is_fips:
  assumes "length (sha_block h) = 64" and "length (concat pieces) < 2 ^ 29"
    and "length ns = 16" and "length name + 16 < 2 ^ 29"
  shows "\<exists>h1 u h2. bind (foldl (\<lambda>r p. bind r (\<lambda>h. process_bytes h p)) (Inr (sha_reset h)) pieces) get_digest
      = Inr (fips_sha1 (concat pieces), h1) \<and>
    name_uuid ns name h1 = Inr (u, h2) \<and> version u = V_name_based_sha1 \<and> variant u = V_rfc \<and>
    u = uuid_stamp 0x5F 0x50 (take 16 (fips_bytes (ns @ map of_char name)))"
proof -
  have pieces: "foldl (\<lambda>r p. bind r (\<lambda>h. process_bytes h p)) (Inr s) ps = process_bytes s (concat ps)" for s ps
    by (induction ps rule: rev_induct) (simp_all add: process_bytes_append)
  obtain s1 where s1: "process_bytes (sha_reset h) (concat pieces) = Inr s1" "sha_holds (concat pieces) s1"
    using process_bytes_holds [OF sha_holds_reset [OF assms(1)], of "concat pieces"] by auto
  obtain h1 where h1: "get_digest s1 = Inr (fips_sha1 (concat pieces), h1)" "length (sha_block h1) = 64"
    using get_digest_holds [OF s1(2) assms(2)] .
  let ?b = "take 16 (fips_bytes (ns @ map of_char name))"
  obtain h2 where h2: "name_uuid ns name h1 = Inr (uuid_stamp 0x5F 0x50 ?b, h2)"
    using name_uuid_fips [OF h1(2) assms(3, 4)] .
  have "length ?b = 16" by simp
  then have "version (uuid_stamp 0x5F 0x50 ?b) = V_name_based_sha1" "variant (uuid_stamp 0x5F 0x50 ?b) = V_rfc"
    by (simp_all only: stamped_variant) (simp_all only: uuid_stamp_def Let_def version_def, simp add: stamped_bits)
  with h1(1) h2 s1(1) show ?thesis unfolding pieces by simp
qed

theorem hasher_is_fips_witness:
  "\<exists>h1 u h2. bind (foldl (\<lambda>r p. bind r (\<lambda>h. process_bytes h p)) (Inr (sha_reset (new_sha1 (replicate 64 0xCD)))) [[0x61], [0x62, 0x63]])
      get_digest = Inr (fips_sha1 [0x61, 0x62, 0x63], h1) \<and>
    name_uuid uuid_namespace_dns ''example.org'' h1 = Inr (u, h2) \<and> version u = V_name_based_sha1"
  using hasher_is_fips [of "new_sha1 (replicate 64 0xCD)" "[[0x61], [0x62, 0x63]]" uuid_namespace_dns "''example.org''"]
  by (auto simp: new_sha1_def sha_reset_def uuid_namespace_dns_def)

end
