(* ===== verification/Frames.thy ===== *)
theory Frames
  imports IpcManager
begin

text \<open>
  What each operation below the controller leaves alone, in two layers.

  \<^item> \<open>world_frame\<close>: the operations of \<open>Kdb\<close>, \<open>Triggers\<close>, \<open>SchedTasks\<close>, \<open>Research\<close>, \<open>TaskHandlers\<close> change the
    world only (\<open>only_world\<close>).
  \<^item> \<open>low_frame\<close>: those of \<open>Platform\<close>, \<open>SchedIpc\<close> and \<open>PostWork\<close> leave what the controller and the server add to
    the state (\<open>research.more\<close>) and keep the map of requests well formed: \<open>low_step\<close>.

  A lemma states it of a layer of operations at once, from the lemmas of those they call: their
  definitions are taken apart by the rules of \<open>keeps\<close>. \<open>System\<close> goes on from here.
\<close>

section \<open>Operations on the world\<close>

lemma keeps_list: "keeps R m \<Longrightarrow> (\<And>a b. keeps R (f a b)) \<Longrightarrow> keeps R (case v of [] \<Rightarrow> m | a # b \<Rightarrow> f a b)"
  by (cases v) auto

lemma keeps_sum: "(\<And>a. keeps R (f a)) \<Longrightarrow> (\<And>b. keeps R (g b)) \<Longrightarrow> keeps R (case v of Inl a \<Rightarrow> f a | Inr b \<Rightarrow> g b)"
  by (cases v) auto

lemmas case_frame = keeps_list keeps_sum keeps_option keeps_prod

lemmas more_world [world_frame] = keeps_read_file_ops keeps_db_world [OF keeps_db_row] keeps_db_world [OF keeps_read_task]

lemma w_getAppMask [world_frame]: "keeps only_world (getAppMask x n)"
  unfolding getAppMask_def by (intro world_rules world_frame case_frame; simp)

lemma w_Trigger_process [world_frame]:
  "keeps only_world (Trigger_process a0 a1)"
  unfolding Trigger_process_def Let_def case_prod_unfold
  by (intro world_rules world_frame case_frame keeps_catch_all keeps_handle; simp)

lemma w_insert_last [world_frame]: "(\<And>x. keeps only_world (f x)) \<Longrightarrow> keeps only_world (insert_last f xs b)"
  by (induction xs arbitrary: b) (auto intro!: world_rules)

lemma world_frame_1 [world_frame]:
  "keeps only_world (Trigger_add a0 a1)" "keeps only_world (Registrar_find a2 a3)"
  "keeps only_world (Registrar_remove a4 a5)" "keeps only_world (insert_files a6 a7 a8)"
  "keeps only_world (insert_recurring a9 a10 a11)" "keeps only_world (getFiles_of a12 a13 a14)"
  unfolding Trigger_add_def Registrar_find_def Registrar_remove_def insert_files_def insert_recurring_def getFiles_of_def
    Let_def case_prod_unfold
  by (intro world_rules world_frame case_frame keeps_catch_all keeps_handle; simp)+

lemma w_Registrar_add [world_frame]:
  "keeps only_world (Registrar_add a0 a1)"
  unfolding Registrar_add_def Let_def case_prod_unfold
  by (intro world_rules world_frame case_frame keeps_catch_all keeps_handle; simp)

lemma w_parseTask_rows [world_frame]: "keeps only_world (parseTask_rows a0 a1 a2 a3 a4)"
  by (induction a4 arbitrary: a3) (auto intro!: world_rules world_frame)

lemma world_frame_2 [world_frame]:
  "keeps only_world (parseTask a0 a1 a2 a3)" "keeps only_world (parseTasks_row a4 a5 a6 a7)"
  "keeps only_world (getFlags a8 a9)" "keeps only_world (HasRecurring a10 a11)"
  "keeps only_world (updateEnvfile a12 a13 a14)" "keeps only_world (isKIQProcess a15 a16)"
  "keeps only_world (args_to_task a17 a18)" "keeps only_world (addTrigger a19 a20)"
  "keeps only_world (prepareRuntime a21 a22)" "keeps only_world (FetchApplicationMap a23)"
  "keeps only_world (GetUUID a24 a25)" "keeps only_world (PersonExists a26 a27)"
  unfolding parseTask_def parseTasks_row_def getFlags_def HasRecurring_def updateEnvfile_def isKIQProcess_def args_to_task_def
    addTrigger_def prepareRuntime_def FetchApplicationMap_def GetUUID_def PersonExists_def Let_def case_prod_unfold
  by (intro world_rules world_frame case_frame keeps_catch_all keeps_handle; simp)+

lemma world_frame_3 [world_frame]:
  "keeps only_world (rm_UserExists a0 a1 a2)" "keeps only_world (OrganizationExists a3 a4)"
  "keeps only_world (TermExists a5 a6)" "keeps only_world (AddPerson a7 a8)"
  "keeps only_world (AddTermHit a9 a10 a11 a12 a13 a14)" "keeps only_world (GetTerm a15 a16)"
  "keeps only_world (GetPerson a17 a18)" "keeps only_world (GetPersonForUID a19 a20)"
  "keeps only_world (GetIdentity a21 a22 a23)" "keeps only_world (rm_GetUser a24 a25 a26)"
  "keeps only_world (AddTerm a27 a28 a29)" "keeps only_world (hit_rows a30 a31)"
  unfolding rm_UserExists_def OrganizationExists_def TermExists_def AddPerson_def AddTermHit_def GetTerm_def GetPerson_def
    GetPersonForUID_def GetIdentity_def rm_GetUser_def AddTerm_def hit_rows_def Let_def case_prod_unfold
  by (intro world_rules world_frame case_frame keeps_catch_all keeps_handle; simp)+

lemma world_frame_4 [world_frame]:
  "keeps only_world (TermHasHits a0 a1)" "keeps only_world (GetAllTermEvents a2)"
  unfolding TermHasHits_def GetAllTermEvents_def Let_def case_prod_unfold
  by (intro world_rules world_frame case_frame keeps_catch_all keeps_handle; simp)+

lemma world_frame_5 [world_frame]:
  "keeps only_world (parseTasks a0 a1 a2 a3)" "keeps only_world (GetTask a4 a5 a6)" "keeps only_world (update_task a7 a8)"
  "keeps only_world (SaveTermHit a9 a10 a11 a12)" "keeps only_world (TermHitExists a13 a14 a15)"
  unfolding parseTasks_def GetTask_def update_task_def SaveTermHit_def TermHitExists_def Let_def case_prod_unfold
  by (intro world_rules world_frame case_frame keeps_catch_all keeps_handle; simp)+

lemma world_frame_6 [world_frame]:
  "keeps only_world (fetchTasks_range a0 a1 a2 a3 a4 a5 a6)" "keeps only_world (fetchRecurringTasks a7 a8)"
  "keeps only_world (fetchAllTasks a9 a10 a11)" "keeps only_world (record_hit a12 a13 a14 a15 a16 a17 a18)"
  unfolding fetchTasks_range_def fetchRecurringTasks_def fetchAllTasks_def record_hit_def Let_def case_prod_unfold
  by (intro world_rules world_frame case_frame keeps_catch_all keeps_handle; simp)+

lemma w_RecordTermEvent [world_frame]:
  "keeps only_world (RecordTermEvent a0 a1 a2 a3 a4 a5 a6)"
  unfolding RecordTermEvent_def Let_def case_prod_unfold
  by (intro world_rules world_frame case_frame keeps_catch_all keeps_handle; simp)

definition low_step :: "('db, 'm) research_scheme \<Rightarrow> ('db, 'm) research_scheme \<Rightarrow> bool" where
  "low_step s s' \<longleftrightarrow> research.more s' = research.more s \<and> (pf_good s \<longrightarrow> pf_good s')"

lemma low_step_order [simp]: "reflp low_step" "transp low_step"
  by (auto simp: reflp_def transp_def low_step_def)

named_theorems low_frame

lemma low_world: "keeps only_world m \<Longrightarrow> keeps low_step m"
proof (rule keeps_mono)
  fix s s' :: "('a, 'b) research_scheme" assume "only_world s s'"
  then show "low_step s s'" by (cases s; cases s') (simp add: only_world_def low_step_def pf_good_def)
qed

lemma low_modify: "(\<And>s. research.more (f s) = research.more s) \<Longrightarrow> (\<And>s. pf_map (f s) = pf_map s) \<Longrightarrow> keeps low_step (modify f)"
  by (rule keeps_modify) (simp add: low_step_def pf_good_def)

lemma low_get [low_frame]: "keeps low_step get_state" "keeps low_step get_requests"
  by (simp_all add: keeps_def get_state_def get_requests_def low_step_def)

lemma low_filter: "(\<And>f. keeps low_step (g f)) \<Longrightarrow> keeps low_step (with_filter args g)"
  unfolding with_filter_def by (intro keeps_seq keeps_pure) simp_all

lemma low_good: "keeps good_step m \<Longrightarrow> (\<And>s. research.more (snd (m s)) = research.more s) \<Longrightarrow> keeps low_step m"
  by (simp add: keeps_def low_step_def good_step_def)

lemma low_requests [low_frame]: "keeps low_step (insert_or_update p)" "keeps low_step (complete_post p)"
  by (rule low_good, rule keeps_good_insert keeps_good_complete, simp add: insert_or_update_def complete_post_def Let_def split: option.splits)+

lemma low_fail [low_frame]: "keeps low_step (modify (fail_request k))" "keeps low_step (modify count_failure)"
   "keeps low_step (modify (\<lambda>s. count_failure (fail_request k s)))"
  by (auto intro!: keeps_modify simp: low_step_def good_fail_request) (simp_all add: fail_request_def count_failure_def split: option.splits)

lemmas low_helpers = clear_lists_def SetIPCCommand_def complete_ipc_def dispatch_def drop_short_queue_def set_node_event_def Let_def

lemmas low_rules = low_filter keeps_if keeps_seq keeps_each keeps_collect keeps_pure keeps_catch_all keeps_handle case_frame
  world_frame [THEN low_world]

lemma low_frame_1 [low_frame]:
  "keeps low_step (fail_pending_posts a0)" "keeps low_step (OnPlatformError a1 a2)" "keeps low_step (print_pending a3)"
  "keeps low_step (process_post a4)" "keeps low_step (SavePlatformPost_payload a5 a6 a7)" "keeps low_step (sys_event a8 a9)"
  "keeps low_step (wait_node a10 a11 a12)" "keeps low_step (send_event a13)" "keeps low_step (SendIPCRequest a14 a15 a16)"
  "keeps low_step (OnIPCReceived a17 a18)" "keeps low_step (Scheduler_FetchPosts a19)" "keeps low_step (push_event a20)"
  unfolding fail_pending_posts_def OnPlatformError_def print_pending_def process_post_def SavePlatformPost_payload_def
    sys_event_def wait_node_def send_event_def SendIPCRequest_def OnIPCReceived_def Scheduler_FetchPosts_def push_event_def
    Let_def case_prod_unfold
  by (intro low_frame low_rules low_modify world_frame; simp add: low_helpers)+

lemma l_queue_header [low_frame]:
  "keeps low_step (queue_header a0 a1)"
  unfolding queue_header_def Let_def case_prod_unfold
  by (intro low_frame low_rules low_modify world_frame; simp add: low_helpers)

lemma low_frame_2 [low_frame]:
  "keeps low_step (check_timer a0)" "keeps low_step (CreateChild a1 a2 a3 a4 a5)" "keeps low_step (ResolvePending a6 a7)"
  "keeps low_step (process_ipc_row a8 a9 a10)" "keeps low_step (save_reported_post a11 a12 a13)"
  "keeps low_step (save_task_post a14 a15 a16)" "keeps low_step (Scheduler_OnPlatformError a17 a18)"
  unfolding check_timer_def CreateChild_def ResolvePending_def process_ipc_row_def save_reported_post_def save_task_post_def
    Scheduler_OnPlatformError_def Let_def case_prod_unfold
  by (intro low_frame low_rules low_modify world_frame; simp add: low_helpers)+

lemma l_ProcessPlatform [low_frame]:
  "keeps low_step (ProcessPlatform a0)"
  unfolding ProcessPlatform_def Let_def case_prod_unfold
  by (intro low_frame low_rules low_modify world_frame; simp add: low_helpers)

lemma l_ProcessIPC [low_frame]:
  "keeps low_step (ProcessIPC a0 a1)"
  unfolding ProcessIPC_def Let_def case_prod_unfold
  by (intro low_frame low_rules low_modify world_frame; simp add: low_helpers)

lemma l_SequenceTasks [low_frame]: "keeps low_step (SequenceTasks a0 a1 a2)"
  by (induction a0 a1 a2 rule: SequenceTasks.induct) (simp_all only: SequenceTasks.simps, (intro low_frame low_rules; simp)+)

lemma low_frame_3 [low_frame]:
  "keeps low_step (complete_node a0)" "keeps low_step (OnTermEvent a1 a2)" "keeps low_step (study_pair a3 a4 a5 a6 a7 a8)"
  "keeps low_step (send_poll a9 a10 a11 a12)" "keeps low_step (GetValidArgument a13 a14)"
  "keeps low_step (FinalizeMLInputs a15 a16 a17)" "keeps low_step (GenerateMLData a18)"
  "keeps low_step (FetchTermEvents a19)"
  unfolding complete_node_def OnTermEvent_def study_pair_def send_poll_def GetValidArgument_def FinalizeMLInputs_def
    GenerateMLData_def FetchTermEvents_def Let_def case_prod_unfold
  by (intro low_frame low_rules low_modify world_frame; simp add: low_helpers)+

lemma low_frame_4 [low_frame]:
  "keeps low_step (Finalize a0 a1)" "keeps low_step (on_hit a2 a3 a4 a5 a6)" "keeps low_step (propose_poll a7 a8 a9 a10 a11)"
  "keeps low_step (take_votes a12 a13 a14)" "keeps low_step (publish_data a15 a16 a17)"
  unfolding Finalize_def on_hit_def propose_poll_def take_votes_def publish_data_def Let_def case_prod_unfold
  by (intro low_frame low_rules low_modify world_frame; simp add: low_helpers)+

lemma low_frame_5 [low_frame]:
  "keeps low_step (on_token a0 a1 a2 a3 a4 a5 a6)" "keeps low_step (end_study a7 a8 a9 a10)"
  "keeps low_step (OnPlatformRequest a11 a12 a13 a14)"
  unfolding on_token_def end_study_def OnPlatformRequest_def Let_def case_prod_unfold
  by (intro low_frame low_rules low_modify world_frame; simp add: low_helpers)+

lemma l_study_terms [low_frame]:
  "keeps low_step (study_terms a0 a1 a2 a3 a4 a5 a6)"
  unfolding study_terms_def Let_def case_prod_unfold
  by (intro low_frame low_rules low_modify world_frame; simp add: low_helpers)

lemma l_PostExecWork [low_frame]:
  "keeps low_step (PostExecWork a0 a1 a2 a3 a4 a5)"
  unfolding PostExecWork_def Let_def case_prod_unfold
  by (intro low_frame low_rules low_modify world_frame; simp add: low_helpers)

lemma l_on_result_event [low_frame]:
  "keeps low_step (on_result_event a0 a1 a2 a3 a4)"
  unfolding on_result_event_def Let_def case_prod_unfold
  by (intro low_frame low_rules low_modify world_frame; simp add: low_helpers)

lemma l_OnProcessOutput [low_frame]:
  "keeps low_step (OnProcessOutput a0 a1 a2 a3 a4 a5)"
  unfolding OnProcessOutput_def Let_def case_prod_unfold
  by (intro low_frame low_rules low_modify world_frame; simp add: low_helpers)

end
