(* ===== verification/System.thy ===== *)
theory System
  imports Frames SocketListener
begin

text \<open>
  The whole server as a machine. Its state is that of \<open>KServer\<close> with the phase of \<open>run\<close> and the control
  socket; its actions are the turns of the main thread and of the controller's worker, the connections of
  clients, what peers send, the daemon that misses a peer, and the clock, in any order. An operation is one action, but that
  a connection's handler waits in \<open>recv\<close> after it has looked whether it is to go on: what it gets then is an action of its own, whatever
  came between. How threads interleave within an operation is otherwise not modelled. The thread of the receiver keeps its exception in a
  future, so \<open>Peer\<close> ends nothing; an exception of the worker or of the pool ends the process.

  What holds of all of it is shown by what each operation keeps. The locale \<open>controller_frame\<close> takes a
  relation of states that contains what the controller's own operations do; \<open>callback_contract\<close> adds that the
  callbacks of the controller keep it, and the operations that call back keep it then. \<open>server_frame\<close> extends the first by what
  the server does itself; in it the event handler and the callbacks that the
  constructor of \<open>KServer\<close> passes fulfil the contract, so the controller may call them. It is interpreted on the relation of
  the machine's invariant, and on \<open>ends_served\<close>: a descriptor that is shut is served no more. \<open>invariant_system\<close> is
  interpreted on the machine.

  Shown: once constructed, the server never leaves its main loop; the flag and the control message that
  would end it are never set. A connection whose session has ended is not read from again but by a call of \<open>recv\<close> that
  waits already, whatever the other threads do.
\<close>

section \<open>Below the controller\<close>

lemma keeps_world_CreateSession: "keeps only_world (CreateSession x)"
  unfolding CreateSession_def by (intro world_rules world_frame; simp)

lemmas world_lower = world_frame keeps_fetchTasks keeps_world_CreateSession

section \<open>The controller and its callbacks\<close>

definition ctl_step :: "('db, 'm) controller_scheme \<Rightarrow> ('db, 'm) controller_scheme \<Rightarrow> bool" where
  "ctl_step s s' \<longleftrightarrow> controller.more s' = controller.more s \<and> (pf_good s \<longrightarrow> pf_good s') \<and> ct_shutdown s' = ct_shutdown s \<and>
     ct_active s' = ct_active s \<and> (\<exists>bs. ct_control s' = ct_control s @ bs \<and> (\<not> ct_shutdown s \<longrightarrow> 0 \<notin> set bs))"

lemma ctl_step_low: "low_step s s' \<Longrightarrow> ctl_step s s'" for s :: "('db, 'm) controller_scheme"
  by (cases s; cases s') (auto simp: low_step_def ctl_step_def pf_good_def controller.defs)

locale controller_frame =
  fixes R :: "('db, 'm) controller_scheme \<Rightarrow> ('db, 'm) controller_scheme \<Rightarrow> bool"
  assumes R_refl: "reflp R" and R_trans: "transp R"
    and R_ctl: "ctl_step s s' \<Longrightarrow> R s s'"
begin

named_theorems ctl_frame

lemma ctl_low: "keeps low_step m \<Longrightarrow> keeps R m"
  by (erule keeps_mono) (rule R_ctl, rule ctl_step_low)

lemma ctl_modify:
  "(\<And>s. controller.more (f s) = controller.more s) \<Longrightarrow> (\<And>s. pf_map (f s) = pf_map s) \<Longrightarrow> (\<And>s. ct_shutdown (f s) = ct_shutdown s) \<Longrightarrow>
   (\<And>s. ct_active (f s) = ct_active s) \<Longrightarrow>
   (\<And>s. ct_control (f s) = ct_control s \<or> (\<exists>b. ct_control (f s) = ct_control s @ [b] \<and> (\<not> ct_shutdown s \<longrightarrow> b \<noteq> 0))) \<Longrightarrow> keeps R (modify f)"
  by (rule keeps_modify, rule R_ctl, unfold ctl_step_def pf_good_def) (metis append_Nil2 empty_iff empty_set list.set_intros(1) set_ConsD list.simps(15) insert_iff singletonD)

lemma ctl_arg: "(\<And>a. keeps R (f a)) \<Longrightarrow> keeps R (arg_at args i f)"
  unfolding arg_at_def by (intro keeps_seq keeps_pure R_refl R_trans)

lemma ctl_filter: "(\<And>f. keeps R (g f)) \<Longrightarrow> keeps R (with_filter args g)"
  unfolding with_filter_def by (intro keeps_seq keeps_pure R_refl R_trans)

lemmas ctl_rules = R_refl R_trans ctl_arg ctl_filter keeps_if keeps_seq keeps_each keeps_collect keeps_pure
  keeps_catch_all keeps_handle case_frame
  low_frame [THEN ctl_low] world_lower [THEN low_world, THEN ctl_low]

lemma ctl_frame_1 [ctl_frame]:
  "keeps R (Request_push a0)" "keeps R (GetRequest)" "keeps R (SetWait a1)" "keeps R (record_end a2 a3 a4 a5)"
  "keeps R (ProcessSystemEvent a6 a7 a8 a9 a10)"
  unfolding Request_push_def GetRequest_def SetWait_def record_end_def ProcessSystemEvent_def Let_def case_prod_unfold
  by (intro ctl_rules ctl_frame   ctl_modify; simp add: at_task_def)+

lemma c_complete_task [ctl_frame]:
  "keeps R (complete_task a0 a1 a2 a3 a4 a5 a6)"
  unfolding complete_task_def Let_def case_prod_unfold
  by (intro ctl_rules ctl_frame   ctl_modify; simp add: at_task_def)

end

locale callback_contract = controller_frame R
  for R :: "('db, 'm) controller_scheme \<Rightarrow> ('db, 'm) controller_scheme \<Rightarrow> bool" +
  fixes c :: "('db, 'm) ctl_callbacks"
  assumes event_keeps: "keeps R (cb_event c fd ev args)"
    and process_keeps: "keeps R (cb_process c out msk id1 fd err)"
    and validate_keeps: "keeps R (cb_validate c)"
begin

lemmas cb_rules = event_keeps process_keeps validate_keeps

named_theorems cb_frame

lemma c_request_tracked: "(\<And>out m i fd e. keeps R (cb out m i fd e)) \<Longrightarrow> keeps R (request_tracked x cb path msk fd i argv type)"
  unfolding request_tracked_def Let_def case_prod_unfold
  by (intro cb_rules cb_frame ctl_rules ; simp)

lemma c_executeTask: "(\<And>out m i fd e. keeps R (cb out m i fd e)) \<Longrightarrow> keeps R (executeTask x cb fd t)"
  unfolding executeTask_def Let_def case_prod_unfold
  by (intro c_request_tracked ctl_rules ; simp)

lemma c_try_app: "(\<And>a. keeps R (f a)) \<Longrightarrow> keeps R (try_app x args f)"
  unfolding try_app_def by (intro cb_rules cb_frame ctl_rules; simp)

lemma c_onProcessComplete [cb_frame]:
  "keeps R (onProcessComplete a0 c a2 a3 a4 a5 a6 a7)"
  unfolding onProcessComplete_def Let_def case_prod_unfold
  by (intro cb_rules cb_frame ctl_rules ctl_frame c_try_app c_request_tracked c_executeTask  ctl_modify; simp add: at_task_def)

lemma c_run_task [cb_frame]:
  "keeps R (run_task a0 c a2 a3)"
  unfolding run_task_def Let_def case_prod_unfold
  by (intro cb_rules cb_frame ctl_rules ctl_frame c_try_app c_request_tracked c_executeTask  ctl_modify; simp add: at_task_def)

lemma c_HandlePendingTasks [cb_frame]:
  "keeps R (HandlePendingTasks a0 c)"
  unfolding HandlePendingTasks_def Let_def case_prod_unfold
  by (intro cb_rules cb_frame ctl_rules ctl_frame c_try_app c_request_tracked c_executeTask  ctl_modify; simp add: at_task_def)

lemma c_worker_pass [cb_frame]:
  "keeps R (worker_pass a0 a1 c a3 a4)"
  unfolding worker_pass_def Let_def case_prod_unfold
  by (intro cb_rules cb_frame ctl_rules ctl_frame c_try_app c_request_tracked c_executeTask  ctl_modify; simp add: at_task_def)

lemma c_InfiniteLoop [cb_frame]: "keeps R (InfiniteLoop n x h c fmt sock)"
  by (induction n) (simp_all only: InfiniteLoop.simps, (intro cb_rules cb_frame ctl_rules ctl_frame ; simp)+)

lemma cb_frame_1 [cb_frame]:
  "keeps R (file_events c a1 a2 a3)" "keeps R (Execute a4 c a6 a7 a8)" "keeps R (application_request a9 c a11 a12 a13)"
  "keeps R (fetch_schedule a14 c a16)" "keeps R (update_schedule a17 c a19 a20)" "keeps R (fetch_tokens a21 c a23 a24)"
  "keeps R (fetch_task_data a25 c a27 a28)" "keeps R (create_trigger a29 c a31 a32)" "keeps R (fetch_files a33 c a35 a36)"
  unfolding file_events_def Execute_def application_request_def fetch_schedule_def update_schedule_def fetch_tokens_def
    fetch_task_data_def create_trigger_def fetch_files_def Let_def case_prod_unfold
  by (intro cb_rules cb_frame ctl_rules ctl_frame c_try_app c_request_tracked c_executeTask  ctl_modify; simp add: at_task_def)+

lemma c_handle_operation [cb_frame]:
  "keeps R (handle_operation a0 c a2 a3 a4 a5)"
  unfolding handle_operation_def Let_def case_prod_unfold
  by (intro cb_rules cb_frame ctl_rules ctl_frame c_try_app c_request_tracked c_executeTask  ctl_modify; simp add: at_task_def)

lemma c_client_request [cb_frame]: "keeps R (client_request x h c fd args type)"
  by (cases type) (simp_all only: client_request_def request_type.case, (intro cb_rules cb_frame ctl_rules ctl_frame; simp)+)

lemma c_ProcessClientRequest [cb_frame]:
  "keeps R (ProcessClientRequest a0 a1 c a3 a4)"
  unfolding ProcessClientRequest_def Let_def case_prod_unfold
  by (intro cb_rules cb_frame ctl_rules ctl_frame c_try_app c_request_tracked c_executeTask  ctl_modify; simp add: at_task_def)

end

section \<open>The server\<close>

definition ipc_step_ok :: "ipc \<Rightarrow> ipc \<Rightarrow> bool" where
  "ipc_step_ok i i' \<longleftrightarrow> (ipc_ok i \<longrightarrow> ipc_ok i')"

lemma ipc_step_order [simp]: "reflp ipc_step_ok" "transp ipc_step_ok"
  by (auto simp: reflp_def transp_def ipc_step_ok_def)

lemma ipc_ok_daemon [simp]: "ipc_ok (i\<lparr>iq_daemon := d\<rparr>) = ipc_ok i" "ipc_ok (i\<lparr>iq_sent := d'\<rparr>) = ipc_ok i"
  "ipc_ok (i\<lparr>iq_connected := c\<rparr>) = ipc_ok i" "ipc_ok (i\<lparr>iq_timeouts := n\<rparr>) = ipc_ok i" "ipc_ok (i\<lparr>iq_sleeping := z\<rparr>) = ipc_ok i"
  by (simp_all add: ipc_ok_def)

named_theorems ipc_frame

lemma ipc_frame_ops [ipc_frame]: "keeps ipc_step_ok (mgr_ReceiveEvent E kp event args)" "keeps ipc_step_ok (mgr_run E r)"
  by (simp_all add: keeps_def ipc_step_ok_def ipc_ok_Receive ipc_ok_mgr_run)

lemma ipc_modify: "(\<And>i. ipc_ok i \<Longrightarrow> ipc_ok (f i)) \<Longrightarrow> keeps ipc_step_ok (modify f)"
  by (simp add: keeps_modify ipc_step_ok_def)

lemma ipc_get [ipc_frame]: "keeps ipc_step_ok get_state"
  by (simp add: keeps_def get_state_def ipc_step_ok_def)

lemma ipc_count [ipc_frame]: "keeps ipc_step_ok (count_heartbeat peer)"
  unfolding count_heartbeat_def by (rule ipc_modify) (auto simp: ipc_ok_def case_prod_unfold comp_def)

lemma ipc_calls [ipc_frame]: "keeps ipc_step_ok (daemon_do d)" "keeps ipc_step_ok (send_ipc a m)" "keeps ipc_step_ok (client_connect a b)"
  "keeps ipc_step_ok (add_observer peer)" "keeps ipc_step_ok (on_heartbeat E peer)" "keeps ipc_step_ok (client_beat cl)" "keeps ipc_step_ok (client_reconnect cl)"
  unfolding daemon_do_def send_ipc_def client_connect_def add_observer_def on_heartbeat_def client_beat_def client_reconnect_def
  by (intro keeps_if keeps_seq keeps_pure ipc_get ipc_modify; simp)+

lemma revoke_stays [simp]: "map_of fds fd \<noteq> Some True \<Longrightarrow> map_of (snd (revoke fd' fds)) fd \<noteq> Some True"
  by (simp add: revoke_def update_conv')

lemma revoke_ends [simp]: "map_of (snd (revoke fd fds)) fd \<noteq> Some True"
proof (cases "fd \<in> fst ` set fds")
  case False
  then have "map_of fds fd = None" by (simp add: map_of_eq_None_iff)
  with False show ?thesis by (simp add: revoke_def)
qed (simp add: revoke_def update_conv)

text \<open>What a step does to the connections that are served: those it shuts are served no more, and no other one becomes served.\<close>

definition ends_served :: "('db, 'h) kserver \<Rightarrow> ('db, 'h) kserver \<Rightarrow> bool" where
  "ends_served s s' \<longleftrightarrow> (\<exists>shut. sv_shut s' = sv_shut s @ shut \<and> (\<forall>fd \<in> set shut. map_of (sv_fds s') fd \<noteq> Some True)) \<and>
     (\<forall>fd. map_of (sv_fds s) fd \<noteq> Some True \<longrightarrow> map_of (sv_fds s') fd \<noteq> Some True)"

lemma ends_served_same [simp]: "sv_shut s' = sv_shut s \<Longrightarrow> sv_fds s' = sv_fds s \<Longrightarrow> ends_served s s'"
  by (simp add: ends_served_def)

lemma ends_served_shut [simp]: "ends_served s (shut_fd fd s)"
  by (simp add: ends_served_def shut_fd_def)

lemma shut_fd_below [simp]:
  "pf_map (shut_fd fd s) = pf_map s" "sv_ipc (shut_fd fd s) = sv_ipc s" "ct_shutdown (shut_fd fd s) = ct_shutdown s"
  "ct_active (shut_fd fd s) = ct_active s" "ct_control (shut_fd fd s) = ct_control s"
  by (simp_all add: shut_fd_def)

lemma ends_served_trans:
  assumes ab: "ends_served a b" and bc: "ends_served b c"
  shows "ends_served a c"
proof -
  obtain x where x: "sv_shut b = sv_shut a @ x" "\<forall>fd \<in> set x. map_of (sv_fds b) fd \<noteq> Some True"
    using ab unfolding ends_served_def by blast
  obtain y where y: "sv_shut c = sv_shut b @ y" "\<forall>fd \<in> set y. map_of (sv_fds c) fd \<noteq> Some True"
    using bc unfolding ends_served_def by blast
  have "sv_shut c = sv_shut a @ (x @ y)" using x(1) y(1) by simp
  moreover have "\<forall>fd \<in> set (x @ y). map_of (sv_fds c) fd \<noteq> Some True"
    using x(2) y(2) bc unfolding ends_served_def by auto
  ultimately show ?thesis using ab bc unfolding ends_served_def by blast
qed

lemma ends_served_order [simp]: "reflp ends_served" "transp ends_served"
  by (auto intro: reflpI transpI ends_served_trans)

text \<open>
  A relation that contains what the server's own functions do below their calls of the controller: nothing of what the
  invariant of the machine is about, and of the connections only that one it shuts is served no more. The operations of the
  server keep every such relation.
\<close>

locale server_frame = controller_frame R
  for R :: "('db, 'h) kserver \<Rightarrow> ('db, 'h) kserver \<Rightarrow> bool" +
  assumes R_server: "pf_map s' = pf_map s \<Longrightarrow> sv_ipc s' = sv_ipc s \<Longrightarrow> ct_shutdown s' = ct_shutdown s \<Longrightarrow> ct_active s' = ct_active s \<Longrightarrow>
      ct_control s' = ct_control s \<Longrightarrow> ends_served s s' \<Longrightarrow> R s s'"
    and R_manager: "ipc_step_ok (sv_ipc s) i \<Longrightarrow> R s (s\<lparr>sv_ipc := i\<rparr>)"
begin

named_theorems srv_frame

lemma srv_modify:
  "(\<And>s. pf_map (f s) = pf_map s) \<Longrightarrow> (\<And>s. sv_ipc (f s) = sv_ipc s) \<Longrightarrow> (\<And>s. ct_shutdown (f s) = ct_shutdown s) \<Longrightarrow>
   (\<And>s. ct_active (f s) = ct_active s) \<Longrightarrow> (\<And>s. ct_control (f s) = ct_control s) \<Longrightarrow>
   (\<And>s. ends_served s (f s)) \<Longrightarrow> keeps R (modify f)"
  by (rule keeps_modify, rule R_server)

lemma srv_manager: "keeps ipc_step_ok m \<Longrightarrow> keeps R (on_manager m)"
  by (auto simp: keeps_def on_manager_def case_prod_unfold intro!: R_manager)

lemma srv_sessions [srv_frame]: "keeps R (change_sessions f)"
  unfolding change_sessions_def by (intro ctl_rules srv_modify; simp)

lemma srv_frame_1 [srv_frame]:
  "keeps R (put_packets a0 a1)" "keeps R (count_tx a2 a3)" "keeps R (count_rx a4 a5)"
  "keeps R (SetFilePending a6)" "keeps R (SetFileNotPending)" "keeps R (Add_received a7)"
  "keeps R (EraseReceived a8 a9)" "keeps R (EnqueueOutbound a10 a11)" "keeps R (OutboundNext)"
  "keeps R (EnqueueFiles a12 a13)" "keeps R (EraseFileHandler a14)" "keeps R (EraseMessageHandler a15)"
  unfolding put_packets_def count_tx_def count_rx_def SetFilePending_def SetFileNotPending_def Add_received_def
    EraseReceived_def EnqueueOutbound_def OutboundNext_def EnqueueFiles_def EraseFileHandler_def EraseMessageHandler_def
    Let_def case_prod_unfold
  by (intro ctl_rules ctl_frame srv_frame srv_modify; simp split: option.split)+

lemma y_GetSession [srv_frame]:
  "keeps R (GetSession a0)"
  unfolding GetSession_def Let_def case_prod_unfold
  by (intro ctl_rules ctl_frame srv_frame srv_modify; simp split: option.split)

lemma srv_frame_2 [srv_frame]:
  "keeps R (SendMessage a0 a1 a2)" "keeps R (SendFile a3 a4 a5)" "keeps R (Dequeue)"
  "keeps R (EndSession a6 a7)" "keeps R (OnClientExit a8)"
  unfolding SendMessage_def SendFile_def Dequeue_def EndSession_def OnClientExit_def Let_def case_prod_unfold
  by (intro ctl_rules ctl_frame srv_frame srv_modify; simp split: option.split)+

lemma srv_frame_3 [srv_frame]:
  "keeps R (send_active a0 a1 a2)" "keeps R (CloseConnections)" "keeps R (onConnectionClose a3)"
  "keeps R (validate_client a4)"
  unfolding send_active_def CloseConnections_def onConnectionClose_def validate_client_def Let_def case_prod_unfold
  by (intro ctl_rules ctl_frame srv_frame srv_modify; simp split: option.split)+

lemma srv_frame_4 [srv_frame]:
  "keeps R (Broadcast a0 a1 a2)" "keeps R (ValidateClients)"
  unfolding Broadcast_def ValidateClients_def Let_def case_prod_unfold
  by (intro ctl_rules ctl_frame srv_frame srv_modify; simp split: option.split)+

lemma y_SendEvent [srv_frame]:
  "keeps R (SendEvent a0 a1 a2 a3)"
  unfolding SendEvent_def Let_def case_prod_unfold
  by (intro ctl_rules ctl_frame srv_frame srv_modify; simp split: option.split)

lemma y_OnFileHandled [srv_frame]:
  "keeps R (OnFileHandled a0 a1 a2)"
  unfolding OnFileHandled_def Let_def case_prod_unfold
  by (intro ctl_rules ctl_frame srv_frame srv_modify; simp split: option.split)

lemma y_ReceiveFileData [srv_frame]:
  "keeps R (ReceiveFileData a0 a1 a2)"
  unfolding ReceiveFileData_def Let_def case_prod_unfold
  by (intro ctl_rules ctl_frame srv_frame srv_modify; simp split: option.split)

lemma y_ReceiveEvent [srv_frame]: "keeps R (ReceiveEvent L event payload)"
  unfolding ReceiveEvent_def by (intro ctl_rules srv_manager ipc_frame)

lemma y_system_event [srv_frame]:
  "keeps R (system_event a0 a1 a2)"
  unfolding system_event_def Let_def case_prod_unfold
  by (intro ctl_rules ctl_frame srv_frame srv_modify; simp split: option.split)

lemma srv_handlers:
  "keeps R (on_execution_requested L fd e p)"
  "keeps R (on_tasks_ready L fd e p)"
  "keeps R (on_tasks_none L fd e p)"
  "keeps R (on_scheduler_fetch L fd e p)"
  "keeps R (on_scheduler_tokens L fd e p)"
  "keeps R (on_scheduler_update L fd e p)"
  "keeps R (on_scheduler_success L fd e p)"
  "keeps R (on_registrar_success L fd e p)"
  "keeps R (on_registrar_fail L fd e p)"
  "keeps R (on_task_flags L fd e p)"
  "keeps R (on_application_fetch_success L fd e p)"
  "keeps R (on_application_fetch_fail L fd e p)"
  "keeps R (on_platform_created L fd e p)"
  "keeps R (on_task_data L fd e p)"
  "keeps R (on_task_data_final L fd e p)"
  "keeps R (on_term_hits L fd e p)"
  "keeps R (on_status_report L fd e p)"
  "keeps R (on_scheduler_fail L fd e p)"
  "keeps R (on_process_complete L fd e p)"
  "keeps R (on_scheduler_request L fd e p)"
  "keeps R (on_trigger_add_success L fd e p)"
  "keeps R (on_trigger_add_fail L fd e p)"
  "keeps R (on_process_research L fd e p)"
  "keeps R (on_process_research_result L fd e p)"
  "keeps R (on_file_update L fd e p)"
  "keeps R (on_platform_new_post L fd e p)"
  "keeps R (on_platform_post_request L fd e p)"
  "keeps R (on_platform_error L fd e p)"
  "keeps R (on_platform_request L fd e p)"
  "keeps R (on_platform_event L fd e p)"
  "keeps R (on_platform_info L fd e p)"
  "keeps R (on_platform_info_request L fd e p)"
  "keeps R (on_platform_fetch_posts L fd e p)"
  "keeps R (on_platform_update L fd e p)"
  "keeps R (on_files_send L fd e p)"
  "keeps R (on_files_send_ack L fd e p)"
  "keeps R (on_files_send_ready L fd e p)"
  "keeps R (on_KIQ_ipc_Message L fd e p)"
  "keeps R (on_ipc_reconnect_request L fd e p)"
  unfolding on_execution_requested_def on_tasks_ready_def on_tasks_none_def on_scheduler_fetch_def on_scheduler_tokens_def on_scheduler_update_def on_scheduler_success_def on_registrar_success_def on_registrar_fail_def on_task_flags_def on_application_fetch_success_def on_application_fetch_fail_def on_platform_created_def on_task_data_def on_task_data_final_def on_term_hits_def on_status_report_def on_scheduler_fail_def on_process_complete_def on_scheduler_request_def on_trigger_add_success_def on_trigger_add_fail_def on_process_research_def on_process_research_result_def on_file_update_def on_platform_new_post_def on_platform_post_request_def on_platform_error_def on_platform_request_def on_platform_event_def on_platform_info_def on_platform_info_request_def on_platform_fetch_posts_def on_platform_update_def on_files_send_def on_files_send_ack_def on_files_send_ready_def on_KIQ_ipc_Message_def on_ipc_reconnect_request_def
  by (intro ctl_rules ctl_frame srv_frame srv_modify; simp)+

lemma srv_evt [srv_frame]: "keeps R (evt L fd event payload)"
proof -
  have "list_all (\<lambda>(i, f). \<forall>fd e p. keeps R (f fd e p)) (dispatch_table L)"
    unfolding dispatch_table_def by (simp add: srv_handlers)
  then have "keeps R (f fd event payload)" if "map_of (dispatch_table L) event = Some f" for f
    using map_of_SomeD [OF that] by (auto simp: list_all_iff)
  then show ?thesis
    unfolding evt_def by (cases "map_of (dispatch_table L) event") (simp_all add: keeps_pure R_refl)
qed

lemma y_OnProcessEvent [srv_frame]:
  "keeps R (OnProcessEvent a0 a1 a2 a3 a4 a5)"
  unfolding OnProcessEvent_def Let_def case_prod_unfold
  by (intro ctl_rules ctl_frame srv_frame srv_modify; simp split: option.split)

end

sublocale server_frame \<subseteq> server_cb: callback_contract R "server_callbacks L n" for L n
  by unfold_locales (simp_all add: server_callbacks_def srv_frame)

context server_frame
begin

lemma srv_frame_5 [srv_frame]:
  "keeps R (InitClient a0 a1 a2)" "keeps R (WaitForFile a3 a4)" "keeps R (ScheduleRequest a5 a6 a7 a8)"
  "keeps R (SendPong a9 a10)" "keeps R (run_turn a11)"
  unfolding InitClient_def WaitForFile_def ScheduleRequest_def SendPong_def run_turn_def Let_def case_prod_unfold
  by (intro ctl_rules ctl_frame srv_frame srv_modify server_cb.cb_frame; simp split: option.split)+

lemma srv_frame_6 [srv_frame]:
  "keeps R (raise_event a0 a1 a2)" "keeps R (log_message a3 a4)"
  unfolding raise_event_def log_message_def Let_def case_prod_unfold
  by (intro ctl_rules ctl_frame srv_frame srv_modify server_cb.cb_frame srv_manager ipc_frame ipc_modify keeps_seq ipc_step_order; simp split: option.split)+

lemma y_OperationRequest [srv_frame]:
  "keeps R (OperationRequest a0 a1 a2 a3)"
  unfolding OperationRequest_def Let_def case_prod_unfold
  by (intro ctl_rules ctl_frame srv_frame srv_modify server_cb.cb_frame; simp split: option.split)

lemma y_handle_text [srv_frame]:
  "keeps R (handle_text a0 a1 a2 a3)"
  unfolding handle_text_def Let_def case_prod_unfold
  by (intro ctl_rules ctl_frame srv_frame srv_modify server_cb.cb_frame; simp split: option.split)

lemma y_ProcessMessage [srv_frame]:
  "keeps R (ProcessMessage a0 a1 a2 a3)"
  unfolding ProcessMessage_def Let_def case_prod_unfold
  by (intro ctl_rules ctl_frame srv_frame srv_modify server_cb.cb_frame; simp split: option.split)

lemma y_ReceiveMessage [srv_frame]:
  "keeps R (ReceiveMessage a0 a1 a2 a3)"
  unfolding ReceiveMessage_def Let_def case_prod_unfold
  by (intro ctl_rules ctl_frame srv_frame srv_modify server_cb.cb_frame; simp split: option.split)

lemma y_onMessageReceived [srv_frame]:
  "keeps R (onMessageReceived a0 a1 a2 a3)"
  unfolding onMessageReceived_def Let_def case_prod_unfold
  by (intro ctl_rules ctl_frame srv_frame srv_modify server_cb.cb_frame; simp split: option.split)

lemma y_mgr_process_message [srv_frame]: "keeps R (mgr_process_message L m)"
proof -
  have "list_all (\<lambda>(i, f). \<forall>m. keeps R (f m)) (ipc_table L)"
    unfolding ipc_table_def Let_def by (simp add: srv_frame srv_manager ipc_frame ctl_rules)
  then have "keeps R (f m)" if "map_of (ipc_table L) (msg_type (ie_types (se_ipc L)) m) = Some f" for f
    using map_of_SomeD [OF that] by (auto simp: list_all_iff)
  then show ?thesis
    unfolding mgr_process_message_def
    by (cases "map_of (ipc_table L) (msg_type (ie_types (se_ipc L)) m)") (auto intro!: ctl_rules srv_frame)
qed

lemma srv_frame_7 [srv_frame]:
  "keeps R (client_process_message a0 a1 a2)" "keeps R (heartbeat_timeout a3 a4)"
  "keeps R (observe_again a5)" "keeps R (worker_connect a6)"
  unfolding client_process_message_def heartbeat_timeout_def observe_again_def worker_connect_def Let_def case_prod_unfold
  by (intro ctl_rules ctl_frame srv_frame srv_modify server_cb.cb_frame srv_manager ipc_frame ipc_modify keeps_seq ipc_step_order; simp split: option.split)+

lemma y_worker_recv [srv_frame]:
  "keeps R (worker_recv a0 a1 a2)"
  unfolding worker_recv_def Let_def case_prod_unfold
  by (intro ctl_rules ctl_frame srv_frame srv_modify server_cb.cb_frame srv_manager ipc_frame ipc_modify keeps_seq ipc_step_order; simp split: option.split)

lemma y_worker_loop [srv_frame]: "keeps R (worker_loop L name inputs)"
  by (induction inputs) (simp_all only: worker_loop.simps, (intro ctl_rules srv_frame; simp)+)

lemma y_worker_run [srv_frame]:
  "keeps R (worker_run a0 a1 a2)"
  unfolding worker_run_def Let_def case_prod_unfold
  by (intro ctl_rules ctl_frame srv_frame srv_modify server_cb.cb_frame srv_manager ipc_frame ipc_modify keeps_seq ipc_step_order; simp split: option.split)

lemma y_server_turn [srv_frame]: "keeps R (server_turn a0 a1)"
  unfolding server_turn_def Let_def case_prod_unfold by (intro ctl_rules ctl_frame srv_frame srv_modify server_cb.cb_frame srv_manager ipc_frame ipc_modify keeps_seq ipc_step_order; simp split: option.split)

lemma y_fd_served [srv_frame]: "keeps R (fd_served fd)"
  by (auto simp: keeps_def fd_served_def update_conv' ends_served_def split: option.splits intro: reflpD [OF R_refl] intro!: R_server)

lemma y_recv_done [srv_frame]: "keeps R (recv_done L n fd r)"
  by (cases r) (simp_all only: recv_done_def recv_result.case, (intro ctl_rules srv_frame; simp)+)

lemma y_handleClientSocket [srv_frame]: "keeps R (handleClientSocket L n fd rs)"
  by (induction rs) (simp_all only: handleClientSocket.simps, (intro ctl_rules srv_frame; simp)+)

lemma y_handler_waiting [srv_frame]: "keeps R (handler_waiting L n fd rs)"
  by (cases rs) (simp_all only: handler_waiting.simps, (intro ctl_rules srv_frame; simp)+)

end

text \<open>The relations it is interpreted on: that of the machine's invariant, and \<open>ends_served\<close> itself.\<close>

definition system_ok :: "('db, 'h) kserver \<Rightarrow> bool" where
  "system_ok s \<longleftrightarrow> requests_ok (pf_map s) \<and> ipc_ok (sv_ipc s) \<and> \<not> ct_shutdown s \<and> ct_active s \<and>
     0 \<notin> set (ct_control s)"

definition sys_step :: "('db, 'h) kserver \<Rightarrow> ('db, 'h) kserver \<Rightarrow> bool" where
  "sys_step s s' \<longleftrightarrow> (system_ok s \<longrightarrow> system_ok s')"

interpretation sys: server_frame sys_step
proof
  fix s s' :: "('a, 'b) kserver" assume "ctl_step s s'"
  then show "sys_step s s'"
    by (cases s; cases s') (auto simp: ctl_step_def sys_step_def system_ok_def pf_good_def kserver.defs)
qed (auto simp: reflp_def transp_def sys_step_def system_ok_def ipc_step_ok_def)

interpretation shut: server_frame ends_served
proof
  fix s s' :: "('a, 'b) kserver" assume "ctl_step s s'"
  then show "ends_served s s'"
    by (cases s; cases s') (auto simp: ctl_step_def ends_served_def controller.defs kserver.defs)
qed (simp_all add: ends_served_same)

lemma sys_note_client: "keeps sys_step (note_client fd)"
  unfolding note_client_def by (rule keeps_modify) (simp add: sys_step_def system_ok_def)

section \<open>Construction\<close>

text \<open>
  The members as the constructors leave them before their bodies run. \<open>m_wait\<close>, \<open>m_file_sending\<close> and
  \<open>m_file_sending_fd\<close> have no initialiser: they are arguments. The timers of the scheduler are static.
\<close>

definition blank_server :: "'db world \<Rightarrow> bool \<Rightarrow> bool \<Rightarrow> int \<Rightarrow> ('db, 'h) kserver" where
  "blank_server w waits sending sending_fd =
     \<lparr>w_db = w_db w, w_fs = w_fs w, w_now = w_now w, w_uuids = w_uuids w, w_events = w_events w, w_mails = w_mails w,
      pf_map = [], pf_pending = 0, pf_errors = 0, pf_posted = 0, pf_timer = new_timer False 0 TEN_MINUTES False,
      sc_app_map = [], sc_px = \<lparr>px_map = [], px_lists = []\<rparr>, sc_queue = [], sc_ipc_command = 0, sc_dispatched = [],
      sc_timer = new_timer False 0 TEN_MINUTES False, sc_postexec_tasks = 0, sc_tx_ipc = 0, sc_evts = [],
      rs_polls = [], rs_terms = [], rs_ml = \<lparr>ml_inputs = [], ml_output = []\<rparr>, rs_header = None,
      ct_tasks = [], ct_active = True, ct_wait = waits, ct_shutdown = False, ct_executed = 0, ct_client_requests = 0,
      ct_system_requests = 0, ct_errors = 0, ct_requests = [], ct_control = [], ct_timer = new_timer False (w_now w) TEN_MINUTES True,
      sv_sessions = empty_sessions, sv_received = [], sv_fm_outbound = [], sv_fm_sending = False, sv_fm_sending_fd = 0,
      sv_outbound = [], sv_file_handlers = [], sv_message_handlers = [], sv_connections = [], sv_file_pending = False,
      sv_file_pending_fd = - 1, sv_file_sending = sending, sv_file_sending_fd = sending_fd, sv_errors = 0,
      sv_sent = [], sv_shut = [], sv_fds = [], sv_ipc = empty_ipc\<rparr>"

definition new_scheduler :: "'db libs \<Rightarrow> kproto \<Rightarrow> (('db, 'm) scheduler_scheme, unit) act" where
  "new_scheduler x kp =
     seq (FetchApplicationMap x) (\<lambda>apps.
     seq (modify (\<lambda>s. s\<lparr>sc_app_map := apps, sc_ipc_command := kp_no_command kp\<rparr>)) (\<lambda>_.
     of_res (required_applications apps)))"

text \<open>The callbacks of \<open>Initialize\<close> are \<open>server_callbacks\<close>; the worker it starts is an action of the machine below.\<close>

definition Initialize :: "(('db, 'm) controller_scheme, unit) act" where
  "Initialize = SetWait False"

definition new_server :: "('db, 'h) server_env \<Rightarrow> ('db, 'h) server_act" where
  "new_server L =
     seq (new_scheduler (se_x L) (hk_kproto (se_hooks L))) (\<lambda>_.
     seq (on_manager (mgr_start (se_ipc L))) (\<lambda>_. Initialize))"

section \<open>The end of a server\<close>

text \<open>
  The controller as an object: its flag, its executor if it has one, the pointer to the control socket, and its
  four counters. The constructors of a copy and of a move leave the counters as the memory was: \<open>junk\<close>.
\<close>

record ctl_object =
  co_active :: bool
  co_executor :: "nat option"
  co_sock :: nat
  co_counts :: "32 word list"

definition new_controller :: "nat \<Rightarrow> ctl_object" where
  "new_controller sock = \<lparr>co_active = True, co_executor = None, co_sock = sock, co_counts = replicate 4 0\<rparr>"

definition controller_move :: "32 word list \<Rightarrow> ctl_object \<Rightarrow> ctl_object \<times> ctl_object" where
  "controller_move junk r =
     (\<lparr>co_active = co_active r, co_executor = co_executor r, co_sock = co_sock r, co_counts = junk\<rparr>, r\<lparr>co_executor := None\<rparr>)"

definition controller_copy :: "32 word list \<Rightarrow> ctl_object \<Rightarrow> ctl_object" where
  "controller_copy junk r = \<lparr>co_active = co_active r, co_executor = None, co_sock = co_sock r, co_counts = junk\<rparr>"

definition controller_assign :: "ctl_object \<Rightarrow> ctl_object" where
  "controller_assign this = this\<lparr>co_executor := None\<rparr>"

text \<open>The executor that is deleted, the controller, and what is left of the other; \<open>None\<close> if it is assigned to itself.\<close>

definition controller_move_assign ::
  "ctl_object option \<Rightarrow> ctl_object \<Rightarrow> nat option \<times> ctl_object \<times> ctl_object option" where
  "controller_move_assign r this = (case r of None \<Rightarrow> (None, this, None)
     | Some h \<Rightarrow> (co_executor this, this\<lparr>co_executor := co_executor h, co_active := co_active h, co_sock := co_sock h\<rparr>,
         Some (h\<lparr>co_executor := None\<rparr>)))"

text \<open>
  The watchdog of \<open>Initialize\<close>, over the times at which it looks at the clock, a minute apart. It is deferred: only the
  destructor, which waits for it, runs it. Nothing starts its timer.
\<close>

fun sentinel_loop :: "string \<Rightarrow> timer \<Rightarrow> int list \<Rightarrow> (('db, 'm) controller_scheme, unit) act" where
  "sentinel_loop notification t [] = ret ()"
| "sentinel_loop notification t (now # later) = seq get_state (\<lambda>s.
     if \<not> ct_active s then ret ()
     else seq (if timer_expired now t then
                 seq (SendMail notification ''Controller's worker seems deadlocked'') (\<lambda>_. modify (\<lambda>s. s\<lparr>ct_active := False\<rparr>))
               else ret ()) (\<lambda>_. sentinel_loop notification t later))"

definition sentinel :: "string \<Rightarrow> timer \<Rightarrow> int \<Rightarrow> int list \<Rightarrow> (('db, 'm) controller_scheme, unit) act" where
  "sentinel notification t now later = (if timer_expired now t then sentinel_loop notification t later else ret ())"

definition destroy_server :: "('db, 'h) server_act" where
  "destroy_server = seq CloseConnections (\<lambda>_. Shutdown)"

text \<open>A timer that was not started never expires, nor does a controller that was shut down have the watchdog send anything.\<close>

lemma sentinel_is_idle:
  "\<not> t_active t \<or> \<not> ct_active s \<Longrightarrow> sentinel notification t now later s = (Inr (), s)"
  by (cases later) (auto simp: sentinel_def timer_expired_def get_state_def seq_def ret_def)

section \<open>The running server\<close>

text \<open>
  \<open>KServer::run\<close> starts the thread of the listener, makes the pair of sockets, then loops. When it is left,
  by the message 0 or because no pair is made, its thread object is destroyed while the thread runs: the
  process is terminated. So it is by an exception that leaves the worker, or a thread of the pool.
\<close>

datatype phase = Constructed | Listening | Looping | Loop_left | Terminated

record ('db, 'h) system =
  sy_server :: "('db, 'h) kserver"
  sy_phase :: phase
  sy_sock :: int       \<comment> \<open>\<open>m_control_sock\<close>\<close>
  sy_read :: nat       \<comment> \<open>how many control messages the main thread has read\<close>

datatype action =
    Start_listener
  | Make_pair "int option"                 \<comment> \<open>the end that is written to, \<open>None\<close> if \<open>socketpair\<close> fails\<close>
  | Main_turn                              \<comment> \<open>one turn of the loop of the main thread\<close>
  | Worker_turn                            \<comment> \<open>one turn of \<open>InfiniteLoop\<close>\<close>
  | Accept int
  | Serve int "recv_result list"           \<comment> \<open>a thread of the pool with a connection, from the head of its loop\<close>
  | Taken int recv_result                  \<comment> \<open>one that waited in \<open>recv\<close> and gets this, up to the head of its loop\<close>
  | Peer string worker_input               \<comment> \<open>the thread that receives from peers\<close>
  | Silence string                         \<comment> \<open>the daemon misses a peer\<close>
  | Observe string                         \<comment> \<open>the detached thread, five seconds later\<close>
  | Deliver nat                            \<comment> \<open>an event that was logged below the controller\<close>
  | Clock int

definition on_server :: "(('db, 'h) kserver, 'a) act \<Rightarrow> ('db, 'h) system \<Rightarrow> ('db, 'h) system" where
  "on_server m t = t\<lparr>sy_server := snd (m (sy_server t))\<rparr>"

definition in_thread :: "(('db, 'h) kserver, 'a) act \<Rightarrow> ('db, 'h) system \<Rightarrow> ('db, 'h) system" where
  "in_thread m t = (case m (sy_server t) of
     (Inr _, s) \<Rightarrow> t\<lparr>sy_server := s\<rparr> | (Inl _, s) \<Rightarrow> t\<lparr>sy_server := s, sy_phase := Terminated\<rparr>)"

definition next_control :: "('db, 'h) system \<Rightarrow> int option" where
  "next_control t = (if sy_read t < length (ct_control (sy_server t)) then Some (ct_control (sy_server t) ! sy_read t) else None)"

definition main_turn :: "('db, 'h) server_env \<Rightarrow> ('db, 'h) system \<Rightarrow> ('db, 'h) system" where
  "main_turn L t = (let (r, s) = server_turn L (next_control t) (sy_server t) in
     t\<lparr>sy_server := s, sy_read := (if next_control t = None then sy_read t else Suc (sy_read t)),
       sy_phase := (if r = Inr True then Looping else Loop_left)\<rparr>)"

definition worker_turn :: "('db, 'h) server_env \<Rightarrow> nat \<Rightarrow> (int \<Rightarrow> string) \<Rightarrow> ('db, 'h) system \<Rightarrow> ('db, 'h) system" where
  "worker_turn L n fmt t =
     (if ct_wait (sy_server t) then t
      else in_thread (InfiniteLoop 1 (se_x L) (se_hooks L) (server_callbacks L n) fmt (sy_sock t)) t)"

definition running :: "phase \<Rightarrow> bool" where
  "running p \<longleftrightarrow> p = Listening \<or> p = Looping"

fun system_do :: "('db, 'h) server_env \<Rightarrow> nat \<Rightarrow> (int \<Rightarrow> string) \<Rightarrow> action \<Rightarrow> ('db, 'h) system \<Rightarrow> ('db, 'h) system" where
  "system_do L n fmt Start_listener t = (if sy_phase t = Constructed then t\<lparr>sy_phase := Listening\<rparr> else t)"
| "system_do L n fmt (Make_pair fd) t =
     (if sy_phase t = Listening then
        (case fd of None \<Rightarrow> t\<lparr>sy_phase := Terminated\<rparr> | Some fd \<Rightarrow> t\<lparr>sy_phase := Looping, sy_sock := fd\<rparr>)
      else t)"
| "system_do L n fmt Main_turn t = (if sy_phase t = Looping then main_turn L t else t)"
| "system_do L n fmt Worker_turn t =
     (if sy_phase t = Constructed \<or> running (sy_phase t) then worker_turn L n fmt t else t)"
| "system_do L n fmt (Accept fd) t = (if running (sy_phase t) then on_server (note_client fd) t else t)"
| "system_do L n fmt (Serve fd rs) t = (if running (sy_phase t) then in_thread (handleClientSocket L n fd rs) t else t)"
| "system_do L n fmt (Taken fd r) t = (if running (sy_phase t) then in_thread (recv_done L n fd r) t else t)"
| "system_do L n fmt (Peer name inp) t = (if running (sy_phase t) then on_server (worker_recv L name inp) t else t)"
| "system_do L n fmt (Silence peer) t = (if running (sy_phase t) then on_server (heartbeat_timeout L peer) t else t)"
| "system_do L n fmt (Observe peer) t = (if running (sy_phase t) then in_thread (observe_again peer) t else t)"
| "system_do L n fmt (Deliver k) t = (let es = w_events (sy_server t) in
     if running (sy_phase t) \<and> k < length es
     then on_server (case es ! k of (fd, event, args) \<Rightarrow> evt L fd event args) t else t)"
| "system_do L n fmt (Clock now) t = t\<lparr>sy_server := (sy_server t)\<lparr>w_now := now\<rparr>\<rparr>"

definition started_system :: "('db, 'h) kserver \<Rightarrow> ('db, 'h) system" where
  "started_system s = \<lparr>sy_server = s, sy_phase = Constructed, sy_sock = 0, sy_read = 0\<rparr>"

section \<open>The invariant\<close>

definition machine_ok :: "('db, 'h) system \<Rightarrow> bool" where
  "machine_ok t \<longleftrightarrow> system_ok (sy_server t) \<and> sy_phase t \<noteq> Loop_left"

lemma sys_keeps: "keeps sys_step m \<Longrightarrow> system_ok s \<Longrightarrow> system_ok (snd (m s))"
  by (simp add: keeps_def sys_step_def)

lemma machine_on_server: "machine_ok t \<Longrightarrow> keeps sys_step m \<Longrightarrow> machine_ok (on_server m t)"
  by (simp add: machine_ok_def on_server_def sys_keeps)

lemma machine_in_thread: "machine_ok t \<Longrightarrow> keeps sys_step m \<Longrightarrow> machine_ok (in_thread m t)"
  using sys_keeps [of m "sy_server t"] by (auto simp: machine_ok_def in_thread_def split: prod.splits sum.splits)

lemma control_not_zero: "system_ok (sy_server t) \<Longrightarrow> next_control t \<noteq> Some 0"
  by (auto simp: next_control_def system_ok_def dest: nth_mem)

lemma main_turn_goes_on:
  assumes "system_ok s" and "control \<noteq> Some 0" shows "fst (server_turn L control s) = Inr True"
proof -
  obtain r s1 where r: "GetRequest s = (Inr r, s1)" "sv_ipc s1 = sv_ipc s"
    by (cases "ct_requests s") (simp_all add: GetRequest_def)
  have "fst (mgr_run (se_ipc L) b (sv_ipc s)) = Inr ()" for b
    using assms(1) by (simp add: system_ok_def mgr_run_returns)
  then have "fst (on_manager (mgr_run (se_ipc L) b) s1) = Inr ()" for b
    using r(2) by (simp add: on_manager_def case_prod_unfold)
  then obtain s2 where "on_manager (mgr_run (se_ipc L) (r = RECONNECT_IPC)) s1 = (Inr (), s2)"
    by (metis prod.collapse)
  then show ?thesis using assms(2) r(1) by (simp add: server_turn_def run_turn_def)
qed

lemma machine_main_turn:
  assumes "machine_ok t" shows "machine_ok (main_turn L t)"
proof -
  obtain s where "server_turn L (next_control t) (sy_server t) = (Inr True, s)"
    using assms main_turn_goes_on [of "sy_server t" "next_control t" L] control_not_zero [of t] by (metis machine_ok_def prod.collapse)
  then show ?thesis
    using assms sys_keeps [OF sys.y_server_turn, of "sy_server t" L "next_control t"]
    by (simp add: machine_ok_def main_turn_def Let_def)
qed

lemma machine_step: "machine_ok t \<Longrightarrow> machine_ok (system_do L n fmt a t)"
proof (cases a)
  case (Make_pair fd)
  then show ?thesis if "machine_ok t" using that by (cases fd) (auto simp: machine_ok_def)
next
  case (Deliver k)
  then show ?thesis if "machine_ok t"
    using that by (auto simp: Let_def case_prod_unfold intro!: machine_on_server sys.srv_evt)
next
  case (Clock now)
  then show ?thesis if "machine_ok t" using that by (simp add: machine_ok_def system_ok_def)
next
  case Worker_turn
  then show ?thesis if "machine_ok t" using that by (auto simp: worker_turn_def simp del: InfiniteLoop.simps One_nat_def intro!: machine_in_thread sys.server_cb.cb_frame)
qed (auto intro!: machine_on_server machine_in_thread machine_main_turn sys.srv_frame sys_note_client, auto simp: machine_ok_def)

interpretation server_machine: invariant_system "system_do L n fmt" machine_ok for L n fmt
  by unfold_locales (rule machine_step)

lemma low_step_server:
  assumes "low_step s s1"
  shows "ct_wait s1 = ct_wait s \<and> ct_active s1 = ct_active s \<and> ct_shutdown s1 = ct_shutdown s \<and> ct_control s1 = ct_control s \<and> sv_ipc s1 = sv_ipc s"
  using assms by (cases s; cases s1) (simp add: low_step_def controller.defs kserver.defs)

lemma keeps_new_scheduler: "keeps low_step (new_scheduler x kp)"
  unfolding new_scheduler_def by (intro low_rules low_modify low_world world_frame; simp)

lemma blank_sel [simp]:
  "pf_map (blank_server w b c fd) = []" "ct_active (blank_server w b c fd)" "\<not> ct_shutdown (blank_server w b c fd)"
  "ct_control (blank_server w b c fd) = []" "sv_ipc (blank_server w b c fd) = empty_ipc"
  by (simp_all add: blank_server_def)

lemma new_server_ok:
  assumes "new_server L (blank_server w waits sending fd) = (Inr (), s)" (is "new_server L ?b = _")
  shows "system_ok s \<and> \<not> ct_wait s"
proof -
  obtain s1 where s1: "new_scheduler (se_x L) (hk_kproto (se_hooks L)) ?b = (Inr (), s1)"
    using assms by (auto simp: new_server_def seq_def split: prod.splits sum.splits)
  have l: "low_step ?b s1" using keepsD [OF keeps_new_scheduler s1] .
  then have "requests_ok (pf_map s1)" by (simp add: low_step_def pf_good_def)
  moreover obtain i where i: "mgr_start (se_ipc L) empty_ipc = (Inr (), i)" "ipc_ok i"
    using ipc_ok_start [of "se_ipc L"] start_makes_clients [of empty_ipc "se_ipc L"] by (auto simp: new_manager_def empty_ipc_def)
  moreover have "s = s1\<lparr>sv_ipc := i, ct_wait := False\<rparr>"
    using assms s1 i(1) low_step_server [OF l] by (simp add: new_server_def on_manager_def Initialize_def SetWait_def)
  ultimately show ?thesis using low_step_server [OF l] by (simp add: system_ok_def)
qed

section \<open>Properties\<close>

text \<open>
  C1: from a server whose constructor has returned, whatever clients, peers, the clock and the threads do
  in whatever order: the request map of the platform stays well formed and the queue of the manager is for
  peers it has; the worker is never told to end, no control message is the one that ends the main loop,
  and a turn of the main loop that is taken never leaves it. The process ends by a thread that throws only.
\<close>

theorem main_loop_is_never_left:
  assumes "new_server L (blank_server w waits sending fd) = (Inr (), s)"
    and "t = fold (system_do L n fmt) actions (started_system s)"
  shows "requests_ok (pf_map (sy_server t)) \<and> ipc_ok (sv_ipc (sy_server t)) \<and> ct_active (sy_server t) \<and>
    0 \<notin> set (ct_control (sy_server t)) \<and> sy_phase t \<noteq> Loop_left \<and>
    fst (server_turn L (next_control t) (sy_server t)) = Inr True"
proof -
  have "machine_ok (started_system s)"
    using new_server_ok [OF assms(1)] by (simp add: machine_ok_def started_system_def)
  then have "machine_ok t"
    using assms(2) server_machine.good_fold by blast
  then show ?thesis
    using main_turn_goes_on [of "sy_server t" "next_control t" L] control_not_zero [of t] by (simp add: machine_ok_def system_ok_def)
qed

text \<open>Connections that are not served any more stay so as long as they are not accepted anew.\<close>

lemma ends_keeps: "keeps ends_served m \<Longrightarrow> ends_served s (snd (m s))"
  by (simp add: keeps_def)

lemma ends_on_server: "keeps ends_served m \<Longrightarrow> ends_served (sy_server t) (sy_server (on_server m t))"
  by (simp add: on_server_def ends_keeps)

lemma ends_in_thread: "keeps ends_served m \<Longrightarrow> ends_served (sy_server t) (sy_server (in_thread m t))"
  using ends_keeps [of m "sy_server t"] by (auto simp: in_thread_def split: prod.splits sum.splits)

lemma ends_step:
  assumes "\<And>fd. a \<noteq> Accept fd"
  shows "ends_served (sy_server t) (sy_server (system_do L n fmt a t))"
proof (cases a)
  case (Make_pair p)
  then show ?thesis by (cases p) auto
next
  case Main_turn
  then show ?thesis
    using ends_keeps [OF shut.y_server_turn, of "sy_server t" L "next_control t"]
    by (simp add: main_turn_def Let_def case_prod_unfold)
next
  case (Accept fd)
  with assms show ?thesis by blast
next
  case (Deliver k)
  then show ?thesis by (auto simp: Let_def case_prod_unfold intro!: ends_on_server shut.srv_evt)
next
  case Worker_turn
  then show ?thesis
    by (auto simp: worker_turn_def simp del: InfiniteLoop.simps One_nat_def intro!: ends_in_thread shut.server_cb.cb_frame)
qed (auto intro!: ends_on_server ends_in_thread shut.srv_frame)

lemma ended_step:
  assumes "map_of (sv_fds (sy_server t)) fd \<noteq> Some True" and "a \<noteq> Accept fd"
  shows "map_of (sv_fds (sy_server (system_do L n fmt a t))) fd \<noteq> Some True"
proof (cases "\<exists>fd'. a = Accept fd'")
  case True
  then show ?thesis using assms by (auto simp: on_server_def note_client_def update_conv' split: if_splits)
next
  case False
  then have "ends_served (sy_server t) (sy_server (system_do L n fmt a t))" using ends_step by blast
  then show ?thesis using assms(1) unfolding ends_served_def by blast
qed

lemma ended_run:
  "map_of (sv_fds (sy_server t)) fd \<noteq> Some True \<Longrightarrow> Accept fd \<notin> set actions \<Longrightarrow>
    map_of (sv_fds (sy_server (fold (system_do L n fmt) actions t))) fd \<noteq> Some True"
proof (induction actions arbitrary: t)
  case (Cons a actions)
  then show ?case using ended_step [of t fd a L n fmt] by auto
qed simp

lemma shut_in_step:
  assumes "sv_shut (sy_server (system_do L n fmt a t)) = sv_shut (sy_server t) @ shut" and "fd \<in> set shut"
  shows "map_of (sv_fds (sy_server (system_do L n fmt a t))) fd \<noteq> Some True"
proof -
  have "a \<noteq> Accept fd'" for fd' using assms by (auto simp: on_server_def note_client_def split: if_splits)
  then have "ends_served (sy_server t) (sy_server (system_do L n fmt a t))" by (rule ends_step)
  with assms show ?thesis by (auto simp: ends_served_def)
qed

text \<open>
  C21: ending a session shuts the descriptor of its connection. Once an action of whichever thread has shut a descriptor, then whatever the
  clients, the peers, the clock and the
  threads do in whatever order, as long as the descriptor is not accepted anew: a handler of the connection that comes to the head of its loop reads nothing more
  of it, whatever it still sends, but closes the descriptor, and nothing changes but that the listener's map has it as not served. A handler that waited in \<open>recv\<close> by then takes the one
  result it gets, be it bytes, a timeout or, as the shutting of the descriptor makes it, the end of the connection; then it closes the
  descriptor as well without having read again, unless what it does with that result throws.
\<close>

theorem ended_session_is_read_no_more:
  assumes "sv_shut (sy_server (system_do L n fmt a t)) = sv_shut (sy_server t) @ shut" and "fd \<in> set shut"
    and "Accept fd \<notin> set actions" and "s' = sy_server (fold (system_do L n fmt) actions (system_do L n fmt a t))"
  shows "(EndSession fd status u = (Inr (), u') \<longrightarrow> sv_shut u' = sv_shut u @ [fd]) \<and>
    handleClientSocket L n fd rs s' = (Inr True, s'\<lparr>sv_fds := AList.update fd False (sv_fds s')\<rparr>) \<and>
    handler_waiting L n fd (r # rs) s' = (case recv_done L n fd r s' of
      (Inl e, s1) \<Rightarrow> (Inl e, s1)
    | (Inr left, s1) \<Rightarrow> (Inr True, if left then s1 else s1\<lparr>sv_fds := AList.update fd False (sv_fds s1)\<rparr>))"
proof (intro conjI impI)
  assume "EndSession fd status u = (Inr (), u')"
  then show "sv_shut u' = sv_shut u @ [fd]" by (rule EndSession_shuts)
next
  have f: "map_of (sv_fds s') fd \<noteq> Some True"
    unfolding assms(4) by (rule ended_run [OF shut_in_step [OF assms(1,2)] assms(3)])
  show "handleClientSocket L n fd rs s' = (Inr True, s'\<lparr>sv_fds := AList.update fd False (sv_fds s')\<rparr>)"
    by (rule not_served_closes [OF f])
  have "map_of (sv_fds (snd (recv_done L n fd r s'))) fd \<noteq> Some True"
    using ends_keeps [OF shut.y_recv_done, of s' L n fd r] f unfolding ends_served_def by blast
  then show "handler_waiting L n fd (r # rs) s' = (case recv_done L n fd r s' of
      (Inl e, s1) \<Rightarrow> (Inl e, s1)
    | (Inr left, s1) \<Rightarrow> (Inr True, if left then s1 else s1\<lparr>sv_fds := AList.update fd False (sv_fds s1)\<rparr>))"
    by (auto simp: seq_def not_served_closes split: prod.split sum.split)
qed

definition shut_sample :: "(string list, unit) system" where
  "shut_sample = (started_system ((server_with one_session)\<lparr>sv_fds := [(7, True)]\<rparr>))\<lparr>sy_phase := Listening\<rparr>"

lemma shut_sample_shuts:
  "sv_shut (sy_server (system_do sample_env 0 fmt (Taken 7 Disconnected) shut_sample)) = sv_shut (sy_server shut_sample) @ [7]"
proof -
  let ?s = "(server_with one_session)\<lparr>sv_fds := [(7, True)]\<rparr>"
  have "sm_linked (sv_sessions ?s)" using server_with_linked [OF one_session_run] by simp
  from EndSession_split [OF this, of "[]" "''ann''" 0 "session_notify 100 (sample_login ''ann'' 7)" "[]" SESSION_INACTIVE]
  obtain s1 where e: "EndSession 7 SESSION_INACTIVE ?s = (Inr (), s1)" by (auto simp: one_session_sessions)
  then have "recv_done sample_env 0 7 Disconnected ?s = (Inr True, snd (OnClientExit 7 s1))"
    by (simp add: recv_done_def onConnectionClose_def OnClientExit_def EraseMessageHandler_def EraseFileHandler_def)
  moreover have "sv_shut (snd (OnClientExit 7 s1)) = sv_shut s1"
    by (simp add: OnClientExit_def EraseMessageHandler_def EraseFileHandler_def)
  ultimately show ?thesis
    using EndSession_shuts [OF e] by (simp add: shut_sample_def started_system_def running_def in_thread_def)
qed

theorem ended_session_is_read_no_more_witness:
  "let u = system_do sample_env 0 (\<lambda>_. []) (Taken 7 Disconnected) shut_sample;
       s' = sy_server (fold (system_do sample_env 0 (\<lambda>_. [])) [Accept 8, Clock 120] u)
   in sv_shut (sy_server u) = [7] \<and> fst (handleClientSocket sample_env 0 7 [Received ''x''] s') = Inr True \<and>
     fst (handler_waiting sample_env 0 7 [Timed_out, Received ''x''] s') = Inr True"
proof -
  have shut: "sv_shut (sy_server shut_sample) = []" by (simp add: shut_sample_def started_system_def)
  have recv: "recv_done sample_env 0 7 Timed_out u = (Inr False, u)" for u by (simp add: recv_done_def)
  have acts: "7 \<in> set [7::int]" "Accept 7 \<notin> set [Accept 8, Clock 120]" by simp_all
  note closed = ended_session_is_read_no_more [OF shut_sample_shuts [of "\<lambda>_. []"] acts refl,
      where rs = "[Received ''x'']" and r = Timed_out and u = undefined and u' = undefined and status = 0]
  show ?thesis
    unfolding Let_def using closed shut_sample_shuts [of "\<lambda>_. []"] unfolding recv prod.case sum.case shut by auto
qed

text \<open>A database that has the required applications.\<close>

definition app_rows :: "db_row list" where
  "app_rows = map (\<lambda>i. [Some (nat_to_string (Suc i)), Some (REQUIRED_APPLICATIONS ! i)]) [0..<8]"

definition apps_libs :: "string list libs" where
  "apps_libs = log_libs\<lparr>x_exec := \<lambda>stmt db. (Inr app_rows, db)\<rparr>"

definition apps_env :: "(string list, unit) server_env" where
  "apps_env = sample_env\<lparr>se_x := apps_libs\<rparr>"

definition app_rows_map :: "(int \<times> string) list res" where
  "app_rows_map = bind (mapM (row_map [''mask'', ''name'']) app_rows) (\<lambda>rows.
     mapM (\<lambda>row. bind (bind (map_at row ''mask'') stoi) (\<lambda>m. bind (map_at row ''name'') (\<lambda>n. Inr (m, n)))) rows)"

lemma app_rows_map: "app_rows_map = Inr (map (\<lambda>i. (int (Suc i), REQUIRED_APPLICATIONS ! i)) [0..<8])"
  by code_simp

lemma apps_fetched:
  "\<exists>apps. FetchApplicationMap apps_libs s = (Inr apps, s) \<and> required_applications apps = Inr ()"
proof -
  obtain rows where rows: "mapM (row_map [''mask'', ''name'']) app_rows = Inr rows"
    "mapM (\<lambda>row. bind (bind (map_at row ''mask'') stoi) (\<lambda>m. bind (map_at row ''name'') (\<lambda>n. Inr (m, n)))) rows =
       Inr (map (\<lambda>i. (int (Suc i), REQUIRED_APPLICATIONS ! i)) [0..<8])"
    using app_rows_map unfolding app_rows_map_def bind_def by (auto split: sum.splits)
  have "required_applications (fold (\<lambda>kv m. map_insert (fst kv) (snd kv) m)
      (map (\<lambda>i. (int (Suc i), REQUIRED_APPLICATIONS ! i)) [0..<8]) []) = Inr ()"
    by code_simp
  moreover have "kdb_select apps_libs ''apps'' [''mask'', ''name''] [] s = (Inr rows, s)"
    using rows(1) by (simp add: kdb_select_def kdb_try_def query_rows_def pq_exec_def apps_libs_def handle_def seq_def)
  ultimately show ?thesis
    using rows(2) by (simp add: FetchApplicationMap_def)
qed

lemma apps_server_starts: "\<exists>s. new_server apps_env (blank_server log_world True False 0) = (Inr (), s)"
proof -
  obtain apps where apps: "FetchApplicationMap apps_libs (blank_server log_world True False 0 :: (string list, unit) kserver) =
      (Inr apps, blank_server log_world True False 0)" "required_applications apps = Inr ()"
    using apps_fetched by blast
  have x: "se_x apps_env = apps_libs" by (simp add: apps_env_def)
  show ?thesis
    using apps start_makes_clients [of empty_ipc "se_ipc apps_env"]
    by (simp add: new_server_def new_scheduler_def x on_manager_def Initialize_def SetWait_def empty_ipc_def)
qed

theorem main_loop_is_never_left_witness:
  "\<exists>s. new_server apps_env (blank_server log_world True False 0) = (Inr (), s) \<and>
     sy_phase (fold (system_do apps_env 0 (\<lambda>_. [])) [Start_listener, Make_pair (Some 5), Main_turn, Worker_turn, Main_turn]
       (started_system s)) \<noteq> Loop_left"
proof -
  obtain s where "new_server apps_env (blank_server log_world True False 0) = (Inr (), s)"
    using apps_server_starts by blast
  with main_loop_is_never_left [OF this refl, of 0 "\<lambda>_. []" "[Start_listener, Make_pair (Some 5), Main_turn, Worker_turn, Main_turn]"]
  show ?thesis by blast
qed

end
