(* ===== verification/Connection.thy ===== *)
theory Connection
  imports Kdb
begin

text \<open>
  The connection under \<open>KDB\<close>: \<open>src/src/database_connection.cpp\<close>, the constructors of \<open>database/kdb.hpp\<close> and the two
  of its queries that \<open>Kdb\<close> has not, for nothing calls them. \<open>pqxx::connection\<close>, \<open>work\<close> and
  \<open>commit\<close> are the parameter \<open>x_exec\<close>; each query makes a connection of its own.

  Shown: the operations of \<open>Kdb\<close> are those of \<open>KDB\<close> over \<open>query\<close> with its switch on the type of the query
  (\<open>kdb_is_query\<close>); an update that is sent as a \<open>DatabaseQuery\<close> is not sent; what a connection connects to is kept when it
  is moved, its name is not.
\<close>

section \<open>Configuration\<close>

record db_credentials =
  dcr_user :: string
  dcr_password :: string
  dcr_name :: string

record db_configuration =
  dcf_credentials :: db_credentials
  dcf_address :: string
  dcf_port :: string

record database_connection =
  dc_config :: db_configuration
  dc_db_name :: string

definition empty_connection :: database_connection where
  "empty_connection = \<lparr>dc_config = \<lparr>dcf_credentials = \<lparr>dcr_user = [], dcr_password = [], dcr_name = []\<rparr>,
     dcf_address = [], dcf_port = []\<rparr>, dc_db_name = []\<rparr>"

definition set_config :: "db_configuration \<Rightarrow> database_connection \<Rightarrow> bool \<times> database_connection" where
  "set_config config c = (True, c\<lparr>dc_config := config, dc_db_name := dcr_name (dcf_credentials config)\<rparr>)"

text \<open>The move constructor moves the configuration only.\<close>

definition moved_connection :: "database_connection \<Rightarrow> database_connection" where
  "moved_connection c = empty_connection\<lparr>dc_config := dc_config c\<rparr>"

definition dc_name :: "database_connection \<Rightarrow> string" where
  "dc_name c = dc_db_name c"

definition dc_connection_string :: "database_connection \<Rightarrow> string" where
  "dc_connection_string c = (let g = dc_config c; r = dcf_credentials g in
     ''dbname = '' @ dcr_name r @ '' user = '' @ dcr_user r @ '' password = '' @ dcr_password r @
     '' hostaddr = '' @ dcf_address g @ '' port = '' @ dcf_port g)"

text \<open>The constructors of \<open>KDB\<close>: the configured database, a given one, a given connection.\<close>

definition configured :: "(string \<Rightarrow> string \<Rightarrow> string) \<Rightarrow> db_configuration" where
  "configured conf = \<lparr>dcf_credentials = \<lparr>dcr_user = conf ''database'' ''user'', dcr_password = conf ''database'' ''password'',
     dcr_name = conf ''database'' ''name''\<rparr>, dcf_address = conf ''database'' ''host'', dcf_port = conf ''database'' ''port''\<rparr>"

definition new_kdb_with :: "database_connection \<Rightarrow> db_configuration \<Rightarrow> database_connection" where
  "new_kdb_with c config = snd (set_config config c)"

definition new_kdb_config :: "db_configuration \<Rightarrow> database_connection" where
  "new_kdb_config config = new_kdb_with empty_connection config"

definition new_kdb :: "(string \<Rightarrow> string \<Rightarrow> string) \<Rightarrow> database_connection" where
  "new_kdb conf = new_kdb_config (configured conf)"

text \<open>A \<open>KDB\<close> that was moved from has no connection.\<close>

definition moved_kdb :: "database_connection option \<Rightarrow> database_connection option \<times> database_connection option" where
  "moved_kdb k = (k, None)"

lemma new_kdb_connects: "dc_connection_string (new_kdb (x_conf x)) = connection_string x"
  by (simp add: new_kdb_def new_kdb_config_def new_kdb_with_def set_config_def dc_connection_string_def configured_def
      connection_string_def Let_def)

lemma moved_connection_keeps:
  "dc_connection_string (moved_connection c) = dc_connection_string c" "dc_name (moved_connection c) = []"
  by (simp_all add: moved_connection_def dc_connection_string_def dc_name_def empty_connection_def)

section \<open>Statements\<close>

definition do_insert :: "'db libs \<Rightarrow> db_query \<Rightarrow> (('db, 'm) world_scheme, db_row list) act" where
  "do_insert x q = seq (of_res (insert_statement q)) (pq_exec x)"

definition do_insert_returning :: "'db libs \<Rightarrow> insert_return_query \<Rightarrow> string \<Rightarrow> (('db, 'm) world_scheme, db_row list) act" where
  "do_insert_returning x q returning = seq (of_res (insert_statement_returning q returning)) (pq_exec x)"

definition do_update :: "'db libs \<Rightarrow> update_return_query \<Rightarrow> string \<Rightarrow> (('db, 'm) world_scheme, db_row list) act" where
  "do_update x q returning = seq (of_res (update_statement q returning False)) (pq_exec x)"

definition do_delete :: "'db libs \<Rightarrow> db_query \<Rightarrow> (('db, 'm) world_scheme, db_row list) act" where
  "do_delete x q = pq_exec x (delete_statement q)"

definition do_select :: "'db libs \<Rightarrow> string res \<Rightarrow> (('db, 'm) world_scheme, db_row list) act" where
  "do_select x stmt = seq (of_res stmt) (pq_exec x)"

section \<open>Queries\<close>

record query_result =
  qr_table :: string
  qr_values :: "result_map list"

definition no_result :: query_result where
  "no_result = \<lparr>qr_table = [], qr_values = []\<rparr>"

definition selected :: "string \<Rightarrow> string list \<Rightarrow> db_row list \<Rightarrow> query_result res" where
  "selected table flds rows = bind (mapM (row_map flds) rows) (\<lambda>vs. Inr \<lparr>qr_table = table, qr_values = vs\<rparr>)"

text \<open>Every value of every row of a deletion's answer is put under the one name.\<close>

definition deleted :: "string \<Rightarrow> query_filter \<Rightarrow> db_row list \<Rightarrow> query_result res" where
  "deleted table flt rows =
     bind (fold (\<lambda>v r. bind r (\<lambda>m. bind (vec_front flt) (\<lambda>(k, _). Inr (m(k \<mapsto> cell v))))) (concat rows) (Inr Map.empty))
       (\<lambda>m. Inr \<lparr>qr_table = table, qr_values = [m]\<rparr>)"

definition query_DatabaseQuery :: "'db libs \<Rightarrow> db_query \<Rightarrow> (('db, 'm) world_scheme, query_result) act" where
  "query_DatabaseQuery x q = (case dq_type q of
     Q_INSERT \<Rightarrow> kdb_try (seq (do_insert x q) (\<lambda>_. ret no_result))
   | Q_SELECT \<Rightarrow> seq (do_select x (Inr (select_DatabaseQuery q))) (\<lambda>rows. of_res (selected (dq_table q) (dq_fields q) rows))
   | Q_DELETE \<Rightarrow> seq (do_delete x q) (\<lambda>rows. of_res (deleted (dq_table q) (dq_filter q) rows))
   | Q_UPDATE \<Rightarrow> ret no_result)"

text \<open>The template, with the statement that the overload of \<open>select_statement\<close> makes.\<close>

definition query_any :: "'db libs \<Rightarrow> string \<Rightarrow> string list \<Rightarrow> string res \<Rightarrow> (('db, 'm) world_scheme, query_result) act" where
  "query_any x table flds stmt = seq (do_select x stmt) (\<lambda>rows. of_res (selected table flds rows))"

definition first_value :: "db_row list \<Rightarrow> string res" where
  "first_value rows = (case rows of (v # _) # _ \<Rightarrow> cell_as_string v | _ \<Rightarrow> Inr [])"

definition query_InsertReturn :: "'db libs \<Rightarrow> insert_return_query \<Rightarrow> (('db, 'm) world_scheme, string) act" where
  "query_InsertReturn x q = seq (do_insert_returning x q (ir_returning q)) (\<lambda>rows. of_res (first_value rows))"

definition query_UpdateReturn :: "'db libs \<Rightarrow> update_return_query \<Rightarrow> (('db, 'm) world_scheme, string) act" where
  "query_UpdateReturn x q = seq (do_update x q (ur_returning q)) (\<lambda>rows. of_res (first_value rows))"

section \<open>KDB\<close>

definition values_of :: "(('db, 'm) world_scheme, query_result) act \<Rightarrow> (('db, 'm) world_scheme, result_map list) act" where
  "values_of m = kdb_try (seq m (\<lambda>r. ret (qr_values r)))"

definition kdb_selectCompare ::
  "'db libs \<Rightarrow> string \<Rightarrow> string list \<Rightarrow> filter_term list \<Rightarrow> (('db, 'm) world_scheme, result_map list) act" where
  "kdb_selectCompare x table flds flt = values_of (query_any x table flds (select_ComparisonBetween table flds flt))"

definition kdb_selectMultiFilter_generic ::
  "'db libs \<Rightarrow> string \<Rightarrow> string list \<Rightarrow> filter_term list \<Rightarrow> (('db, 'm) world_scheme, result_map list) act" where
  "kdb_selectMultiFilter_generic x table flds flt = values_of (query_any x table flds (select_MultiFilter table flds flt))"

definition kdb_removed :: "query_filter \<Rightarrow> query_result \<Rightarrow> string res" where
  "kdb_removed flt r = (case qr_values r of
     [] \<Rightarrow> Inr []
   | m # _ \<Rightarrow> bind (vec_front flt) (\<lambda>(k, _). Inr (case m k of None \<Rightarrow> [] | Some v \<Rightarrow> v)))"

lemma seq_of_res_bind: "seq m (\<lambda>a. of_res (bind (f a) (\<lambda>b. Inr (g b)))) = seq (seq m (\<lambda>a. of_res (f a))) (\<lambda>b. ret (g b))"
  by (rule ext) (simp add: seq_def bind_def of_res_def ret_def split: prod.split sum.split)

lemma seq_assoc: "seq (seq m f) g = seq m (\<lambda>a. seq (f a) g)"
  by (rule ext) (simp add: seq_def split: prod.split sum.split)

lemma seq_ret [simp]: "seq m (\<lambda>a. Pair (Inr a)) = m"
  by (rule ext) (simp add: seq_def split: prod.split sum.split)

lemma ret_seq [simp]: "seq (ret a) f = f a"
  by (rule ext) (simp add: seq_def ret_def)

lemma values_of_any: "values_of (query_any x table flds stmt) = kdb_try (query_rows x flds stmt)"
  by (simp add: values_of_def query_any_def selected_def seq_of_res_bind seq_assoc do_select_def query_rows_def)

lemma kdb_try_twice: "kdb_try (seq (kdb_try m) (\<lambda>_. ret a)) = kdb_try (seq m (\<lambda>_. ret a))"
  by (rule ext) (simp add: kdb_try_def handle_def seq_def raise_def ret_def rethrow_def split: prod.split sum.split)

lemma deleted_fold:
  "fold (\<lambda>v r. bind r (\<lambda>m. bind (vec_front ((k, w) # flt)) (\<lambda>(k, _). Inr (m(k \<mapsto> cell v))))) vs (Inr m) =
     Inr (if vs = [] then m else m(k \<mapsto> cell (last vs)))"
  by (induction vs arbitrary: m) (simp_all add: vec_front_def)

lemma kdb_remove_rows:
  "bind (deleted table flt rows) (kdb_removed flt) =
     bind (vec_front flt) (\<lambda>_. Inr (case concat rows of [] \<Rightarrow> [] | vs \<Rightarrow> cell (last vs)))"
proof (cases flt)
  case Nil
  have "fold (\<lambda>v r. bind r (\<lambda>m. Inl Undefined)) vs (Inl e :: result_map res) = Inl e" for vs :: "string option list" and e
    by (induction vs) (simp_all add: bind_def)
  then show ?thesis
    unfolding deleted_def Nil by (cases "concat rows") (simp_all only: fold_simps, simp_all add: kdb_removed_def vec_front_def bind_def)
next
  case (Cons f fs)
  obtain k v vs where "f = (k, v)" "concat rows = vs" by (cases f) blast
  with Cons show ?thesis
    unfolding deleted_def Cons by (cases vs) (simp_all only: deleted_fold, simp_all add: kdb_removed_def vec_front_def)
qed

text \<open>The operations of \<open>Kdb\<close>, each as \<open>KDB\<close> has it: a query, its values, and the handlers around it.\<close>

lemma kdb_is_query:
  "kdb_select x table flds flt = values_of (query_DatabaseQuery x
     \<lparr>dq_table = table, dq_fields = flds, dq_type = Q_SELECT, dq_values = [], dq_filter = flt\<rparr>)"
  "kdb_select_comparison x table flds cmps = values_of (query_any x table flds (Inr (select_Comparison table flds cmps)))"
  "kdb_selectMultiFilter x table flds terms order limit =
     values_of (query_any x table flds (select_MultiVariant table flds terms order limit))"
  "kdb_selectJoin x table flds flt joins = values_of (query_any x table flds (Inr (select_JoinFilter table flds flt joins)))"
  "kdb_selectSimpleJoin x table flds flt j = values_of (query_any x table flds (Inr (select_SimpleJoin table flds flt j)))"
  "kdb_insert x table flds vals = kdb_try (seq (query_DatabaseQuery x
     \<lparr>dq_table = table, dq_fields = flds, dq_type = Q_INSERT, dq_values = vals, dq_filter = []\<rparr>) (\<lambda>_. ret True))"
  "kdb_insert_returning x table flds vals returning = kdb_try (query_InsertReturn x
     \<lparr>ir_table = table, ir_fields = flds, ir_values = vals, ir_returning = returning\<rparr>)"
  "kdb_update x table flds vals flt returning = kdb_try (query_UpdateReturn x
     \<lparr>ur_table = table, ur_fields = flds, ur_values = vals, ur_filter = flt, ur_returning = returning\<rparr>)"
  "kdb_remove x table flt = kdb_try (seq (query_DatabaseQuery x
     \<lparr>dq_table = table, dq_fields = [], dq_type = Q_DELETE, dq_values = [], dq_filter = flt\<rparr>) (\<lambda>r. of_res (kdb_removed flt r)))"
proof -
  show "kdb_select x table flds flt = values_of (query_DatabaseQuery x
      \<lparr>dq_table = table, dq_fields = flds, dq_type = Q_SELECT, dq_values = [], dq_filter = flt\<rparr>)"
    by (simp add: query_DatabaseQuery_def kdb_select_def values_of_any [unfolded query_any_def])
  show "kdb_insert x table flds vals = kdb_try (seq (query_DatabaseQuery x
      \<lparr>dq_table = table, dq_fields = flds, dq_type = Q_INSERT, dq_values = vals, dq_filter = []\<rparr>) (\<lambda>_. ret True))"
    by (rule ext) (simp add: query_DatabaseQuery_def kdb_insert_def do_insert_def kdb_try_def handle_def seq_def raise_def ret_def
        rethrow_def of_res_def split: prod.split sum.split)
  have r: "seq (seq m (\<lambda>rows. of_res (f rows))) (\<lambda>r. of_res (g r)) = seq m (\<lambda>rows. of_res (bind (f rows) g))"
    for m :: "('s, 'r) act" and f :: "'r \<Rightarrow> 't res" and g :: "'t \<Rightarrow> 'u res"
    by (rule ext) (simp add: seq_def bind_def of_res_def split: prod.split sum.split)
  have v: "seq m (\<lambda>rows. seq (of_res (f rows)) (\<lambda>_. ret (g rows))) = seq m (\<lambda>rows. of_res (bind (f rows) (\<lambda>_. Inr (g rows))))"
    for m :: "('s, 'r) act" and f :: "'r \<Rightarrow> 't res" and g :: "'r \<Rightarrow> 'u"
    by (rule ext) (simp add: seq_def bind_def of_res_def ret_def split: prod.split sum.split)
  show "kdb_remove x table flt = kdb_try (seq (query_DatabaseQuery x
      \<lparr>dq_table = table, dq_fields = [], dq_type = Q_DELETE, dq_values = [], dq_filter = flt\<rparr>) (\<lambda>r. of_res (kdb_removed flt r)))"
    by (simp add: query_DatabaseQuery_def kdb_remove_def r v kdb_remove_rows do_delete_def)
qed (simp_all add: values_of_any kdb_select_comparison_def kdb_selectMultiFilter_def kdb_selectJoin_def kdb_selectSimpleJoin_def
    kdb_insert_returning_def kdb_update_def query_value_def query_InsertReturn_def query_UpdateReturn_def first_value_def
    do_insert_returning_def do_update_def seq_assoc)

lemma update_is_not_sent: "dq_type q = Q_UPDATE \<Longrightarrow> query_DatabaseQuery x q w = (Inr no_result, w)"
  by (simp add: query_DatabaseQuery_def ret_def)

end
