(* ===== verification/Shell.thy ===== *)
theory Shell
  imports Executor Timers
begin

text \<open>
  What the program hands to the shell, and what is around it: \<open>SystemUtils::SendMail\<close> and the small functions
  of \<open>common/util.cpp\<close> that no component calls, the jobs of \<open>system/cron.hpp\<close>, the object \<open>ProcessExecutor\<close> and
  the directory of a program (\<open>executor/executor.cpp\<close>).

  The shell is an argument: what a command does to the world outside, and what the file \<open>cron.txt\<close> holds.

  Shown: whatever a message says, the shell reads it as one quoted word; a subject with a quote is read as
  commands. A job counts as found if its path occurs in the listing, so one that is deleted is reported as
  kept while another has its path in it.
\<close>

section \<open>Mail\<close>

definition MAIL_HEADER :: string where
  "MAIL_HEADER = ''MIME-Version: 1.0'' @ newline # ''Content-Type: text/html'' @ [newline, newline]"

definition mail_text :: "(string \<Rightarrow> string \<Rightarrow> string) \<Rightarrow> string \<Rightarrow> string \<Rightarrow> string" where
  "mail_text conf message subject =
     ''FROM: '' @ conf ''email'' ''admin'' @ newline # ''Subject: '' @ subject @ newline # MAIL_HEADER @ SanitizeSingleQuotes message"

definition mail_command :: "(string \<Rightarrow> string \<Rightarrow> string) \<Rightarrow> string \<Rightarrow> string \<Rightarrow> string \<Rightarrow> string" where
  "mail_command conf recipient message subject =
     ''echo -e '' @ squote # mail_text conf message subject @ squote # ''|'' @ conf ''email'' ''command'' @ '' '' @ recipient"

definition run_mail :: "(string \<Rightarrow> 'w \<Rightarrow> 'w) \<Rightarrow> (string \<Rightarrow> string \<Rightarrow> string) \<Rightarrow> string \<Rightarrow> string \<Rightarrow> string \<Rightarrow> 'w \<Rightarrow> 'w" where
  "run_mail sh conf recipient message subject = sh (c_str (mail_command conf recipient message subject))"

text \<open>How the shell reads a word in single quotes, after the first of them: to the next, whatever is between.\<close>

fun sh_quoted :: "string \<Rightarrow> (string \<times> string) option" where
  "sh_quoted [] = None"
| "sh_quoted (c # s) = (if c = squote then Some ([], s) else map_option (\<lambda>(t, r). (c # t, r)) (sh_quoted s))"

lemma sh_quoted_word: "squote \<notin> set t \<Longrightarrow> sh_quoted (t @ squote # r) = Some (t, r)"
  by (induction t) auto

section \<open>Jobs\<close>

record weekly_job =
  wj_path :: string
  wj_day :: int
  wj_hour :: int
  wj_minute :: int
  wj_type :: job_type

record daily_job =
  dj_path :: string
  dj_hour :: int
  dj_minute :: int
  dj_type :: job_type

definition listJobs :: "(string \<Rightarrow> 'w \<Rightarrow> 'w) \<Rightarrow> ('w \<Rightarrow> string) \<Rightarrow> 'w \<Rightarrow> string \<times> 'w" where
  "listJobs sh cron_txt w = (let w' = sh ''crontab -l > cron.txt'' w in (cron_txt w', w'))"

definition findJob :: "(string \<Rightarrow> 'w \<Rightarrow> 'w) \<Rightarrow> ('w \<Rightarrow> string) \<Rightarrow> string \<Rightarrow> 'w \<Rightarrow> bool \<times> 'w" where
  "findJob sh cron_txt job_command w = (let (jobs, w') = listJobs sh cron_txt w in (str_contains jobs job_command, w'))"

text \<open>Whether \<open>addJob\<close> and \<open>deleteJob\<close> log that they succeeded.\<close>

definition addJob :: "(string \<Rightarrow> 'w \<Rightarrow> 'w) \<Rightarrow> ('w \<Rightarrow> string) \<Rightarrow> single_job \<Rightarrow> 'w \<Rightarrow> bool \<times> 'w" where
  "addJob sh cron_txt job w = findJob sh cron_txt (job_path job) (sh (c_str (createJobCommand job)) w)"

definition delete_command :: "string \<Rightarrow> string" where
  "delete_command path = ''crontab -l | grep -v '' @ dquote # path @ dquote # '' |crontab -''"

definition deleteJob :: "(string \<Rightarrow> 'w \<Rightarrow> 'w) \<Rightarrow> ('w \<Rightarrow> string) \<Rightarrow> single_job \<Rightarrow> 'w \<Rightarrow> bool \<times> 'w" where
  "deleteJob sh cron_txt job w =
     (let (found, w') = findJob sh cron_txt (job_path job) (sh (c_str (delete_command (job_path job))) w) in (\<not> found, w'))"

lemma deleted_job_is_reported_by_path:
  assumes "cron_txt (sh ''crontab -l > cron.txt'' (sh (c_str (delete_command (job_path job))) w)) = a @ job_path job @ b"
  shows "fst (deleteJob sh cron_txt job w) = False"
proof -
  have "starts_with p (p @ s)" for p s by (induction p) simp_all
  then have "find_str p (a @ p @ b) \<noteq> None" for p
  proof (induction a)
    case Nil
    then show ?case using Nil [of p b] by (cases "p @ b") simp_all
  qed simp
  then show ?thesis
    using assms by (simp add: deleteJob_def findJob_def listJobs_def str_contains_def Let_def)
qed

section \<open>The executor\<close>

record 's process_executor =
  pe_callback :: "(string \<Rightarrow> int \<Rightarrow> int \<Rightarrow> bool \<Rightarrow> ('s, unit) act) option"
  pe_tracked :: "(string \<Rightarrow> int \<Rightarrow> string \<Rightarrow> int \<Rightarrow> bool \<Rightarrow> ('s, unit) act) option"

definition new_executor :: "'s process_executor" where
  "new_executor = \<lparr>pe_callback = None, pe_tracked = None\<rparr>"

definition executor_copy :: "'s process_executor \<Rightarrow> 's process_executor" where
  "executor_copy e = \<lparr>pe_callback = pe_callback e, pe_tracked = pe_tracked e\<rparr>"

text \<open>The new one, and what is left of the old.\<close>

definition executor_move :: "'s process_executor \<Rightarrow> 's process_executor \<times> 's process_executor" where
  "executor_move e = (executor_copy e, new_executor)"

text \<open>The assignments; \<open>None\<close> if an executor is assigned to itself.\<close>

definition executor_assign :: "'s process_executor option \<Rightarrow> 's process_executor \<Rightarrow> 's process_executor" where
  "executor_assign src this = (let this = new_executor in case src of None \<Rightarrow> this | Some e \<Rightarrow> executor_copy e)"

definition executor_move_assign ::
  "'s process_executor option \<Rightarrow> 's process_executor \<Rightarrow> 's process_executor \<times> 's process_executor option" where
  "executor_move_assign src this = (case src of None \<Rightarrow> (this, None) | Some e \<Rightarrow> (executor_copy e, Some new_executor))"

definition setEventCallback :: "(string \<Rightarrow> int \<Rightarrow> int \<Rightarrow> bool \<Rightarrow> ('s, unit) act) \<Rightarrow> 's process_executor \<Rightarrow> 's process_executor" where
  "setEventCallback f e = e\<lparr>pe_callback := Some f\<rparr>"

definition setTrackedCallback ::
  "(string \<Rightarrow> int \<Rightarrow> string \<Rightarrow> int \<Rightarrow> bool \<Rightarrow> ('s, unit) act) \<Rightarrow> 's process_executor \<Rightarrow> 's process_executor" where
  "setTrackedCallback f e = e\<lparr>pe_tracked := Some f\<rparr>"

definition notifyProcessEvent :: "'s process_executor \<Rightarrow> string \<Rightarrow> int \<Rightarrow> int \<Rightarrow> bool \<Rightarrow> ('s, unit) act" where
  "notifyProcessEvent e out msk fd err = (case pe_callback e of
     None \<Rightarrow> raise (RuntimeError ''bad_function_call'') | Some f \<Rightarrow> f out msk fd err)"

definition notifyTrackedProcessEvent :: "'s process_executor \<Rightarrow> string \<Rightarrow> int \<Rightarrow> string \<Rightarrow> int \<Rightarrow> bool \<Rightarrow> ('s, unit) act" where
  "notifyTrackedProcessEvent e out msk i fd err = (case pe_tracked e of
     None \<Rightarrow> raise (RuntimeError ''bad_function_call'') | Some f \<Rightarrow> f out msk i fd err)"

text \<open>An executor that is assigned to itself forgets its callbacks: what it runs then ends by an exception.\<close>

lemma self_assigned_executor:
  "notifyTrackedProcessEvent (executor_assign None e) out msk i fd err s = (Inl (RuntimeError ''bad_function_call''), s)"
  by (simp add: executor_assign_def new_executor_def notifyTrackedProcessEvent_def raise_def)

text \<open>\<open>data\<close> of the view is read to the end of the text it is a view of.\<close>

definition findWorkDir :: "string \<Rightarrow> string" where
  "findWorkDir path = c_str path"

definition GetExecutableCWD :: "string \<Rightarrow> string" where
  "GetExecutableCWD full_path = (if length full_path < 8 then full_path else take (length full_path - 8) full_path)"

lemma executable_dir: "GetExecutableCWD (d @ ''/kserver'') = d"
  by (simp add: GetExecutableCWD_def)

section \<open>Helpers\<close>

definition saveFopenFile :: "fsys \<Rightarrow> string \<Rightarrow> string \<Rightarrow> fsys" where
  "saveFopenFile fs bytes filename = SaveFile_bytes fs bytes filename"

text \<open>The memory from \<open>data\<close> on; \<open>None\<close> if no zero is in what may be read.\<close>

fun FindNullIndex :: "8 word list \<Rightarrow> nat option" where
  "FindNullIndex [] = None"
| "FindNullIndex (b # bs) = (if b = 0 then Some 0 else map_option Suc (FindNullIndex bs))"

definition ToBinaryString :: "'a::len word \<Rightarrow> string" where
  "ToBinaryString x = map (\<lambda>i. if bit x i then CHR ''1'' else CHR ''0'') (rev [0..<LENGTH('a)])"

definition TimeNow :: "int \<Rightarrow> string" where
  "TimeNow now = int_to_string now"

definition FormatTimestamp_string :: "(int \<Rightarrow> string) \<Rightarrow> string \<Rightarrow> string res" where
  "FormatTimestamp_string fmt unixtime = bind (stoi unixtime) (\<lambda>t. Inr (fmt t))"

lemma FindNullIndex_first:
  "FindNullIndex bs = Some n \<Longrightarrow> n < length bs \<and> bs ! n = 0 \<and> 0 \<notin> set (take n bs)"
  by (induction bs arbitrary: n) (auto split: if_splits)

section \<open>Properties\<close>

text \<open>
  C36: where the configured sender and the subject of a mail have no single quote, and none of the sender, the subject, the
  message, the configured command and the recipient has a NUL, then whatever else the message of the mail says,
  quotes and all, the shell reads the text of the mail as one word in
  quotes, and what it runs after it is the configured command with the recipient.
\<close>

theorem message_stays_quoted:
  assumes "squote \<notin> set (conf ''email'' ''admin'' @ subject)"
    and "CHR 0x00 \<notin> set (conf ''email'' ''admin'' @ subject @ message @ conf ''email'' ''command'' @ recipient)"
  shows "run_mail sh conf recipient message subject = sh (mail_command conf recipient message subject) \<and>
    take 9 (mail_command conf recipient message subject) = ''echo -e '' @ [squote] \<and>
    sh_quoted (drop 9 (mail_command conf recipient message subject)) =
      Some (mail_text conf message subject, ''|'' @ conf ''email'' ''command'' @ '' '' @ recipient)"
proof -
  have "squote \<notin> set (mail_text conf message subject)"
    using assms(1) SanitizeSingleQuotes_no_quotes [of message] by (simp add: mail_text_def MAIL_HEADER_def)
  moreover have "CHR 0x00 \<notin> set (SanitizeSingleQuotes message)"
    using assms(2) by (auto simp: SanitizeSingleQuotes_def)
  then have "CHR 0x00 \<notin> set (mail_command conf recipient message subject)"
    using assms(2) by (simp add: mail_command_def mail_text_def MAIL_HEADER_def)
  ultimately show ?thesis
    using c_str_id [of "mail_command conf recipient message subject"] by (simp add: run_mail_def) (simp add: mail_command_def sh_quoted_word)
qed

theorem message_stays_quoted_witness:
  "map_option snd (sh_quoted (drop 9 (mail_command (\<lambda>_ k. if k = ''admin'' then ''a'' else ''m'') ''r''
     (squote # ''; reboot '' @ [squote]) ''KIQ''))) = Some ''|m r''"
proof -
  let ?conf = "\<lambda>(_ :: string) k. if k = ''admin'' then ''a'' else ''m''"
  have "squote \<notin> set (?conf ''email'' ''admin'' @ ''KIQ'')"
    "CHR 0x00 \<notin> set (?conf ''email'' ''admin'' @ ''KIQ'' @ (squote # ''; reboot '' @ [squote]) @ ?conf ''email'' ''command'' @ ''r'')"
    by simp_all
  from message_stays_quoted [where sh = "\<lambda>_ w. w :: unit", OF this] show ?thesis by simp
qed

text \<open>A subject with a quote in it ends the word, and its rest is read as commands.\<close>

lemma subject_leaves_quotes:
  assumes "squote \<notin> set (conf ''email'' ''admin'' @ before)"
  shows "\<exists>t r. sh_quoted (drop 9 (mail_command conf recipient message (before @ squote # after))) = Some (t, after @ r)"
proof -
  let ?t = "''FROM: '' @ conf ''email'' ''admin'' @ newline # ''Subject: '' @ before"
  obtain r where "drop 9 (mail_command conf recipient message (before @ squote # after)) = ?t @ squote # after @ r"
    by (simp add: mail_command_def mail_text_def)
  moreover have "squote \<notin> set ?t" using assms by simp
  ultimately show ?thesis using sh_quoted_word [of ?t "after @ r"] by auto
qed

end
