(* ===== verification/IpcWorker.thy ===== *)
theory IpcWorker
  imports Prelude
begin

text \<open>
  The life of the thread that receives from peers: \<open>IPCWorker\<close> of \<open>process/ipc/worker.cpp\<close>, its flags, its socket
  and the position of its thread in \<open>run\<close>. What it receives is in \<open>IpcManager\<close>; here \<open>recv\<close> is a step that
  returns, as the timeout of its socket makes it do.

  The flags are plain members that other threads write while the thread reads them: each read and each
  write is a step of its own, but for the two of \<open>connect\<close>. A request to connect anew that is made between them is
  lost, and the socket is new by then.

  Shown: the thread receives only from a socket that is open and connected, and connects no closed one; once
  it is told to stop it ends within seven steps, whatever was asked of it before.
\<close>

section \<open>State\<close>

datatype position =
    No_thread | At_connect | At_recv | At_reconnect_flag | At_disconnect | At_reconnect | At_active_flag | Ended_thread

record ipc_worker =
  wk_position :: position
  wk_active :: bool
  wk_reconnect :: bool
  wk_open :: bool
  wk_connected :: bool

definition new_worker :: ipc_worker where
  "new_worker = \<lparr>wk_position = No_thread, wk_active = True, wk_reconnect = False, wk_open = True, wk_connected = False\<rparr>"

section \<open>Operations\<close>

text \<open>
  \<open>None\<close> while a thread runs: \<open>async\<close> would make a second one on the same socket before the assignment of
  the future waits for the first. The manager starts each worker once.
\<close>

definition worker_start :: "ipc_worker \<Rightarrow> ipc_worker option" where
  "worker_start w = (if wk_position w = No_thread \<or> wk_position w = Ended_thread
     then Some (w\<lparr>wk_active := True, wk_position := At_connect\<rparr>) else None)"

definition worker_stop :: "ipc_worker \<Rightarrow> ipc_worker" where
  "worker_stop w = w\<lparr>wk_active := False\<rparr>"

definition worker_reconnect :: "ipc_worker \<Rightarrow> ipc_worker" where
  "worker_reconnect w = w\<lparr>wk_reconnect := True\<rparr>"

definition connect_socket :: "ipc_worker \<Rightarrow> ipc_worker" where
  "connect_socket w = (let w' = (if wk_reconnect w then w\<lparr>wk_open := True, wk_reconnect := False\<rparr> else w)
     in w'\<lparr>wk_connected := wk_open w'\<rparr>)"

definition worker_disconnect :: "ipc_worker \<Rightarrow> ipc_worker" where
  "worker_disconnect w = w\<lparr>wk_open := False, wk_connected := False\<rparr>"

definition at :: "position \<Rightarrow> ipc_worker \<Rightarrow> ipc_worker" where
  "at p w = w\<lparr>wk_position := p\<rparr>"

text \<open>A step of the thread.\<close>

definition thread_step :: "ipc_worker \<Rightarrow> ipc_worker" where
  "thread_step w = (case wk_position w of
     No_thread \<Rightarrow> w
   | At_connect \<Rightarrow> at At_recv (connect_socket w)
   | At_recv \<Rightarrow> at At_reconnect_flag w
   | At_reconnect_flag \<Rightarrow> at (if wk_reconnect w then At_disconnect else At_active_flag) w
   | At_disconnect \<Rightarrow> at At_reconnect (worker_disconnect w)
   | At_reconnect \<Rightarrow> at At_recv (connect_socket w)
   | At_active_flag \<Rightarrow> at (if wk_active w then At_recv else Ended_thread) w
   | Ended_thread \<Rightarrow> w)"

text \<open>The destructor waits for the thread, so it is run when none runs.\<close>

definition destroy_worker :: "ipc_worker \<Rightarrow> ipc_worker option" where
  "destroy_worker w = (if wk_position w = No_thread \<or> wk_position w = Ended_thread
     then Some (w\<lparr>wk_active := False, wk_open := False, wk_connected := False\<rparr>) else None)"

datatype worker_op = Start_worker | Stop_worker | Ask_reconnect | Thread_step

fun worker_op_step :: "worker_op \<Rightarrow> ipc_worker \<Rightarrow> ipc_worker" where
  "worker_op_step Start_worker w = (case worker_start w of None \<Rightarrow> w | Some w' \<Rightarrow> w')"
| "worker_op_step Stop_worker w = worker_stop w"
| "worker_op_step Ask_reconnect w = worker_reconnect w"
| "worker_op_step Thread_step w = thread_step w"

section \<open>The invariant\<close>

definition worker_ok :: "ipc_worker \<Rightarrow> bool" where
  "worker_ok w \<longleftrightarrow>
     (wk_position w \<in> {At_disconnect, At_reconnect} \<longrightarrow> wk_reconnect w) \<and>
     (wk_position w \<noteq> At_reconnect \<longrightarrow> wk_open w) \<and>
     (wk_position w \<notin> {No_thread, At_connect, At_reconnect} \<longrightarrow> wk_connected w)"

lemmas worker_ops = worker_start_def worker_stop_def worker_reconnect_def connect_socket_def worker_disconnect_def at_def
  thread_step_def Let_def

lemma worker_ok_new: "worker_ok new_worker"
  by (simp add: worker_ok_def new_worker_def)

lemma worker_ok_step: "worker_ok w \<Longrightarrow> worker_ok (worker_op_step op w)"
  by (cases op; cases "wk_position w") (auto simp: worker_ok_def worker_ops)

interpretation receiving: invariant_system worker_op_step worker_ok
  by unfold_locales (rule worker_ok_step)

text \<open>How many steps are left once the thread is told to stop, at most.\<close>

definition steps_left :: "ipc_worker \<Rightarrow> nat" where
  "steps_left w = (case wk_position w of
     No_thread \<Rightarrow> 0 | Ended_thread \<Rightarrow> 0 | At_active_flag \<Rightarrow> (if wk_active w then 8 else 1)
   | At_reconnect_flag \<Rightarrow> (if wk_reconnect w then 6 else 2)
   | At_recv \<Rightarrow> (if wk_reconnect w then 7 else 3) | At_connect \<Rightarrow> 4 | At_reconnect \<Rightarrow> 4 | At_disconnect \<Rightarrow> 5)"

lemma steps_left_stop: "steps_left (worker_stop w) \<le> 7"
  by (cases "wk_position w") (simp_all add: steps_left_def worker_ops)

lemma thread_step_stopped:
  assumes "worker_ok w" and "\<not> wk_active w"
  shows "steps_left (thread_step w) = steps_left w - 1 \<and> \<not> wk_active (thread_step w) \<and>
    (wk_position w \<noteq> No_thread \<longrightarrow> wk_position (thread_step w) \<noteq> No_thread)"
  using assms by (cases "wk_position w") (auto simp: steps_left_def worker_ok_def worker_ops)

lemma thread_steps_end:
  assumes "worker_ok w" and "\<not> wk_active w" and "wk_position w \<noteq> No_thread" and "steps_left w \<le> n"
  shows "wk_position ((thread_step ^^ n) w) = Ended_thread"
  using assms
proof (induction n arbitrary: w)
  case 0
  then show ?case by (cases "wk_position w") (auto simp: steps_left_def split: if_splits)
next
  case (Suc n)
  have "worker_ok (thread_step w)" using worker_ok_step [OF Suc.prems(1), of Thread_step] by simp
  then show ?case
    using Suc.IH [of "thread_step w"] thread_step_stopped [OF Suc.prems(1,2)] Suc.prems(3,4)
    by (simp add: funpow_Suc_right del: funpow.simps)
qed

section \<open>Properties\<close>

text \<open>
  C37: whatever was asked of the receiver before, and wherever its thread is, once it is told to stop the thread
  ends within seven of its steps; until then it receives only from a socket that is open and connected.
\<close>

theorem stopped_worker_ends:
  assumes "w = fold worker_op_step ops new_worker" and "wk_position w \<noteq> No_thread"
  shows "wk_position ((thread_step ^^ 7) (worker_stop w)) = Ended_thread \<and>
    (wk_position w = At_recv \<longrightarrow> wk_open w \<and> wk_connected w)"
proof -
  have ok: "worker_ok w" using assms(1) receiving.good_fold [OF worker_ok_new] by simp
  then have "worker_ok (worker_stop w)" using worker_ok_step [of w Stop_worker] by simp
  then show ?thesis
    using ok assms(2) steps_left_stop [of w] thread_steps_end [of "worker_stop w" 7]
    by (auto simp: worker_stop_def worker_ok_def)
qed

theorem stopped_worker_ends_witness:
  "wk_position ((thread_step ^^ 7) (worker_stop (fold worker_op_step [Start_worker, Thread_step, Ask_reconnect] new_worker))) = Ended_thread"
proof -
  have "wk_position (fold worker_op_step [Start_worker, Thread_step, Ask_reconnect] new_worker) \<noteq> No_thread"
    by (simp add: worker_ops new_worker_def)
  from stopped_worker_ends [OF refl this] show ?thesis by blast
qed

text \<open>Six steps are not enough for a thread that was just asked to connect anew.\<close>

lemma six_steps_are_too_few:
  "wk_position ((thread_step ^^ 6) (worker_stop (fold worker_op_step [Start_worker, Thread_step, Ask_reconnect] new_worker))) \<noteq> Ended_thread"
  by (simp add: worker_ops new_worker_def eval_nat_numeral)

end
