(* ===== verification/Spec2Isabelle.thy ===== *)
theory Spec2Isabelle
  imports StringTools EnvFiles TaskModel TaskHandlers Sql JsonTools Timers Kdb Platform PostExec Triggers
    SchedTasks Executor SchedIpc Sessions Controller ServerState EventHandler Server
    ResultParser Research PostWork IpcQueue IpcManager TaskQueue SocketListener Config Entry JsonLibrary Uuid System
    Connection Shell IpcWorker
begin

text \<open>
  A verification development of \<open>kserver\<close>, the server that schedules and runs the tasks of other
  applications and keeps the posts of social platforms. Paths are relative to
  \<open>src/include\<close> unless they begin with \<open>src/\<close>; \<open>process/\<close> is \<open>system/process/\<close>.

  \<^bold>\<open>The program.\<close> A client sends an operation; the request controller prepares a task from it (a
  directory, an environment file of \<open>KEY="value"\<close> lines, flags that name the keys), and the scheduler
  stores it in the database. A worker fetches the tasks that are due, the executor makes a command
  line of the environment file and runs the application, and its output comes back to the scheduler,
  which may start dependent tasks, trigger tasks of other applications, save posts and send messages
  to other processes. Posts and messages are rows of the database that the same worker turns into
  events; an answer from the process completes them.

  \<^bold>\<open>Theories.\<close>
  \<^item> \<open>Prelude\<close>: errors (\<open>cpp_error\<close>: the exceptions the code throws, undefined behaviour, a failed
    assertion, a loop that does not end), results \<open>'a res\<close>, the access functions of vectors and maps,
    operations on a state that may throw (\<open>act\<close>: what was done before an exception stays done;
    \<open>seq\<close>, \<open>each\<close>, \<open>collect\<close>, \<open>handle\<close>, \<open>catch_all\<close>), the relation \<open>keeps\<close> between the states before
    and after, numbers and their text, and the locales \<open>invariant_system\<close>, \<open>wire_codec\<close>
    and \<open>fifo_queue\<close>.
  \<^item> \<open>StringTools\<close>, \<open>EnvFiles\<close>: \<open>common/util.cpp\<close>, its strings, and its files over an explicit file
    system; the environment files are the locale \<open>token_file\<close>, interpreted on \<open>CreateEnvFile\<close> and, in
    \<open>Triggers\<close>, on the text of a trigger.
  \<^item> \<open>TaskModel\<close>, \<open>TaskHandlers\<close>: \<open>process/executor/task_handlers/\<close>, the records \<open>Task\<close>,
    \<open>FileMetaData\<close>, \<open>PlatformPost\<close>, the payloads they are sent as (instances of \<open>wire_codec\<close>), the
    parser of file lists, and the handlers that prepare a task.
  \<^item> \<open>Sql\<close>: \<open>database/db_structs.hpp\<close> and \<open>src/src/helpers.hpp\<close>, every statement character by
    character, and a reader of SQL literals, filters and rows to state what the text means.
  \<^item> \<open>JsonTools\<close>: the JSON writers and readers of \<open>common/util.cpp\<close> over a JSON value; the reader and the
    writer of JSON text are a pair of parameters there.
  \<^item> \<open>Utf8\<close>, \<open>JsonText\<close>, \<open>JsonReader\<close>, \<open>JsonLibrary\<close>: what the program runs of \<open>codec/rapidjson/\<close>. The UTF-8
    codec with its table of byte types (\<open>encodings.h\<close>), the writer (\<open>writer.h\<close>), the recursive reader
    (\<open>reader.h\<close>) with the document's stack of values (\<open>document.h\<close>), and the two functions of \<open>JsonTools\<close>'s
    parameters made of them, for which the last theory instantiates the messages of the program.
  \<^item> \<open>Sha1\<close>, \<open>Uuid\<close>: \<open>codec/uuid.h\<close>, its hash, its class with the readers and the writer, the generators.
  \<^item> \<open>Kdb\<close>, \<open>Connection\<close>: \<open>database/kdb.hpp\<close>, \<open>src/src/database_connection.cpp\<close>. \<open>Connection\<close> has the
    queries under \<open>KDB\<close> and shows that the operations of \<open>Kdb\<close> are those over them. The record \<open>libs\<close> holds the
    parameters (the database server, UUIDs, the configuration, rapidjson, the local time, running a
    process), the record \<open>world\<close> what operations change: the database, the files, the clock, the log
    of events and of mails. Components extend \<open>world\<close> with their own fields.
  \<^item> \<open>Timers\<close>: \<open>common/time.cpp\<close>, the jobs of \<open>system/cron.hpp\<close>. \<open>Shell\<close>: what is handed to the shell, the
    mails of \<open>common/util.cpp\<close> and the operations of \<open>Cron\<close>; the object \<open>ProcessExecutor\<close>.
  \<^item> \<open>Platform\<close>: \<open>process/platform.cpp\<close> and \<open>platform_utils.cpp\<close>, the requests in progress, saving and
    reposting, errors, fetching, turning a task into a post.
  \<^item> \<open>PostExec\<close>: the lists of dependent tasks, \<open>process/helper.cpp\<close> and what \<open>Scheduler::PostExecWait\<close> does to the
    lists, with the abstraction of the linked nodes to chains of ids; the function with its lookups of both tasks
    is \<open>wait_node\<close> of \<open>SchedIpc\<close>.
  \<^item> \<open>Triggers\<close>: \<open>process/trigger.cpp\<close>, \<open>registrar.hpp\<close>.
  \<^item> \<open>SchedTasks\<close>, \<open>SchedIpc\<close>: \<open>process/scheduler.cpp\<close>. The first has what works on the database only:
    storing, fetching, updating tasks, files, triggers. The second extends the platform's state with
    the messages (\<open>IPCMessage\<close>), the requests that wait for an answer, the queue of events and the
    lists of dependent tasks; \<open>ipc_step\<close> and \<open>ipc_run\<close> are the steps and runs of that machine.
  \<^item> \<open>ResultParser\<close>: \<open>process/result_parser.cpp\<close>, the readers of what the applications write and the
    events made of it; a float is its bit pattern, the library's conversions of floats are the argument
    \<open>floats\<close>.
  \<^item> \<open>Research\<close>: \<open>process/research_manager.cpp\<close>, the terms that are taken from a text, people, terms and
    hits in the database, the analysis that ends a study, and the rows of training data.
  \<^item> \<open>PostWork\<close>: the operations of \<open>process/scheduler.cpp\<close> that drive them, \<open>OnProcessOutput\<close>,
    \<open>PostExecWork\<close> and \<open>OnPlatformRequest\<close>; the record \<open>research\<close> extends the scheduler's state, the
    record \<open>research_env\<close> holds what is of kproto, of the C library and of rapidjson's escaping writer.
  \<^item> \<open>Executor\<close>: \<open>process/executor/executor.cpp\<close>, \<open>environment.hpp\<close>.
  \<^item> \<open>Controller\<close>: \<open>request/controller.cpp\<close>. The record \<open>controller\<close> extends the state of the
    research; the record \<open>callbacks\<close> is what \<open>Initialize\<close> is given and the event handler, the record
    \<open>hooks\<close> what is of the submodule kproto. Its queue of requests is an instance of \<open>fifo_queue\<close>.
  \<^item> \<open>Sessions\<close>: \<open>server/session.cpp\<close>, with the raw pointers of \<open>SessionMap\<close> as the numbers of nodes;
    \<open>session_step\<close> and \<open>session_run\<close> are the steps and runs of the map.
  \<^item> \<open>ServerState\<close>, \<open>EventHandler\<close>, \<open>Server\<close>: \<open>server/kserver.cpp\<close>, \<open>kserver.hpp\<close>,
    \<open>event_handler.cpp\<close>, \<open>event_handler.hpp\<close>. The record \<open>kserver\<close> extends that of the controller, the
    record \<open>server_env\<close> holds kiqoder, jwt-cpp and the flatbuffer readers; the callbacks of the
    controller are the server's own functions, \<open>server_callbacks\<close>, so a request is followed from the
    bytes on a socket to the statements of the database and back to the packets.
  \<^item> \<open>IpcQueue\<close>, \<open>IpcManager\<close>: \<open>process/ipc/manager.cpp\<close>, \<open>manager.hpp\<close>, \<open>client.cpp\<close>,
    \<open>worker.cpp\<close>. The first holds the state of the manager, the record \<open>ipc\<close>, and what the
    event handler calls: its queue of messages and the turns of the main loop that send them. The
    second holds what comes back, the messages that are received, the heartbeats and the
    reconnections, which call the event handler, and so the whole server; it is therefore after
    \<open>Server\<close> while the state is before \<open>ServerState\<close>, whose record has a manager as the field \<open>sv_ipc\<close>. \<open>IpcWorker\<close> has
    the life of the thread that receives.
  \<^item> \<open>TaskQueue\<close>: \<open>task/task_queue.hpp\<close>, \<open>src/src/task_queue.cpp\<close>; a worker is its program counter
    (\<open>worker\<close>), and \<open>pool_step\<close> interleaves the workers with the calls of the owner.
  \<^item> \<open>SocketListener\<close>: \<open>src/src/socket_listener.cpp\<close>, \<open>interface/socket_listener.hpp\<close>; what the socket
    answers is a list of return values, the handlers of messages are those of \<open>Server\<close>.
  \<^item> \<open>Config\<close>: \<open>config/INIReader.h\<close>, \<open>config/config_parser.cpp\<close>,
    \<open>config/config_parser.hpp\<close>, on the text of a file as \<open>fgets\<close> cuts it. \<open>Entry\<close>: \<open>src/src/main.cpp\<close>, from the
    arguments of the program to the listener's loop.
  \<^item> \<open>Frames\<close>, \<open>System\<close>: the whole server as a machine. \<open>Frames\<close> states of the operations below the
    controller what they leave alone; \<open>System\<close> does so for the controller, the event handler, the server and the
    manager of messages, constructs a server as \<open>KServer::KServer\<close> does, and lets the main thread
    (\<open>KServer::run\<close>), the worker, the clients' connections, the peers, the daemon and the clock act in any order
    (\<open>system_do\<close>). The locale \<open>callback_contract\<close> is what the controller asks of its callbacks; \<open>server_frame\<close> is what
    the operations of the server keep, and gives the contract for the server's callbacks. It is interpreted on the
    invariant of the machine and on what holds of a connection whose session has ended.

  \<^bold>\<open>What the lemmas show.\<close>
  \<^item> Round trips: filters and rows of values read back from the SQL as given, whatever characters
    they hold; tokens from environment files; payloads, file lists, JSON operations; the sections of
    a configuration file as the reader's map; the text of a UUID.
  \<^item> The whole server: whatever happens in whatever order, the map of requests stays well formed, the manager's
    invariant holds, and the main loop, once entered, is never left: nothing sets the flag or sends
    the message that would end it. A connection whose session has ended stays so until its descriptor is accepted anew.
  \<^item> JSON text: what the writer writes of a document of valid UTF-8 the reader reads back; the decoder takes exactly the
    well-formed sequences of the Unicode standard; every text is read or refused with an error, none
    runs out of fuel; a byte that is no UTF-8 makes a message that the program's own reader refuses; an operation crosses the
    wire as it was made. The hash of \<open>uuid.h\<close> is the SHA-1 of the standard for messages below \<open>2 ^ 29\<close> bytes.
  \<^item> The shell reads a mail's message as one word, whatever is in it but a NUL, if the subject and the sender have no quote.
  \<^item> Invariants and state machines: the platform's map of requests stays well formed under every
    operation, its counter counts the requests; a turn does nothing while requests are in progress or
    an answer is missing, and an answer opens the way again. The tasks of the pool are taken in the
    order they were pushed, and each is in one pair of hands at most, whatever the interleaving.
  \<^item> Functional behaviour: the statements that storing a task sends, in order; the state a finished
    process is given; the task a request or a trigger makes; the events that resolving sends.
  \<^item> Refinement: waiting for a task appends it to its chain once both tasks have been looked up, and the walks of the nodes find it; with
    tasks that are in the database the lookups throw, and nothing is linked. The
    message the scheduler makes for a platform is the one that waits in the manager's queue, through the
    event handler and the vector of strings between them; which kind it is is its type's, and one of another type waits for no one.
  \<^item> Messages to other processes: a turn sends the messages at the front of the queue whose peers are
    observed, and no more than its limit; the manager's invariant \<open>ipc_ok\<close> makes every turn end
    normally; timeouts lead to new clients and lose no message. The thread that receives ends within seven
    of its steps once it is told to.
  \<^item> Sessions and dispatch: the two maps of the sessions stay inverse to each other while logins fit;
    what a broadcast reaches, what the check of the clients removes; a wrong token of an active session or an invalid login that fits
    changes nothing but its own session; an ended session is read from at most by the call that waits already.
  \<^item> Research: a term is taken just if it passes the checks, a recorded one leaves one row with the ids of the term and
    of its author's identity and the number of the task; the last result ends a study, sends its queue and empties the lists; a root is
    asked about once.
  \<^item> Failures: what the code does where it does not do what it means to, as theorems: queries that
    lack a column their reader needs, conditions that are turned round, loops that do not end, a
    vector replaced under its own loop.

  \<^bold>\<open>Bounds and fuel.\<close> \<open>SavePlatformPost\<close> and what calls it take a number that bounds the depth of
    its calls to itself; two is enough for a platform whose id is not the mark for no origin
    (\<open>save_is_two_deep\<close>), and a run beyond the bound is the error \<open>Diverges\<close>. Loops that need not end are
    \<open>partial_function (option)\<close>, where \<open>None\<close> is a run that does not. Counters of 8, 32 and 64 bits
    are words. A turn of the IPC manager counts to ten before it sends, so it sends nine messages; the
    hundred and first timeout reconnects; the loop that starts the threads of the pool counts in eight
    bits and ends just if there are fewer than 256 (\<open>pool_made_iff\<close>); the JSON reader is given the length of
    the text twice and two, which suffices for each (\<open>every_text_is_read_or_refused\<close>); the hash's 32-bit
    counter of bits bounds its messages; a line of the configuration has
    199 characters at most. \<open>run_loop\<close> and the loops over sockets take a number that is the count the
    code itself stops at, or the list of what the operating system answers.

  \<^bold>\<open>Not modelled.\<close> Of rapidjson, what the program does not use: parsing in place, the iterative parser, the
    vector instructions, encodings but UTF-8, pointers, schemas, regular expressions, pretty printing; its
    allocators, for a document is a value here. A number that is no integer is kept as its text, the
    conversions of doubles being an argument where one decides an error. Of \<open>uuid.h\<close>, the branches for Windows and macOS
    and the hash of a UUID. The parts of \<open>INIReader\<close> that read numbers and that nothing calls; destructors
    and logging. The events of the scheduler and the platform are logs in their own theories; the
    composition with the event handler is stated where it matters (\<open>Server\<close>, \<open>IpcManager\<close>), and \<open>System\<close>
    delivers a logged event as an action of its own. Threads: the components run under the worker's
    lock, and an operation is one step of the machine of \<open>System\<close>; only the pool is interleaved more finely. Sockets, child
    processes, the generated flatbuffers and the submodules (kproto, klog, libkproc, kiqoder) are not this
    repository's code; what the code relies on of them is a parameter.
\<close>

end
